(* ===== verification/Interfaces.thy ===== *)
theory Interfaces
  imports Prelude
begin

text \<open>
  The contracts that several components share, as locales: a machine whose operations keep an
  invariant (\<open>lifecycle\<close>), a table that merges observations under their keys (\<open>keyed_table\<close>), and
  a store that appends records (\<open>append_store\<close>).  Each component interprets the contract it
  provides on its own definitions.
\<close>

section \<open>Machines with an invariant\<close>

text \<open>
  An operation takes a state to its successor state; \<open>good\<close> is what every allowed operation keeps.
\<close>

locale lifecycle =
  fixes step :: "'e \<Rightarrow> 's \<Rightarrow> 's"
    and allowed :: "'e \<Rightarrow> bool"
    and good :: "'s \<Rightarrow> bool"
  assumes step_good: "allowed e \<Longrightarrow> good s \<Longrightarrow> good (step e s)"
begin

lemma run_good: "good s \<Longrightarrow> \<forall>e\<in>set es. allowed e \<Longrightarrow> good (fold step es s)"
  by (induction es arbitrary: s) (simp_all add: step_good)

lemma run_prefix_good: "good s \<Longrightarrow> \<forall>e\<in>set fs. allowed e \<Longrightarrow> prefix es fs \<Longrightarrow> good (fold step es s)"
  by (rule run_good) (auto dest: set_mono_prefix)

end

section \<open>Tables keyed by the observations put into them\<close>

text \<open>
  \<open>key\<close> gives the key of an observation, \<open>None\<close> for one the table ignores; \<open>put\<close> merges one
  observation.  The law: a put adds the observation's key and no other.
\<close>

locale keyed_table =
  fixes key :: "'o \<Rightarrow> 'k option"
    and put :: "'o \<Rightarrow> 't \<Rightarrow> 't"
    and keys :: "'t \<Rightarrow> 'k list"
  assumes put_None: "key x = None \<Longrightarrow> put x t = t"
    and put_Some: "key x = Some k \<Longrightarrow> keys (put x t) = (if k \<in> set (keys t) then keys t else keys t @ [k])"
begin

lemma put_distinct: "distinct (keys t) \<Longrightarrow> distinct (keys (put x t))"
  by (cases "key x") (auto simp: put_None put_Some)

lemma put_keys: "set (keys (put x t)) = set (keys t) \<union> set_option (key x)"
  by (cases "key x") (auto simp: put_None put_Some)

lemma fold_put_distinct: "distinct (keys t) \<Longrightarrow> distinct (keys (fold put xs t))"
  by (induction xs arbitrary: t) (simp_all add: put_distinct)

lemma fold_put_keys: "set (keys (fold put xs t)) = set (keys t) \<union> (\<Union>x\<in>set xs. set_option (key x))"
  by (induction xs arbitrary: t) (auto simp: put_keys)

lemma fold_put_again: "key x = Some k \<Longrightarrow> x \<in> set xs \<Longrightarrow> k \<in> set (keys (fold put xs t))"
  by (auto simp: fold_put_keys)

end

section \<open>Stores that append records\<close>

text \<open>
  \<open>contents\<close> is what a reader gets back, oldest record first; \<open>add\<close> appends one batch and may
  fail, in which case a reader sees no change.
\<close>

locale append_store =
  fixes add :: "'r list \<Rightarrow> 'd \<Rightarrow> bool \<times> 'd"
    and contents :: "'d \<Rightarrow> 'r list"
    and well_formed :: "'d \<Rightarrow> bool"
  assumes add_ok: "well_formed d \<Longrightarrow> add rs d = (True, d') \<Longrightarrow> contents d' = contents d @ rs"
    and add_fail: "well_formed d \<Longrightarrow> add rs d = (False, d') \<Longrightarrow> contents d' = contents d"
    and add_well_formed: "well_formed d \<Longrightarrow> add rs d = (b, d') \<Longrightarrow> well_formed d'"
begin

text \<open>Several batches, and the records of those that were accepted.\<close>

fun add_all :: "'r list list \<Rightarrow> 'd \<Rightarrow> 'r list \<times> 'd" where
  "add_all [] d = ([], d)"
| "add_all (rs # batches) d =
     (let (b, d1) = add rs d; (accepted, d2) = add_all batches d1 in ((if b then rs else []) @ accepted, d2))"

lemma add_all_contents:
  "well_formed d \<Longrightarrow> add_all batches d = (accepted, d') \<Longrightarrow> contents d' = contents d @ accepted \<and> well_formed d'"
proof (induction batches arbitrary: d accepted)
  case Nil
  then show ?case by simp
next
  case (Cons rs batches)
  obtain b d1 where add: "add rs d = (b, d1)" by force
  obtain later d2 where all: "add_all batches d1 = (later, d2)" by force
  from Cons.prems add all have parts: "accepted = (if b then rs else []) @ later" "d' = d2" by simp_all
  from Cons.prems(1) add have wf: "well_formed d1" by (rule add_well_formed)
  from add Cons.prems(1) have "contents d1 = contents d @ (if b then rs else [])"
    by (cases b) (auto dest: add_ok add_fail)
  with Cons.IH [OF wf all [folded parts(2)]] parts(1) show ?case by simp
qed

end

section \<open>Passes that remove what is doomed\<close>

text \<open>
  A step looks at one item and removes it if it is doomed; what is doomed among the other items does not depend on it.
\<close>

locale pruning =
  fixes step :: "'p \<Rightarrow> 's \<Rightarrow> 's"
    and present :: "'s \<Rightarrow> 'p \<Rightarrow> bool"
    and doomed :: "'s \<Rightarrow> 'p \<Rightarrow> bool"
    and item :: "'p \<Rightarrow> bool"
  assumes step_present: "present (step p s) q \<longleftrightarrow> present s q \<and> \<not> (q = p \<and> doomed s p)"
    and step_doomed: "item p \<Longrightarrow> item q \<Longrightarrow> q \<noteq> p \<Longrightarrow> doomed (step p s) q = doomed s q"
begin

lemma fold_present:
  "distinct ps \<Longrightarrow> \<forall>p\<in>set ps. item p \<Longrightarrow> present (fold step ps s) q \<longleftrightarrow> present s q \<and> \<not> (q \<in> set ps \<and> doomed s q)"
proof (induction ps arbitrary: s)
  case Nil
  then show ?case by simp
next
  case (Cons p ps)
  then show ?case using step_doomed [of p q s] by (auto simp: step_present)
qed

lemma fold_keeps: "\<forall>p\<in>set ps. \<forall>s. \<not> doomed s p \<Longrightarrow> present (fold step ps s) q = present s q"
  by (induction ps arbitrary: s) (auto simp: step_present)

end

end
