(* ===== verification/Quarantine.thy ===== *)
theory Quarantine
  imports Interfaces
begin

text \<open>
  The endpoint quarantine manager, client/app/quarantine_manager.py: its lifecycle states, the
  Windows firewall commands it issues, and the fail-safe timer.

  The operating system is a parameter.  A \<open>host\<close> answers each command from the commands it was
  given before, so that the history of commands is the state of the outside world, and every
  answer the system could give is some host.  The instants \<open>datetime.now\<close> returns are arguments.
  Times are microseconds; a minute of quarantine is \<open>minute\<close> of them.
\<close>

section \<open>State\<close>

datatype qstate = NORMAL | QUARANTINE_PENDING | QUARANTINED | QUARANTINE_FAILED | RESTORE_PENDING

record qevent =
  event_type :: string
  event_reason :: string
  event_timestamp :: int
  event_expires_at :: "int option"
  event_enforcement :: "string option"
  event_command_id :: "string option"

text \<open>
  \<open>timer\<close> is the deadline of the armed fail-safe timer; it is \<open>None\<close> when no timer runs or its stop
  flag is set.  \<open>events\<close> are those handed to the callback, oldest first.
\<close>

record manager =
  server_ip :: string
  server_port :: int
  default_max_duration_minutes :: int
  has_callback :: bool
  dry_run :: bool
  state :: qstate
  reason :: "string option"
  quarantined_at :: "int option"
  expires_at :: "int option"
  command_id :: "string option"
  windows_profile_policy :: "(string \<times> string \<times> string) option"
  timer :: "int option"
  events :: "qevent list"

definition new_manager :: "string \<Rightarrow> int \<Rightarrow> int \<Rightarrow> bool \<Rightarrow> bool \<Rightarrow> manager" where
  "new_manager ip port default_max callback dry =
     \<lparr>server_ip = ip, server_port = port, default_max_duration_minutes = max 1 default_max,
      has_callback = callback, dry_run = dry,
      state = NORMAL, reason = None, quarantined_at = None, expires_at = None, command_id = None,
      windows_profile_policy = None, timer = None, events = []\<rparr>"

type_synonym command = "string list"
type_synonym history = "command list"

text \<open>
  \<open>respond\<close> is what \<open>subprocess.run\<close> does: it raises (\<open>Inl\<close> the error's text) or returns the exit
  code, the standard output and the standard error.
\<close>

record host =
  is_windows :: bool
  respond :: "history \<Rightarrow> command \<Rightarrow> string + int \<times> string \<times> string"

definition minute :: int where
  "minute = 60 * 1000000"

definition is_quarantined :: "manager \<Rightarrow> bool" where
  "is_quarantined m \<longleftrightarrow> state m = QUARANTINED"

definition enforcement_method :: "host \<Rightarrow> string" where
  "enforcement_method h = (if is_windows h then ''WINDOWS_FIREWALL_PROFILE_POLICY'' else ''SIMULATED_NO_FIREWALL'')"

record status =
  st_state :: qstate
  st_is_quarantined :: bool
  st_reason :: "string option"
  st_quarantined_at :: "int option"
  st_expires_at :: "int option"
  st_command_id :: "string option"
  st_server_ip :: string
  st_server_port :: int
  st_enforcement_method :: string

definition get_status :: "host \<Rightarrow> manager \<Rightarrow> status" where
  "get_status h m =
     \<lparr>st_state = state m, st_is_quarantined = (state m = QUARANTINED), st_reason = reason m,
      st_quarantined_at = quarantined_at m, st_expires_at = expires_at m,
      st_command_id = command_id m, st_server_ip = server_ip m, st_server_port = server_port m,
      st_enforcement_method = enforcement_method h\<rparr>"

section \<open>Commands\<close>

definition run_cmd :: "host \<Rightarrow> manager \<Rightarrow> command \<Rightarrow> history \<Rightarrow> (int \<times> string) \<times> history" where
  "run_cmd h m cmd hist =
     (if dry_run m then ((0, ''dry-run success''), hist)
      else case respond h hist cmd of
             Inl err \<Rightarrow> ((-1, err), hist @ [cmd])
           | Inr (code, out, err) \<Rightarrow> ((code, strip (out @ err)), hist @ [cmd]))"

definition RULE_ALLOW_SERVER_OUT :: string where
  "RULE_ALLOW_SERVER_OUT = ''AgentQuarantine-Server-Allow-Out''"
definition RULE_ALLOW_SERVER_IN :: string where
  "RULE_ALLOW_SERVER_IN = ''AgentQuarantine-Server-Allow-In''"
definition RULE_ALLOW_LOOPBACK_IN :: string where
  "RULE_ALLOW_LOOPBACK_IN = ''AgentQuarantine-Loopback-In''"
definition RULE_ALLOW_LOOPBACK_OUT :: string where
  "RULE_ALLOW_LOOPBACK_OUT = ''AgentQuarantine-Loopback-Out''"

definition ALL_QUARANTINE_RULES :: "string list" where
  "ALL_QUARANTINE_RULES =
     [RULE_ALLOW_SERVER_OUT, RULE_ALLOW_SERVER_IN, RULE_ALLOW_LOOPBACK_IN, RULE_ALLOW_LOOPBACK_OUT]"
definition LEGACY_BLOCK_RULES :: "string list" where
  "LEGACY_BLOCK_RULES = [''AgentQuarantine-Inbound'', ''AgentQuarantine-Outbound'']"

definition firewall_policy_argument :: "string \<Rightarrow> string \<Rightarrow> string option" where
  "firewall_policy_argument inbound outbound =
     (let i = upper inbound; j = upper outbound in
      if i \<notin> {''ALLOW'', ''BLOCK''} \<or> j \<notin> {''ALLOW'', ''BLOCK''} then None
      else Some (lower i @ ''inbound,'' @ lower j @ ''outbound''))"

definition profile_query :: command where
  \<open>profile_query =
     [''powershell.exe'', ''-NoProfile'', ''-NonInteractive'', ''-Command'',
      ''$net = Get-NetConnectionProfile -ErrorAction SilentlyContinue | Select-Object -First 1; '' @
      ''$cat = if ($net -and $net.NetworkCategory) { [string]$net.NetworkCategory } else { 'Public' }; '' @
      ''$profile = switch -regex ($cat) {'' @
      '' 'Domain' { 'Domain' }'' @
      '' 'Private' { 'Private' } '' @
      ''default { 'Public' } }; '' @
      ''$firewall = Get-NetFirewallProfile -Name $profile -ErrorAction SilentlyContinue; '' @
      ''$in = if ($firewall -and $firewall.DefaultInboundAction -and [string]$firewall.DefaultInboundAction -ne 'NotConfigured') { [string]$firewall.DefaultInboundAction } else { 'Block' }; '' @
      ''$out = if ($firewall -and $firewall.DefaultOutboundAction -and [string]$firewall.DefaultOutboundAction -ne 'NotConfigured') { [string]$firewall.DefaultOutboundAction } else { 'Allow' }; '' @
      ''Write-Output "$profile|$in|$out"'']\<close>

definition get_active_windows_profile_policy ::
  "host \<Rightarrow> manager \<Rightarrow> history \<Rightarrow> ((string \<times> string \<times> string) option \<times> string) result \<times> history" where
  "get_active_windows_profile_policy h m hist =
     (let ((code, output), hist) = run_cmd h m profile_query hist in
      if code \<noteq> 0 then (Inr (None, output), hist)
      else case rev (splitlines (strip output)) of
        [] \<Rightarrow> (raise_exc IndexError ''list index out of range'', hist)
      | line # _ \<Rightarrow>
          (case split_char (CHR ''|'') line of
             [profile_raw, inbound_raw, outbound_raw] \<Rightarrow>
               (let profile = (if contains ''domain'' (lower profile_raw) then ''Domain''
                               else if contains ''private'' (lower profile_raw) then ''Private'' else ''Public'');
                    inbound = (if upper inbound_raw = ''ALLOW'' then ''ALLOW'' else ''BLOCK'');
                    outbound = (if upper outbound_raw = ''BLOCK'' then ''BLOCK'' else ''ALLOW'')
                in (Inr (Some (profile, inbound, outbound), []), hist))
           | _ \<Rightarrow> (Inr (None, ''Unexpected firewall policy response: '' @ output), hist)))"

definition policy_command :: "string \<Rightarrow> string \<Rightarrow> command" where
  "policy_command target policy = [''netsh'', ''advfirewall'', ''set'', target, ''firewallpolicy'', policy]"

definition set_windows_profile_policy ::
  "host \<Rightarrow> manager \<Rightarrow> string \<Rightarrow> string \<Rightarrow> string \<Rightarrow> history \<Rightarrow> (bool \<times> string) \<times> history" where
  "set_windows_profile_policy h m profile inbound outbound hist =
     (let policy = firewall_policy_argument inbound outbound in
      if profile \<notin> {''Domain'', ''Private'', ''Public'', ''allprofiles''} \<or> policy = None
      then ((False, ''Invalid Windows Firewall profile policy.''), hist)
      else
        let target = (if profile = ''allprofiles'' then ''allprofiles'' else lower profile @ ''profile'');
            ((code, output), hist) = run_cmd h m (policy_command target (the policy)) hist
        in ((code = 0, output), hist))"

definition firewall_rule_missing :: "string \<Rightarrow> bool" where
  "firewall_rule_missing output =
     (let normalized = join '' '' (words (lower output)) in
      list_ex (\<lambda>marker. contains marker normalized)
        [''no rules match'', ''0 rule(s) deleted'', ''keine regel'', ''ninguna regla'', ''nenhuma regra'']
      \<or> (contains ''aucune'' normalized \<and> contains ''correspond'' normalized))"

definition delete_command :: "string \<Rightarrow> command" where
  "delete_command rule_name =
     [''netsh'', ''advfirewall'', ''firewall'', ''delete'', ''rule'', ''name='' @ rule_name]"

fun delete_rules_loop :: "host \<Rightarrow> manager \<Rightarrow> string list \<Rightarrow> history \<Rightarrow> string list \<times> history" where
  "delete_rules_loop h m [] hist = ([], hist)"
| "delete_rules_loop h m (rule_name # rule_names) hist =
     (let ((code, output), hist) = run_cmd h m (delete_command rule_name) hist;
          (errors, hist) = delete_rules_loop h m rule_names hist
      in ((if code \<noteq> 0 \<and> \<not> firewall_rule_missing output
           then [rule_name @ '': '' @ output] else []) @ errors, hist))"

definition delete_windows_firewall_rules ::
  "host \<Rightarrow> manager \<Rightarrow> string list \<Rightarrow> history \<Rightarrow> (bool \<times> string) \<times> history" where
  "delete_windows_firewall_rules h m rule_names hist =
     (let (errors, hist) = delete_rules_loop h m rule_names hist
      in ((errors = [], if errors \<noteq> [] then join ''; '' errors else []), hist))"

definition allow_server_out :: "manager \<Rightarrow> command" where
  "allow_server_out m =
     [''netsh'', ''advfirewall'', ''firewall'', ''add'', ''rule'', ''name='' @ RULE_ALLOW_SERVER_OUT,
      ''dir=out'', ''action=allow'', ''remoteip='' @ server_ip m,
      ''remoteport='' @ int_str (server_port m), ''protocol=TCP'', ''enable=yes'']"

definition allow_server_in :: "manager \<Rightarrow> command" where
  "allow_server_in m =
     [''netsh'', ''advfirewall'', ''firewall'', ''add'', ''rule'', ''name='' @ RULE_ALLOW_SERVER_IN,
      ''dir=in'', ''action=allow'', ''remoteip='' @ server_ip m, ''protocol=TCP'', ''enable=yes'']"

definition allow_loopback_in :: command where
  "allow_loopback_in =
     [''netsh'', ''advfirewall'', ''firewall'', ''add'', ''rule'', ''name='' @ RULE_ALLOW_LOOPBACK_IN,
      ''dir=in'', ''action=allow'', ''remoteip=127.0.0.1'', ''enable=yes'']"

definition allow_loopback_out :: command where
  "allow_loopback_out =
     [''netsh'', ''advfirewall'', ''firewall'', ''add'', ''rule'', ''name='' @ RULE_ALLOW_LOOPBACK_OUT,
      ''dir=out'', ''action=allow'', ''remoteip=127.0.0.1'', ''enable=yes'']"

text \<open>
  The tail of \<open>_apply_windows_firewall_rules\<close>: the loopback rules, then the default-deny policy.
  A failure removes the rules this run added.
\<close>

definition apply_loopback_and_policy ::
  "host \<Rightarrow> (string \<times> string \<times> string) \<Rightarrow> manager \<Rightarrow> history \<Rightarrow> (bool \<times> string) result \<times> manager \<times> history" where
  "apply_loopback_and_policy h policy m hist =
     (let ((code, out), hist) = run_cmd h m allow_loopback_in hist in
      if code \<noteq> 0 then
        let (_, hist) = delete_windows_firewall_rules h m ALL_QUARANTINE_RULES hist
        in (Inr (False, ''Failed adding loopback in rule: '' @ out), m, hist)
      else
        let ((code, out), hist) = run_cmd h m allow_loopback_out hist in
        if code \<noteq> 0 then
          let (_, hist) = delete_windows_firewall_rules h m ALL_QUARANTINE_RULES hist
          in (Inr (False, ''Failed adding loopback out rule: '' @ out), m, hist)
        else
          let ((changed, change_error), hist) =
                set_windows_profile_policy h m ''allprofiles'' ''BLOCK'' ''BLOCK'' hist in
          if \<not> changed then
            let (_, hist) = delete_windows_firewall_rules h m ALL_QUARANTINE_RULES hist
            in (Inr (False, ''Failed enabling default-deny quarantine policy: '' @ change_error), m, hist)
          else
            (Inr (True, ''Firewall quarantine enabled across all firewall profiles.''),
             m\<lparr>windows_profile_policy := Some (fst policy, fst (snd policy), ''ALLOW'')\<rparr>, hist))"

definition server_target :: "manager \<Rightarrow> string option" where
  "server_target m =
     (if server_ip m \<notin> {''0.0.0.0'', ''127.0.0.1'', ''localhost''} \<and> server_ip m \<noteq> []
      then Some (server_ip m) else None)"

definition apply_allow_rules_and_policy ::
  "host \<Rightarrow> (string \<times> string \<times> string) \<Rightarrow> manager \<Rightarrow> history \<Rightarrow> (bool \<times> string) result \<times> manager \<times> history" where
  "apply_allow_rules_and_policy h policy m hist =
     (if server_target m \<noteq> None then
        let ((code, out), hist) = run_cmd h m (allow_server_out m) hist in
        if code \<noteq> 0 then (Inr (False, ''Failed adding server out rule: '' @ out), m, hist)
        else
          let ((code, out), hist) = run_cmd h m (allow_server_in m) hist in
          if code \<noteq> 0 then
            let (_, hist) = delete_windows_firewall_rules h m ALL_QUARANTINE_RULES hist
            in (Inr (False, ''Failed adding server in rule: '' @ out), m, hist)
          else apply_loopback_and_policy h policy m hist
      else apply_loopback_and_policy h policy m hist)"

definition apply_windows_firewall_rules ::
  "host \<Rightarrow> manager \<Rightarrow> history \<Rightarrow> (bool \<times> string) result \<times> manager \<times> history" where
  "apply_windows_firewall_rules h m hist =
     (let ((cleaned, cleanup_error), hist) =
            delete_windows_firewall_rules h m (ALL_QUARANTINE_RULES @ LEGACY_BLOCK_RULES) hist in
      if \<not> cleaned then
        (Inr (False, ''Could not remove previous quarantine rules: '' @ cleanup_error), m, hist)
      else case get_active_windows_profile_policy h m hist of
        (Inl e, hist) \<Rightarrow> (Inl e, m, hist)
      | (Inr (None, policy_error), hist) \<Rightarrow>
          (Inr (False, ''Could not read active firewall policy: '' @ policy_error), m, hist)
      | (Inr (Some policy, _), hist) \<Rightarrow> apply_allow_rules_and_policy h policy m hist)"

definition remove_windows_firewall_rules ::
  "host \<Rightarrow> manager \<Rightarrow> history \<Rightarrow> (bool \<times> string) \<times> manager \<times> history" where
  "remove_windows_firewall_rules h m hist =
     (let inbound = (case windows_profile_policy m of Some (_, inbound, _) \<Rightarrow> inbound | None \<Rightarrow> ''BLOCK'');
          ((restored, restore_error), hist) =
            set_windows_profile_policy h m ''allprofiles'' inbound ''ALLOW'' hist in
      if \<not> restored then ((False, ''Could not restore firewall policy: '' @ restore_error), m, hist)
      else
        let m = m\<lparr>windows_profile_policy := None\<rparr>;
            ((removed, remove_error), hist) =
              delete_windows_firewall_rules h m (ALL_QUARANTINE_RULES @ LEGACY_BLOCK_RULES) hist in
        if \<not> removed then ((False, remove_error), m, hist)
        else ((True, ''Quarantine rules removed and outbound firewall access restored.''), m, hist))"

definition apply_rules :: "host \<Rightarrow> manager \<Rightarrow> history \<Rightarrow> (bool \<times> string) result \<times> manager \<times> history" where
  "apply_rules h m hist =
     (if is_windows h \<and> \<not> dry_run m then apply_windows_firewall_rules h m hist
      else (Inr (True, ''Quarantine rules simulated successfully.''), m, hist))"

definition remove_rules :: "host \<Rightarrow> manager \<Rightarrow> history \<Rightarrow> (bool \<times> string) \<times> manager \<times> history" where
  "remove_rules h m hist =
     (if is_windows h \<and> \<not> dry_run m then remove_windows_firewall_rules h m hist
      else ((True, ''Quarantine rules removal simulated successfully.''), m, hist))"

section \<open>Operations\<close>

text \<open>
  \<open>_start_fail_safe_timer\<close>: the running timer is stopped and one for the new duration is armed.
\<close>

definition start_fail_safe_timer :: "int \<Rightarrow> int \<Rightarrow> manager \<Rightarrow> manager" where
  "start_fail_safe_timer now duration_minutes m =
     m\<lparr>timer := Some (now + max 10 (duration_minutes * 60) * 1000000)\<rparr>"

text \<open>The callback's own errors are caught, so all that is kept of a call is its argument.\<close>

definition emit :: "qevent \<Rightarrow> manager \<Rightarrow> manager" where
  "emit e m = (if has_callback m then m\<lparr>events := events m @ [e]\<rparr> else m)"

record response =
  resp_ok :: bool
  resp_state :: qstate
  resp_message :: string
  resp_expires_at :: "int option"

text \<open>\<open>duration_minutes or self.default_max_duration_minutes\<close>.\<close>

definition quarantine_duration :: "manager \<Rightarrow> int option \<Rightarrow> int" where
  "quarantine_duration m duration_minutes =
     (case duration_minutes of
        Some d \<Rightarrow> if d \<noteq> 0 then d else default_max_duration_minutes m
      | None \<Rightarrow> default_max_duration_minutes m)"

text \<open>The fields written before the firewall is touched.\<close>

definition pending_manager :: "int \<Rightarrow> string \<Rightarrow> int \<Rightarrow> string option \<Rightarrow> manager \<Rightarrow> manager" where
  "pending_manager now why expiry cid m =
     m\<lparr>state := QUARANTINE_PENDING, reason := Some why, command_id := cid,
       quarantined_at := Some now, expires_at := Some expiry\<rparr>"

definition quarantine_endpoint ::
  "host \<Rightarrow> int \<Rightarrow> string \<Rightarrow> int option \<Rightarrow> string option \<Rightarrow> manager \<Rightarrow> history
   \<Rightarrow> response result \<times> manager \<times> history" where
  "quarantine_endpoint h now why duration_minutes cid m hist =
     (let dur = quarantine_duration m duration_minutes;
          expiry = now + dur * minute;
          m = pending_manager now why expiry cid m
      in case apply_rules h m hist of
           (Inl e, m, hist) \<Rightarrow> (Inl e, m, hist)
         | (Inr (True, msg), m, hist) \<Rightarrow>
             (let m = m\<lparr>state := QUARANTINED\<rparr>;
                  m = start_fail_safe_timer now dur m;
                  m = emit \<lparr>event_type = ''CLIENT_QUARANTINED'', event_reason = why,
                            event_timestamp = now, event_expires_at = Some expiry,
                            event_enforcement = Some (enforcement_method h),
                            event_command_id = cid\<rparr> m
              in (Inr \<lparr>resp_ok = True, resp_state = state m,
                       resp_message = ''Endpoint successfully quarantined.'',
                       resp_expires_at = Some expiry\<rparr>, m, hist))
         | (Inr (False, msg), m, hist) \<Rightarrow>
             (let m = m\<lparr>state := QUARANTINE_FAILED\<rparr>;
                  m = emit \<lparr>event_type = ''CLIENT_QUARANTINE_FAILED'',
                            event_reason = ''Firewall rule application failed: '' @ msg,
                            event_timestamp = now, event_expires_at = None,
                            event_enforcement = None, event_command_id = cid\<rparr> m
              in (Inr \<lparr>resp_ok = False, resp_state = state m,
                       resp_message = ''Quarantine failed: '' @ msg, resp_expires_at = None\<rparr>, m, hist)))"

definition release_quarantine ::
  "host \<Rightarrow> int \<Rightarrow> string \<Rightarrow> string option \<Rightarrow> manager \<Rightarrow> history \<Rightarrow> response \<times> manager \<times> history" where
  "release_quarantine h now why cid m hist =
     (let m = m\<lparr>timer := None, state := RESTORE_PENDING\<rparr>;
          ((success, msg), m, hist) = remove_rules h m hist in
      if \<not> success then
        let m = m\<lparr>state := QUARANTINED\<rparr>;
            m = emit \<lparr>event_type = ''CLIENT_QUARANTINE_RELEASE_FAILED'',
                      event_reason = ''Firewall rule cleanup failed: '' @ msg,
                      event_timestamp = now, event_expires_at = None,
                      event_enforcement = None, event_command_id = cid\<rparr> m
        in (\<lparr>resp_ok = False, resp_state = state m,
             resp_message = ''Quarantine release failed: '' @ msg, resp_expires_at = None\<rparr>, m, hist)
      else
        let m = m\<lparr>state := NORMAL, reason := None, quarantined_at := None, expires_at := None,
                  command_id := None\<rparr>;
            m = emit \<lparr>event_type = ''CLIENT_QUARANTINE_RELEASED'', event_reason = why,
                      event_timestamp = now, event_expires_at = None,
                      event_enforcement = None, event_command_id = cid\<rparr> m
        in (\<lparr>resp_ok = True, resp_state = state m,
             resp_message = ''Quarantine released and normal network access restored.'',
             resp_expires_at = None\<rparr>, m, hist))"

text \<open>The timer's worker: once the wait is over and no stop was signalled, it releases.\<close>

definition timer_worker :: "host \<Rightarrow> int \<Rightarrow> manager \<Rightarrow> history \<Rightarrow> manager \<times> history" where
  "timer_worker h now m hist =
     (case timer m of
        Some deadline \<Rightarrow>
          if deadline \<le> now
          then snd (release_quarantine h now ''Quarantine duration expired (fail-safe release)'' None m hist)
          else (m, hist)
      | None \<Rightarrow> (m, hist))"

section \<open>What the commands leave in the history\<close>

named_theorems history_simps

definition logged :: "manager \<Rightarrow> history \<Rightarrow> history" where
  "logged m cmds = (if dry_run m then [] else cmds)"

lemma run_cmd_history [history_simps]: "snd (run_cmd h m cmd hist) = hist @ logged m [cmd]"
  by (auto simp: run_cmd_def logged_def split: sum.splits prod.splits)

lemma run_cmd_historyD: "run_cmd h m cmd hist = (r, hist') \<Longrightarrow> hist' = hist @ logged m [cmd]"
  using run_cmd_history [of h m cmd hist] by simp

lemma delete_loop_history [history_simps]:
  "snd (delete_rules_loop h m names hist) = hist @ logged m (map delete_command names)"
  by (induction names arbitrary: hist) (simp_all add: logged_def case_prod_beta Let_def run_cmd_history)

lemma delete_history [history_simps]:
  "snd (delete_windows_firewall_rules h m names hist) = hist @ logged m (map delete_command names)"
  by (simp add: delete_windows_firewall_rules_def case_prod_beta Let_def delete_loop_history)

lemma delete_historyD:
  "delete_windows_firewall_rules h m names hist = (r, hist')
   \<Longrightarrow> hist' = hist @ logged m (map delete_command names)"
  using delete_history [of h m names hist] by simp

lemma policy_query_history [history_simps]:
  "snd (get_active_windows_profile_policy h m hist) = hist @ logged m [profile_query]"
  by (auto simp: get_active_windows_profile_policy_def Let_def split: prod.splits list.splits
      dest!: run_cmd_historyD)

lemma policy_query_historyD:
  "get_active_windows_profile_policy h m hist = (r, hist')
   \<Longrightarrow> hist' = hist @ logged m [profile_query]"
  using policy_query_history [of h m hist] by simp

definition policy_valid :: "string \<times> string \<times> string \<Rightarrow> bool" where
  "policy_valid p \<longleftrightarrow>
     fst p \<in> {''Domain'', ''Private'', ''Public''} \<and> fst (snd p) \<in> {''ALLOW'', ''BLOCK''}"

lemma policy_query_valid:
  "get_active_windows_profile_policy h m hist = (Inr (Some p, e), hist') \<Longrightarrow> policy_valid p"
  by (auto simp: get_active_windows_profile_policy_def policy_valid_def Let_def
      split: prod.splits list.splits if_splits)

lemma policy_argument:
  "firewall_policy_argument ''BLOCK'' ''BLOCK'' = Some ''blockinbound,blockoutbound''"
  "firewall_policy_argument ''BLOCK'' ''ALLOW'' = Some ''blockinbound,allowoutbound''"
  "firewall_policy_argument ''ALLOW'' ''ALLOW'' = Some ''allowinbound,allowoutbound''"
  by code_simp+

definition policy_texts :: "string list" where
  "policy_texts = [''blockinbound,blockoutbound'', ''blockinbound,allowoutbound'', ''allowinbound,allowoutbound'']"

lemma set_policy_historyD:
  assumes "set_windows_profile_policy h m ''allprofiles'' i j hist = (r, hist')"
    and "firewall_policy_argument i j = Some p"
  shows "hist' = hist @ logged m [policy_command ''allprofiles'' p]"
  using assms by (auto simp: set_windows_profile_policy_def split: prod.splits dest!: run_cmd_historyD)

text \<open>The commands a run that succeeds issues, in their order.\<close>

definition server_commands :: "manager \<Rightarrow> history" where
  "server_commands m = (if server_target m \<noteq> None then [allow_server_out m, allow_server_in m] else [])"

definition block_policy :: command where
  "block_policy = policy_command ''allprofiles'' ''blockinbound,blockoutbound''"

definition quarantine_trace :: "manager \<Rightarrow> history" where
  "quarantine_trace m =
     map delete_command (ALL_QUARANTINE_RULES @ LEGACY_BLOCK_RULES) @ [profile_query]
     @ server_commands m @ [allow_loopback_in, allow_loopback_out, block_policy]"

definition rollback_commands :: history where
  "rollback_commands = map delete_command ALL_QUARANTINE_RULES"

text \<open>
  The tail either succeeds with its three commands, or stops after one of them and removes the rules.
\<close>

lemma loopback_and_policy_cases:
  assumes "apply_loopback_and_policy h policy m hist = (r, m', hist')"
  obtains
    (ok) msg where "r = Inr (True, msg)"
      "m' = m\<lparr>windows_profile_policy := Some (fst policy, fst (snd policy), ''ALLOW'')\<rparr>"
      "hist' = hist @ logged m [allow_loopback_in, allow_loopback_out, block_policy]"
  | (failed) msg cmds where "r = Inr (False, msg)" "m' = m"
      "prefix cmds [allow_loopback_in, allow_loopback_out, block_policy]" "cmds \<noteq> []"
      "hist' = hist @ logged m (cmds @ rollback_commands)"
proof -
  obtain c1 o1 h1 where r1: "run_cmd h m allow_loopback_in hist = ((c1, o1), h1)" by (metis surj_pair)
  obtain c2 o2 h2 where r2: "run_cmd h m allow_loopback_out h1 = ((c2, o2), h2)" by (metis surj_pair)
  obtain b3 e3 h3 where r3: "set_windows_profile_policy h m ''allprofiles'' ''BLOCK'' ''BLOCK'' h2 = ((b3, e3), h3)"
    by (metis surj_pair)
  note hists = run_cmd_historyD [OF r1] run_cmd_historyD [OF r2]
    set_policy_historyD [OF r3 policy_argument(1), folded block_policy_def]
  have del: "snd (delete_windows_firewall_rules h m ALL_QUARANTINE_RULES hs) = hs @ logged m rollback_commands" for hs
    by (simp add: delete_history rollback_commands_def)
  consider (a) "c1 \<noteq> 0" | (b) "c1 = 0" "c2 \<noteq> 0" | (c) "c1 = 0" "c2 = 0" "\<not> b3"
    | (d) "c1 = 0" "c2 = 0" "b3" by blast
  then show thesis
  proof cases
    case a
    then show thesis using assms r1 hists del [of h1]
      by (intro failed [of _ "[allow_loopback_in]"])
         (auto simp: apply_loopback_and_policy_def logged_def split: prod.splits)
  next
    case b
    then show thesis using assms r1 r2 hists del [of h2]
      by (intro failed [of _ "[allow_loopback_in, allow_loopback_out]"])
         (auto simp: apply_loopback_and_policy_def logged_def split: prod.splits)
  next
    case c
    then show thesis using assms r1 r2 r3 hists del [of h3]
      by (intro failed [of _ "[allow_loopback_in, allow_loopback_out, block_policy]"])
         (auto simp: apply_loopback_and_policy_def logged_def split: prod.splits)
  next
    case d
    then show thesis using assms r1 r2 r3 hists
      by (intro ok) (auto simp: apply_loopback_and_policy_def logged_def)
  qed
qed

lemma allow_rules_cases:
  assumes run: "apply_allow_rules_and_policy h p m hist = (r, m', hist')"
  obtains
    (ok) msg where "r = Inr (True, msg)"
      "m' = m\<lparr>windows_profile_policy := Some (fst p, fst (snd p), ''ALLOW'')\<rparr>"
      "hist' = hist @ logged m (server_commands m @ [allow_loopback_in, allow_loopback_out, block_policy])"
  | (early) msg where "r = Inr (False, msg)" "m' = m" "server_target m \<noteq> None"
      "hist' = hist @ logged m [allow_server_out m]"
  | (undone) msg cmds where "r = Inr (False, msg)" "m' = m"
      "hist' = hist @ logged m (cmds @ rollback_commands)"
      "prefix cmds (server_commands m @ [allow_loopback_in, allow_loopback_out, block_policy])"
proof -
  note success = ok
  have tail: thesis
    if t: "apply_loopback_and_policy h p m h3 = (r, m', hist')"
      and h3: "h3 = hist @ logged m (server_commands m)" for h3
    using t
  proof (cases rule: loopback_and_policy_cases)
    case (ok msg)
    with h3 show ?thesis by (intro success) (auto simp: logged_def)
  next
    case (failed msg cmds)
    with h3 show ?thesis
      by (intro undone [of msg "server_commands m @ cmds"]) (auto simp: logged_def)
  qed
  show thesis
  proof (cases "server_target m")
    case None
    with run show ?thesis
      by (intro tail [of hist])
         (auto simp: apply_allow_rules_and_policy_def logged_def server_commands_def)
  next
    case (Some ip)
    obtain c3 o3 h3 where r3: "run_cmd h m (allow_server_out m) hist = ((c3, o3), h3)" by (metis surj_pair)
    obtain c4 o4 h4 where r4: "run_cmd h m (allow_server_in m) h3 = ((c4, o4), h4)" by (metis surj_pair)
    note hists = run_cmd_historyD [OF r3] run_cmd_historyD [OF r4]
    have sc: "server_commands m = [allow_server_out m, allow_server_in m]"
      using Some by (simp add: server_commands_def)
    consider (a) "c3 \<noteq> 0" | (b) "c3 = 0" "c4 \<noteq> 0" | (c) "c3 = 0" "c4 = 0" by blast
    then show ?thesis
    proof cases
      case a
      with run Some r3 hists show ?thesis
        by (intro early) (auto simp: apply_allow_rules_and_policy_def)
    next
      case b
      have "hist' = h4 @ logged m rollback_commands" "\<exists>msg. r = Inr (False, msg)" "m' = m"
        using run Some r3 r4 b
        by (auto simp: apply_allow_rules_and_policy_def rollback_commands_def
            split: prod.splits dest!: delete_historyD)
      with hists sc show ?thesis
        by (elim exE, intro undone [of _ "server_commands m"]) (auto simp: logged_def)
    next
      case c
      with run Some r3 r4 hists sc show ?thesis
        by (intro tail [of h4]) (auto simp: apply_allow_rules_and_policy_def logged_def)
    qed
  qed
qed

lemma apply_windows_cases:
  assumes run: "apply_windows_firewall_rules h m hist = (r, m', hist')"
  obtains
    (ok) msg p where "r = Inr (True, msg)" "policy_valid p"
      "m' = m\<lparr>windows_profile_policy := Some (fst p, fst (snd p), ''ALLOW'')\<rparr>"
      "hist' = hist @ logged m (quarantine_trace m)"
  | (early) cmds where "\<And>msg. r \<noteq> Inr (True, msg)" "m' = m" "hist' = hist @ logged m cmds"
      "prefix cmds (quarantine_trace m)" "allow_loopback_in \<notin> set cmds"
  | (undone) msg cmds where "r = Inr (False, msg)" "m' = m"
      "hist' = hist @ logged m (cmds @ rollback_commands)" "prefix cmds (quarantine_trace m)"
proof -
  note success = ok
  let ?dels = "map delete_command (ALL_QUARANTINE_RULES @ LEGACY_BLOCK_RULES)"
  let ?head = "?dels @ [profile_query]"
  obtain ok e1 h1 where d: "delete_windows_firewall_rules h m (ALL_QUARANTINE_RULES @ LEGACY_BLOCK_RULES) hist = ((ok, e1), h1)"
    by (metis surj_pair)
  obtain q h2 where g: "get_active_windows_profile_policy h m h1 = (q, h2)" by force
  note hists = delete_historyD [OF d] policy_query_historyD [OF g]
  have noloop: "allow_loopback_in \<notin> set (?head @ [allow_server_out m])"
    by (auto simp: allow_loopback_in_def delete_command_def profile_query_def allow_server_out_def)
  consider (dirty) "\<not> ok" | (noquery) "ok" "\<And>p e. q \<noteq> Inr (Some p, e)"
    | (query) p e where "ok" "q = Inr (Some p, e)" by blast
  then show thesis
  proof cases
    case dirty
    with run d hists noloop show ?thesis
      by (intro early [of ?dels]) (auto simp: apply_windows_firewall_rules_def quarantine_trace_def)
  next
    case noquery
    with run d g hists noloop show ?thesis
      by (intro early [of ?head])
         (auto simp: apply_windows_firewall_rules_def quarantine_trace_def logged_def
          split: sum.splits option.splits prod.splits)
  next
    case (query p e)
    then have "apply_allow_rules_and_policy h p m h2 = (r, m', hist')"
      using run d g by (simp add: apply_windows_firewall_rules_def)
    then show ?thesis
    proof (cases rule: allow_rules_cases)
      case (ok msg)
      with g query hists policy_query_valid show ?thesis
        by (intro success [of msg p]) (auto simp: quarantine_trace_def logged_def)
    next
      case (early msg)
      with noloop hists that(2) show ?thesis
        by (intro that(2) [of "?head @ [allow_server_out m]"])
           (auto simp: quarantine_trace_def server_commands_def logged_def)
    next
      case (undone msg cmds)
      with hists that(3) show ?thesis
        by (intro that(3) [of msg "?head @ cmds"]) (auto simp: quarantine_trace_def logged_def)
    qed
  qed
qed

section \<open>Runs of operations\<close>

datatype quarantine_op =
    QuarantineOp int string "int option" "string option"
  | ReleaseOp int string "string option"
  | TimerOp int

fun quarantine_step :: "host \<Rightarrow> quarantine_op \<Rightarrow> manager \<times> history \<Rightarrow> manager \<times> history" where
  "quarantine_step h (QuarantineOp now why dur cid) (m, hist) = snd (quarantine_endpoint h now why dur cid m hist)"
| "quarantine_step h (ReleaseOp now why cid) (m, hist) = snd (release_quarantine h now why cid m hist)"
| "quarantine_step h (TimerOp now) (m, hist) = timer_worker h now m hist"

text \<open>
  What every operation keeps: a stored firewall policy is one that can be restored, and an endpoint
  in the normal state carries no quarantine record and no armed timer.
\<close>

definition stored_policy_ok :: "manager \<Rightarrow> bool" where
  "stored_policy_ok m \<longleftrightarrow>
     (case windows_profile_policy m of None \<Rightarrow> True
      | Some p \<Rightarrow> policy_valid p \<and> snd (snd p) = ''ALLOW'')"

definition well_formed :: "manager \<Rightarrow> bool" where
  "well_formed m \<longleftrightarrow> stored_policy_ok m \<and>
     (state m = NORMAL \<longrightarrow> reason m = None \<and> quarantined_at m = None \<and> expires_at m = None
        \<and> command_id m = None \<and> timer m = None)"

lemma well_formed_new [simp]: "well_formed (new_manager ip port dm cb dry)"
  by (simp add: well_formed_def stored_policy_ok_def new_manager_def)

lemma stored_policy_ok_update [simp]:
  "stored_policy_ok (m\<lparr>state := x\<rparr>) = stored_policy_ok m"
  "stored_policy_ok (m\<lparr>timer := t\<rparr>) = stored_policy_ok m"
  "stored_policy_ok (m\<lparr>reason := w\<rparr>) = stored_policy_ok m"
  "stored_policy_ok (m\<lparr>quarantined_at := q\<rparr>) = stored_policy_ok m"
  "stored_policy_ok (m\<lparr>expires_at := e\<rparr>) = stored_policy_ok m"
  "stored_policy_ok (m\<lparr>command_id := c\<rparr>) = stored_policy_ok m"
  "stored_policy_ok (m\<lparr>events := ev\<rparr>) = stored_policy_ok m"
  by (simp_all add: stored_policy_ok_def)

lemma emit_fields [simp]:
  "state (emit e m) = state m" "timer (emit e m) = timer m" "reason (emit e m) = reason m"
  "quarantined_at (emit e m) = quarantined_at m" "expires_at (emit e m) = expires_at m"
  "command_id (emit e m) = command_id m" "stored_policy_ok (emit e m) = stored_policy_ok m"
  "windows_profile_policy (emit e m) = windows_profile_policy m"
  "dry_run (emit e m) = dry_run m"
  by (simp_all add: emit_def)

lemma apply_rules_kept:
  assumes "apply_rules h m hist = (r, m', hist')"
  shows "m' = m \<or> (\<exists>p. policy_valid p \<and> m' = m\<lparr>windows_profile_policy := Some (fst p, fst (snd p), ''ALLOW'')\<rparr>)"
proof (cases "is_windows h \<and> \<not> dry_run m")
  case True
  with assms have "apply_windows_firewall_rules h m hist = (r, m', hist')"
    by (simp add: apply_rules_def)
  then show ?thesis by (cases rule: apply_windows_cases) fastforce+
qed (use assms in \<open>auto simp: apply_rules_def split: if_splits\<close>)

text \<open>The three outcomes of a quarantine.\<close>

lemma quarantine_cases:
  assumes run: "quarantine_endpoint h now why dur cid m hist = (r, m', hist')"
  defines "d \<equiv> quarantine_duration m dur"
  defines "m1 \<equiv> pending_manager now why (now + d * minute) cid m"
  obtains
    (quarantined) msg m2 resp where "apply_rules h m1 hist = (Inr (True, msg), m2, hist')"
      "r = Inr resp" "resp_ok resp" "state m' = QUARANTINED"
      "timer m' = Some (now + max 10 (d * 60) * 1000000)" "expires_at m' = expires_at m2"
      "windows_profile_policy m' = windows_profile_policy m2" "stored_policy_ok m' = stored_policy_ok m2"
  | (refused) msg m2 resp where "apply_rules h m1 hist = (Inr (False, msg), m2, hist')"
      "r = Inr resp" "\<not> resp_ok resp" "state m' = QUARANTINE_FAILED" "timer m' = timer m2"
      "stored_policy_ok m' = stored_policy_ok m2"
  | (raised) e where "apply_rules h m1 hist = (Inl e, m', hist')" "r = Inl e"
proof -
  obtain q m2 h2 where ap: "apply_rules h m1 hist = (q, m2, h2)" by (metis surj_pair)
  consider (a) e where "q = Inl e" | (b) msg where "q = Inr (True, msg)" | (c) msg where "q = Inr (False, msg)"
    by (metis (full_types) obj_sumE surj_pair)
  then show thesis
  proof cases
    case (a e)
    with run ap show ?thesis by (intro raised) (auto simp: quarantine_endpoint_def m1_def d_def)
  next
    case (b msg)
    with run ap show ?thesis
      by (intro quarantined [of msg m2])
         (auto simp: quarantine_endpoint_def m1_def d_def start_fail_safe_timer_def Let_def)
  next
    case (c msg)
    with run ap show ?thesis
      by (intro refused [of msg m2]) (auto simp: quarantine_endpoint_def m1_def d_def Let_def)
  qed
qed

lemma pending_fields [simp]:
  "state (pending_manager now why e cid m) = QUARANTINE_PENDING"
  "stored_policy_ok (pending_manager now why e cid m) = stored_policy_ok m"
  "dry_run (pending_manager now why e cid m) = dry_run m"
  "expires_at (pending_manager now why e cid m) = Some e"
  "server_ip (pending_manager now why e cid m) = server_ip m"
  "server_port (pending_manager now why e cid m) = server_port m"
  by (simp_all add: pending_manager_def stored_policy_ok_def)

lemma quarantine_well_formed:
  assumes "well_formed m" and run: "quarantine_endpoint h now why dur cid m hist = (r, m', hist')"
  shows "well_formed m' \<and> state m' \<noteq> NORMAL"
proof -
  have kept: "stored_policy_ok m2 \<and> state m2 = QUARANTINE_PENDING"
    if "apply_rules h (pending_manager now why e cid m) hist = (q, m2, h2)" for e q m2 h2
    using apply_rules_kept [OF that] assms(1)
    by (auto simp: well_formed_def stored_policy_ok_def policy_valid_def pending_manager_def)
  from run show ?thesis
    by (cases rule: quarantine_cases) (auto simp: well_formed_def dest!: kept)
qed

lemma remove_rules_kept:
  assumes "remove_rules h m hist = (r, m', hist')"
  shows "m' = m \<or> m' = m\<lparr>windows_profile_policy := None\<rparr>"
  using assms by (auto simp: remove_rules_def remove_windows_firewall_rules_def Let_def
      split: if_splits prod.splits)

text \<open>The two outcomes of a release.\<close>

lemma release_cases:
  assumes run: "release_quarantine h now why cid m hist = (r, m', hist')"
  obtains
    (released) "resp_ok r" "state m' = NORMAL" "reason m' = None" "quarantined_at m' = None"
      "expires_at m' = None" "command_id m' = None" "timer m' = None"
      "stored_policy_ok m \<Longrightarrow> stored_policy_ok m'" "dry_run m' = dry_run m"
      "fst (fst (remove_rules h (m\<lparr>timer := None, state := RESTORE_PENDING\<rparr>) hist))"
  | (failed) "\<not> resp_ok r" "state m' = QUARANTINED" "timer m' = None"
      "reason m' = reason m" "quarantined_at m' = quarantined_at m" "expires_at m' = expires_at m"
      "command_id m' = command_id m" "stored_policy_ok m \<Longrightarrow> stored_policy_ok m'" "dry_run m' = dry_run m"
      "\<not> fst (fst (remove_rules h (m\<lparr>timer := None, state := RESTORE_PENDING\<rparr>) hist))"
proof -
  obtain ok msg m2 h2 where rm: "remove_rules h (m\<lparr>timer := None, state := RESTORE_PENDING\<rparr>) hist = ((ok, msg), m2, h2)"
    by (metis surj_pair)
  note kept = remove_rules_kept [OF rm]
  show thesis
  proof (cases ok)
    case True
    with run rm kept show ?thesis
      by (intro released) (auto simp: release_quarantine_def stored_policy_ok_def)
  next
    case False
    with run rm kept show ?thesis
      by (intro failed) (auto simp: release_quarantine_def stored_policy_ok_def)
  qed
qed

lemma release_well_formed:
  "well_formed m \<Longrightarrow> release_quarantine h now why cid m hist = (r, m', hist') \<Longrightarrow> well_formed m'"
  by (erule release_cases) (auto simp: well_formed_def)

lemma quarantine_step_well_formed: "well_formed (fst s) \<Longrightarrow> well_formed (fst (quarantine_step h op s))"
proof (induction h op s rule: quarantine_step.induct)
  case (1 h now why dur cid m hist)
  then show ?case
    using quarantine_well_formed [of m h now why dur cid hist] by (cases "quarantine_endpoint h now why dur cid m hist") auto
next
  case (2 h now why cid m hist)
  then show ?case
    using release_well_formed [of m h now why cid hist] by (cases "release_quarantine h now why cid m hist") auto
next
  case (3 h now m hist)
  let ?why = "''Quarantine duration expired (fail-safe release)''"
  show ?case
    using 3 release_well_formed [of m h now ?why None hist]
    by (cases "release_quarantine h now ?why None m hist") (auto simp: timer_worker_def split: option.splits)
qed

interpretation quarantine: lifecycle "quarantine_step h" "\<lambda>_. True" "\<lambda>s. well_formed (fst s)" for h
  by unfold_locales (rule quarantine_step_well_formed)

section \<open>Properties\<close>

text \<open>A firewall that accepts every command and reports a private profile with default policies.\<close>

definition accepting_host :: host where
  "accepting_host =
     \<lparr>is_windows = True,
      respond = (\<lambda>hist cmd. if cmd = profile_query then Inr (0, ''Private|Allow|Allow'', [])
                            else Inr (0, ''Ok.'', []))\<rparr>"

text \<open>One that refuses the default-deny policy.\<close>

definition policy_refusing_host :: host where
  "policy_refusing_host =
     \<lparr>is_windows = True,
      respond = (\<lambda>hist cmd. if cmd = profile_query then Inr (0, ''Private|Allow|Allow'', [])
                            else if cmd = block_policy then Inr (1, [], ''access denied'')
                            else Inr (0, ''Ok.'', []))\<rparr>"

text \<open>One that refuses to give outbound access back.\<close>

definition release_refusing_host :: host where
  "release_refusing_host =
     \<lparr>is_windows = True,
      respond = (\<lambda>hist cmd. if take 3 cmd = [''netsh'', ''advfirewall'', ''set''] then Inr (1, [], ''access denied'')
                            else Inr (0, ''Ok.'', []))\<rparr>"

definition sample_manager :: manager where
  "sample_manager = new_manager ''10.0.0.5'' 5000 60 True False"



text \<open>
  C33. A quarantine that fails after it began to add rules for the loopback interface removes every
  rule it may have added: the four delete commands are the last it issues, and the endpoint is
  marked QUARANTINE_FAILED.
\<close>

theorem quarantine_failure_rolls_back:
  assumes "is_windows h" "\<not> dry_run m"
    and "quarantine_endpoint h now why dur cid m hist = (Inr resp, m', hist @ cmds)" "\<not> resp_ok resp"
    and "allow_loopback_in \<in> set cmds"
  shows "suffix rollback_commands cmds \<and> state m' = QUARANTINE_FAILED"
  using assms(3)
proof (cases rule: quarantine_cases)
  case (refused msg m2 resp')
  let ?m1 = "pending_manager now why (now + quarantine_duration m dur * minute) cid m"
  have "apply_windows_firewall_rules h ?m1 hist = (Inr (False, msg), m2, hist @ cmds)"
    using refused(1) assms(1,2) by (simp add: apply_rules_def)
  then show ?thesis
  proof (cases rule: apply_windows_cases)
    case (early cmds')
    with assms(2,5) show ?thesis by (simp add: logged_def)
  next
    case (undone msg' cmds')
    with assms(2) refused show ?thesis by (simp add: logged_def suffix_def)
  qed auto
qed (use assms(4) in auto)

theorem quarantine_failure_rolls_back_witness:
  "\<exists>resp m' cmds. quarantine_endpoint policy_refusing_host 0 ''test'' (Some 5) None sample_manager [] = (Inr resp, m', cmds)
     \<and> allow_loopback_in \<in> set cmds \<and> suffix rollback_commands cmds \<and> state m' = QUARANTINE_FAILED"
proof -
  let ?run = "quarantine_endpoint policy_refusing_host 0 ''test'' (Some 5) None sample_manager []"
  obtain r m' cmds where run: "?run = (r, m', cmds)" by (metis surj_pair)
  moreover have "(case fst ?run of Inl e \<Rightarrow> False | Inr resp \<Rightarrow> \<not> resp_ok resp)"
    "allow_loopback_in \<in> set (snd (snd ?run))" by code_simp+
  ultimately obtain resp where "r = Inr resp" "\<not> resp_ok resp" "allow_loopback_in \<in> set cmds"
    by (auto split: sum.splits)
  moreover have "is_windows policy_refusing_host" "\<not> dry_run sample_manager" by code_simp+
  ultimately show ?thesis
    using run quarantine_failure_rolls_back [of policy_refusing_host sample_manager 0 "''test''" "Some 5" None "[]"]
    by auto
qed

text \<open>
  Whatever operations run and whatever the system answers, a manager that is in the NORMAL state
  carries no quarantine record and no armed timer, and a stored firewall policy is always one that a
  release can pass to the firewall.
\<close>

theorem quarantine_runs_well_formed:
  "well_formed (fst (fold (quarantine_step h) ops (new_manager ip port dm cb dry, hist)))"
  by (rule quarantine.run_good) simp_all



text \<open>
  A release that fails leaves the endpoint QUARANTINED with its fail-safe timer disarmed: however
  long one waits, and whatever the system would answer, the timer never tries again.
\<close>

theorem failed_release_disarms_failsafe:
  assumes "release_quarantine h now why cid m hist = (r, m', hist')" "\<not> resp_ok r"
  shows "state m' = QUARANTINED \<and> timer m' = None
    \<and> timer_worker h2 t m' hist2 = (m', hist2)"
  using assms(1)
  by (cases rule: release_cases) (use assms(2) in \<open>auto simp: timer_worker_def\<close>)

theorem failed_release_disarms_failsafe_witness:
  "\<exists>r m' hist'. release_quarantine release_refusing_host 0 ''test'' None sample_manager [] = (r, m', hist')
     \<and> \<not> resp_ok r \<and> state m' = QUARANTINED \<and> timer_worker accepting_host 1000000000 m' hist' = (m', hist')"
proof -
  let ?run = "release_quarantine release_refusing_host 0 ''test'' None sample_manager []"
  obtain r m' hist' where run: "?run = (r, m', hist')" by (metis surj_pair)
  moreover have "\<not> resp_ok (fst ?run)" by code_simp
  ultimately show ?thesis using failed_release_disarms_failsafe [OF run] by auto
qed

section \<open>Two behaviours worth knowing\<close>

text \<open>
  A firewall whose reported policy follows what was set: quarantining an endpoint that is already
  quarantined reads back the default-deny policy and stores it as the one to restore, so that the
  release blocks inbound traffic where it was allowed before.
\<close>

definition stateful_host :: host where
  "stateful_host =
     \<lparr>is_windows = True,
      respond = (\<lambda>hist cmd. if cmd = profile_query
                            then (if block_policy \<in> set hist then Inr (0, ''Private|Block|Block'', [])
                                  else Inr (0, ''Private|Allow|Allow'', []))
                            else Inr (0, ''Ok.'', []))\<rparr>"

lemma single_quarantine_restores_inbound:
  "policy_command ''allprofiles'' ''allowinbound,allowoutbound''
     \<in> set (snd (fold (quarantine_step stateful_host)
         [QuarantineOp 0 ''a'' None None, ReleaseOp 1 ''b'' None] (sample_manager, [])))"
  by code_simp

lemma requarantine_forgets_inbound_policy:
  "policy_command ''allprofiles'' ''allowinbound,allowoutbound''
     \<notin> set (snd (fold (quarantine_step stateful_host)
         [QuarantineOp 0 ''a'' None None, QuarantineOp 1 ''a'' None None, ReleaseOp 2 ''b'' None]
         (sample_manager, [])))"
  by code_simp

text \<open>
  An answer with no text at all makes the policy query raise IndexError, which nothing catches: the
  manager is left QUARANTINE_PENDING.
\<close>

lemma empty_policy_answer_raises:
  "(case quarantine_endpoint \<lparr>is_windows = True, respond = (\<lambda>hist cmd. Inr (0, [], []))\<rparr>
       0 ''a'' None None sample_manager [] of
     (r, m, hist) \<Rightarrow> r = raise_exc IndexError ''list index out of range'' \<and> state m = QUARANTINE_PENDING)"
  by code_simp

end
