(* ===== verification/FileSystem.thy ===== *)
theory FileSystem
  imports Interfaces
begin

text \<open>
  The file system the components work on: a partial map from absolute paths, as lists of names, to
  directories and files with their contents.  There are no symbolic links, so that resolving a path
  is lexical.  The operations are those of \<open>pathlib\<close>, \<open>os\<close> and \<open>shutil\<close> the sources call.
\<close>

type_synonym path = "string list"

datatype node = FDir | FFile string

type_synonym fs = "path \<Rightarrow> node option"

definition is_file :: "fs \<Rightarrow> path \<Rightarrow> bool" where
  "is_file f p \<longleftrightarrow> (case f p of Some (FFile _) \<Rightarrow> True | _ \<Rightarrow> False)"

definition is_dir :: "fs \<Rightarrow> path \<Rightarrow> bool" where
  "is_dir f p \<longleftrightarrow> f p = Some FDir"

definition path_exists :: "fs \<Rightarrow> path \<Rightarrow> bool" where
  "path_exists f p \<longleftrightarrow> f p \<noteq> None"

definition read_text :: "fs \<Rightarrow> path \<Rightarrow> string result" where
  "read_text f p =
     (case f p of
        Some (FFile c) \<Rightarrow> Inr c
      | Some FDir \<Rightarrow> raise_exc OSError ''Is a directory''
      | None \<Rightarrow> raise_exc FileNotFoundError ''No such file or directory'')"

definition write_file :: "path \<Rightarrow> string \<Rightarrow> fs \<Rightarrow> fs" where
  "write_file p c f = f(p \<mapsto> FFile c)"

definition unlink :: "path \<Rightarrow> fs \<Rightarrow> fs" where
  "unlink p f = f(p := None)"

text \<open>\<open>p.mkdir(parents=True, exist_ok=True)\<close>: fails where a file is in the way.\<close>

definition mkdirs :: "path \<Rightarrow> fs \<Rightarrow> fs result" where
  "mkdirs p f =
     (if list_ex (is_file f) (prefixes p) then raise_exc OSError ''Not a directory''
      else Inr (\<lambda>q. case f q of None \<Rightarrow> if prefix q p then Some FDir else None | Some n \<Rightarrow> Some n))"

definition rmtree :: "path \<Rightarrow> fs \<Rightarrow> fs" where
  "rmtree p f = (\<lambda>q. if prefix p q then None else f q)"

text \<open>The tree below a path, and a tree put in place below a path.\<close>

definition subtree :: "fs \<Rightarrow> path \<Rightarrow> fs" where
  "subtree f p = (\<lambda>q. f (p @ q))"

definition graft :: "fs \<Rightarrow> path \<Rightarrow> fs \<Rightarrow> fs" where
  "graft t p f = (\<lambda>q. if prefix p q then t (drop (length p) q) else f q)"

text \<open>\<open>Path.suffix\<close> of a name: from its last dot, unless that is its first or its last character.\<close>

definition name_suffix :: "string \<Rightarrow> string" where
  "name_suffix n =
     (let tail = takeWhile (\<lambda>c. c \<noteq> CHR ''.'') (rev n);
          head = drop (length tail + 1) (rev n)
      in if length tail = length n \<or> tail = [] \<or> head = [] then [] else CHR ''.'' # rev tail)"

definition path_parts :: "string \<Rightarrow> string list" where
  "path_parts s = filter (\<lambda>c. c \<noteq> [] \<and> c \<noteq> ''.'') (split_char (CHR ''/'') s)"

fun normalise :: "path \<Rightarrow> string list \<Rightarrow> path" where
  "normalise base [] = base"
| "normalise base (c # cs) = (if c = ''..'' then normalise (butlast base) cs else normalise (base @ [c]) cs)"

text \<open>\<open>(base / s).resolve()\<close>: an absolute \<open>s\<close> replaces the base.\<close>

definition resolve_join :: "path \<Rightarrow> string \<Rightarrow> path" where
  "resolve_join base s =
     (if s \<noteq> [] \<and> hd s = CHR ''/'' then normalise [] (path_parts s) else normalise base (path_parts s))"

section \<open>Frame lemmas\<close>

definition unchanged_outside :: "path \<Rightarrow> fs \<Rightarrow> fs \<Rightarrow> bool" where
  "unchanged_outside p f f' \<longleftrightarrow> (\<forall>q. \<not> prefix p q \<longrightarrow> f' q = f q)"

definition apart :: "path \<Rightarrow> path \<Rightarrow> bool" where
  "apart p q \<longleftrightarrow> \<not> prefix p q \<and> \<not> prefix q p"

lemma apart_sym: "apart p q \<Longrightarrow> apart q p"
  by (simp add: apart_def)

lemma apart_under: "apart p q \<Longrightarrow> \<not> prefix p (q @ r)"
  by (auto simp: apart_def prefix_append prefix_def append_eq_append_conv2)

lemma apart_append: "apart p q \<Longrightarrow> apart p (q @ r)"
  by (auto simp: apart_def prefix_append prefix_def append_eq_append_conv2)

lemma apart_common [simp]: "apart (r @ p) (r @ q) = apart p q"
  by (simp add: apart_def)

lemma apart_Cons [simp]: "apart (a # p) (b # q) \<longleftrightarrow> a \<noteq> b \<or> apart p q"
  by (auto simp: apart_def)

lemma unchanged_refl [simp]: "unchanged_outside p f f"
  by (simp add: unchanged_outside_def)

lemma unchanged_trans:
  "unchanged_outside p f g \<Longrightarrow> unchanged_outside p g h \<Longrightarrow> unchanged_outside p f h"
  by (simp add: unchanged_outside_def)

lemma unchanged_subtree:
  "unchanged_outside p f g \<Longrightarrow> apart p q \<Longrightarrow> subtree g q = subtree f q"
  by (auto simp: unchanged_outside_def subtree_def fun_eq_iff apart_under)

lemma unchanged_write: "prefix p q \<Longrightarrow> unchanged_outside p f (write_file q c f)"
  by (auto simp: unchanged_outside_def write_file_def)

lemma unchanged_rmtree [simp]: "unchanged_outside p f (rmtree p f)"
  by (simp add: unchanged_outside_def rmtree_def)

lemma unchanged_graft [simp]: "unchanged_outside p f (graft t p f)"
  by (simp add: unchanged_outside_def graft_def)

lemma subtree_graft [simp]: "subtree (graft t p f) p = t"
  by (simp add: subtree_def graft_def)

lemma subtree_graft_apart: "apart p q \<Longrightarrow> subtree (graft t p f) q = subtree f q"
  using unchanged_subtree [OF unchanged_graft] .

lemma subtree_rmtree_apart: "apart p q \<Longrightarrow> subtree (rmtree p f) q = subtree f q"
  using unchanged_subtree [OF unchanged_rmtree] .

text \<open>Creating a directory chain touches nothing below a path that is apart from it.\<close>

lemma mkdirs_Inr:
  "mkdirs p f = Inr g \<Longrightarrow> g = (\<lambda>q. if prefix q p \<and> f q = None then Some FDir else f q)"
proof (rule ext)
  fix q
  assume "mkdirs p f = Inr g"
  then have "g = (\<lambda>q. case f q of None \<Rightarrow> if prefix q p then Some FDir else None | Some n \<Rightarrow> Some n)"
    by (simp add: mkdirs_def split: if_splits)
  then show "g q = (if prefix q p \<and> f q = None then Some FDir else f q)"
    by (simp split: option.split)
qed

lemma subtree_mkdirs_apart:
  assumes "mkdirs p f = Inr g" "\<not> prefix q p"
  shows "subtree g q = subtree f q"
proof -
  have "\<not> prefix (q @ r) p" for r
    using assms(2) by (metis prefix_def append.assoc)
  then show ?thesis
    by (simp add: mkdirs_Inr [OF assms(1)] subtree_def fun_eq_iff)
qed

lemma mkdirs_lookup: "mkdirs p f = Inr g \<Longrightarrow> f q \<noteq> None \<Longrightarrow> g q = f q"
  by (auto dest: mkdirs_Inr)

lemma mkdirs_file: "mkdirs p f = Inr g \<Longrightarrow> g q = Some (FFile c) \<longleftrightarrow> f q = Some (FFile c)"
  by (auto dest!: mkdirs_Inr split: if_splits)

text \<open>\<open>confined p f g\<close>: \<open>g\<close> differs from \<open>f\<close> only below \<open>p\<close> and in created ancestors of \<open>p\<close>.\<close>

definition confined :: "path \<Rightarrow> fs \<Rightarrow> fs \<Rightarrow> bool" where
  "confined p f g \<longleftrightarrow>
     (\<forall>q. \<not> prefix p q \<longrightarrow> g q = f q \<or> (prefix q p \<and> f q = None \<and> g q = Some FDir))"

lemma confined_refl [simp]: "confined p f f"
  by (simp add: confined_def)

lemma confined_trans: "confined p f g \<Longrightarrow> confined p g h \<Longrightarrow> confined p f h"
  unfolding confined_def by (metis option.distinct(1))

lemma confined_unchanged: "unchanged_outside p f g \<Longrightarrow> confined p f g"
  by (simp add: unchanged_outside_def confined_def)

lemma confined_write: "prefix p q \<Longrightarrow> confined p f (write_file q c f)"
  by (rule confined_unchanged) (rule unchanged_write)

lemma confined_mkdirs: "mkdirs q f = Inr g \<Longrightarrow> prefix p q \<Longrightarrow> confined p f g"
  by (auto simp: confined_def dest!: mkdirs_Inr dest: prefix_same_cases split: if_splits)

lemma confined_subtree: "confined p f g \<Longrightarrow> apart p q \<Longrightarrow> subtree g q = subtree f q"
  by (auto simp: confined_def subtree_def fun_eq_iff apart_under)
     (metis apart_append apart_def apart_under)

lemma is_file_iff: "is_file f p \<longleftrightarrow> (\<exists>c. f p = Some (FFile c))"
  by (auto simp: is_file_def split: option.splits node.splits)

lemma read_text_Inr [simp]: "read_text f p = Inr c \<longleftrightarrow> f p = Some (FFile c)"
  by (auto simp: read_text_def split: option.splits node.splits)

lemma normalise_plain: "''..'' \<notin> set cs \<Longrightarrow> normalise base cs = base @ cs"
  by (induction cs arbitrary: base) auto

end
