(* ===== verification/Updater.thy ===== *)
theory Updater
  imports FileSystem
begin

text \<open>
  \<open>client/updater/updater.py\<close>: the standalone updater.  It extracts an update package into a staging
  directory, validates it, stops the client, backs up \<open>app/\<close>, replaces it, installs the
  dependencies, starts the client, checks the installed version, and rolls back when a step raises.

  The updater's world is the file system, the calls of \<open>record_update_state\<close> so far and the
  commands launched so far.  What is not in the repository is a parameter of type \<open>env\<close>: the parser
  of zip archives and of JSON, SHA-256, \<open>repr\<close>, the process launcher, pip, the clock, the name of
  a temporary directory, and the disk faults that may interrupt a copy at any point.
\<close>

section \<open>World and environment\<close>

record world =
  files :: fs
  calls :: "(string \<times> pydict) list"
  launched :: "string list list"

text \<open>
  An archive member: its name, its declared size, the data read from it, and the error that reading
  it raises after that data.
\<close>

record zip_entry =
  filename :: string
  file_size :: int
  entry_data :: string
  entry_fault :: "pyexc option"

datatype launch_outcome =
    LaunchFails pyexc
  | NoPoll
  | StillRunning int
  | Exited int int

record env =
  open_zip :: "string \<Rightarrow> zip_entry list result"
  json_loads :: "string \<Rightarrow> pyval result"
  json_dumps :: "pydict \<Rightarrow> string"
  sha256 :: "string \<Rightarrow> string"
  py_repr :: "pyval \<Rightarrow> string"
  clock_fields :: "world \<Rightarrow> pydict"
  sys_executable :: path
  tmp_name :: "fs \<Rightarrow> string"
  io_fault :: "path \<Rightarrow> path \<Rightarrow> fs \<Rightarrow> (string \<times> fs) option"
  launch :: "string list \<Rightarrow> path \<Rightarrow> rat \<Rightarrow> launch_outcome"
  pip :: "string list \<Rightarrow> pyexc option"

definition str_of :: "env \<Rightarrow> pyval \<Rightarrow> string" where
  "str_of e v = py_str (py_repr e) v"

text \<open>\<open>str(path)\<close> of an absolute path.\<close>

definition path_str :: "path \<Rightarrow> string" where
  "path_str p = CHR ''/'' # join ''/'' p"

text \<open>Reading the state, and operations on the files alone.\<close>

definition ask :: "(world \<Rightarrow> 'a result) \<Rightarrow> (world, 'a) act" where
  "ask g w = (g w, w)"

definition on_files :: "(fs \<Rightarrow> 'a result \<times> fs) \<Rightarrow> (world, 'a) act" where
  "on_files m w = (let (r, f) = m (files w) in (r, w\<lparr>files := f\<rparr>))"

definition in_place :: "(fs \<Rightarrow> fs result) \<Rightarrow> fs \<Rightarrow> unit result \<times> fs" where
  "in_place m f = (case m f of Inl e \<Rightarrow> (Inl e, f) | Inr f' \<Rightarrow> (Inr (), f'))"

definition guard :: "bool \<Rightarrow> string \<Rightarrow> (world, unit) act" where
  "guard b msg = (if b then return_act () else raise_act ValueError msg)"

section \<open>The recorded state\<close>

definition STATE_PACKAGE_VALIDATING :: string where
  "STATE_PACKAGE_VALIDATING = ''PACKAGE_VALIDATING''"

definition STATE_PACKAGE_VALIDATED :: string where
  "STATE_PACKAGE_VALIDATED = ''PACKAGE_VALIDATED''"

definition STATE_CLIENT_STOPPING :: string where
  "STATE_CLIENT_STOPPING = ''CLIENT_STOPPING''"

definition STATE_CLIENT_STOPPED :: string where
  "STATE_CLIENT_STOPPED = ''CLIENT_STOPPED''"

definition STATE_BACKUP_CREATED :: string where
  "STATE_BACKUP_CREATED = ''BACKUP_CREATED''"

definition STATE_FILES_REPLACED :: string where
  "STATE_FILES_REPLACED = ''FILES_REPLACED''"

definition STATE_DEPENDENCIES_INSTALLING :: string where
  "STATE_DEPENDENCIES_INSTALLING = ''DEPENDENCIES_INSTALLING''"

definition STATE_CLIENT_STARTING :: string where
  "STATE_CLIENT_STARTING = ''CLIENT_STARTING''"

definition STATE_VERSION_VERIFYING :: string where
  "STATE_VERSION_VERIFYING = ''VERSION_VERIFYING''"

definition STATE_UPDATE_CONFIRMED :: string where
  "STATE_UPDATE_CONFIRMED = ''UPDATE_CONFIRMED''"

definition STATE_VALIDATION_FAILED :: string where
  "STATE_VALIDATION_FAILED = ''VALIDATION_FAILED''"

definition STATE_DEPENDENCY_FAILED :: string where
  "STATE_DEPENDENCY_FAILED = ''DEPENDENCY_FAILED''"

definition STATE_START_FAILED :: string where
  "STATE_START_FAILED = ''START_FAILED''"

definition STATE_ROLLBACK_COMPLETED :: string where
  "STATE_ROLLBACK_COMPLETED = ''ROLLBACK_COMPLETED''"

definition STATE_ROLLBACK_FAILED :: string where
  "STATE_ROLLBACK_FAILED = ''ROLLBACK_FAILED''"


definition updates_dir :: "path \<Rightarrow> path" where
  "updates_dir home = home @ [''storage'', ''updates'']"

text \<open>
  The state file is written to a temporary file that then replaces it.  A failure is swallowed: a
  path that is blocked leaves the files as they were, or leaves the temporary file.
\<close>

definition write_state_file :: "path \<Rightarrow> string \<Rightarrow> fs \<Rightarrow> fs" where
  "write_state_file home text f =
     (case mkdirs (updates_dir home) f of
        Inl err \<Rightarrow> f
      | Inr f1 \<Rightarrow>
          let state_file = updates_dir home @ [''current_state.json''];
              temp_file = updates_dir home @ [''current_state.tmp'']
          in if is_dir f1 temp_file then f1
             else if is_dir f1 state_file then write_file temp_file text f1
             else write_file state_file text (unlink temp_file f1))"

definition record_update_state :: "env \<Rightarrow> path \<Rightarrow> string \<Rightarrow> pydict \<Rightarrow> (world, unit) act" where
  "record_update_state e home st details w =
     (let payload = fold (\<lambda>(k, v). dset k v) details ((''state'', PStr st) # clock_fields e w) in
      (Inr (), w\<lparr>files := write_state_file home (json_dumps e payload) (files w),
                 calls := calls w @ [(st, details)]\<rparr>))"

section \<open>Packages\<close>

text \<open>\<open>_inside\<close> on resolved paths.\<close>

definition inside :: "path \<Rightarrow> path \<Rightarrow> bool" where
  "inside p home \<longleftrightarrow> prefix home p"

definition MAX_UNCOMPRESSED :: int where
  "MAX_UNCOMPRESSED = 500 * 1024 * 1024"

text \<open>
  \<open>ZipFile.extractall\<close>: a member is written below the destination with its empty, \<open>.\<close> and
  \<open>..\<close> parts dropped.  Extraction stops at the first member that cannot be written.
\<close>

definition is_dir_entry :: "zip_entry \<Rightarrow> bool" where
  "is_dir_entry i \<longleftrightarrow> filename i \<noteq> [] \<and> last (filename i) = CHR ''/''"

definition member_path :: "path \<Rightarrow> zip_entry \<Rightarrow> path" where
  "member_path dest i = dest @ filter (\<lambda>c. c \<noteq> ''..'') (path_parts (filename i))"

definition extract_member :: "path \<Rightarrow> zip_entry \<Rightarrow> fs \<Rightarrow> unit result \<times> fs" where
  "extract_member dest i f =
     (let target = member_path dest i in
      if is_dir_entry i then in_place (mkdirs target) f
      else if target = dest then (raise_exc OSError ''Is a directory'', f)
      else case mkdirs (butlast target) f of
        Inl e \<Rightarrow> (Inl e, f)
      | Inr f1 \<Rightarrow>
          if is_dir f1 target then (raise_exc OSError ''Is a directory'', f1)
          else case entry_fault i of
            Some e \<Rightarrow> (Inl e, write_file target (entry_data i) f1)
          | None \<Rightarrow> (Inr (), write_file target (entry_data i) f1))"

fun extractall :: "path \<Rightarrow> zip_entry list \<Rightarrow> fs \<Rightarrow> unit result \<times> fs" where
  "extractall dest [] f = (Inr (), f)"
| "extractall dest (i # is) f =
     (case extract_member dest i f of
        (Inl e, f') \<Rightarrow> (Inl e, f')
      | (Inr u, f') \<Rightarrow> extractall dest is f')"

definition unsafe_entry :: "path \<Rightarrow> zip_entry \<Rightarrow> bool" where
  "unsafe_entry dest i \<longleftrightarrow> \<not> inside (resolve_join dest (filename i)) dest"

definition safe_extract :: "env \<Rightarrow> path \<Rightarrow> path \<Rightarrow> int \<Rightarrow> fs \<Rightarrow> unit result \<times> fs" where
  "safe_extract e zip_path dest max_bytes f =
     (case then_do (read_text f zip_path) (open_zip e) of
        Inl err \<Rightarrow> (Inl err, f)
      | Inr infos \<Rightarrow>
          (case find (unsafe_entry dest) infos of
             Some i \<Rightarrow> (raise_exc ValueError (''unsafe path in archive: '' @ filename i), f)
           | None \<Rightarrow>
               if sum_list (map file_size infos) > max_bytes
               then (raise_exc ValueError ''archive exceeds uncompressed size limit'', f)
               else case mkdirs dest f of
                 Inl err \<Rightarrow> (Inl err, f)
               | Inr f1 \<Rightarrow> extractall dest infos f1))"

definition read_json :: "env \<Rightarrow> path \<Rightarrow> fs \<Rightarrow> pydict result" where
  "read_json e p f =
     then_do (then_do (read_text f p) (json_loads e)) (\<lambda>v.
       case v of PDict d \<Rightarrow> Inr d
       | _ \<Rightarrow> raise_exc ValueError (''JSON object required: '' @ last p))"

text \<open>\<open>_version_tuple\<close>: the digits of each dotted part; a part without digits counts as 0.\<close>

definition version_tuple :: "env \<Rightarrow> pyval \<Rightarrow> int list" where
  "version_tuple e v =
     map (\<lambda>part. digits_val 0 (filter is_digit part)) (split_char (CHR ''.'') (strip (str_of e v)))"

definition UPDATER_VERSION :: string where
  "UPDATER_VERSION = ''1.0.0''"

definition validate_manifest :: "env \<Rightarrow> pydict \<Rightarrow> unit result" where
  "validate_manifest e d =
     (if \<not> list_all (has_key d) [''version'', ''package_type'', ''minimum_updater_version'', ''file_hashes'']
      then raise_exc ValueError ''manifest is missing required fields''
      else if dget d ''package_type'' \<noteq> PStr ''client-update''
      then raise_exc ValueError ''unsupported package type''
      else if (case dget d ''version'' of PStr s \<Rightarrow> strip s = [] | _ \<Rightarrow> True)
      then raise_exc ValueError ''invalid application version''
      else if \<not> is_dict (dget d ''file_hashes'')
      then raise_exc ValueError ''manifest.file_hashes must be an object''
      else if version_tuple e (PStr UPDATER_VERSION) < version_tuple e (dget d ''minimum_updater_version'')
      then raise_exc ValueError ''package requires a newer updater''
      else Inr ())"

definition hash_error :: "env \<Rightarrow> path \<Rightarrow> fs \<Rightarrow> string \<times> pyval \<Rightarrow> string option" where
  "hash_error e app_root f = (\<lambda>(name, expected).
     let target = resolve_join app_root name in
     if \<not> inside target app_root then Some (''manifest file is missing: '' @ name)
     else case f target of
       Some (FFile c) \<Rightarrow>
         if lower (sha256 e c) \<noteq> lower (str_of e expected) then Some (''hash mismatch for '' @ name)
         else None
     | _ \<Rightarrow> Some (''manifest file is missing: '' @ name))"

fun verify_hashes :: "env \<Rightarrow> path \<Rightarrow> pydict \<Rightarrow> fs \<Rightarrow> unit result" where
  "verify_hashes e app_root [] f = Inr ()"
| "verify_hashes e app_root (h # hs) f =
     (case hash_error e app_root f h of
        Some msg \<Rightarrow> raise_exc ValueError msg
      | None \<Rightarrow> verify_hashes e app_root hs f)"

text \<open>
  \<open>_copy_tree\<close>: the destination is removed, then copied from the source.  A disk fault leaves
  whatever tree it leaves below the destination.
\<close>

definition copy_tree :: "env \<Rightarrow> path \<Rightarrow> path \<Rightarrow> fs \<Rightarrow> unit result \<times> fs" where
  "copy_tree e source dest f =
     (if is_file f dest then (raise_exc OSError ''Not a directory'', f)
      else case io_fault e source dest f of
        Some (msg, t) \<Rightarrow> (raise_exc OSError msg, graft t dest f)
      | None \<Rightarrow>
          let f1 = rmtree dest f in
          if \<not> is_dir f1 source then (raise_exc FileNotFoundError ''No such file or directory'', f1)
          else case mkdirs dest f1 of
            Inl err \<Rightarrow> (Inl err, f1)
          | Inr f2 \<Rightarrow> (Inr (), graft (subtree f1 source) dest f2))"

section \<open>Dependencies\<close>

text \<open>The set \<open>_requirements\<close> collects, as the list of the lines it adds.\<close>

definition requirements :: "path \<Rightarrow> fs \<Rightarrow> string list" where
  "requirements p f =
     (case f p of
        Some (FFile c) \<Rightarrow>
          filter (\<lambda>line. line \<noteq> [] \<and> hd line \<noteq> CHR ''#'' \<and> hd line \<noteq> CHR ''-'') (map strip (splitlines c))
      | _ \<Rightarrow> [])"

definition python_candidates :: "path \<Rightarrow> path list" where
  "python_candidates home =
     map (\<lambda>p. home @ p)
       [[''.venv'', ''bin'', ''python''], [''.venv'', ''bin'', ''python3''],
        [''venv'', ''bin'', ''python''], [''venv'', ''bin'', ''python3''],
        [''.venv'', ''Scripts'', ''python.exe''], [''venv'', ''Scripts'', ''python.exe''],
        [''.venv'', ''python.exe''], [''venv'', ''python.exe'']]"

definition resolve_python :: "env \<Rightarrow> path \<Rightarrow> fs \<Rightarrow> path option" where
  "resolve_python e home f =
     (case find (is_file f) (python_candidates home) of
        Some p \<Rightarrow> Some p
      | None \<Rightarrow> if is_file f (sys_executable e) then Some (sys_executable e) else None)"

definition opt_path_str :: "path option \<Rightarrow> string" where
  "opt_path_str p = (case p of None \<Rightarrow> ''None'' | Some q \<Rightarrow> path_str q)"

text \<open>\<open>python_executable is None or not python_executable.is_file()\<close>.\<close>

definition no_python :: "fs \<Rightarrow> path option \<Rightarrow> bool" where
  "no_python f p = (case p of None \<Rightarrow> True | Some q \<Rightarrow> \<not> is_file f q)"

definition install_dependencies :: "env \<Rightarrow> path \<Rightarrow> path option \<Rightarrow> fs \<Rightarrow> unit result" where
  "install_dependencies e app_root python f =
     (let reqs = app_root @ [''requirements.txt''] in
      if \<not> is_file f reqs then Inr ()
      else if no_python f python then
        raise_exc DependencyInstallError
          (''requirements.txt exists but no Python interpreter is available: '' @ opt_path_str python)
      else case pip e [path_str (the python), ''-m'', ''pip'', ''install'',
                       ''--disable-pip-version-check'', ''-r'', path_str reqs] of
        Some err \<Rightarrow> Inl err
      | None \<Rightarrow> Inr ())"

section \<open>Starting and stopping the client\<close>

definition resolve_client_entry_script :: "path \<Rightarrow> fs \<Rightarrow> path option" where
  "resolve_client_entry_script home f =
     find (is_file f) (map (\<lambda>p. home @ p) [[''user_agent.py''], [''client.py''], [''app'', ''client.py'']])"

text \<open>A process that exits with code 0, or that is still running at the deadline, counts as started.\<close>

definition launch_result :: "launch_outcome \<Rightarrow> unit result" where
  "launch_result o' =
     (case o' of
        LaunchFails err \<Rightarrow> Inl err
      | NoPoll \<Rightarrow> Inr ()
      | StillRunning pid \<Rightarrow> Inr ()
      | Exited code pid \<Rightarrow>
          if code \<noteq> 0
          then raise_exc RuntimeError (''client process exited with code '' @ int_str code @
                 '' during startup (pid='' @ int_str pid @ '')'')
          else Inr ())"

definition start_application :: "env \<Rightarrow> path option \<Rightarrow> rat \<Rightarrow> path \<Rightarrow> (world, unit) act" where
  "start_application e python timeout home w =
     (if no_python (files w) python
      then (raise_exc RuntimeError
              (''No Python interpreter is available to start the client: '' @ opt_path_str python), w)
      else case resolve_client_entry_script home (files w) of
        None \<Rightarrow> (raise_exc RuntimeError (''No client entry script found under '' @ path_str home @
                  '' (expected user_agent.py, client.py, or app/client.py)''), w)
      | Some entry \<Rightarrow>
          let pythonw = butlast (the python) @ [''pythonw.exe''];
              exe = if last entry = ''user_agent.py'' \<and> is_file (files w) pythonw then pythonw else the python;
              cmd = [path_str exe, path_str entry]
          in (launch_result (launch e cmd home timeout), w\<lparr>launched := launched w @ [cmd]\<rparr>))"

definition start_client_process :: "env \<Rightarrow> path \<Rightarrow> rat \<Rightarrow> (world, unit) act" where
  "start_client_process e home timeout w =
     start_application e (resolve_python e home (files w)) timeout home w"

text \<open>
  A running process as \<open>psutil\<close> reports it: \<open>None\<close> for a field it cannot read.  \<open>proc_hidden\<close> holds
  of a process whose inspection raises, \<open>terminate_fails\<close> of one that cannot be terminated.
\<close>

datatype wait_outcome = WaitEnded | WaitTimeout | WaitError

record proc =
  proc_pid :: int
  proc_name :: "string option"
  proc_cmdline :: "string list option"
  proc_cwd :: "path option"
  proc_hidden :: bool
  terminate_fails :: bool
  wait_outcome :: wait_outcome

definition cmdline_text :: "string list option \<Rightarrow> string" where
  "cmdline_text cmd = (case cmd of None \<Rightarrow> [] | Some parts \<Rightarrow> join '' '' parts)"

definition client_entry_markers :: "string list" where
  "client_entry_markers = [''user_agent.py'', ''client.py'', ''NetworkScannerClient.exe'']"

definition cmdline_targets_client :: "string \<Rightarrow> path \<Rightarrow> bool" where
  "cmdline_targets_client cmdline home =
     (if cmdline = [] then False
      else let normalized = lower (replace_char (CHR 0x5C) (CHR ''/'') cmdline);
               home_token = lower (replace_char (CHR 0x5C) (CHR ''/'') (path_str home))
           in if home_token = [] \<or> \<not> contains home_token normalized then False
              else list_ex (\<lambda>marker. contains (lower marker) normalized) client_entry_markers)"

definition is_victim :: "int \<Rightarrow> path \<Rightarrow> proc \<Rightarrow> bool" where
  "is_victim my_pid home p =
     (if proc_hidden p \<or> proc_pid p = my_pid then False
      else if cmdline_targets_client (cmdline_text (proc_cmdline p)) home then True
      else if lower (case proc_name p of None \<Rightarrow> [] | Some n \<Rightarrow> n) \<noteq> ''networkscannerclient.exe'' then False
      else case proc_cwd p of
        None \<Rightarrow> False
      | Some cwd \<Rightarrow> cwd = home \<or> strict_prefix home cwd \<or> strict_prefix cwd home)"

text \<open>
  The processes terminated, which are what is returned, and those killed after the grace period.
  Without \<open>psutil\<close> (\<open>None\<close>) nothing is stopped.
\<close>

definition stop_client_processes :: "int \<Rightarrow> path \<Rightarrow> proc list option \<Rightarrow> int list \<times> int list" where
  "stop_client_processes my_pid home procs =
     (case procs of
        None \<Rightarrow> ([], [])
      | Some ps \<Rightarrow>
          let victims = filter (is_victim my_pid home) ps
          in (map proc_pid (filter (\<lambda>p. \<not> terminate_fails p) victims),
              map proc_pid (filter (\<lambda>p. wait_outcome p = WaitTimeout) victims)))"

section \<open>Applying an update\<close>

definition app_dir :: "path \<Rightarrow> path" where
  "app_dir home = home @ [''app'']"

definition history_dir :: "path \<Rightarrow> path" where
  "history_dir home = updates_dir home @ [''history'']"

definition staging_dir :: "path \<Rightarrow> path" where
  "staging_dir home = updates_dir home @ [''staging'']"

text \<open>The steps before the client is stopped: they return the manifest.\<close>

definition validate_package :: "env \<Rightarrow> path \<Rightarrow> path \<Rightarrow> path \<Rightarrow> (world, pydict) act" where
  "validate_package e home staged package =
     seq_act (bind_act (ask (\<lambda>w. Inr (is_file (files w) package \<and> lower (name_suffix (last package)) = ''.zip'')))
                (\<lambda>ok. guard ok ''update package must be a zip file''))
    (seq_act (record_update_state e home STATE_PACKAGE_VALIDATING [(''package'', PStr (path_str package))])
    (seq_act (on_files (safe_extract e package staged MAX_UNCOMPRESSED))
    (bind_act (ask (\<lambda>w. read_json e (staged @ [''manifest.json'']) (files w))) (\<lambda>manifest.
     seq_act (ask (\<lambda>w. validate_manifest e manifest))
    (seq_act (bind_act (ask (\<lambda>w. Inr (is_dir (files w) (staged @ [''app'']))))
                (\<lambda>ok. guard ok ''package app directory is missing''))
    (seq_act (ask (\<lambda>w. case dget manifest ''file_hashes'' of
                       PDict hs \<Rightarrow> verify_hashes e (staged @ [''app'']) hs (files w)
                     | _ \<Rightarrow> Inr ()))
    (seq_act (record_update_state e home STATE_PACKAGE_VALIDATED [(''version'', dget manifest ''version'')])
     (return_act manifest))))))))"

text \<open>\<open>str(_read_json(file).get("version") or "unknown")\<close>, or \<open>unknown\<close> without a file.\<close>

definition read_version :: "env \<Rightarrow> path \<Rightarrow> fs \<Rightarrow> string result" where
  "read_version e version_file f =
     (if is_file f version_file
      then then_do (read_json e version_file f)
             (\<lambda>d. Inr (str_of e (py_or (dget d ''version'') (PStr ''unknown''))))
      else Inr ''unknown'')"

definition prepare_update :: "env \<Rightarrow> path \<Rightarrow> path \<Rightarrow> path \<Rightarrow> (world, pydict \<times> string) act" where
  "prepare_update e home staged package =
     bind_act (validate_package e home staged package) (\<lambda>manifest.
     bind_act (ask (\<lambda>w. read_version e (app_dir home @ [''version.json'']) (files w))) (\<lambda>old_version.
     return_act (manifest, old_version)))"

definition stop_and_back_up :: "env \<Rightarrow> path \<Rightarrow> (world, unit) act \<Rightarrow> string \<Rightarrow> (world, unit) act" where
  "stop_and_back_up e home stop_client old_version =
     seq_act (on_files (in_place (mkdirs (history_dir home))))
    (seq_act (record_update_state e home STATE_CLIENT_STOPPING [])
    (seq_act stop_client
    (seq_act (record_update_state e home STATE_CLIENT_STOPPED [])
    (seq_act (on_files (copy_tree e (app_dir home) (resolve_join (history_dir home) old_version)))
     (record_update_state e home STATE_BACKUP_CREATED [(''backup_version'', PStr old_version)])))))"

definition replace_updater :: "env \<Rightarrow> path \<Rightarrow> path \<Rightarrow> fs \<Rightarrow> unit result \<times> fs" where
  "replace_updater e home staged f =
     (if is_dir f (staged @ [''updater'']) then copy_tree e (staged @ [''updater'']) (home @ [''updater'']) f
      else (Inr (), f))"

definition replace_files :: "env \<Rightarrow> path \<Rightarrow> path \<Rightarrow> (world, unit) act" where
  "replace_files e home staged =
     seq_act (on_files (copy_tree e (staged @ [''app'']) (app_dir home)))
    (seq_act (on_files (replace_updater e home staged))
     (record_update_state e home STATE_FILES_REPLACED []))"

definition install_and_start ::
  "env \<Rightarrow> path \<Rightarrow> (world, unit) act option \<Rightarrow> rat \<Rightarrow> (world, unit) act" where
  "install_and_start e home start_client timeout =
     bind_act (ask (\<lambda>w. Inr (resolve_python e home (files w)))) (\<lambda>python.
     seq_act (record_update_state e home STATE_DEPENDENCIES_INSTALLING [])
    (seq_act (ask (\<lambda>w. install_dependencies e (app_dir home) python (files w)))
    (seq_act (record_update_state e home STATE_CLIENT_STARTING [])
     (case start_client of
        Some start \<Rightarrow> start
      | None \<Rightarrow> start_client_process e home timeout))))"

definition verify_installed :: "env \<Rightarrow> path \<Rightarrow> pydict \<Rightarrow> string \<Rightarrow> (world, unit) act" where
  "verify_installed e home manifest old_version =
     seq_act (record_update_state e home STATE_VERSION_VERIFYING [])
    (bind_act (ask (\<lambda>w. read_version e (app_dir home @ [''version.json'']) (files w))) (\<lambda>installed.
     seq_act (guard (installed = ''unknown'' \<or> PStr installed = dget manifest ''version'')
                (''Installed version '' @ installed @ '' does not match manifest version '' @
                 str_of e (dget manifest ''version'')))
     (record_update_state e home STATE_UPDATE_CONFIRMED
        [(''version'', dget manifest ''version''), (''old_version'', PStr old_version)])))"

text \<open>The steps from the point at which the backup directory is known.\<close>

definition install_update ::
  "env \<Rightarrow> path \<Rightarrow> (world, unit) act \<Rightarrow> (world, unit) act option \<Rightarrow> rat \<Rightarrow> path \<Rightarrow> pydict \<Rightarrow> string
   \<Rightarrow> (world, unit) act" where
  "install_update e home stop_client start_client timeout staged manifest old_version =
     seq_act (stop_and_back_up e home stop_client old_version)
    (seq_act (replace_files e home staged)
    (seq_act (install_and_start e home start_client timeout)
     (verify_installed e home manifest old_version)))"

definition update_failed :: "string \<Rightarrow> string \<Rightarrow> bool \<Rightarrow> pydict" where
  "update_failed reason err rolled_back =
     [(''status'', PStr ''UPDATE_FAILED''), (''reason'', PStr reason), (''error'', PStr err),
      (''rolled_back'', PBool rolled_back)]"

definition rollback_result ::
  "env \<Rightarrow> path \<Rightarrow> path option \<Rightarrow> (world, unit) act option \<Rightarrow> string \<Rightarrow> string \<Rightarrow> world \<Rightarrow> pydict \<times> world" where
  "rollback_result e home backup_root start_client reason err w =
     (case backup_root of
        Some backup \<Rightarrow>
          if is_dir (files w) backup then
            (case seq_act (on_files (copy_tree e backup (app_dir home)))
                    (case start_client of Some start \<Rightarrow> start | None \<Rightarrow> return_act ()) w of
               (Inr u, w1) \<Rightarrow>
                 (update_failed reason err True,
                  snd (record_update_state e home STATE_ROLLBACK_COMPLETED
                         [(''reason'', PStr reason), (''error'', PStr err)] w1))
             | (Inl x, w1) \<Rightarrow>
                 (update_failed ''ROLLBACK'' (err @ ''; rollback failed: '' @ exc_msg x) False,
                  snd (record_update_state e home STATE_ROLLBACK_FAILED
                         [(''rollback_error'', PStr (exc_msg x))] w1)))
          else (update_failed reason err False,
                snd (record_update_state e home STATE_ROLLBACK_FAILED [(''error'', PStr err)] w))
      | None \<Rightarrow> (update_failed reason err False,
                 snd (record_update_state e home STATE_ROLLBACK_FAILED [(''error'', PStr err)] w)))"

text \<open>
  The reason an exception is reported under: \<open>JSONDecodeError\<close> is a \<open>ValueError\<close>; the error of a
  bad archive and that of a missing file are not.
\<close>

definition is_value_error :: "pyexc \<Rightarrow> bool" where
  "is_value_error x \<longleftrightarrow> exc_kind x = ValueError \<or> exc_kind x = JSONDecodeError"

definition failure_reason :: "pyexc \<Rightarrow> string" where
  "failure_reason x =
     (if is_value_error x then
        (if contains ''version'' (lower (exc_msg x)) \<or> contains ''updater'' (lower (exc_msg x))
         then ''VERSION_INVALID'' else ''INVALID_PACKAGE'')
      else if exc_kind x = DependencyInstallError \<or> exc_kind x = CalledProcessError
      then ''DEPENDENCY_INSTALL_FAILED''
      else ''APPLICATION_START_FAILED'')"

definition failure_state :: "pyexc \<Rightarrow> string" where
  "failure_state x =
     (if is_value_error x then STATE_VALIDATION_FAILED
      else if exc_kind x = DependencyInstallError \<or> exc_kind x = CalledProcessError
      then STATE_DEPENDENCY_FAILED else STATE_START_FAILED)"

definition failure_details :: "pyexc \<Rightarrow> pydict" where
  "failure_details x =
     (if is_value_error x then [(''reason'', PStr (failure_reason x))] else []) @ [(''error'', PStr (exc_msg x))]"

definition handle_failure ::
  "env \<Rightarrow> path \<Rightarrow> path option \<Rightarrow> (world, unit) act option \<Rightarrow> pyexc \<Rightarrow> world \<Rightarrow> pydict \<times> world" where
  "handle_failure e home backup_root start_client x w =
     rollback_result e home backup_root start_client (failure_reason x) (exc_msg x)
       (snd (record_update_state e home (failure_state x) (failure_details x) w))"

text \<open>
  The body of the \<open>try\<close> statement with its handlers.  \<open>backup_root\<close> is still \<open>None\<close> when a step
  before its assignment raises.
\<close>

definition run_update ::
  "env \<Rightarrow> path \<Rightarrow> path \<Rightarrow> (world, unit) act \<Rightarrow> (world, unit) act option \<Rightarrow> rat \<Rightarrow> path \<Rightarrow> world
   \<Rightarrow> pydict \<times> world" where
  "run_update e home package stop_client start_client timeout staged w =
     (case prepare_update e home staged package w of
        (Inl x, w1) \<Rightarrow> handle_failure e home None start_client x w1
      | (Inr (manifest, old_version), w1) \<Rightarrow>
          (case install_update e home stop_client start_client timeout staged manifest old_version w1 of
             (Inl x, w2) \<Rightarrow>
               handle_failure e home (Some (resolve_join (history_dir home) old_version)) start_client x w2
           | (Inr u, w2) \<Rightarrow>
               ([(''status'', PStr ''COMPLETED''), (''version'', dget manifest ''version''),
                 (''old_version'', PStr old_version)], w2)))"

definition apply_update ::
  "env \<Rightarrow> path \<Rightarrow> path \<Rightarrow> (world, unit) act \<Rightarrow> (world, unit) act option \<Rightarrow> rat \<Rightarrow> (world, pydict) act" where
  "apply_update e home package stop_client start_client timeout w =
     (case mkdirs (staging_dir home) (files w) of
        Inl x \<Rightarrow> (Inl x, w)
      | Inr f1 \<Rightarrow>
          let staged = staging_dir home @ [''client-update-'' @ tmp_name e f1] in
          (case mkdirs staged f1 of
             Inl x \<Rightarrow> (Inl x, w\<lparr>files := f1\<rparr>)
           | Inr f2 \<Rightarrow>
               let (res, w1) = run_update e home package stop_client start_client timeout staged (w\<lparr>files := f2\<rparr>)
               in (Inr res, w1\<lparr>files := rmtree staged (files w1)\<rparr>)))"

section \<open>The updater's own files and results\<close>

text \<open>
  \<open>_install_updater_from_package\<close>: the members below \<open>updater/\<close>, read with backslashes as slashes.
\<close>

definition updater_relative :: "zip_entry \<Rightarrow> string option" where
  "updater_relative i =
     (let name = replace_char (CHR 0x5C) (CHR ''/'') (filename i) in
      if \<not> is_dir_entry i \<and> prefix ''updater/'' name then Some (drop 8 name) else None)"

fun copy_updater_members :: "path \<Rightarrow> zip_entry list \<Rightarrow> fs \<Rightarrow> bool \<times> fs" where
  "copy_updater_members target [] f = (True, f)"
| "copy_updater_members target (i # is) f =
     (case updater_relative i of
        None \<Rightarrow> copy_updater_members target is f
      | Some rel \<Rightarrow>
          if rel = [] \<or> ''..'' \<in> set (split_char (CHR ''/'') rel) then copy_updater_members target is f
          else let dest = resolve_join target rel in
            if \<not> inside dest target then copy_updater_members target is f
            else case mkdirs (butlast dest) f of
              Inl e \<Rightarrow> (False, f)
            | Inr f1 \<Rightarrow>
                if is_dir f1 dest then (False, f1)
                else case entry_fault i of
                  Some e \<Rightarrow> (False, write_file dest (entry_data i) f1)
                | None \<Rightarrow> copy_updater_members target is (write_file dest (entry_data i) f1))"

definition install_updater_from_package :: "env \<Rightarrow> path \<Rightarrow> path \<Rightarrow> fs \<Rightarrow> bool \<times> fs" where
  "install_updater_from_package e package home f =
     (case then_do (read_text f package) (open_zip e) of
        Inl err \<Rightarrow> (False, f)
      | Inr infos \<Rightarrow>
          if \<not> list_ex (\<lambda>i. updater_relative i \<noteq> None) infos then (False, f)
          else let target = home @ [''updater''] in
            case mkdirs target f of
              Inl err \<Rightarrow> (False, f)
            | Inr f1 \<Rightarrow> copy_updater_members target infos f1)"

text \<open>An action id of the server is a plain name.\<close>

definition persist_update_result :: "env \<Rightarrow> path \<Rightarrow> string option \<Rightarrow> pydict \<Rightarrow> fs \<Rightarrow> unit result \<times> fs" where
  "persist_update_result e home action_id result f =
     (case action_id of
        None \<Rightarrow> (Inr (), f)
      | Some [] \<Rightarrow> (Inr (), f)
      | Some aid \<Rightarrow>
          let result_dir = updates_dir home @ [''results''];
              result_path = result_dir @ [aid @ ''.json''];
              temporary_path = result_dir @ [aid @ ''.tmp'']
          in case mkdirs result_dir f of
            Inl x \<Rightarrow> (Inl x, f)
          | Inr f1 \<Rightarrow>
              if is_dir f1 temporary_path then (raise_exc OSError ''Is a directory'', f1)
              else if is_dir f1 result_path
              then (raise_exc OSError ''Is a directory'', write_file temporary_path (json_dumps e result) f1)
              else (Inr (), write_file result_path (json_dumps e result) (unlink temporary_path f1)))"

text \<open>
  The script: its exit code, and the world after it.  An exception of \<open>apply_update\<close> itself ends the
  script with code 1.
\<close>

definition updater_main :: "env \<Rightarrow> path \<Rightarrow> path \<Rightarrow> string option \<Rightarrow> world \<Rightarrow> int \<times> world" where
  "updater_main e package home action_id w =
     (if \<not> is_file (files w) package then (1, w)
      else if \<not> is_dir (files w) (app_dir home) then (1, w)
      else case apply_update e home package (return_act ()) (Some (start_client_process e home 10)) 10 w of
        (Inl x, w1) \<Rightarrow> (1, w1)
      | (Inr result, w1) \<Rightarrow>
          let (r, f) = persist_update_result e home action_id result (files w1)
          in (if dget result ''status'' = PStr ''COMPLETED'' then 0 else 1, w1\<lparr>files := f\<rparr>))"

section \<open>What each operation touches\<close>

lemma in_place_Inr [simp]: "in_place m f = (Inr u, f') \<longleftrightarrow> m f = Inr f'"
  by (auto simp: in_place_def split: sum.splits)

lemma in_place_Inl: "in_place m f = (Inl e, f') \<Longrightarrow> f' = f"
  by (auto simp: in_place_def split: sum.splits)

lemma confined_in_place: "in_place (mkdirs q) f = (r, f') \<Longrightarrow> prefix p q \<Longrightarrow> confined p f f'"
  by (auto simp: in_place_def dest: confined_mkdirs split: sum.splits)

lemma confined_extract_member:
  assumes "extract_member dest i f = (r, f')"
  shows "confined dest f f'"
proof -
  let ?t = "member_path dest i"
  have below: "prefix dest ?t"
    by (simp add: member_path_def)
  show ?thesis
  proof (cases "is_dir_entry i \<or> ?t = dest")
    case True
    with assms below show ?thesis
      by (auto simp: extract_member_def Let_def split: if_splits dest: confined_in_place)
  next
    case False
    with below have "prefix dest (butlast ?t)"
      by (auto simp: prefix_def butlast_append)
    with assms False below show ?thesis
      by (auto simp: extract_member_def Let_def split: sum.splits if_splits option.splits
            intro: confined_trans [OF confined_mkdirs] confined_mkdirs confined_write)
  qed
qed

lemma confined_extractall: "extractall dest is f = (r, f') \<Longrightarrow> confined dest f f'"
  by (induction "is" arbitrary: f)
     (auto split: prod.splits sum.splits intro: confined_trans dest: confined_extract_member)

lemma safe_extract_cases:
  assumes "safe_extract e pkg dest max_bytes f = (r, f')"
  obtains (refused) err where "r = Inl err" "f' = f"
  | (extracted) infos f1 where "then_do (read_text f pkg) (open_zip e) = Inr infos"
      "\<not> list_ex (unsafe_entry dest) infos" "sum_list (map file_size infos) \<le> max_bytes"
      "mkdirs dest f = Inr f1" "extractall dest infos f1 = (r, f')"
  using assms
  by (auto simp: safe_extract_def find_None_iff list_ex_iff split: sum.splits option.splits if_splits)

lemma confined_safe_extract: "safe_extract e pkg dest n f = (r, f') \<Longrightarrow> confined dest f f'"
  by (erule safe_extract_cases)
     (auto intro: confined_trans [OF confined_mkdirs] dest: confined_extractall)

lemma copy_tree_cases:
  assumes "copy_tree e src dest f = (r, f')"
  obtains (blocked) err where "r = Inl err" "f' = f" "is_file f dest"
  | (fault) err msg t where "r = Inl err" "io_fault e src dest f = Some (msg, t)" "f' = graft t dest f"
  | (no_source) err where "r = Inl err" "io_fault e src dest f = None" "f' = rmtree dest f"
      "\<not> is_dir f' src"
  | (no_room) err where "r = Inl err" "io_fault e src dest f = None" "f' = rmtree dest f"
  | (copied) f2 where "r = Inr ()" "is_dir (rmtree dest f) src" "mkdirs dest (rmtree dest f) = Inr f2"
      "f' = graft (subtree (rmtree dest f) src) dest f2"
proof (cases "is_file f dest")
  case True
  with assms blocked show thesis by (auto simp: copy_tree_def)
next
  case False
  show thesis
  proof (cases "io_fault e src dest f")
    case (Some mt)
    with assms False fault show thesis by (cases mt) (auto simp: copy_tree_def)
  next
    case None
    then show thesis
    proof (cases "is_dir (rmtree dest f) src")
      case False
      with assms \<open>\<not> is_file f dest\<close> None no_source show thesis by (auto simp: copy_tree_def)
    next
      case src: True
      show thesis
      proof (cases "mkdirs dest (rmtree dest f)")
        case (Inl err)
        with assms False None src have "r = Inl err \<and> f' = rmtree dest f" by (simp add: copy_tree_def)
        with None no_room show thesis by blast
      next
        case (Inr f2)
        with assms False None src have "r = Inr () \<and> f' = graft (subtree (rmtree dest f) src) dest f2"
          by (simp add: copy_tree_def)
        with Inr src copied show thesis by blast
      qed
    qed
  qed
qed

lemma confined_copy_tree: "copy_tree e src dest f = (r, f') \<Longrightarrow> confined dest f f'"
proof (erule copy_tree_cases)
  fix f2
  assume "mkdirs dest (rmtree dest f) = Inr f2" "f' = graft (subtree (rmtree dest f) src) dest f2"
  then show ?thesis
    by (metis confined_mkdirs confined_trans confined_unchanged prefix_order.refl unchanged_graft
        unchanged_rmtree)
qed (simp_all add: confined_unchanged)

text \<open>A tree is kept by what happens apart from it.\<close>

definition tree_is :: "path \<Rightarrow> fs \<Rightarrow> world \<Rightarrow> bool" where
  "tree_is q A w \<longleftrightarrow> subtree (files w) q = A"

lemma keeps_on_files:
  assumes "\<And>f r f'. m f = (r, f') \<Longrightarrow> P f \<Longrightarrow> P f'"
  shows "keeps (\<lambda>w. P (files w)) (on_files m)"
  using assms by (auto simp: on_files_def intro!: keepsI split: prod.splits)

lemma keeps_ask [keeps_intros, simp]: "keeps P (ask g)"
  by (auto simp: ask_def intro!: keepsI)

lemma keeps_guard [keeps_intros, simp]: "keeps P (guard b msg)"
  by (simp add: guard_def)

lemma keeps_tree_confined:
  assumes "\<And>f r f'. m f = (r, f') \<Longrightarrow> confined p f f'" "apart p q"
  shows "keeps (tree_is q A) (on_files m)"
  unfolding tree_is_def
  by (rule keeps_on_files [where P = "\<lambda>f. subtree f q = A"]) (metis assms confined_subtree)

lemma keeps_tree_copy: "apart dest q \<Longrightarrow> keeps (tree_is q A) (on_files (copy_tree e src dest))"
  by (rule keeps_tree_confined [OF confined_copy_tree])

lemma keeps_tree_extract:
  "apart dest q \<Longrightarrow> keeps (tree_is q A) (on_files (safe_extract e package dest n))"
  by (rule keeps_tree_confined [OF confined_safe_extract])

lemma keeps_tree_mkdirs: "\<not> prefix q p \<Longrightarrow> keeps (tree_is q A) (on_files (in_place (mkdirs p)))"
  unfolding tree_is_def
  by (rule keeps_on_files) (auto simp: in_place_def subtree_mkdirs_apart split: sum.splits)

definition off_state :: "path \<Rightarrow> path \<Rightarrow> bool" where
  "off_state home q \<longleftrightarrow>
     apart (updates_dir home @ [''current_state.json'']) q \<and>
     apart (updates_dir home @ [''current_state.tmp'']) q \<and> \<not> prefix q (updates_dir home)"

lemma write_state_subtree:
  assumes "off_state home q"
  shows "subtree (write_state_file home text f) q = subtree f q"
proof (cases "mkdirs (updates_dir home) f")
  case (Inl e)
  then show ?thesis by (simp add: write_state_file_def)
next
  case (Inr f1)
  have *: "subtree (write_file p c g) q = subtree g q" "subtree (unlink p g) q = subtree g q"
    if "apart p q" for p c g
    using that
    by (auto simp: subtree_def write_file_def unlink_def fun_eq_iff apart_def prefix_def)
  from Inr assms show ?thesis
    by (simp add: write_state_file_def Let_def off_state_def * subtree_mkdirs_apart)
qed

lemma keeps_tree_record: "off_state home q \<Longrightarrow> keeps (tree_is q A) (record_update_state e home st d)"
  by (auto simp: tree_is_def record_update_state_def write_state_subtree intro!: keepsI)

text \<open>A callback that starts or stops the client and leaves the files and the recorded states alone.\<close>

definition quiet :: "(world, unit) act \<Rightarrow> bool" where
  "quiet m \<longleftrightarrow> (\<forall>w. files (snd (m w)) = files w \<and> calls (snd (m w)) = calls w)"

lemma quiet_return [simp]: "quiet (return_act u)"
  by (simp add: quiet_def return_act_def)

lemma quiet_start_client_process [simp]: "quiet (start_client_process e home t)"
  by (auto simp: quiet_def start_client_process_def start_application_def Let_def split: option.splits)

lemma quiet_keeps: "quiet m \<Longrightarrow> keeps (\<lambda>w. P (files w)) m"
  by (auto simp: quiet_def intro!: keepsI) (metis snd_conv)

lemma quiet_keeps_tree: "quiet m \<Longrightarrow> keeps (tree_is q A) m"
  unfolding tree_is_def by (rule quiet_keeps)

lemmas tree_intros =
  keeps_bind keeps_seq keeps_ask keeps_guard keeps_return keeps_tree_record keeps_tree_copy
  keeps_tree_extract keeps_tree_mkdirs quiet_keeps_tree quiet_start_client_process

lemma keeps_tree_validate:
  "apart staged q \<Longrightarrow> off_state home q \<Longrightarrow> keeps (tree_is q A) (validate_package e home staged package)"
  unfolding validate_package_def by (intro tree_intros) assumption+

lemma confined_replace_updater:
  "replace_updater e home staged f = (r, f') \<Longrightarrow> confined (home @ [''updater'']) f f'"
  by (auto simp: replace_updater_def split: if_splits dest: confined_copy_tree)

lemma keeps_tree_updater:
  "apart (home @ [''updater'']) q \<Longrightarrow> keeps (tree_is q A) (on_files (replace_updater e home staged))"
  by (rule keeps_tree_confined [OF confined_replace_updater])

lemma keeps_tree_replace:
  "apart (app_dir home) q \<Longrightarrow> apart (home @ [''updater'']) q \<Longrightarrow> off_state home q
   \<Longrightarrow> keeps (tree_is q A) (replace_files e home staged)"
  unfolding replace_files_def
  by (intro keeps_seq keeps_tree_copy keeps_tree_record keeps_tree_updater) assumption+

lemma keeps_tree_install:
  assumes "off_state home q" "\<And>m. start = Some m \<Longrightarrow> quiet m"
  shows "keeps (tree_is q A) (install_and_start e home start timeout)"
proof -
  have "keeps (tree_is q A) (case start of Some m \<Rightarrow> m | None \<Rightarrow> start_client_process e home timeout)"
    using assms(2) by (cases start) (simp_all add: quiet_keeps_tree)
  then show ?thesis
    unfolding install_and_start_def by (intro keeps_bind keeps_seq keeps_ask keeps_tree_record assms(1))
qed

lemma keeps_tree_verify:
  "off_state home q \<Longrightarrow> keeps (tree_is q A) (verify_installed e home manifest v)"
  unfolding verify_installed_def by (intro tree_intros) assumption+

section \<open>Extraction\<close>

lemma mkdirs_is_file: "mkdirs p f = Inr g \<Longrightarrow> is_file g q = is_file f q"
  by (simp add: is_file_iff mkdirs_file)

lemma write_is_file: "is_file (write_file p c f) q \<longleftrightarrow> q = p \<or> is_file f q"
  by (simp add: is_file_def write_file_def)

lemma extract_member_files:
  assumes "extract_member dest i f = (r, f')"
  shows "is_file f q \<Longrightarrow> is_file f' q"
    and "r = Inr () \<Longrightarrow> \<not> is_dir_entry i \<Longrightarrow> is_file f' (member_path dest i)"
  using assms
  by (auto simp: extract_member_def Let_def mkdirs_is_file write_is_file in_place_def
        split: if_splits sum.splits option.splits)

lemma extractall_keeps_files: "extractall dest is f = (r, f') \<Longrightarrow> is_file f q \<Longrightarrow> is_file f' q"
  by (induction "is" arbitrary: f) (auto split: prod.splits sum.splits dest: extract_member_files(1))

lemma extractall_files:
  "extractall dest is f = (Inr (), f') \<Longrightarrow> i \<in> set is \<Longrightarrow> \<not> is_dir_entry i
   \<Longrightarrow> is_file f' (member_path dest i)"
proof (induction "is" arbitrary: f)
  case (Cons j js)
  then obtain f1 where f1: "extract_member dest j f = (Inr (), f1)" "extractall dest js f1 = (Inr (), f')"
    by (auto split: prod.splits sum.splits)
  with Cons show ?case
    by (auto intro: extractall_keeps_files dest: extract_member_files(2))
qed simp

lemma safe_extract_refuses:
  assumes "then_do (read_text f package) (open_zip e) = Inr infos"
    and "list_ex (unsafe_entry dest) infos \<or> max_bytes < sum_list (map file_size infos)"
  shows "\<exists>msg. safe_extract e package dest max_bytes f = (raise_exc ValueError msg, f)"
proof (cases "find (unsafe_entry dest) infos")
  case None
  then have "\<not> list_ex (unsafe_entry dest) infos"
    by (simp add: find_None_iff list_ex_iff)
  with assms None show ?thesis by (simp add: safe_extract_def)
qed (use assms in \<open>simp add: safe_extract_def\<close>)

text \<open>
  C15. Whatever the archive holds, extraction changes nothing outside the destination, apart from
  creating missing ancestors of it.  An archive with a member whose path resolves outside the
  destination, or whose declared sizes exceed the limit, is refused with a \<open>ValueError\<close> before
  anything is written.  After a successful extraction every member that is not a directory is a file
  below the destination.
\<close>

theorem safe_extract_confined:
  assumes "safe_extract e package dest max_bytes f = (r, f')"
  shows "(\<forall>q. f' q \<noteq> f q \<longrightarrow> prefix dest q \<or> (prefix q dest \<and> f q = None \<and> f' q = Some FDir)) \<and>
    (\<forall>infos. then_do (read_text f package) (open_zip e) = Inr infos \<longrightarrow>
       ((list_ex (unsafe_entry dest) infos \<or> max_bytes < sum_list (map file_size infos)) \<longrightarrow>
          f' = f \<and> (\<exists>msg. r = raise_exc ValueError msg)) \<and>
       (r = Inr () \<longrightarrow> (\<forall>i\<in>set infos. \<not> is_dir_entry i \<longrightarrow>
          is_file f' (member_path dest i) \<and> prefix dest (member_path dest i))))"
proof (intro conjI allI impI)
  show "prefix dest q \<or> (prefix q dest \<and> f q = None \<and> f' q = Some FDir)" if "f' q \<noteq> f q" for q
    using confined_safe_extract [OF assms] that by (auto simp: confined_def)
next
  fix infos
  assume infos: "then_do (read_text f package) (open_zip e) = Inr infos"
  {
    assume "list_ex (unsafe_entry dest) infos \<or> max_bytes < sum_list (map file_size infos)"
    from safe_extract_refuses [OF infos this] assms
    show "f' = f" "\<exists>msg. r = raise_exc ValueError msg"
      by auto
  }
  assume "r = Inr ()"
  from assms show "\<forall>i\<in>set infos. \<not> is_dir_entry i \<longrightarrow>
      is_file f' (member_path dest i) \<and> prefix dest (member_path dest i)"
  proof (cases rule: safe_extract_cases)
    case (extracted infos' f1)
    with infos \<open>r = Inr ()\<close> show ?thesis
      by (auto dest: extractall_files simp: member_path_def)
  qed (use \<open>r = Inr ()\<close> in simp)
qed

section \<open>The recorded states\<close>

text \<open>
  \<open>traces ss m\<close>: \<open>m\<close> records the states \<open>ss\<close>, in that order, or a prefix of them when it raises.
\<close>

definition states_of :: "world \<Rightarrow> string list" where
  "states_of w = map fst (calls w)"

definition traces :: "string list \<Rightarrow> (world, 'a) act \<Rightarrow> bool" where
  "traces ss m \<longleftrightarrow>
     (\<forall>w. case m w of
        (Inr x, w') \<Rightarrow> states_of w' = states_of w @ ss
      | (Inl e, w') \<Rightarrow> \<exists>n\<le>length ss. states_of w' = states_of w @ take n ss)"

lemma traces_Inr: "traces ss m \<Longrightarrow> m w = (Inr x, w') \<Longrightarrow> states_of w' = states_of w @ ss"
  by (auto simp: traces_def dest!: spec [of _ w])

lemma traces_Inl:
  "traces ss m \<Longrightarrow> m w = (Inl e, w') \<Longrightarrow> \<exists>n\<le>length ss. states_of w' = states_of w @ take n ss"
  by (auto simp: traces_def dest!: spec [of _ w])

lemma tracesI:
  assumes "\<And>w x w'. m w = (Inr x, w') \<Longrightarrow> states_of w' = states_of w @ ss"
    and "\<And>w e w'. m w = (Inl e, w') \<Longrightarrow> \<exists>n\<le>length ss. states_of w' = states_of w @ take n ss"
  shows "traces ss m"
  using assms by (auto simp: traces_def split: prod.splits sum.splits)

lemma traces_bind:
  assumes "traces ss m" "\<And>x. traces ts (f x)"
  shows "traces (ss @ ts) (bind_act m f)"
proof (rule tracesI)
  fix w e w'
  assume "bind_act m f w = (Inl e, w')"
  then consider "m w = (Inl e, w')" | x w1 where "m w = (Inr x, w1)" "f x w1 = (Inl e, w')"
    by (auto simp: bind_act_Inl)
  then show "\<exists>n\<le>length (ss @ ts). states_of w' = states_of w @ take n (ss @ ts)"
  proof cases
    case 1
    with traces_Inl [OF assms(1)] obtain n where "n \<le> length ss" "states_of w' = states_of w @ take n ss"
      by blast
    then show ?thesis by (intro exI [of _ n]) simp
  next
    case 2
    with traces_Inl [OF assms(2)] obtain n where "n \<le> length ts" "states_of w' = states_of w1 @ take n ts"
      by blast
    with 2 traces_Inr [OF assms(1)] show ?thesis
      by (intro exI [of _ "length ss + n"]) auto
  qed
qed (use traces_Inr [OF assms(1)] traces_Inr [OF assms(2)] in \<open>auto simp: bind_act_Inr\<close>)

lemma traces_seq: "traces ss m \<Longrightarrow> traces ts n \<Longrightarrow> traces (ss @ ts) (seq_act m n)"
  by (simp add: seq_act_def traces_bind)

lemma traces_record: "traces [st] (record_update_state e home st d)"
  by (auto simp: traces_def record_update_state_def states_of_def Let_def)

lemma traces_silent: "(\<And>w r w'. m w = (r, w') \<Longrightarrow> calls w' = calls w) \<Longrightarrow> traces [] m"
  by (auto intro!: tracesI simp: states_of_def)

lemma traces_ask [simp]: "traces [] (ask g)"
  by (auto intro!: traces_silent simp: ask_def)

lemma traces_guard [simp]: "traces [] (guard b msg)"
  by (auto intro!: traces_silent simp: guard_def split: if_splits)

lemma traces_on_files [simp]: "traces [] (on_files m)"
  by (auto intro!: traces_silent simp: on_files_def split: prod.splits)

lemma traces_return [simp]: "traces [] (return_act u)"
  by (auto intro!: traces_silent)

lemma traces_quiet: "quiet m \<Longrightarrow> traces [] m"
  by (auto intro!: traces_silent simp: quiet_def) (metis snd_conv)

text \<open>A composition whose first part is silent, or records one state.\<close>

lemma traces_then: "traces [] m \<Longrightarrow> traces ts n \<Longrightarrow> traces ts (seq_act m n)"
  using traces_seq [of "[]" m ts n] by simp

lemma traces_bind_silent: "traces [] m \<Longrightarrow> (\<And>x. traces ts (f x)) \<Longrightarrow> traces ts (bind_act m f)"
  using traces_bind [of "[]" m ts f] by simp

lemma traces_next: "traces ts n \<Longrightarrow> traces (st # ts) (seq_act (record_update_state e home st d) n)"
  using traces_seq [OF traces_record] by simp

lemmas trace_intros =
  traces_next traces_record traces_then traces_bind_silent traces_ask traces_guard traces_on_files
  traces_return traces_quiet

lemma traces_validate:
  "traces [STATE_PACKAGE_VALIDATING, STATE_PACKAGE_VALIDATED] (validate_package e home staged package)"
  unfolding validate_package_def by (intro trace_intros)

lemma traces_back_up:
  "quiet stop \<Longrightarrow> traces [STATE_CLIENT_STOPPING, STATE_CLIENT_STOPPED, STATE_BACKUP_CREATED]
     (stop_and_back_up e home stop v)"
  unfolding stop_and_back_up_def by (intro trace_intros) assumption

lemma traces_replace: "traces [STATE_FILES_REPLACED] (replace_files e home staged)"
  unfolding replace_files_def by (intro trace_intros)

lemma traces_install:
  assumes "\<And>m. start = Some m \<Longrightarrow> quiet m"
  shows "traces [STATE_DEPENDENCIES_INSTALLING, STATE_CLIENT_STARTING]
           (install_and_start e home start timeout)"
proof -
  have "traces [] (case start of Some m \<Rightarrow> m | None \<Rightarrow> start_client_process e home timeout)"
    using assms by (cases start) (simp_all add: traces_quiet)
  then show ?thesis
    unfolding install_and_start_def
    by (intro traces_next traces_then [OF traces_ask] traces_bind_silent [OF traces_ask])
       (use traces_seq [OF traces_record] in fastforce)
qed

lemma traces_verify:
  "traces [STATE_VERSION_VERIFYING, STATE_UPDATE_CONFIRMED] (verify_installed e home manifest v)"
  unfolding verify_installed_def by (intro trace_intros)

text \<open>An update that is confirmed does not fail afterwards.\<close>

lemma verify_installed_Inl:
  "verify_installed e home manifest v w = (Inl x, w')
   \<Longrightarrow> states_of w' = states_of w @ [STATE_VERSION_VERIFYING]"
  by (auto simp: verify_installed_def seq_act_Inl bind_act_Inl ask_def guard_def record_update_state_def
        states_of_def Let_def split: if_splits)

definition install_states :: "string list" where
  "install_states =
     [STATE_CLIENT_STOPPING, STATE_CLIENT_STOPPED, STATE_BACKUP_CREATED, STATE_FILES_REPLACED,
      STATE_DEPENDENCIES_INSTALLING, STATE_CLIENT_STARTING, STATE_VERSION_VERIFYING]"

lemma install_update_states:
  assumes "quiet stop" "\<And>m. start = Some m \<Longrightarrow> quiet m"
    and run: "install_update e home stop start timeout staged manifest v w = (r, w')"
  shows "case r of
      Inr u \<Rightarrow> states_of w' = states_of w @ install_states @ [STATE_UPDATE_CONFIRMED]
    | Inl x \<Rightarrow> \<exists>n\<le>length install_states. states_of w' = states_of w @ take n install_states"
proof -
  let ?a = "seq_act (stop_and_back_up e home stop v)
     (seq_act (replace_files e home staged) (install_and_start e home start timeout))"
  let ?ss = "butlast install_states"
  have a: "traces ?ss ?a"
    using traces_seq [OF traces_back_up [OF assms(1)] traces_seq [OF traces_replace traces_install [OF assms(2)]]]
    by (simp add: install_states_def)
  have assoc: "install_update e home stop start timeout staged manifest v
      = seq_act ?a (verify_installed e home manifest v)"
    by (rule ext) (simp add: install_update_def seq_act_def bind_act_def split: prod.splits sum.splits)
  show ?thesis
  proof (cases r)
    case (Inr u)
    with run assoc obtain w1 where "?a w = (Inr (), w1)" "verify_installed e home manifest v w1 = (Inr u, w')"
      by (auto simp: seq_act_Inr)
    with traces_Inr [OF a] traces_Inr [OF traces_verify] Inr show ?thesis
      by (simp add: install_states_def)
  next
    case (Inl x)
    with run assoc consider "?a w = (Inl x, w')"
      | w1 where "?a w = (Inr (), w1)" "verify_installed e home manifest v w1 = (Inl x, w')"
      by (auto simp: seq_act_Inl)
    then have "\<exists>n\<le>length install_states. states_of w' = states_of w @ take n install_states"
    proof cases
      case 1
      with traces_Inl [OF a] obtain n where "n \<le> length ?ss" "states_of w' = states_of w @ take n ?ss"
        by blast
      moreover from \<open>n \<le> length ?ss\<close> have "n < length install_states"
        by (simp add: install_states_def)
      ultimately show ?thesis
        by (intro exI [of _ n]) (simp only: take_butlast, simp)
    next
      case 2
      with traces_Inr [OF a] verify_installed_Inl show ?thesis
        by (intro exI [of _ "length install_states"]) (simp add: install_states_def)
    qed
    with Inl show ?thesis by simp
  qed
qed

lemma rollback_result_cases:
  assumes "rollback_result e home backup start reason err w = (d, w')"
  obtains (no_backup) "d = update_failed reason err False"
      "w' = snd (record_update_state e home STATE_ROLLBACK_FAILED [(''error'', PStr err)] w)"
      "\<forall>b. backup = Some b \<longrightarrow> \<not> is_dir (files w) b"
  | (restored) b w1 where "d = update_failed reason err True" "backup = Some b"
      "seq_act (on_files (copy_tree e b (app_dir home)))
         (case start of Some m \<Rightarrow> m | None \<Rightarrow> return_act ()) w = (Inr (), w1)"
      "w' = snd (record_update_state e home STATE_ROLLBACK_COMPLETED
              [(''reason'', PStr reason), (''error'', PStr err)] w1)"
  | (failed) b x w1 where "d = update_failed ''ROLLBACK'' (err @ ''; rollback failed: '' @ exc_msg x) False"
      "backup = Some b" "seq_act (on_files (copy_tree e b (app_dir home)))
         (case start of Some m \<Rightarrow> m | None \<Rightarrow> return_act ()) w = (Inl x, w1)"
      "w' = snd (record_update_state e home STATE_ROLLBACK_FAILED [(''rollback_error'', PStr (exc_msg x))] w1)"
proof (cases "\<exists>b. backup = Some b \<and> is_dir (files w) b")
  case False
  with assms no_backup show thesis
    by (auto simp: rollback_result_def split: option.splits if_splits)
next
  case True
  then obtain b where b: "backup = Some b" "is_dir (files w) b" by blast
  obtain r w1 where run: "seq_act (on_files (copy_tree e b (app_dir home)))
      (case start of Some m \<Rightarrow> m | None \<Rightarrow> return_act ()) w = (r, w1)"
    by (metis surj_pair)
  show thesis
  proof (cases r)
    case (Inl x)
    with assms b run have
      "d = update_failed ''ROLLBACK'' (err @ ''; rollback failed: '' @ exc_msg x) False"
      "w' = snd (record_update_state e home STATE_ROLLBACK_FAILED [(''rollback_error'', PStr (exc_msg x))] w1)"
      by (simp_all add: rollback_result_def)
    then show thesis by (rule failed [OF _ b(1) run [unfolded Inl]])
  next
    case (Inr u)
    with assms b run have d: "d = update_failed reason err True"
      and w': "w' = snd (record_update_state e home STATE_ROLLBACK_COMPLETED
          [(''reason'', PStr reason), (''error'', PStr err)] w1)"
      by (simp_all add: rollback_result_def)
    from run Inr show thesis by (intro restored [OF d b(1) _ w']) simp
  qed
qed

lemma states_record [simp]:
  "states_of (snd (record_update_state e home st d w)) = states_of w @ [st]"
  by (simp add: record_update_state_def states_of_def Let_def)

definition rollback_state :: "pydict \<Rightarrow> string" where
  "rollback_state d =
     (if dget d ''rolled_back'' = PBool True then STATE_ROLLBACK_COMPLETED else STATE_ROLLBACK_FAILED)"

lemma rollback_result_states:
  assumes "rollback_result e home backup start reason err w = (d, w')"
    and "\<And>m. start = Some m \<Longrightarrow> quiet m"
  shows "states_of w' = states_of w @ [rollback_state d] \<and> dget d ''status'' = PStr ''UPDATE_FAILED''"
proof -
  have silent: "traces [] (seq_act (on_files (copy_tree e b (app_dir home)))
      (case start of Some m \<Rightarrow> m | None \<Rightarrow> return_act ()))" for b
    using assms(2) by (cases start) (simp_all add: traces_then traces_quiet)
  show ?thesis
    using assms(1)
    by (cases rule: rollback_result_cases)
       (auto simp: update_failed_def rollback_state_def dest!: traces_Inr [OF silent] traces_Inl [OF silent])
qed

lemma handle_failure_states:
  assumes "handle_failure e home backup start x w = (d, w')"
    and "\<And>m. start = Some m \<Longrightarrow> quiet m"
  shows "states_of w' = states_of w @ [failure_state x, rollback_state d] \<and>
    dget d ''status'' = PStr ''UPDATE_FAILED''"
  using rollback_result_states [OF assms(1) [unfolded handle_failure_def] assms(2)] by simp

lemma run_update_cases:
  assumes "run_update e home package stop start timeout staged w = (d, w')"
  obtains (invalid) x w1 where "prepare_update e home staged package w = (Inl x, w1)"
      "handle_failure e home None start x w1 = (d, w')"
  | (failed) manifest v x w1 w2 where "prepare_update e home staged package w = (Inr (manifest, v), w1)"
      "install_update e home stop start timeout staged manifest v w1 = (Inl x, w2)"
      "handle_failure e home (Some (resolve_join (history_dir home) v)) start x w2 = (d, w')"
  | (completed) manifest v w1 where "prepare_update e home staged package w = (Inr (manifest, v), w1)"
      "install_update e home stop start timeout staged manifest v w1 = (Inr (), w')"
      "d = [(''status'', PStr ''COMPLETED''), (''version'', dget manifest ''version''),
            (''old_version'', PStr v)]"
  using assms
  by (auto simp: run_update_def split: prod.splits sum.splits)

lemma apply_update_run:
  assumes "apply_update e home package stop start timeout w = (Inr d, w')"
  obtains f2 n w1 where "\<forall>q. \<not> prefix q (staging_dir home @ [n]) \<longrightarrow> subtree f2 q = subtree (files w) q"
    "run_update e home package stop start timeout (staging_dir home @ [n]) (w\<lparr>files := f2\<rparr>) = (d, w1)"
    "w' = w1\<lparr>files := rmtree (staging_dir home @ [n]) (files w1)\<rparr>"
proof -
  from assms obtain f1 f2 n where f: "mkdirs (staging_dir home) (files w) = Inr f1"
      "mkdirs (staging_dir home @ [n]) f1 = Inr f2"
    and rest: "(let (res, w1) = run_update e home package stop start timeout (staging_dir home @ [n])
                   (w\<lparr>files := f2\<rparr>)
                in (Inr res, w1\<lparr>files := rmtree (staging_dir home @ [n]) (files w1)\<rparr>)) = (Inr d, w')"
    by (auto simp: apply_update_def Let_def split: sum.splits prod.splits)
  obtain res w1 where run: "run_update e home package stop start timeout (staging_dir home @ [n])
      (w\<lparr>files := f2\<rparr>) = (res, w1)"
    by (metis surj_pair)
  have kept: "\<forall>q. \<not> prefix q (staging_dir home @ [n]) \<longrightarrow> subtree f2 q = subtree (files w) q"
  proof (intro allI impI)
    fix q assume q: "\<not> prefix q (staging_dir home @ [n])"
    then have "\<not> prefix q (staging_dir home)" by (metis prefix_snoc)
    with q f show "subtree f2 q = subtree (files w) q" by (simp add: subtree_mkdirs_apart)
  qed
  from rest run have "run_update e home package stop start timeout (staging_dir home @ [n])
      (w\<lparr>files := f2\<rparr>) = (d, w1)"
      "w' = w1\<lparr>files := rmtree (staging_dir home @ [n]) (files w1)\<rparr>"
    by auto
  with kept show thesis by (rule that)
qed

lemma traces_prepare:
  "traces [STATE_PACKAGE_VALIDATING, STATE_PACKAGE_VALIDATED] (prepare_update e home staged package)"
proof -
  have "traces [] (bind_act (ask (\<lambda>w. read_version e (app_dir home @ [''version.json'']) (files w)))
      (\<lambda>v. return_act (manifest, v)))" for manifest
    by (simp add: traces_bind_silent)
  from traces_bind [OF traces_validate this] show ?thesis by (simp add: prepare_update_def)
qed

definition success_states :: "string list" where
  "success_states =
     [STATE_PACKAGE_VALIDATING, STATE_PACKAGE_VALIDATED] @ install_states @ [STATE_UPDATE_CONFIRMED]"

text \<open>
  The states recorded during an update are those of the plan, in its order.  A completed update
  records all of them.  A failed one records a proper prefix that leaves out the confirmation, then
  the failure state of the exception and whether it was rolled back, which is what the result says.
\<close>

theorem update_states_follow_plan:
  assumes "quiet stop" "\<And>m. start = Some m \<Longrightarrow> quiet m"
    and "apply_update e home package stop start timeout w = (Inr d, w')"
  shows "(dget d ''status'' = PStr ''COMPLETED'' \<and> states_of w' = states_of w @ success_states) \<or>
    (dget d ''status'' = PStr ''UPDATE_FAILED'' \<and>
     (\<exists>n<length success_states. \<exists>x.
        states_of w' = states_of w @ take n success_states @ [failure_state x, rollback_state d]))"
proof -
  from assms(3) obtain f2 n w1 where
    run: "run_update e home package stop start timeout (staging_dir home @ [n]) (w\<lparr>files := f2\<rparr>) = (d, w1)"
    and w': "w' = w1\<lparr>files := rmtree (staging_dir home @ [n]) (files w1)\<rparr>"
    by (rule apply_update_run)
  have sw: "states_of (w\<lparr>files := f2\<rparr>) = states_of w" "states_of w' = states_of w1"
    by (simp_all add: w' states_of_def)
  from run show ?thesis
  proof (cases rule: run_update_cases)
    case (invalid x w0)
    from traces_Inl [OF traces_prepare invalid(1)] obtain k where k: "k \<le> 2"
      "states_of w0 = states_of w @ take k [STATE_PACKAGE_VALIDATING, STATE_PACKAGE_VALIDATED]"
      using sw by (auto simp: numeral_2_eq_2)
    moreover from k(1) have "take k [STATE_PACKAGE_VALIDATING, STATE_PACKAGE_VALIDATED] = take k success_states"
      by (simp add: success_states_def take_Cons' split: if_splits)
    ultimately have "k \<le> 2" "states_of w0 = states_of w @ take k success_states" by simp_all
    with handle_failure_states [OF invalid(2) assms(2)] sw show ?thesis
      by (intro disjI2 conjI exI [of _ k] exI [of _ x]) (simp_all add: success_states_def)
  next
    case (failed manifest v x w0 w2)
    from install_update_states [OF assms(1,2) failed(2)] obtain k where
      "k \<le> length install_states" "states_of w2 = states_of w0 @ take k install_states"
      by auto
    with traces_Inr [OF traces_prepare failed(1)] handle_failure_states [OF failed(3) assms(2)] sw
    show ?thesis
      by (intro disjI2 conjI exI [of _ "2 + k"] exI [of _ x]) (simp_all add: success_states_def)
  next
    case (completed manifest v w0)
    with traces_Inr [OF traces_prepare completed(1)] install_update_states [OF assms(1,2) completed(2)] sw
    show ?thesis by (simp add: success_states_def)
  qed
qed

section \<open>Rollback\<close>

lemma keeps_const [simp]: "keeps (\<lambda>_. c) m"
  by (simp add: keeps_def)

lemma keeps_conj: "keeps P m \<Longrightarrow> keeps Q m \<Longrightarrow> keeps (\<lambda>w. P w \<and> Q w) m"
  by (simp add: keeps_def)

lemma is_dir_subtree: "is_dir f p \<longleftrightarrow> subtree f p [] = Some FDir"
  by (simp add: is_dir_def subtree_def)

text \<open>The application tree \<open>A\<close> is in place, or its backup is.\<close>

definition recoverable :: "path \<Rightarrow> path \<Rightarrow> fs \<Rightarrow> world \<Rightarrow> bool" where
  "recoverable app b A w \<longleftrightarrow>
     (tree_is app A w \<and> (is_dir (files w) b \<longrightarrow> tree_is b A w)) \<or> (tree_is b A w \<and> A [] = Some FDir)"

definition backup_place :: "path \<Rightarrow> path \<Rightarrow> bool" where
  "backup_place home b \<longleftrightarrow> strict_prefix (history_dir home) b"

lemma backup_place_apart:
  assumes "backup_place home b"
  shows "apart (app_dir home) b" "apart b (app_dir home)" "off_state home b" "\<not> prefix b (history_dir home)"
    "apart (home @ [''updater'']) b" "apart (staging_dir home @ [n]) b" "\<not> prefix b (staging_dir home @ [n])"
proof -
  from assms obtain x xs where b: "b = history_dir home @ x # xs"
    by (auto simp: backup_place_def elim: strict_prefixE')
  show "apart (app_dir home) b" "apart b (app_dir home)" "off_state home b" "\<not> prefix b (history_dir home)"
    "apart (home @ [''updater'']) b" "apart (staging_dir home @ [n]) b" "\<not> prefix b (staging_dir home @ [n])"
    by (simp_all add: b app_dir_def history_dir_def updates_dir_def off_state_def staging_dir_def)
qed

lemma app_apart:
  "off_state home (app_dir home)" "\<not> prefix (app_dir home) (history_dir home)"
  "apart (home @ [''updater'']) (app_dir home)" "apart (staging_dir home @ [n]) (app_dir home)"
  "\<not> prefix (app_dir home) (staging_dir home @ [n])"
  by (simp_all add: app_dir_def history_dir_def updates_dir_def off_state_def staging_dir_def)

lemma copy_tree_copies:
  assumes "copy_tree e src dest f = (Inr u, f')" "apart dest src"
  shows "subtree f' dest = subtree f src \<and> is_dir f src"
  using assms(1)
proof (cases rule: copy_tree_cases)
  case (copied f2)
  with assms(2) show ?thesis
    by (simp_all add: subtree_rmtree_apart is_dir_subtree)
qed simp_all

lemma failed_back_up_harmless:
  assumes "copy_tree e src dest f = (Inl x, f')" "apart dest src" "io_fault e src dest f = None"
    and "is_dir f dest \<longrightarrow> subtree f dest = subtree f src"
  shows "subtree f' src = subtree f src \<and> (is_dir f' dest \<longrightarrow> subtree f' dest = subtree f src)"
proof -
  have gone: "\<not> is_dir (rmtree dest f) dest"
    by (simp add: is_dir_def rmtree_def)
  from assms(1) show ?thesis
    by (cases rule: copy_tree_cases) (use assms gone in \<open>auto simp: subtree_rmtree_apart\<close>)
qed

lemma triple_back_up:
  assumes "backup_place home b" and b: "b = resolve_join (history_dir home) v"
    and "quiet stop" "\<And>f. io_fault e (app_dir home) b f = None"
    and "B [] = Some FDir \<Longrightarrow> B = A"
  shows "triple (\<lambda>w. tree_is (app_dir home) A w \<and> tree_is b B w) (stop_and_back_up e home stop v)
    (\<lambda>_ w. tree_is b A w \<and> A [] = Some FDir) (recoverable (app_dir home) b A)" (is "triple ?P _ _ ?E")
proof -
  note places = backup_place_apart [OF assms(1)] app_apart
  have P_E: "?E w" if "?P w" for w
    using that assms(5) by (auto simp: recoverable_def tree_is_def is_dir_subtree)
  have kept: "triple ?P m (\<lambda>_. ?P) ?E"
    if "keeps (tree_is (app_dir home) A) m" "keeps (tree_is b B) m" for m :: "(world, unit) act"
    by (rule triple_weaken [OF triple_keeps [OF keeps_conj [OF that]]]) (use P_E in auto)
  have copied: "triple ?P (on_files (copy_tree e (app_dir home) b))
      (\<lambda>_ w. tree_is b A w \<and> A [] = Some FDir) ?E"
  proof (rule tripleI)
    fix w x w'
    assume "?P w" "on_files (copy_tree e (app_dir home) b) w = (Inl x, w')"
    with failed_back_up_harmless [of e "app_dir home" b "files w" x "files w'"] assms(4,5) places
    show "?E w'"
      by (auto simp: on_files_def recoverable_def tree_is_def is_dir_subtree split: prod.splits)
  next
    fix w u w'
    assume "?P w" "on_files (copy_tree e (app_dir home) b) w = (Inr u, w')"
    with copy_tree_copies [of e "app_dir home" b "files w" u "files w'"] places
    show "tree_is b A w' \<and> A [] = Some FDir"
      by (auto simp: on_files_def tree_is_def is_dir_subtree split: prod.splits)
  qed
  have recorded: "triple (\<lambda>w. tree_is b A w \<and> A [] = Some FDir) (record_update_state e home st d)
      (\<lambda>_ w. tree_is b A w \<and> A [] = Some FDir) ?E" for st d
    by (rule triple_weaken [OF triple_keeps [OF keeps_conj [OF keeps_tree_record [OF places(3)] keeps_const]]])
       (auto simp: recoverable_def)
  show ?thesis
    unfolding stop_and_back_up_def b [symmetric]
    by (intro triple_seq [OF kept] triple_seq [OF copied recorded] keeps_tree_mkdirs keeps_tree_record
          quiet_keeps_tree assms(3) places)
qed

lemma triple_install_update:
  assumes "backup_place home b" and b: "b = resolve_join (history_dir home) v"
    and "quiet stop" "\<And>m. start = Some m \<Longrightarrow> quiet m"
    and "\<And>f. io_fault e (app_dir home) b f = None"
    and "B [] = Some FDir \<Longrightarrow> B = A"
  shows "triple (\<lambda>w. tree_is (app_dir home) A w \<and> tree_is b B w)
    (install_update e home stop start timeout staged manifest v)
    (\<lambda>_ _. True) (recoverable (app_dir home) b A)"
proof -
  note places = backup_place_apart [OF assms(1)] app_apart
  have "keeps (tree_is b A) (seq_act (replace_files e home staged)
      (seq_act (install_and_start e home start timeout) (verify_installed e home manifest v)))"
    by (intro keeps_seq keeps_tree_replace keeps_tree_install keeps_tree_verify places assms(4))
  then have "triple (\<lambda>w. tree_is b A w \<and> A [] = Some FDir) (seq_act (replace_files e home staged)
      (seq_act (install_and_start e home start timeout) (verify_installed e home manifest v)))
      (\<lambda>_ _. True) (recoverable (app_dir home) b A)"
    by (auto intro!: tripleI dest: keepsD simp: recoverable_def)
  with triple_back_up [OF assms(1) b assms(3,5,6)] show ?thesis
    unfolding install_update_def by (rule triple_seq)
qed

lemma rollback_recovers:
  assumes "rollback_result e home (Some b) start reason err w = (d, w')"
    and "recoverable (app_dir home) b A w" "backup_place home b" "\<And>m. start = Some m \<Longrightarrow> quiet m"
  shows "dget d ''reason'' = PStr ''ROLLBACK'' \<or> subtree (files w') (app_dir home) = A"
  using assms(1)
proof (cases rule: rollback_result_cases)
  case no_backup
  with assms(2) show ?thesis
    by (auto simp: record_update_state_def write_state_subtree [OF app_apart(1)] recoverable_def
          tree_is_def is_dir_subtree Let_def)
next
  case (restored b' w1)
  then obtain w0 where "on_files (copy_tree e b (app_dir home)) w = (Inr (), w0)"
    and start: "(case start of Some m \<Rightarrow> m | None \<Rightarrow> return_act ()) w0 = (Inr (), w1)"
    by (auto simp: seq_act_Inr)
  then have copy: "copy_tree e b (app_dir home) (files w) = (Inr (), files w0)"
    by (auto simp: on_files_def split: prod.splits)
  from start assms(4) have "files w1 = files w0"
    by (cases start) (auto simp: quiet_def dest!: spec [of _ w0])
  with copy_tree_copies [OF copy backup_place_apart(1) [OF assms(3)]] assms(2) restored(4) show ?thesis
    by (auto simp: record_update_state_def write_state_subtree [OF app_apart(1)] recoverable_def
          tree_is_def Let_def)
next
  case (failed b' x w1)
  then show ?thesis by (simp add: update_failed_def)
qed

lemma handle_failure_recovers:
  assumes "handle_failure e home (Some b) start x w = (d, w')"
    and "recoverable (app_dir home) b A w" "backup_place home b" "\<And>m. start = Some m \<Longrightarrow> quiet m"
  shows "dget d ''reason'' = PStr ''ROLLBACK'' \<or> subtree (files w') (app_dir home) = A"
proof (rule rollback_recovers [OF assms(1) [unfolded handle_failure_def] _ assms(3,4)])
  show "recoverable (app_dir home) b A (snd (record_update_state e home (failure_state x) (failure_details x) w))"
    using assms(2) backup_place_apart(3) [OF assms(3)] app_apart(1)
    by (simp add: recoverable_def record_update_state_def tree_is_def is_dir_subtree write_state_subtree Let_def)
qed

section \<open>What an update leaves behind\<close>

lemma read_version_local: "f p = g p \<Longrightarrow> read_version e p f = read_version e p g"
  by (simp add: read_version_def is_file_def read_json_def read_text_def)

lemma tree_isD: "tree_is q A w \<Longrightarrow> files w (q @ r) = A r"
  by (auto simp: tree_is_def subtree_def)

lemma prepare_update_Inr:
  assumes "prepare_update e home staged package w = (Inr (manifest, v), w')"
  shows "validate_package e home staged package w = (Inr manifest, w')"
    and "read_version e (app_dir home @ [''version.json'']) (files w') = Inr v"
  using assms by (auto simp: prepare_update_def bind_act_Inr ask_def)

lemma keeps_tree_prepare:
  "apart staged q \<Longrightarrow> off_state home q \<Longrightarrow> keeps (tree_is q A) (prepare_update e home staged package)"
  unfolding prepare_update_def by (intro keeps_bind keeps_tree_validate keeps_ask keeps_return)

lemma rmtree_staged_app:
  "subtree (rmtree (staging_dir home @ [n]) f) (app_dir home) = subtree f (app_dir home)"
  by (rule subtree_rmtree_apart [OF app_apart(4)])


lemma verify_hashes_Inr:
  "verify_hashes e p hs f = Inr u \<longleftrightarrow> (\<forall>h\<in>set hs. hash_error e p f h = None)"
  by (induction hs) (auto split: option.splits)

lemma hash_error_None:
  assumes "hash_error e p f (name, expected) = None"
  obtains r c where "resolve_join p name = p @ r" "subtree f p r = Some (FFile c)"
    "lower (sha256 e c) = lower (str_of e expected)"
  using assms
  by (auto simp: hash_error_def Let_def inside_def subtree_def prefix_def
        split: if_splits option.splits node.splits)

lemma validate_package_Inr:
  assumes "validate_package e home staged package w = (Inr manifest, w')"
    and "off_state home (staged @ [''app''])"
  obtains f0 f1 where "safe_extract e package staged MAX_UNCOMPRESSED f0 = (Inr (), f1)"
    "read_json e (staged @ [''manifest.json'']) f1 = Inr manifest" "validate_manifest e manifest = Inr ()"
    "\<forall>hs. dget manifest ''file_hashes'' = PDict hs \<longrightarrow>
       (\<forall>h\<in>set hs. hash_error e (staged @ [''app'']) f1 h = None)"
    "subtree (files w') (staged @ [''app'']) = subtree f1 (staged @ [''app''])"
proof -
  from assms(1) obtain w0 w1 where x: "on_files (safe_extract e package staged MAX_UNCOMPRESSED) w0 = (Inr (), w1)"
    and j: "read_json e (staged @ [''manifest.json'']) (files w1) = Inr manifest"
    and v: "validate_manifest e manifest = Inr ()"
    and h: "(case dget manifest ''file_hashes'' of
        PDict hs \<Rightarrow> verify_hashes e (staged @ [''app'']) hs (files w1) | _ \<Rightarrow> Inr ()) = Inr ()"
    and r: "record_update_state e home STATE_PACKAGE_VALIDATED [(''version'', dget manifest ''version'')] w1
      = (Inr (), w')"
    unfolding validate_package_def
    by (fastforce simp: seq_act_Inr bind_act_Inr ask_def guard_def split: if_splits)
  from x have "safe_extract e package staged MAX_UNCOMPRESSED (files w0) = (Inr (), files w1)"
    by (auto simp: on_files_def split: prod.splits)
  moreover from r assms(2) have "subtree (files w') (staged @ [''app'']) = subtree (files w1) (staged @ [''app''])"
    by (auto simp: record_update_state_def Let_def write_state_subtree)
  moreover from h have "\<forall>hs. dget manifest ''file_hashes'' = PDict hs \<longrightarrow>
       (\<forall>h\<in>set hs. hash_error e (staged @ [''app'']) (files w1) h = None)"
    by (auto simp: verify_hashes_Inr)
  ultimately show thesis using j v by (intro that)
qed

lemma replace_files_Inr:
  assumes "replace_files e home staged w = (Inr u, w')" "apart (app_dir home) (staged @ [''app''])"
  shows "subtree (files w') (app_dir home) = subtree (files w) (staged @ [''app''])"
proof -
  from assms(1) obtain w1 where c: "on_files (copy_tree e (staged @ [''app'']) (app_dir home)) w = (Inr (), w1)"
    and r: "seq_act (on_files (replace_updater e home staged))
      (record_update_state e home STATE_FILES_REPLACED []) w1 = (Inr u, w')"
    by (auto simp: replace_files_def seq_act_Inr)
  from c copy_tree_copies [OF _ assms(2), of e "files w"]
  have "tree_is (app_dir home) (subtree (files w) (staged @ [''app''])) w1"
    by (auto simp: on_files_def tree_is_def split: prod.splits)
  from keepsD [OF keeps_seq [OF keeps_tree_updater [OF app_apart(3)] keeps_tree_record [OF app_apart(1)]] this r]
  show ?thesis by (simp add: tree_is_def)
qed

lemma install_update_Inr:
  assumes "install_update e home stop start timeout (staging_dir home @ [n]) manifest v w = (Inr u, w')"
    and "quiet stop" "\<And>m. start = Some m \<Longrightarrow> quiet m"
    and "backup_place home (resolve_join (history_dir home) v)"
  shows "subtree (files w') (app_dir home) = subtree (files w) (staging_dir home @ [n, ''app''])"
proof -
  let ?q = "staging_dir home @ [n, ''app'']"
  let ?b = "resolve_join (history_dir home) v"
  have q: "off_state home ?q" "\<not> prefix ?q (history_dir home)" "apart (app_dir home) ?q"
    by (simp_all add: app_dir_def history_dir_def updates_dir_def off_state_def staging_dir_def)
  have "apart ?b ((staging_dir home @ [n]) @ [''app''])"
    by (rule apart_append [OF apart_sym [OF backup_place_apart(6) [OF assms(4)]]])
  then have b: "apart ?b ?q" by (simp only: append_assoc append_Cons append_Nil)
  from assms(1) obtain w1 w2 where w1: "stop_and_back_up e home stop v w = (Inr (), w1)"
    and w2: "replace_files e home (staging_dir home @ [n]) w1 = (Inr (), w2)"
    and rest: "seq_act (install_and_start e home start timeout) (verify_installed e home manifest v) w2 = (Inr u, w')"
    by (auto simp: install_update_def seq_act_Inr)
  have "keeps (tree_is ?q (subtree (files w) ?q)) (stop_and_back_up e home stop v)"
    unfolding stop_and_back_up_def
    by (intro keeps_seq keeps_tree_mkdirs keeps_tree_record keeps_tree_copy quiet_keeps_tree assms(2) q b)
  with w1 have "subtree (files w1) ?q = subtree (files w) ?q"
    by (auto simp: tree_is_def dest: keepsD)
  with replace_files_Inr [OF w2] q(3) have "tree_is (app_dir home) (subtree (files w) ?q) w2"
    by (simp add: tree_is_def)
  with keepsD [OF keeps_seq [OF keeps_tree_install keeps_tree_verify], OF app_apart(1) assms(3) app_apart(1) _ rest]
  show ?thesis by (simp add: tree_is_def)
qed


section \<open>Concrete updates\<close>

text \<open>An installation of version 1 in \<open>/c\<close>, a package of version 2, and a client that starts as given.\<close>

definition demo_manifest :: pydict where
  "demo_manifest =
     [(''version'', PStr ''2''), (''package_type'', PStr ''client-update''),
      (''minimum_updater_version'', PStr ''1.0''), (''file_hashes'', PDict [(''client.py'', PStr ''new'')])]"

definition demo_entry :: "string \<Rightarrow> string \<Rightarrow> zip_entry" where
  "demo_entry name text = \<lparr>filename = name, file_size = 9, entry_data = text, entry_fault = None\<rparr>"

definition demo_env :: "zip_entry list \<Rightarrow> launch_outcome \<Rightarrow> (path \<Rightarrow> (string \<times> fs) option) \<Rightarrow> env" where
  "demo_env entries outcome fault =
     \<lparr>open_zip = (\<lambda>_. Inr entries),
      json_loads = (\<lambda>t. if t = ''M'' then Inr (PDict demo_manifest) else Inr (PDict [(''version'', PStr (tl t))])),
      json_dumps = (\<lambda>_. ''S''), sha256 = (\<lambda>t. t), py_repr = (\<lambda>_. []), clock_fields = (\<lambda>_. []),
      sys_executable = [''py''], tmp_name = (\<lambda>_. ''x''), io_fault = (\<lambda>src dest f. fault dest),
      launch = (\<lambda>_ _ _. outcome), pip = (\<lambda>_. None)\<rparr>"

definition demo_package :: "zip_entry list" where
  "demo_package =
     [demo_entry ''manifest.json'' ''M'', demo_entry ''app/client.py'' ''new'', demo_entry ''app/version.json'' ''V2'']"

definition demo_fs :: fs where
  "demo_fs = map_of
     [([''py''], FFile []), ([''p.zip''], FFile ''Z''), ([], FDir), ([''c''], FDir), ([''c'', ''app''], FDir),
      ([''c'', ''app'', ''client.py''], FFile ''old''), ([''c'', ''app'', ''version.json''], FFile ''V1'')]"

definition demo_world :: "fs \<Rightarrow> world" where
  "demo_world f = \<lparr>files = f, calls = [], launched = []\<rparr>"

definition demo_update :: "launch_outcome \<Rightarrow> pydict result \<times> world" where
  "demo_update outcome =
     apply_update (demo_env demo_package outcome (\<lambda>_. None)) [''c''] [''p.zip''] (return_act ()) None 10
       (demo_world demo_fs)"

lemma demo_version:
  "read_version (demo_env demo_package outcome fault) (app_dir [''c''] @ [''version.json'']) (files (demo_world demo_fs))
     = Inr ''1''"
  "backup_place [''c''] (resolve_join (history_dir [''c'']) ''1'')"
  "\<not> is_dir (files (demo_world demo_fs)) (resolve_join (history_dir [''c'']) ''1'')"
  by code_simp+

lemma demo_update_completes:
  obtains d w' where "demo_update NoPoll = (Inr d, w')" "dget d ''status'' = PStr ''COMPLETED''"
proof -
  have "case demo_update NoPoll of (Inr d, w') \<Rightarrow> dget d ''status'' = PStr ''COMPLETED'' | _ \<Rightarrow> False"
    by code_simp
  then show thesis using that by (auto split: prod.splits sum.splits)
qed

lemma demo_update_fails:
  obtains d w' where "demo_update (Exited 1 7) = (Inr d, w')"
    "dget d ''reason'' = PStr ''APPLICATION_START_FAILED''" "dget d ''status'' = PStr ''UPDATE_FAILED''"
proof -
  have "case demo_update (Exited 1 7) of
      (Inr d, w') \<Rightarrow> dget d ''reason'' = PStr ''APPLICATION_START_FAILED'' \<and>
                    dget d ''status'' = PStr ''UPDATE_FAILED'' | _ \<Rightarrow> False"
    by code_simp
  then show thesis using that by (auto split: prod.splits sum.splits)
qed

lemma safe_extract_confined_witness:
  "\<exists>msg. safe_extract (demo_env [demo_entry ''../x'' ''evil''] NoPoll (\<lambda>_. None)) [''p.zip''] [''c'', ''s''] 100 demo_fs
     = (raise_exc ValueError msg, demo_fs)"
proof -
  let ?infos = "[demo_entry ''../x'' ''evil'']"
  let ?e = "demo_env ?infos NoPoll (\<lambda>_. None)"
  obtain r f' where run: "safe_extract ?e [''p.zip''] [''c'', ''s''] 100 demo_fs = (r, f')"
    by (metis surj_pair)
  have "then_do (read_text demo_fs [''p.zip'']) (open_zip ?e) = Inr ?infos"
    by (simp add: demo_env_def read_text_def demo_fs_def)
  moreover have "list_ex (unsafe_entry [''c'', ''s'']) ?infos"
    by code_simp
  ultimately show ?thesis
    using safe_extract_confined [OF run] run by auto
qed



lemma update_states_follow_plan_witness:
  "\<exists>d w'. demo_update NoPoll = (Inr d, w') \<and> states_of w' = success_states"
proof -
  obtain d w' where run: "demo_update NoPoll = (Inr d, w')" "dget d ''status'' = PStr ''COMPLETED''"
    by (rule demo_update_completes)
  show ?thesis
    using update_states_follow_plan [OF quiet_return _ run(1) [unfolded demo_update_def]] run
    by (auto simp: demo_world_def states_of_def)
qed

text \<open>
  A fault while the backup is being copied leaves a directory with part of the application in it.  The
  rollback takes it for the backup.
\<close>

definition partial_backup :: "path \<Rightarrow> (string \<times> fs) option" where
  "partial_backup dest =
     (if dest = [''c'', ''storage'', ''updates'', ''history'', ''1'']
      then Some (''No space left on device'', map_of [([], FDir), ([''version.json''], FFile ''V1'')])
      else None)"

text \<open>
  When copying the backup fails halfway, the rollback replaces the application, which was
  untouched, by the partial backup, and reports that it rolled back: here the client's program file
  is gone.
\<close>

theorem partial_backup_destroys_app:
  "case apply_update (demo_env demo_package NoPoll partial_backup) [''c''] [''p.zip''] (return_act ()) None 10
          (demo_world demo_fs) of
     (Inr d, w') \<Rightarrow>
       dget d ''status'' = PStr ''UPDATE_FAILED'' \<and> dget d ''rolled_back'' = PBool True \<and>
       demo_fs [''c'', ''app'', ''client.py''] = Some (FFile ''old'') \<and>
       files w' [''c'', ''app'', ''client.py''] = None
   | _ \<Rightarrow> False"
  by code_simp

text \<open>With a backup of the same version from an earlier update, a stop that raises installs that backup.\<close>

lemma failed_stop_installs_stale_backup:
  "case apply_update (demo_env demo_package NoPoll (\<lambda>_. None)) [''c''] [''p.zip'']
          (raise_act OtherException ''access denied'') None 10
          (demo_world (demo_fs([''c'', ''storage'', ''updates'', ''history'', ''1''] \<mapsto> FDir,
             [''c'', ''storage'', ''updates'', ''history'', ''1'', ''client.py''] \<mapsto> FFile ''older''))) of
     (Inr d, w') \<Rightarrow> files w' [''c'', ''app'', ''client.py''] = Some (FFile ''older'')
   | _ \<Rightarrow> False"
  by code_simp

text \<open>A process of an installation whose path extends this one's is taken for this one's client.\<close>

lemma neighbour_install_is_victim:
  "is_victim 1 [''opt'', ''scanner'']
     \<lparr>proc_pid = 7, proc_name = Some ''python'', proc_cmdline = Some [''python'', ''/opt/scanner2/client.py''],
      proc_cwd = None, proc_hidden = False, terminate_fails = False, wait_outcome = WaitEnded\<rparr>"
  by code_simp

end
