(* ===== verification/Formats.thy ===== *)
theory Formats
  imports Interfaces
begin

text \<open>
  The text formats of the standard library that several components read: ISO 8601 timestamps
  (\<open>datetime.fromisoformat\<close> on the extended format), IPv4 and IPv6 addresses
  (\<open>ipaddress.ip_address\<close>), and MAC addresses in their compact form.  A timestamp is a number of
  microseconds since the epoch.
\<close>

fun ilen :: "'a list \<Rightarrow> int" where
  "ilen [] = 0"
| "ilen (x # xs) = 1 + ilen xs"

lemma ilen_length: "ilen xs = int (length xs)"
  by (induction xs) simp_all

section \<open>Calendar\<close>

definition is_leap :: "int \<Rightarrow> bool" where
  "is_leap y \<longleftrightarrow> y mod 4 = 0 \<and> (y mod 100 \<noteq> 0 \<or> y mod 400 = 0)"

definition days_in_month :: "int \<Rightarrow> int \<Rightarrow> int" where
  "days_in_month y m =
     (if m = 2 then (if is_leap y then 29 else 28)
      else if m = 4 \<or> m = 6 \<or> m = 9 \<or> m = 11 then 30 else 31)"

text \<open>Days from the start of the year to the start of the month.\<close>

definition days_before_month :: "int \<Rightarrow> int \<Rightarrow> int" where
  "days_before_month y m =
     (if m \<le> 1 then 0 else if m = 2 then 31
      else (if m = 3 then 59 else if m = 4 then 90 else if m = 5 then 120 else if m = 6 then 151
            else if m = 7 then 181 else if m = 8 then 212 else if m = 9 then 243 else if m = 10 then 273
            else if m = 11 then 304 else 334) + (if is_leap y then 1 else 0))"

definition valid_date :: "int \<Rightarrow> int \<Rightarrow> int \<Rightarrow> bool" where
  "valid_date y m d \<longleftrightarrow> 1 \<le> y \<and> 1 \<le> m \<and> m \<le> 12 \<and> 1 \<le> d \<and> d \<le> days_in_month y m"

text \<open>Days since 1970-01-01.\<close>

definition days_of :: "int \<Rightarrow> int \<Rightarrow> int \<Rightarrow> int" where
  "days_of y m d =
     365 * (y - 1) + (y - 1) div 4 - (y - 1) div 100 + (y - 1) div 400 + days_before_month y m + d - 719163"

definition USEC :: int where
  "USEC = 1000000"

definition HOUR :: int where
  "HOUR = 3600 * USEC"

definition DAY :: int where
  "DAY = 86400 * USEC"

text \<open>Later dates have later day numbers.\<close>

lemma days_before_month_step:
  assumes "1 \<le> m" "m < 12"
  shows "days_before_month y (m + 1) = days_before_month y m + days_in_month y m"
proof -
  have "m = 1 \<or> m = 2 \<or> m = 3 \<or> m = 4 \<or> m = 5 \<or> m = 6 \<or> m = 7 \<or> m = 8 \<or> m = 9 \<or> m = 10 \<or> m = 11"
    using assms by presburger
  then show ?thesis
    by (elim disjE) (simp_all add: days_before_month_def days_in_month_def)
qed

lemma days_of_next_day: "days_of y m (d + 1) = days_of y m d + 1"
  by (simp add: days_of_def)

lemma days_of_next_month:
  "1 \<le> m \<Longrightarrow> m < 12 \<Longrightarrow> days_of y (m + 1) 1 = days_of y m (days_in_month y m) + 1"
  by (simp add: days_of_def days_before_month_step)

lemma div_step:
  fixes y k :: int
  assumes "0 < k"
  shows "y div k = (y - 1) div k + (if y mod k = 0 then 1 else 0)"
proof -
  define q r where "q = (y - 1) div k" and "r = (y - 1) mod k"
  have y: "y = q * k + (r + 1)" and r: "0 \<le> r" "r < k"
    using assms by (simp_all add: q_def r_def)
  have "y div k = q + (r + 1) div k" "y mod k = (r + 1) mod k"
    using assms by (simp_all add: y div_mult_self1 mod_mult_self1 add.commute)
  with r show ?thesis
    unfolding q_def [symmetric] by (cases "r + 1 = k") auto
qed


lemma days_of_next_year: "days_of (y + 1) 1 1 = days_of y 12 31 + 1"
proof -
  have m: "y mod 400 = 0 \<Longrightarrow> y mod 100 = 0" "y mod 100 = 0 \<Longrightarrow> y mod 4 = 0"
    using dvd_trans [of 100 400 y] dvd_trans [of 4 100 y] by (simp_all add: mod_eq_0_iff_dvd)
  have d: "y div 4 = (y - 1) div 4 + (if y mod 4 = 0 then 1 else 0)"
    "y div 100 = (y - 1) div 100 + (if y mod 100 = 0 then 1 else 0)"
    "y div 400 = (y - 1) div 400 + (if y mod 400 = 0 then 1 else 0)"
    by (rule div_step; simp)+
  have s: "days_of (y + 1) 1 1 = 365 * y + y div 4 - y div 100 + y div 400 + 1 - 719163"
    by (simp add: days_of_def days_before_month_def)
  have e: "days_of y 12 31 = 365 * (y - 1) + (y - 1) div 4 - (y - 1) div 100 + (y - 1) div 400
      + (334 + (if is_leap y then 1 else 0)) + 31 - 719163"
    by (simp add: days_of_def days_before_month_def)
  have count: "(if A then 1 else 0) - (if B then 1 else 0) + (if C then 1 else 0)
      = (if A \<and> (\<not> B \<or> C) then 1 else (0::int))" if "C \<longrightarrow> B" "B \<longrightarrow> A" for A B C
    using that by (cases A; cases B; cases C) simp_all
  have gen: "365 * y + (a + i) - (b + j) + (c + k) + 1 - 719163 =
      365 * (y - 1) + a - b + c + (334 + l) + 31 - 719163 + 1" if "i - j + k = l" for a b c i j k l :: int
    using that by (simp add: algebra_simps)
  have "(if y mod 4 = 0 then 1 else 0) - (if y mod 100 = 0 then 1 else 0) + (if y mod 400 = 0 then 1 else 0)
      = (if is_leap y then 1 else (0::int))"
    unfolding is_leap_def by (rule count) (use m in blast)+
  then show ?thesis
    unfolding s e d by (rule gen)
qed
section \<open>ISO timestamps\<close>

definition two_digits :: "char \<Rightarrow> char \<Rightarrow> int option" where
  "two_digits a b = (if is_digit a \<and> is_digit b then Some (10 * digit_val a + digit_val b) else None)"

definition parse_date :: "string \<Rightarrow> int option" where
  "parse_date s =
     (case s of
        [y1, y2, y3, y4, s1, m1, m2, s2, d1, d2] \<Rightarrow>
          (case (two_digits y1 y2, two_digits y3 y4, two_digits m1 m2, two_digits d1 d2) of
             (Some ya, Some yb, Some m, Some d) \<Rightarrow>
               if s1 = CHR ''-'' \<and> s2 = CHR ''-'' \<and> valid_date (100 * ya + yb) m d
               then Some (days_of (100 * ya + yb) m d) else None
           | _ \<Rightarrow> None)
      | _ \<Rightarrow> None)"

text \<open>Digits after the sixth decimal are dropped.\<close>

definition parse_fraction :: "string \<Rightarrow> int option" where
  "parse_fraction s =
     (case s of
        [] \<Rightarrow> Some 0
      | c # ds \<Rightarrow>
          if (c = CHR ''.'' \<or> c = CHR '','') \<and> ds \<noteq> [] \<and> list_all is_digit ds
          then (case ds @ ''000000'' of
                  a # b # c # d # e # f # _ \<Rightarrow> Some (digits_val 0 [a, b, c, d, e, f])
                | _ \<Rightarrow> None)
          else None)"

definition parse_seconds :: "string \<Rightarrow> int option" where
  "parse_seconds s =
     (case s of
        [] \<Rightarrow> Some 0
      | c # a # b # r \<Rightarrow>
          (case (two_digits a b, parse_fraction r) of
             (Some n, Some u) \<Rightarrow> if c = CHR '':'' \<and> n < 60 then Some (USEC * n + u) else None
           | _ \<Rightarrow> None)
      | _ \<Rightarrow> None)"

definition parse_minutes :: "string \<Rightarrow> int option" where
  "parse_minutes s =
     (case s of
        [] \<Rightarrow> Some 0
      | c # a # b # r \<Rightarrow>
          (case (two_digits a b, parse_seconds r) of
             (Some n, Some u) \<Rightarrow> if c = CHR '':'' \<and> n < 60 then Some (60 * USEC * n + u) else None
           | _ \<Rightarrow> None)
      | _ \<Rightarrow> None)"

definition parse_time :: "string \<Rightarrow> int option" where
  "parse_time s =
     (case s of
        a # b # r \<Rightarrow>
          (case (two_digits a b, parse_minutes r) of
             (Some n, Some u) \<Rightarrow> if n < 24 then Some (HOUR * n + u) else None
           | _ \<Rightarrow> None)
      | _ \<Rightarrow> None)"

text \<open>The UTC offset of the text from its sign on; \<open>None\<close> inside for a text without offset.\<close>

definition parse_offset :: "string \<Rightarrow> int option option" where
  "parse_offset s =
     (case s of
        [] \<Rightarrow> Some None
      | c # r \<Rightarrow>
          if c = CHR ''Z'' then (if r = [] then Some (Some 0) else None)
          else (case parse_time r of
                  None \<Rightarrow> None
                | Some t \<Rightarrow> Some (Some (if c = CHR ''-'' then - t else t))))"

definition is_offset_start :: "char \<Rightarrow> bool" where
  "is_offset_start c \<longleftrightarrow> c = CHR ''+'' \<or> c = CHR ''-'' \<or> c = CHR ''Z''"

definition take10 :: "string \<Rightarrow> (string \<times> string) option" where
  "take10 s =
     (case s of
        a # b # c # d # e # f # g # h # i # j # r \<Rightarrow> Some ([a, b, c, d, e, f, g, h, i, j], r)
      | _ \<Rightarrow> None)"

text \<open>\<open>datetime.fromisoformat(s)\<close>: the local time and the UTC offset.\<close>

definition fromisoformat :: "string \<Rightarrow> (int \<times> int option) option" where
  "fromisoformat s =
     (case take10 s of
        None \<Rightarrow> None
      | Some (ds, rest) \<Rightarrow>
          (case (parse_date ds, rest) of
             (None, _) \<Rightarrow> None
           | (Some d, []) \<Rightarrow> Some (DAY * d, None)
           | (Some d, sep # t) \<Rightarrow>
               (case (parse_time (takeWhile (\<lambda>c. \<not> is_offset_start c) t),
                      parse_offset (dropWhile (\<lambda>c. \<not> is_offset_start c) t)) of
                  (Some u, Some off) \<Rightarrow> Some (DAY * d + u, off)
                | _ \<Rightarrow> None)))"

text \<open>The instant in UTC, a text without offset being read as UTC.\<close>

definition utc_of :: "int \<times> int option \<Rightarrow> int" where
  "utc_of p = fst p - (case snd p of None \<Rightarrow> 0 | Some off \<Rightarrow> off)"

text \<open>\<open>value.replace("Z", "+00:00")\<close>.\<close>

definition z_to_offset :: "string \<Rightarrow> string" where
  "z_to_offset s = concat (map (\<lambda>c. if c = CHR ''Z'' then ''+00:00'' else [c]) s)"

section \<open>Addresses\<close>

definition octet :: "string \<Rightarrow> int option" where
  "octet s =
     (if s \<noteq> [] \<and> list_all is_digit s \<and> ilen s \<le> 3 \<and> (hd s \<noteq> CHR ''0'' \<or> tl s = []) \<and> digits_val 0 s \<le> 255
      then Some (digits_val 0 s) else None)"

definition ipv4_of :: "string \<Rightarrow> int option" where
  "ipv4_of s =
     (case split_char (CHR ''.'') s of
        [a, b, c, d] \<Rightarrow>
          (case (octet a, octet b, octet c, octet d) of
             (Some w, Some x, Some y, Some z) \<Rightarrow> Some (((w * 256 + x) * 256 + y) * 256 + z)
           | _ \<Rightarrow> None)
      | _ \<Rightarrow> None)"

definition is_hex :: "char \<Rightarrow> bool" where
  "is_hex c \<longleftrightarrow> is_hex_upper c \<or> is_hex_lower c"

fun hex_value :: "int \<Rightarrow> string \<Rightarrow> int" where
  "hex_value acc [] = acc"
| "hex_value acc (c # cs) = hex_value (16 * acc + hex_val c) cs"

definition hextet :: "string \<Rightarrow> int option" where
  "hextet s = (if s \<noteq> [] \<and> list_all is_hex s \<and> ilen s \<le> 4 then Some (hex_value 0 s) else None)"

fun hextets :: "string list \<Rightarrow> int list option" where
  "hextets [] = Some []"
| "hextets (p # ps) =
     (case (hextet p, hextets ps) of (Some h, Some hs) \<Rightarrow> Some (h # hs) | _ \<Rightarrow> None)"

text \<open>The groups of an address: an embedded IPv4 address counts as two.\<close>

definition ipv6_parts :: "string \<Rightarrow> int list option \<times> string list" where
  "ipv6_parts s =
     (let parts = split_char (CHR '':'') s in
      if list_ex (\<lambda>c. c = CHR ''.'') (last parts)
      then (case ipv4_of (last parts) of
              None \<Rightarrow> (None, [])
            | Some v \<Rightarrow> (Some [v div 65536, v mod 65536], butlast parts))
      else (Some [], parts))"

definition zeros :: "int \<Rightarrow> int list" where
  "zeros n = map (\<lambda>_. 0) [1..n]"

text \<open>Without the \<open>::\<close>, eight groups; with it, the groups on its left and right, at least one missing.\<close>

definition ipv6_groups :: "int list \<Rightarrow> string list \<Rightarrow> int list option" where
  "ipv6_groups tail parts =
     (let n = ilen parts + ilen tail;
          blanks = filter (\<lambda>i. parts ! nat i = []) [1..ilen parts - (if tail = [] then 2 else 1)]
      in if n < 3 \<or> n > 9 then None
         else case blanks of
           [] \<Rightarrow> (if n \<noteq> 8 then None else map_option (\<lambda>hs. hs @ tail) (hextets parts))
         | [i] \<Rightarrow>
             let hi = take (nat i) parts; lo = drop (nat i + 1) parts;
                 hi' = (if hi = [[]] then [] else hi);
                 lo' = (if tail = [] \<and> lo = [[]] then [] else lo);
                 missing = 8 - (ilen hi' + ilen lo' + ilen tail)
             in if missing < 1 then None
                else (case (hextets hi', hextets lo') of
                        (Some hs, Some ls) \<Rightarrow> Some (hs @ zeros missing @ ls @ tail)
                      | _ \<Rightarrow> None)
         | _ \<Rightarrow> None)"

definition group_value :: "int list \<Rightarrow> int" where
  "group_value gs = foldl (\<lambda>acc g. acc * 65536 + g) 0 gs"

definition ipv6_of :: "string \<Rightarrow> int option" where
  "ipv6_of s =
     (case split_char (CHR 0x25) s of
        [addr] \<Rightarrow>
          (case ipv6_parts addr of
             (Some tail, parts) \<Rightarrow> map_option group_value (ipv6_groups tail parts)
           | _ \<Rightarrow> None)
      | [addr, scope] \<Rightarrow>
          if scope = [] \<or> CHR ''/'' \<in> set scope then None
          else (case ipv6_parts addr of
                  (Some tail, parts) \<Rightarrow> map_option group_value (ipv6_groups tail parts)
                | _ \<Rightarrow> None)
      | _ \<Rightarrow> None)"

definition is_ip_address :: "string \<Rightarrow> bool" where
  "is_ip_address s \<longleftrightarrow> ipv4_of s \<noteq> None \<or> ipv6_of s \<noteq> None"

section \<open>MAC addresses\<close>

text \<open>The separators \<open>:\<close> and \<open>-\<close> removed.\<close>

definition mac_compact :: "string \<Rightarrow> string" where
  "mac_compact s = filter (\<lambda>c. c \<noteq> CHR '':'' \<and> c \<noteq> CHR ''-'') s"

text \<open>Pairs of characters joined by colons: \<open>":".join(s[i:i+2] for i in range(0, 12, 2))\<close>.\<close>

fun pairs_colon :: "string \<Rightarrow> string" where
  "pairs_colon (a # b # c # cs) = a # b # CHR '':'' # pairs_colon (c # cs)"
| "pairs_colon s = s"

lemma pairs_colon_compact:
  "CHR '':'' \<notin> set s \<Longrightarrow> CHR ''-'' \<notin> set s \<Longrightarrow> mac_compact (pairs_colon s) = s"
  by (induction s rule: pairs_colon.induct) (auto simp: mac_compact_def)

end
