(* ===== verification/TelemetryMerge.thy ===== *)
theory TelemetryMerge
  imports Formats
begin

text \<open>
  \<open>server/server_components/telemetry_merge.py\<close>: the server's side of telemetry synchronisation.  A
  delta payload is validated field by field, then merged into three tables in one transaction; an
  activity window is stored once per device and window id.  Messages of the validation errors are
  abridged.  The tables carry the columns the statements name; a statement may fail, as the
  parameter \<open>fault\<close> says for each statement number, and the driver refuses lists and dictionaries
  as column values.
\<close>

section \<open>Validation\<close>

definition DEVICE_FIELDS :: "string list" where
  "DEVICE_FIELDS =
     [''mac'', ''ip'', ''hostname'', ''vendor'', ''os_guess'', ''last_seen'', ''discovery'', ''activity'']"

definition ACTIVITY_FIELDS :: "string list" where
  "ACTIVITY_FIELDS =
     [''device_mac'', ''window_id'', ''window_start'', ''window_end'', ''active'', ''flow_count'',
      ''packet_count'', ''bytes'', ''protocols'', ''ports'', ''connections'', ''unique_destinations'']"

definition TOP_LEVEL_FIELDS :: "string list" where
  "TOP_LEVEL_FIELDS = [''client_id'', ''sync_timestamp'', ''window_id'', ''updated_devices'']"

definition SEED_TOP_LEVEL_FIELDS :: "string list" where
  "SEED_TOP_LEVEL_FIELDS = [''client_id'', ''sync_timestamp'', ''updated_devices'']"

definition SEED_DEVICE_FIELDS :: "string list" where
  "SEED_DEVICE_FIELDS = filter (\<lambda>f. f \<noteq> ''activity'') DEVICE_FIELDS"

definition FORBIDDEN_FIELDS :: "string list" where
  "FORBIDDEN_FIELDS =
     [''packets'', ''raw_packets'', ''flows'', ''flow_records'', ''packet_count_raw'', ''location'',
      ''position'', ''coordinates'', ''risk'', ''risk_level'', ''score'', ''rogue_score'',
      ''classification'', ''ml_score'']"

definition value_error :: "string \<Rightarrow> 'a result" where
  "value_error msg = raise_exc ValueError msg"

definition require :: "bool \<Rightarrow> string \<Rightarrow> unit result" where
  "require b msg = (if b then Inr () else value_error msg)"

lemma require_Inr [simp]: "require b msg = Inr u \<longleftrightarrow> b"
  by (simp add: require_def value_error_def)

definition normalise_mac :: "pyval \<Rightarrow> string result" where
  "normalise_mac v =
     (case v of
        PStr s \<Rightarrow>
          let compact = mac_compact (lower (strip s)) in
          if ilen compact = 12 \<and> list_all is_hex_lower compact then Inr (upper (pairs_colon compact))
          else value_error ''Invalid MAC address''
      | _ \<Rightarrow> value_error ''device.mac must be a MAC address'')"

definition optional_ip :: "pyval \<Rightarrow> pyval result" where
  "optional_ip v =
     (if v = PNone \<or> v = PStr [] then Inr PNone
      else case v of
        PStr s \<Rightarrow> if is_ip_address s then Inr v else value_error ''Invalid device.ip''
      | _ \<Rightarrow> value_error ''device.ip must be a string or null'')"

definition parse_datetime :: "pyval \<Rightarrow> string \<Rightarrow> bool \<Rightarrow> int option result" where
  "parse_datetime v field required =
     (if v = PNone \<or> v = PStr [] then
        (if required then value_error (field @ '' is required'') else Inr None)
      else case v of
        PStr s \<Rightarrow>
          (case fromisoformat (z_to_offset s) of
             None \<Rightarrow> value_error (field @ '' must be an ISO timestamp'')
           | Some p \<Rightarrow> Inr (Some (utc_of p)))
      | _ \<Rightarrow> value_error (field @ '' must be an ISO timestamp''))"

definition required_datetime :: "pyval \<Rightarrow> string \<Rightarrow> int result" where
  "required_datetime v field = then_do (parse_datetime v field True) (\<lambda>t. case t of
     None \<Rightarrow> value_error (field @ '' is required'') | Some i \<Rightarrow> Inr i)"

definition ensure_allowed :: "string list \<Rightarrow> string list \<Rightarrow> string \<Rightarrow> unit result" where
  "ensure_allowed names allowed label =
     (if list_ex (\<lambda>f. f \<in> set FORBIDDEN_FIELDS) names then value_error (label @ '' contains forbidden names'')
      else if \<not> list_all (\<lambda>f. f \<in> set allowed) names then value_error (label @ '' contains unsupported names'')
      else Inr ())"

lemma ensure_allowed_Inr [simp]:
  "ensure_allowed names allowed label = Inr u \<longleftrightarrow>
     set names \<subseteq> set allowed \<and> set names \<inter> set FORBIDDEN_FIELDS = {}"
  by (auto simp: ensure_allowed_def value_error_def list_ex_iff list_all_iff)

text \<open>A validated device; \<open>v_activity\<close> is empty in a seed.\<close>

record vdevice =
  v_mac :: string
  v_ip :: pyval
  v_hostname :: pyval
  v_vendor :: pyval
  v_os_guess :: pyval
  v_last_seen :: "int option"
  v_discovery :: pydict
  v_activity :: pydict

record vpayload =
  v_client_id :: string
  v_sync_timestamp :: int
  v_window_id :: string
  v_devices :: "vdevice list"

text \<open>\<open>str.strip()\<close> of a value that must be a non-blank string.\<close>

definition required_text :: "pyval \<Rightarrow> string \<Rightarrow> string result" where
  "required_text v field =
     (case v of
        PStr s \<Rightarrow> if strip s = [] then value_error (field @ '' is required'') else Inr s
      | _ \<Rightarrow> value_error (field @ '' is required''))"

definition required_list :: "pyval \<Rightarrow> pyval list result" where
  "required_list v = (case v of PList xs \<Rightarrow> Inr xs | _ \<Rightarrow> value_error ''updated_devices must be an array'')"

definition required_dict :: "pyval \<Rightarrow> string \<Rightarrow> pydict result" where
  "required_dict v msg = (case v of PDict d \<Rightarrow> Inr d | _ \<Rightarrow> value_error msg)"

text \<open>\<open>activity.get("device_mac", "").lower()\<close>: a value that is no string has no \<open>lower\<close>.\<close>

definition activity_mac :: "pydict \<Rightarrow> string result" where
  "activity_mac activity =
     (case dget_or activity ''device_mac'' (PStr []) of
        PStr s \<Rightarrow> Inr (lower s)
      | _ \<Rightarrow> raise_exc AttributeError ''lower'')"

definition is_count :: "pyval \<Rightarrow> bool" where
  "is_count v \<longleftrightarrow> (case v of PInt i \<Rightarrow> 0 \<le> i | _ \<Rightarrow> False)"

definition check_activity :: "pydict \<Rightarrow> string \<Rightarrow> string \<Rightarrow> unit result" where
  "check_activity activity mac window_id =
     then_do (ensure_allowed (map fst activity) ACTIVITY_FIELDS ''activity'') (\<lambda>_.
     then_do (activity_mac activity) (\<lambda>am.
     then_do (require (am = lower mac) ''activity.device_mac does not match mac'') (\<lambda>_.
     then_do (require (dget activity ''window_id'' = PStr window_id)
                ''activity.window_id does not match payload window_id'') (\<lambda>_.
     then_do (required_datetime (dget activity ''window_start'') ''activity.window_start'') (\<lambda>_.
     then_do (required_datetime (dget activity ''window_end'') ''activity.window_end'') (\<lambda>_.
     then_do (require (is_bool (dget activity ''active'')) ''activity.active must be boolean'') (\<lambda>_.
     then_do (require (list_all (\<lambda>f. is_count (dget activity f))
                 [''flow_count'', ''packet_count'', ''bytes'', ''unique_destinations''])
                ''activity field must be a non-negative integer'') (\<lambda>_.
     require (list_all (\<lambda>f. is_dict (dget activity f)) [''protocols'', ''ports'', ''connections''])
       ''activity field must be an object''))))))))"

text \<open>The identity fields, which deltas and seeds share.\<close>

definition normalise_device :: "pydict \<Rightarrow> string \<Rightarrow> pydict \<Rightarrow> pydict \<Rightarrow> vdevice result" where
  "normalise_device source mac discovery activity =
     then_do (optional_ip (dget source ''ip'')) (\<lambda>ip.
     then_do (parse_datetime (dget source ''last_seen'') ''last_seen'' False) (\<lambda>seen.
     Inr \<lparr>v_mac = mac, v_ip = ip, v_hostname = dget source ''hostname'', v_vendor = dget source ''vendor'',
          v_os_guess = dget source ''os_guess'', v_last_seen = seen, v_discovery = discovery,
          v_activity = activity\<rparr>))"

definition validate_delta_device :: "string \<Rightarrow> pyval \<Rightarrow> vdevice result" where
  "validate_delta_device window_id v =
     then_do (required_dict v ''updated_devices entry must be an object'') (\<lambda>source.
     then_do (ensure_allowed (map fst source) DEVICE_FIELDS ''updated_devices entry'') (\<lambda>_.
     then_do (normalise_mac (dget source ''mac'')) (\<lambda>mac.
     then_do (required_dict (dget source ''activity'') ''activity is required'') (\<lambda>activity.
     then_do (check_activity activity mac window_id) (\<lambda>_.
     then_do (required_dict (dget_or source ''discovery'' (PDict [])) ''discovery must be an object'') (\<lambda>discovery.
     normalise_device source mac discovery (dset ''device_mac'' (PStr mac) activity)))))))"

definition validate_seed_device :: "pyval \<Rightarrow> vdevice result" where
  "validate_seed_device v =
     then_do (required_dict v ''updated_devices entry must be an object'') (\<lambda>source.
     then_do (ensure_allowed (map fst source) SEED_DEVICE_FIELDS ''updated_devices entry'') (\<lambda>_.
     then_do (required_dict (dget_or source ''discovery'' (PDict [])) ''discovery must be an object'') (\<lambda>discovery.
     then_do (normalise_mac (dget source ''mac'')) (\<lambda>mac.
     normalise_device source mac discovery []))))"

fun each :: "('a \<Rightarrow> 'b result) \<Rightarrow> 'a list \<Rightarrow> 'b list result" where
  "each f [] = Inr []"
| "each f (x # xs) = then_do (f x) (\<lambda>y. then_do (each f xs) (\<lambda>ys. Inr (y # ys)))"

definition validate_delta_payload :: "pyval \<Rightarrow> vpayload result" where
  "validate_delta_payload v =
     then_do (required_dict v ''Telemetry sync payload must be an object'') (\<lambda>payload.
     then_do (ensure_allowed (map fst payload) TOP_LEVEL_FIELDS ''payload'') (\<lambda>_.
     then_do (required_text (dget payload ''client_id'') ''client_id'') (\<lambda>client_id.
     then_do (required_text (dget payload ''window_id'') ''window_id'') (\<lambda>window_id.
     then_do (required_datetime (dget payload ''sync_timestamp'') ''sync_timestamp'') (\<lambda>stamp.
     then_do (required_list (dget payload ''updated_devices'')) (\<lambda>devices.
     then_do (each (validate_delta_device window_id) devices) (\<lambda>normalised.
     Inr \<lparr>v_client_id = strip client_id, v_sync_timestamp = stamp, v_window_id = strip window_id,
          v_devices = normalised\<rparr>)))))))"

definition validate_seed_payload :: "pyval \<Rightarrow> vpayload result" where
  "validate_seed_payload v =
     then_do (required_dict v ''Telemetry seed payload must be an object'') (\<lambda>payload.
     then_do (ensure_allowed (map fst payload) SEED_TOP_LEVEL_FIELDS ''payload'') (\<lambda>_.
     then_do (required_text (dget payload ''client_id'') ''client_id'') (\<lambda>client_id.
     then_do (required_datetime (dget payload ''sync_timestamp'') ''sync_timestamp'') (\<lambda>stamp.
     then_do (required_list (dget payload ''updated_devices'')) (\<lambda>devices.
     then_do (each validate_seed_device devices) (\<lambda>normalised.
     Inr \<lparr>v_client_id = strip client_id, v_sync_timestamp = stamp, v_window_id = [],
          v_devices = normalised\<rparr>))))))"

section \<open>Tables\<close>

record net_row =
  nd_ip :: pyval
  nd_hostname :: pyval
  nd_vendor :: pyval
  nd_first_seen :: int
  nd_last_seen :: int

record tel_row =
  td_os_guess :: pyval
  td_discovery :: pydict
  td_last_seen :: int

record win_row =
  w_mac :: string
  w_client :: string
  w_window :: string
  w_start :: int
  w_end :: int
  w_active :: pyval
  w_counts :: "pyval list"
  w_summaries :: "pyval list"

record tables =
  net_devices :: "(string \<times> net_row) list"
  tel_devices :: "((string \<times> string) \<times> tel_row) list"
  windows :: "win_row list"

type_synonym conn = "tables \<times> int"

definition sql_ok :: "pyval \<Rightarrow> bool" where
  "sql_ok v \<longleftrightarrow> \<not> is_list v \<and> \<not> is_dict v"

definition coalesce :: "pyval \<Rightarrow> pyval \<Rightarrow> pyval" where
  "coalesce a b = (if a = PNone then b else a)"

text \<open>One statement: its arguments, its number, and its effect on the tables.\<close>

definition execute :: "(int \<Rightarrow> pyexc option) \<Rightarrow> pyval list \<Rightarrow> (tables \<Rightarrow> tables) \<Rightarrow> (conn, unit) act" where
  "execute fault args f c =
     (case fault (snd c) of
        Some e \<Rightarrow> (Inl e, fst c, snd c + 1)
      | None \<Rightarrow>
          if list_all sql_ok args then (Inr (), f (fst c), snd c + 1)
          else (raise_exc OtherException ''value cannot be converted'', fst c, snd c + 1))"

definition upsert_net :: "vdevice \<Rightarrow> int \<Rightarrow> tables \<Rightarrow> tables" where
  "upsert_net d seen t = t\<lparr>net_devices := dset (v_mac d)
     (case map_of (net_devices t) (v_mac d) of
        None \<Rightarrow> \<lparr>nd_ip = v_ip d, nd_hostname = v_hostname d, nd_vendor = v_vendor d,
                 nd_first_seen = seen, nd_last_seen = seen\<rparr>
      | Some r \<Rightarrow> \<lparr>nd_ip = coalesce (v_ip d) (nd_ip r), nd_hostname = coalesce (v_hostname d) (nd_hostname r),
                   nd_vendor = coalesce (v_vendor d) (nd_vendor r),
                   nd_first_seen = min (nd_first_seen r) seen, nd_last_seen = max (nd_last_seen r) seen\<rparr>)
     (net_devices t)\<rparr>"

definition upsert_tel :: "string \<Rightarrow> vdevice \<Rightarrow> int \<Rightarrow> tables \<Rightarrow> tables" where
  "upsert_tel client d seen t = t\<lparr>tel_devices := dset (client, v_mac d)
     (case map_of (tel_devices t) (client, v_mac d) of
        None \<Rightarrow> \<lparr>td_os_guess = v_os_guess d, td_discovery = v_discovery d, td_last_seen = seen\<rparr>
      | Some r \<Rightarrow> \<lparr>td_os_guess = coalesce (v_os_guess d) (td_os_guess r), td_discovery = v_discovery d,
                   td_last_seen = max (td_last_seen r) seen\<rparr>)
     (tel_devices t)\<rparr>"

definition upsert_device :: "(int \<Rightarrow> pyexc option) \<Rightarrow> string \<Rightarrow> int \<Rightarrow> vdevice \<Rightarrow> (conn, unit) act" where
  "upsert_device fault client default_last_seen d =
     (let seen = (case v_last_seen d of None \<Rightarrow> default_last_seen | Some s \<Rightarrow> s) in
      seq_act (execute fault [v_ip d, v_hostname d, v_vendor d] (upsert_net d seen))
              (execute fault [v_os_guess d] (upsert_tel client d seen)))"

definition win_key :: "win_row \<Rightarrow> string \<times> string" where
  "win_key r = (w_mac r, w_window r)"

text \<open>The window row of a validated device; its timestamps were parsed by the validation.\<close>

definition time_of :: "pyval \<Rightarrow> int" where
  "time_of v = (case required_datetime v [] of Inr t \<Rightarrow> t | Inl e \<Rightarrow> 0)"

definition window_row :: "string \<Rightarrow> string \<Rightarrow> vdevice \<Rightarrow> win_row" where
  "window_row client window_id d =
     (let a = v_activity d in
      \<lparr>w_mac = v_mac d, w_client = client, w_window = window_id,
       w_start = time_of (dget a ''window_start''), w_end = time_of (dget a ''window_end''),
       w_active = dget a ''active'',
       w_counts = map (dget a) [''flow_count'', ''packet_count'', ''bytes'', ''unique_destinations''],
       w_summaries = map (dget a) [''protocols'', ''ports'', ''connections'']\<rparr>)"

definition add_window :: "win_row \<Rightarrow> win_row list \<Rightarrow> win_row list" where
  "add_window r ws = (if win_key r \<in> set (map win_key ws) then ws else ws @ [r])"

text \<open>One device of a delta: whether its window was inserted.\<close>

definition merge_device :: "(int \<Rightarrow> pyexc option) \<Rightarrow> vpayload \<Rightarrow> vdevice \<Rightarrow> (conn, bool) act" where
  "merge_device fault p d =
     (let row = window_row (v_client_id p) (v_window_id p) d in
      seq_act (upsert_device fault (v_client_id p) (v_sync_timestamp p) d)
     (seq_act (execute fault [] (\<lambda>t. t))
      (\<lambda>c. if win_key row \<in> set (map win_key (windows (fst c))) then (Inr False, c)
           else seq_act (execute fault [] (\<lambda>t. t\<lparr>windows := windows t @ [row]\<rparr>)) (return_act True) c)))"

fun merge_devices :: "(int \<Rightarrow> pyexc option) \<Rightarrow> vpayload \<Rightarrow> vdevice list \<Rightarrow> (conn, int) act" where
  "merge_devices fault p [] = return_act 0"
| "merge_devices fault p (d # ds) =
     bind_act (merge_device fault p d) (\<lambda>new.
     bind_act (merge_devices fault p ds) (\<lambda>n. return_act (if new then n + 1 else n)))"

text \<open>A raised exception rolls the transaction back, and so does a failing commit.\<close>

definition transaction :: "(int \<Rightarrow> pyexc option) \<Rightarrow> (conn, 'a) act \<Rightarrow> tables \<Rightarrow> 'a result \<times> tables" where
  "transaction fault m t =
     (case m (t, 0) of
        (Inl e, c) \<Rightarrow> (Inl e, t)
      | (Inr x, c) \<Rightarrow> (case fault (snd c) of Some e \<Rightarrow> (Inl e, t) | None \<Rightarrow> (Inr x, fst c)))"

definition merge_telemetry_delta :: "(int \<Rightarrow> pyexc option) \<Rightarrow> pyval \<Rightarrow> tables \<Rightarrow> pydict result \<times> tables" where
  "merge_telemetry_delta fault payload t =
     (case validate_delta_payload payload of
        Inl e \<Rightarrow> (Inl e, t)
      | Inr p \<Rightarrow>
          (case transaction fault (merge_devices fault p (v_devices p)) t of
             (Inl e, t') \<Rightarrow> (Inl e, t')
           | (Inr n, t') \<Rightarrow>
               (Inr [(''status'', PStr ''ack''), (''client_id'', PStr (v_client_id p)),
                     (''window_id'', PStr (v_window_id p)), (''updated_devices'', PInt n),
                     (''inserted_windows'', PInt n), (''duplicate'', PBool (n = 0 \<and> v_devices p \<noteq> []))], t')))"

fun seed_devices :: "(int \<Rightarrow> pyexc option) \<Rightarrow> vpayload \<Rightarrow> vdevice list \<Rightarrow> (conn, unit) act" where
  "seed_devices fault p [] = return_act ()"
| "seed_devices fault p (d # ds) =
     seq_act (upsert_device fault (v_client_id p) (v_sync_timestamp p) d) (seed_devices fault p ds)"

definition merge_telemetry_seed :: "(int \<Rightarrow> pyexc option) \<Rightarrow> pyval \<Rightarrow> tables \<Rightarrow> pydict result \<times> tables" where
  "merge_telemetry_seed fault payload t =
     (case validate_seed_payload payload of
        Inl e \<Rightarrow> (Inl e, t)
      | Inr p \<Rightarrow>
          (case transaction fault (seed_devices fault p (v_devices p)) t of
             (Inl e, t') \<Rightarrow> (Inl e, t')
           | (Inr u, t') \<Rightarrow>
               (Inr [(''status'', PStr ''ack''), (''client_id'', PStr (v_client_id p)),
                     (''seeded_devices'', PInt (ilen (v_devices p)))], t')))"

section \<open>The window table\<close>

interpretation window_table: keyed_table "\<lambda>r. Some (win_key r)" add_window "map win_key"
  by unfold_locales (auto simp: add_window_def)

lemma execute_Inr: "execute fault args f c = (Inr u, c') \<Longrightarrow> fst c' = f (fst c) \<and> list_all sql_ok args"
  by (auto simp: execute_def split: option.splits if_splits)

lemma upsert_windows [simp]:
  "windows (upsert_net d seen t) = windows t" "windows (upsert_tel client d seen t) = windows t"
  by (simp_all add: upsert_net_def upsert_tel_def)

lemma upsert_device_windows:
  "upsert_device fault client seen d c = (Inr u, c') \<Longrightarrow> windows (fst c') = windows (fst c)"
  by (auto simp: upsert_device_def Let_def seq_act_Inr dest!: execute_Inr)

lemma merge_device_windows:
  assumes "merge_device fault p d c = (Inr new, c')"
  defines "row \<equiv> window_row (v_client_id p) (v_window_id p) d"
  shows "windows (fst c') = add_window row (windows (fst c)) \<and>
    new = (win_key row \<notin> win_key ` set (windows (fst c)))"
proof -
  from assms(1) obtain c1 c2 where c1: "upsert_device fault (v_client_id p) (v_sync_timestamp p) d c = (Inr (), c1)"
    and c2: "execute fault [] (\<lambda>t. t) c1 = (Inr (), c2)"
    and rest: "(if win_key row \<in> set (map win_key (windows (fst c2))) then (Inr False, c2)
       else seq_act (execute fault [] (\<lambda>t. t\<lparr>windows := windows t @ [row]\<rparr>)) (return_act True) c2) = (Inr new, c')"
    unfolding merge_device_def Let_def row_def by (auto simp: seq_act_Inr)
  from upsert_device_windows [OF c1] execute_Inr [OF c2] have same: "windows (fst c2) = windows (fst c)" by simp
  show ?thesis
  proof (cases "win_key row \<in> win_key ` set (windows (fst c))")
    case True
    with rest same show ?thesis by (simp add: add_window_def)
  next
    case False
    with rest same show ?thesis by (auto simp: add_window_def seq_act_Inr dest!: execute_Inr)
  qed
qed

lemma add_window_length:
  "length (add_window r ws) = (if win_key r \<in> win_key ` set ws then length ws else length ws + 1)"
  by (simp add: add_window_def)

lemma merge_devices_windows:
  "merge_devices fault p ds c = (Inr n, c') \<Longrightarrow>
     windows (fst c') = fold add_window (map (window_row (v_client_id p) (v_window_id p)) ds) (windows (fst c)) \<and>
     int (length (windows (fst c'))) = int (length (windows (fst c))) + n"
proof (induction ds arbitrary: c n)
  case (Cons d ds)
  then obtain new c1 k where "merge_device fault p d c = (Inr new, c1)" "merge_devices fault p ds c1 = (Inr k, c')"
    "n = (if new then k + 1 else k)"
    by (auto simp: bind_act_Inr)
  with Cons.IH [of c1 k] merge_device_windows [of fault p d c new c1] show ?case
    by (auto simp: add_window_length split: if_splits)
qed simp


section \<open>Validated payloads\<close>

lemma each_Inr: "each f xs = Inr ys \<Longrightarrow> list_all2 (\<lambda>x y. f x = Inr y) xs ys"
  by (induction xs arbitrary: ys) (auto simp: then_do_eq_Inr)

lemma each_append_error: "f x = Inl e \<Longrightarrow> x \<in> set xs \<Longrightarrow> \<exists>e'. each f xs = Inl e'"
  by (induction xs) (auto simp: then_do_def split: sum.splits)

definition canonical_mac :: "string \<Rightarrow> bool" where
  "canonical_mac m \<longleftrightarrow>
     (\<exists>c. length c = 12 \<and> list_all is_hex_lower c \<and> m = upper (pairs_colon c))"

lemma normalise_mac_Inr: "normalise_mac v = Inr m \<Longrightarrow> canonical_mac m"
  by (auto simp: normalise_mac_def value_error_def canonical_mac_def Let_def ilen_length
        split: pyval.splits if_splits)

text \<open>What a validated delta device guarantees about the fields it came from.\<close>

definition sound_delta_device :: "string \<Rightarrow> pyval \<Rightarrow> vdevice \<Rightarrow> bool" where
  "sound_delta_device window_id v d \<longleftrightarrow>
     (\<exists>source activity. v = PDict source \<and> dget source ''activity'' = PDict activity \<and>
        set (map fst source) \<subseteq> set DEVICE_FIELDS \<and> set (map fst activity) \<subseteq> set ACTIVITY_FIELDS \<and>
        set (map fst source @ map fst activity) \<inter> set FORBIDDEN_FIELDS = {} \<and>
        canonical_mac (v_mac d) \<and> dget (v_activity d) ''device_mac'' = PStr (v_mac d) \<and>
        dget (v_activity d) ''window_id'' = PStr window_id \<and>
        (\<forall>f\<in>{''flow_count'', ''packet_count'', ''bytes'', ''unique_destinations''}.
           \<exists>i\<ge>0. dget (v_activity d) f = PInt i) \<and>
        (\<forall>f\<in>{''protocols'', ''ports'', ''connections''}. is_dict (dget (v_activity d) f)))"

lemma required_dict_Inr [simp]: "required_dict v msg = Inr d \<longleftrightarrow> v = PDict d"
  by (auto simp: required_dict_def value_error_def split: pyval.splits)

lemma required_text_Inr [simp]: "required_text v f = Inr s \<longleftrightarrow> v = PStr s \<and> strip s \<noteq> []"
  by (auto simp: required_text_def value_error_def split: pyval.splits)

lemma required_list_Inr [simp]: "required_list v = Inr xs \<longleftrightarrow> v = PList xs"
  by (auto simp: required_list_def value_error_def split: pyval.splits)

lemma is_count_iff: "is_count v \<longleftrightarrow> (\<exists>i\<ge>0. v = PInt i)"
  by (cases v) (auto simp: is_count_def)

lemma check_activity_Inr:
  "check_activity activity mac w = Inr u \<Longrightarrow>
     set (map fst activity) \<subseteq> set ACTIVITY_FIELDS \<and> set (map fst activity) \<inter> set FORBIDDEN_FIELDS = {} \<and>
     dget activity ''window_id'' = PStr w \<and>
     (\<forall>f\<in>{''flow_count'', ''packet_count'', ''bytes'', ''unique_destinations''}. is_count (dget activity f)) \<and>
     (\<forall>f\<in>{''protocols'', ''ports'', ''connections''}. is_dict (dget activity f))"
  by (auto simp: check_activity_def then_do_eq_Inr)

lemma normalise_device_Inr:
  "normalise_device source mac discovery activity = Inr d \<Longrightarrow> v_mac d = mac \<and> v_activity d = activity"
  by (auto simp: normalise_device_def then_do_eq_Inr)

lemma validate_delta_device_sound:
  assumes "validate_delta_device w v = Inr d"
  shows "sound_delta_device w v d"
proof -
  from assms obtain source mac activity discovery where
    s: "v = PDict source" "set (map fst source) \<subseteq> set DEVICE_FIELDS"
       "set (map fst source) \<inter> set FORBIDDEN_FIELDS = {}" "dget source ''activity'' = PDict activity"
    and m: "normalise_mac (dget source ''mac'') = Inr mac"
    and a: "check_activity activity mac w = Inr ()"
    and d: "normalise_device source mac discovery (dset ''device_mac'' (PStr mac) activity) = Inr d"
    by (auto simp: validate_delta_device_def then_do_eq_Inr)
  from normalise_device_Inr [OF d] have vd: "v_mac d = mac" "v_activity d = dset ''device_mac'' (PStr mac) activity"
    by simp_all
  from check_activity_Inr [OF a] s m vd show ?thesis
    unfolding sound_delta_device_def
    by (intro exI [of _ source] exI [of _ activity]) (auto simp: is_count_iff dest: normalise_mac_Inr)
qed

lemma validate_delta_payload_Inr:
  assumes "validate_delta_payload v = Inr p"
  obtains payload cid wid stamp devices where "v = PDict payload"
    "set (map fst payload) \<subseteq> set TOP_LEVEL_FIELDS" "dget payload ''updated_devices'' = PList devices"
    "dget payload ''client_id'' = PStr cid" "dget payload ''window_id'' = PStr wid"
    "strip cid \<noteq> []" "strip wid \<noteq> []" "v_client_id p = strip cid" "v_window_id p = strip wid"
    "list_all2 (\<lambda>x d. validate_delta_device wid x = Inr d) devices (v_devices p)"
proof -
  from assms obtain payload cid wid stamp devices ds where
    "v = PDict payload" "set (map fst payload) \<subseteq> set TOP_LEVEL_FIELDS"
    "required_text (dget payload ''client_id'') ''client_id'' = Inr cid"
    "required_text (dget payload ''window_id'') ''window_id'' = Inr wid"
    "required_list (dget payload ''updated_devices'') = Inr devices"
    "each (validate_delta_device wid) devices = Inr ds"
    "p = \<lparr>v_client_id = strip cid, v_sync_timestamp = stamp, v_window_id = strip wid, v_devices = ds\<rparr>"
    unfolding validate_delta_payload_def by (auto simp: then_do_eq_Inr)
  then show thesis
    by (intro that [of payload devices cid wid]) (simp_all add: each_Inr)
qed

text \<open>
  C31. A payload the server accepts has a client id and a window id that are not blank, only the
  documented fields on every level, none of the forbidden ones, and for each device a canonical MAC
  address, an activity of the payload's window for that address, non-negative integer counters and
  object summaries.
\<close>

theorem validated_delta_is_sound:
  assumes "validate_delta_payload v = Inr p"
  shows "\<exists>payload devices wid. v = PDict payload \<and> set (map fst payload) \<subseteq> set TOP_LEVEL_FIELDS \<and>
    dget payload ''updated_devices'' = PList devices \<and> dget payload ''window_id'' = PStr wid \<and>
    v_client_id p \<noteq> [] \<and> v_window_id p \<noteq> [] \<and> v_window_id p = strip wid \<and>
    list_all2 (sound_delta_device wid) devices (v_devices p)"
proof -
  from assms obtain payload cid wid devices where p: "v = PDict payload"
    "set (map fst payload) \<subseteq> set TOP_LEVEL_FIELDS" "dget payload ''updated_devices'' = PList devices"
    "dget payload ''window_id'' = PStr wid" "strip cid \<noteq> []" "strip wid \<noteq> []"
    "v_client_id p = strip cid" "v_window_id p = strip wid"
    "list_all2 (\<lambda>x d. validate_delta_device wid x = Inr d) devices (v_devices p)"
    by (rule validate_delta_payload_Inr)
  from p(9) have "list_all2 (sound_delta_device wid) devices (v_devices p)"
    by (rule list_all2_mono) (rule validate_delta_device_sound)
  with p show ?thesis by auto
qed

section \<open>Merging\<close>

lemma transaction_Inr:
  "transaction fault m t = (Inr x, t') \<Longrightarrow> \<exists>c. m (t, 0) = (Inr x, c) \<and> fst c = t'"
  by (auto simp: transaction_def split: prod.splits sum.splits option.splits)

lemma transaction_Inl: "transaction fault m t = (Inl e, t') \<Longrightarrow> t' = t"
  by (auto simp: transaction_def split: prod.splits sum.splits option.splits)

definition delta_rows :: "vpayload \<Rightarrow> win_row list" where
  "delta_rows p = map (window_row (v_client_id p) (v_window_id p)) (v_devices p)"

lemma delta_rows_keys: "win_key ` set (delta_rows p) = (\<lambda>d. (v_mac d, v_window_id p)) ` set (v_devices p)"
  by (simp add: delta_rows_def win_key_def window_row_def Let_def image_image)

lemma merge_telemetry_delta_Inr:
  assumes "merge_telemetry_delta fault v t = (Inr a, t')"
  obtains p n where "validate_delta_payload v = Inr p" "windows t' = fold add_window (delta_rows p) (windows t)"
    "int (length (windows t')) = int (length (windows t)) + n" "dget a ''inserted_windows'' = PInt n"
    "dget a ''duplicate'' = PBool (n = 0 \<and> v_devices p \<noteq> [])"
proof -
  from assms obtain p n where p: "validate_delta_payload v = Inr p"
    and tr: "transaction fault (merge_devices fault p (v_devices p)) t = (Inr n, t')"
    and a: "dget a ''inserted_windows'' = PInt n" "dget a ''duplicate'' = PBool (n = 0 \<and> v_devices p \<noteq> [])"
    by (auto simp: merge_telemetry_delta_def split: sum.splits prod.splits)
  from transaction_Inr [OF tr] obtain c where "merge_devices fault p (v_devices p) (t, 0) = (Inr n, c)" "fst c = t'"
    by blast
  then have "windows t' = fold add_window (delta_rows p) (windows t)"
    "int (length (windows t')) = int (length (windows t)) + n"
    using merge_devices_windows [of fault p "v_devices p" "(t, 0)" n c] by (auto simp: delta_rows_def)
  then show thesis by (rule that [OF p _ _ a])
qed

lemma fold_add_window_known:
  "set (map win_key rs) \<subseteq> set (map win_key ws) \<Longrightarrow> fold add_window rs ws = ws"
  by (induction rs) (simp_all add: add_window_def)

text \<open>
  C18. A window is stored once per device and window id, however often and in whatever order its
  delta arrives: after an acknowledged merge, the same payload merged into any later state of the
  tables that still holds those windows changes no window, inserts none and is reported as a
  duplicate; and merging keeps the keys of the window table distinct.
\<close>

theorem merge_deduplicates:
  assumes "merge_telemetry_delta fault v t = (Inr a, t1)"
    and "distinct (map win_key (windows t))"
    and "set (map win_key (windows t1)) \<subseteq> set (map win_key (windows t2))"
    and "merge_telemetry_delta fault' v t2 = (Inr a', t3)"
  shows "distinct (map win_key (windows t1)) \<and> windows t3 = windows t2 \<and>
    dget a' ''inserted_windows'' = PInt 0 \<and>
    (\<forall>p. validate_delta_payload v = Inr p \<longrightarrow>
       dget a' ''duplicate'' = PBool (v_devices p \<noteq> []) \<and>
       set (map win_key (windows t1)) =
         set (map win_key (windows t)) \<union> (\<lambda>d. (v_mac d, v_window_id p)) ` set (v_devices p))"
proof -
  from assms(1) obtain p n where p: "validate_delta_payload v = Inr p"
    and w1: "windows t1 = fold add_window (delta_rows p) (windows t)"
    by (rule merge_telemetry_delta_Inr)
  from assms(4) obtain p' n' where p': "validate_delta_payload v = Inr p'"
    and w3: "windows t3 = fold add_window (delta_rows p') (windows t2)"
    and n': "int (length (windows t3)) = int (length (windows t2)) + n'" "dget a' ''inserted_windows'' = PInt n'"
      "dget a' ''duplicate'' = PBool (n' = 0 \<and> v_devices p' \<noteq> [])"
    by (rule merge_telemetry_delta_Inr)
  have keys: "set (map win_key (windows t1)) = set (map win_key (windows t)) \<union> set (map win_key (delta_rows p))"
    using window_table.fold_put_keys [of "delta_rows p" "windows t"] by (auto simp: w1)
  with assms(3) p p' have "windows t3 = windows t2"
    unfolding w3 by (intro fold_add_window_known) auto
  with n' p p' keys show ?thesis
    using window_table.fold_put_distinct [OF assms(2), of "delta_rows p"] by (simp add: w1 delta_rows_keys)
qed

text \<open>
  A merge that raises, in the validation or in any statement or the commit, leaves every table
  as it was; a seed that is acknowledged stores no activity window.
\<close>

theorem failed_merge_changes_nothing:
  "(\<forall>e t'. merge_telemetry_delta fault v t = (Inl e, t') \<longrightarrow> t' = t) \<and>
   (\<forall>e t'. merge_telemetry_seed fault v t = (Inl e, t') \<longrightarrow> t' = t) \<and>
   windows (snd (merge_telemetry_seed fault v t)) = windows t"
proof -
  have seeded: "seed_devices fault p ds c = (Inr u, c') \<Longrightarrow> windows (fst c') = windows (fst c)" for p ds u c c'
    by (induction ds arbitrary: c) (auto simp: seq_act_Inr dest!: upsert_device_windows)
  have "windows (snd (merge_telemetry_seed fault v t)) = windows t"
    by (auto simp: merge_telemetry_seed_def split: sum.splits prod.splits
          dest!: transaction_Inr transaction_Inl seeded)
  then show ?thesis
    by (auto simp: merge_telemetry_delta_def merge_telemetry_seed_def split: sum.splits prod.splits
          dest: transaction_Inl)
qed


section \<open>A concrete delta\<close>

definition demo_activity :: pydict where
  "demo_activity =
     [(''device_mac'', PStr ''aa:bb:cc:dd:ee:01''), (''window_id'', PStr ''w1''),
      (''window_start'', PStr ''2024-05-01T10:00:00Z''), (''window_end'', PStr ''2024-05-01T10:15:00Z''),
      (''active'', PBool True), (''flow_count'', PInt 2), (''packet_count'', PInt 7), (''bytes'', PInt 900),
      (''protocols'', PDict []), (''ports'', PDict []), (''connections'', PDict []),
      (''unique_destinations'', PInt 1)]"

definition demo_delta :: pyval where
  "demo_delta = PDict
     [(''client_id'', PStr ''c1''), (''sync_timestamp'', PStr ''2024-05-01T10:16:00Z''), (''window_id'', PStr ''w1''),
      (''updated_devices'', PList [PDict [(''mac'', PStr ''aa:bb:cc:dd:ee:01''), (''ip'', PStr ''10.0.0.9''),
         (''activity'', PDict demo_activity)]])]"

definition empty_tables :: tables where
  "empty_tables = \<lparr>net_devices = [], tel_devices = [], windows = []\<rparr>"

lemma demo_merge:
  obtains a t where "merge_telemetry_delta (\<lambda>_. None) demo_delta empty_tables = (Inr a, t)"
proof -
  have "case merge_telemetry_delta (\<lambda>_. None) demo_delta empty_tables of (Inr a, t) \<Rightarrow> True | _ \<Rightarrow> False"
    by code_simp
  then show thesis using that by (auto split: prod.splits sum.splits)
qed

lemma demo_valid:
  obtains p where "validate_delta_payload demo_delta = Inr p" "map v_mac (v_devices p) = [''AA:BB:CC:DD:EE:01'']"
proof -
  have "case validate_delta_payload demo_delta of Inr p \<Rightarrow> map v_mac (v_devices p) = [''AA:BB:CC:DD:EE:01''] | _ \<Rightarrow> False"
    by code_simp
  then show thesis using that by (auto split: sum.splits)
qed

lemma validated_delta_is_sound_witness:
  "\<exists>p devices. validate_delta_payload demo_delta = Inr p \<and> list_all2 (sound_delta_device ''w1'') devices (v_devices p) \<and>
     v_devices p \<noteq> []"
proof -
  obtain p where p: "validate_delta_payload demo_delta = Inr p" "map v_mac (v_devices p) = [''AA:BB:CC:DD:EE:01'']"
    by (rule demo_valid)
  show ?thesis using validated_delta_is_sound [OF p(1)] p by (auto simp: demo_delta_def)
qed

text \<open>The second merge of the same delta, after the connection was lost and opened again.\<close>

lemma merge_deduplicates_witness:
  "\<exists>a t a' t'. merge_telemetry_delta (\<lambda>_. None) demo_delta empty_tables = (Inr a, t) \<and>
     merge_telemetry_delta (\<lambda>_. None) demo_delta t = (Inr a', t') \<and>
     windows t' = windows t \<and> dget a' ''duplicate'' = PBool True"
proof -
  have "case merge_telemetry_delta (\<lambda>_. None) demo_delta empty_tables of
      (Inr a, t) \<Rightarrow> (case merge_telemetry_delta (\<lambda>_. None) demo_delta t of (Inr a', t') \<Rightarrow> True | _ \<Rightarrow> False)
    | _ \<Rightarrow> False"
    by code_simp
  then obtain a t a' t' where first: "merge_telemetry_delta (\<lambda>_. None) demo_delta empty_tables = (Inr a, t)"
    and again: "merge_telemetry_delta (\<lambda>_. None) demo_delta t = (Inr a', t')"
    by (auto split: prod.splits sum.splits)
  obtain p where p: "validate_delta_payload demo_delta = Inr p" "map v_mac (v_devices p) = [''AA:BB:CC:DD:EE:01'']"
    by (rule demo_valid)
  have "windows t' = windows t \<and> dget a' ''duplicate'' = PBool (v_devices p \<noteq> [])"
    using merge_deduplicates [OF first _ subset_refl again] p(1) by (simp add: empty_tables_def)
  with first again p(2) show ?thesis by auto
qed

text \<open>A fault in the third statement, the look-up of the window.\<close>

lemma failed_merge_changes_nothing_witness:
  "\<exists>e. merge_telemetry_delta (\<lambda>n. if n = 2 then Some \<lparr>exc_kind = OtherException, exc_msg = ''lost''\<rparr> else None)
     demo_delta empty_tables = (Inl e, empty_tables)" (is "\<exists>e. merge_telemetry_delta ?f _ _ = _")
proof -
  have "case merge_telemetry_delta ?f demo_delta empty_tables of (Inl e, t) \<Rightarrow> True | _ \<Rightarrow> False"
    by code_simp
  then obtain e t where "merge_telemetry_delta ?f demo_delta empty_tables = (Inl e, t)"
    by (auto split: prod.splits sum.splits)
  with failed_merge_changes_nothing [of ?f demo_delta empty_tables] show ?thesis by auto
qed

end
