(* ===== verification/Sync.thy ===== *)
theory Sync
  imports TelemetryMerge
begin

text \<open>
  \<open>client/app/sync_manager.py\<close>: the client's side of telemetry synchronisation.  A closed activity
  window becomes a payload with allowed fields only; it is written to disk before it is sent, sent
  by a worker thread with retries, and removed when the server acknowledges it.  The threads
  interleave at the granularity of the manager's lock: each operation below is one atomic step.
  The SHA-256 digest that names a pending file is a parameter.
\<close>

section \<open>Payloads\<close>

definition SYNC_DEVICE_FIELDS :: "string list" where
  "SYNC_DEVICE_FIELDS =
     [''mac'', ''ip'', ''hostname'', ''vendor'', ''os_guess'', ''last_seen'', ''discovery'']"

definition SYNC_ACTIVITY_FIELDS :: "string list" where
  "SYNC_ACTIVITY_FIELDS =
     [''device_mac'', ''window_id'', ''window_start'', ''window_end'', ''active'', ''flow_count'',
      ''packet_count'', ''bytes'', ''protocols'', ''ports'', ''connections'', ''unique_destinations'']"

definition copy_allowed :: "pydict \<Rightarrow> string list \<Rightarrow> pydict" where
  "copy_allowed source names =
     concat (map (\<lambda>f. case map_of source f of None \<Rightarrow> [] | Some v \<Rightarrow> [(f, v)]) names)"

text \<open>The last device record with a MAC address wins.\<close>

definition dict_of :: "pyval \<Rightarrow> pydict" where
  "dict_of v = (case v of PDict d \<Rightarrow> d | _ \<Rightarrow> [])"

definition device_key :: "pyval \<Rightarrow> string option" where
  "device_key v = (case v of PDict d \<Rightarrow> (case dget d ''mac'' of PStr s \<Rightarrow> Some (lower s) | _ \<Rightarrow> None) | _ \<Rightarrow> None)"

fun device_by_mac :: "(string \<times> pydict) list \<Rightarrow> pyval list \<Rightarrow> (string \<times> pydict) list" where
  "device_by_mac acc [] = acc"
| "device_by_mac acc (v # vs) =
     (case device_key v of
        Some k \<Rightarrow> device_by_mac (dset k (dict_of v) acc) vs
      | None \<Rightarrow> device_by_mac acc vs)"

text \<open>
  The key of a record that enters the payload: a non-blank address, in lower case, of this window.
\<close>

definition activity_key :: "string \<Rightarrow> pyval \<Rightarrow> string option" where
  "activity_key window_id v =
     (case v of
        PDict a \<Rightarrow>
          (case dget a ''device_mac'' of
             PStr m \<Rightarrow>
               if strip m = [] then None
               else if dget a ''window_id'' = PNone \<or> dget a ''window_id'' = PStr window_id then Some (lower m)
               else None
           | _ \<Rightarrow> None)
      | _ \<Rightarrow> None)"

definition device_mac_of :: "pydict \<Rightarrow> string \<Rightarrow> string" where
  "device_mac_of d mac_key = lower (py_str (\<lambda>_. []) (py_or (dget d ''mac'') (PStr mac_key)))"

definition device_entry :: "(string \<times> pydict) list \<Rightarrow> string \<Rightarrow> string \<Rightarrow> pydict \<Rightarrow> pydict" where
  "device_entry devs window_id mac_key activity =
     (let base = (case map_of devs mac_key of Some d \<Rightarrow> d | None \<Rightarrow> [(''mac'', PStr mac_key)]);
          device = copy_allowed base SYNC_DEVICE_FIELDS;
          mac = device_mac_of device mac_key;
          safe = dset ''window_id'' (PStr window_id)
                   (dset ''device_mac'' (PStr mac) (copy_allowed activity SYNC_ACTIVITY_FIELDS))
      in dset ''activity'' (PDict safe) (dset ''mac'' (PStr mac) device))"

fun delta_devices :: "(string \<times> pydict) list \<Rightarrow> string \<Rightarrow> string list \<Rightarrow> pyval list \<Rightarrow> pyval list" where
  "delta_devices devs window_id seen [] = []"
| "delta_devices devs window_id seen (v # vs) =
     (case activity_key window_id v of
        None \<Rightarrow> delta_devices devs window_id seen vs
      | Some k \<Rightarrow>
          if k \<in> set seen then delta_devices devs window_id seen vs
          else PDict (device_entry devs window_id k (dict_of v)) # delta_devices devs window_id (k # seen) vs)"

definition build_delta_payload :: "string \<Rightarrow> string \<Rightarrow> pyval list \<Rightarrow> pyval list \<Rightarrow> string \<Rightarrow> pydict" where
  "build_delta_payload client_id window_id activity_records devices stamp =
     [(''client_id'', PStr client_id), (''sync_timestamp'', PStr stamp), (''window_id'', PStr window_id),
      (''updated_devices'', PList (delta_devices (device_by_mac [] devices) window_id [] activity_records))]"

fun seed_entries :: "string list \<Rightarrow> pyval list \<Rightarrow> pyval list" where
  "seed_entries seen [] = []"
| "seed_entries seen (v # vs) =
     (case v of
        PDict d \<Rightarrow>
          (case dget d ''mac'' of
             PStr s \<Rightarrow>
               let mac = lower (strip s) in
               if mac = [] \<or> mac \<in> set seen then seed_entries seen vs
               else PDict (dset ''mac'' (PStr mac) (copy_allowed d SYNC_DEVICE_FIELDS)) # seed_entries (mac # seen) vs
           | _ \<Rightarrow> seed_entries seen vs)
      | _ \<Rightarrow> seed_entries seen vs)"

definition build_seed_payload :: "string \<Rightarrow> pyval list \<Rightarrow> string \<Rightarrow> pydict" where
  "build_seed_payload client_id devices stamp =
     [(''client_id'', PStr client_id), (''sync_timestamp'', PStr stamp),
      (''updated_devices'', PList (seed_entries [] devices))]"

section \<open>The manager\<close>

text \<open>
  What a worker thread is about to do: start, send its \<open>n\<close>-th attempt, return from the wait of that
  attempt, sleep after it; \<open>Ended\<close> when it is no longer alive.
\<close>

datatype phase =
    Starting pydict
  | Sending int pydict
  | Waiting int pydict
  | Sleeping int pydict
  | Ended

text \<open>
  \<open>ack_events\<close> holds the event of each running worker, true when it is set.  The lists \<open>sent\<close>,
  \<open>accepted\<close> and \<open>acknowledged\<close> record what happened and are read by no operation.
\<close>

record sync =
  pending :: "(string \<times> pydict) list"
  completed :: "string list"
  ack_events :: "(string \<times> bool) list"
  ack_results :: "(string \<times> pydict) list"
  workers :: "(string \<times> phase) list"
  sent :: "pydict list"
  accepted :: "string list"
  acknowledged :: "string list"

definition safe_window_key :: "(string \<Rightarrow> string) \<Rightarrow> string \<Rightarrow> string" where
  "safe_window_key sha window_id = take 24 (sha window_id) @ ''.json''"

definition window_of :: "pydict \<Rightarrow> string" where
  "window_of payload = (case dget payload ''window_id'' of PStr w \<Rightarrow> w | _ \<Rightarrow> [])"

definition ddel :: "'k \<Rightarrow> ('k \<times> 'v) list \<Rightarrow> ('k \<times> 'v) list" where
  "ddel k d = filter (\<lambda>p. fst p \<noteq> k) d"

definition last500 :: "'a list \<Rightarrow> 'a list" where
  "last500 xs = drop (nat (ilen xs - 500)) xs"

definition mark_completed :: "(string \<Rightarrow> string) \<Rightarrow> string \<Rightarrow> sync \<Rightarrow> sync" where
  "mark_completed sha w s =
     (let done = (if w \<in> set (completed s) then completed s else completed s @ [w]) in
      s\<lparr>completed := last500 done, pending := ddel (safe_window_key sha w) (pending s),
        acknowledged := w # acknowledged s\<rparr>)"

definition enqueue_payload :: "(string \<Rightarrow> string) \<Rightarrow> pydict \<Rightarrow> sync \<Rightarrow> sync" where
  "enqueue_payload sha payload s =
     (let w = window_of payload in
      if w \<in> set (completed s) then s
      else let s1 = s\<lparr>pending := dset (safe_window_key sha w) payload (pending s), accepted := w # accepted s\<rparr>
           in case map_of (workers s1) w of
                None \<Rightarrow> s1\<lparr>workers := dset w (Starting payload) (workers s1)\<rparr>
              | Some Ended \<Rightarrow> s1\<lparr>workers := dset w (Starting payload) (workers s1)\<rparr>
              | Some _ \<Rightarrow> s1)"

definition set_phase :: "string \<Rightarrow> phase \<Rightarrow> sync \<Rightarrow> sync" where
  "set_phase w ph s = s\<lparr>workers := dset w ph (workers s)\<rparr>"

text \<open>The \<open>finally\<close> clause of a worker.\<close>

definition finish :: "string \<Rightarrow> sync \<Rightarrow> sync" where
  "finish w s = set_phase w Ended (s\<lparr>ack_events := ddel w (ack_events s), ack_results := ddel w (ack_results s)\<rparr>)"

definition after_attempt :: "int \<Rightarrow> string \<Rightarrow> int \<Rightarrow> pydict \<Rightarrow> sync \<Rightarrow> sync" where
  "after_attempt max_retries w n payload s =
     (if n < max_retries then set_phase w (Sleeping n payload) s else finish w s)"

text \<open>
  One step of the worker of a window.  \<open>ok\<close> says whether the message could be sent, or the file of
  completed windows written.  A wait whose event is not set ends by its timeout.
\<close>

definition worker_step :: "(string \<Rightarrow> string) \<Rightarrow> int \<Rightarrow> string \<Rightarrow> bool \<Rightarrow> sync \<Rightarrow> sync" where
  "worker_step sha max_retries w ok s =
     (case map_of (workers s) w of
        None \<Rightarrow> s
      | Some Ended \<Rightarrow> s
      | Some (Starting payload) \<Rightarrow> set_phase w (Sending 0 payload) (s\<lparr>ack_events := dset w False (ack_events s)\<rparr>)
      | Some (Sending n payload) \<Rightarrow>
          set_phase w (Waiting n payload)
            (s\<lparr>ack_results := ddel w (ack_results s), sent := (if ok then sent s @ [payload] else sent s)\<rparr>)
      | Some (Waiting n payload) \<Rightarrow>
          if map_of (ack_events s) w = Some True \<and>
             (case map_of (ack_results s) w of None \<Rightarrow> False | Some m \<Rightarrow> dget m ''status'' = PStr ''ack'')
          then (if ok then finish w (mark_completed sha w s) else finish w s)
          else after_attempt max_retries w n payload s
      | Some (Sleeping n payload) \<Rightarrow> set_phase w (Sending (n + 1) payload) s)"

definition handle_ack :: "(pyval \<Rightarrow> string) \<Rightarrow> pyval \<Rightarrow> sync \<Rightarrow> bool \<times> sync" where
  "handle_ack repr message s =
     (case message of
        PDict m \<Rightarrow>
          (case dget m ''window_id'' of
             PStr w \<Rightarrow>
               let status = lower (py_str repr (py_or (dget m ''status'') (PStr []))) in
               if status \<noteq> ''ack'' \<and> status \<noteq> ''nack'' then (False, s)
               else (case map_of (ack_events s) w of
                       None \<Rightarrow> (w \<in> set (completed s), s)
                     | Some b \<Rightarrow> (True, s\<lparr>ack_results := dset w m (ack_results s),
                                          ack_events := dset w True (ack_events s)\<rparr>))
           | _ \<Rightarrow> (False, s))
      | _ \<Rightarrow> (False, s))"

text \<open>The readable pending payloads in the order of their file names, and how many were handed to workers.\<close>

definition retry_pending :: "(string \<Rightarrow> string) \<Rightarrow> sync \<Rightarrow> int \<times> sync" where
  "retry_pending sha s =
     (let todo = filter (\<lambda>(name, payload). name \<noteq> ''completed.json'' \<and> is_str (dget payload ''window_id''))
                   (sort_key fst (pending s))
      in (ilen todo, fold (\<lambda>(name, payload). enqueue_payload sha payload) todo s))"

datatype sync_event =
    WindowClosed pydict
  | WorkerStep string bool
  | AckReceived pyval
  | RetryPending

definition sync_step :: "(string \<Rightarrow> string) \<Rightarrow> (pyval \<Rightarrow> string) \<Rightarrow> int \<Rightarrow> sync_event \<Rightarrow> sync \<Rightarrow> sync" where
  "sync_step sha repr max_retries ev s =
     (case ev of
        WindowClosed payload \<Rightarrow> enqueue_payload sha payload s
      | WorkerStep w ok \<Rightarrow> worker_step sha max_retries w ok s
      | AckReceived m \<Rightarrow> snd (handle_ack repr m s)
      | RetryPending \<Rightarrow> snd (retry_pending sha s))"

text \<open>A manager that starts with the given pending files.\<close>

definition initial_sync :: "(string \<times> pydict) list \<Rightarrow> string list \<Rightarrow> sync" where
  "initial_sync files done =
     \<lparr>pending = files, completed = done, ack_events = [], ack_results = [], workers = [], sent = [],
      accepted = [], acknowledged = []\<rparr>"


section \<open>What crosses the sync boundary\<close>

lemma keys_copy_allowed: "fst ` set (copy_allowed d names) \<subseteq> set names"
  by (auto simp: copy_allowed_def split: option.splits)

lemma map_of_copy_allowed: "map_of (copy_allowed d names) f = (if f \<in> set names then map_of d f else None)"
  by (induction names) (auto simp: copy_allowed_def split: option.splits)

lemma dget_copy_allowed: "f \<in> set names \<Longrightarrow> dget (copy_allowed d names) f = dget d f"
  by (simp add: dget_def map_of_copy_allowed)

lemma device_by_mac_keys:
  "map_of (device_by_mac acc vs) k = Some d \<Longrightarrow>
     map_of acc k = Some d \<or> (\<exists>s. PDict d \<in> set vs \<and> dget d ''mac'' = PStr s \<and> lower s = k)"
proof (induction vs arbitrary: acc)
  case (Cons v vs)
  show ?case
  proof (cases "device_key v")
    case (Some k')
    then obtain d' m where v: "v = PDict d'" "dget d' ''mac'' = PStr m" "k' = lower m"
      by (auto simp: device_key_def split: pyval.splits)
    with Some Cons.prems Cons.IH [of "dset k' (dict_of v) acc"] show ?thesis
      by (auto simp: dict_of_def split: if_splits)
  qed (use Cons in auto)
qed simp

lemma lower_lower [simp]: "lower (lower s) = lower s"
  by (auto simp: lower_def lower_char_def Let_def)

lemma activity_key_Some:
  "activity_key w v = Some k \<Longrightarrow> \<exists>a m. v = PDict a \<and> dget a ''device_mac'' = PStr m \<and> strip m \<noteq> [] \<and> k = lower m"
  by (auto simp: activity_key_def split: pyval.splits if_splits)

text \<open>A device's address in the payload is the key under which it was found.\<close>

lemma device_entry_mac:
  assumes "k = lower m" "k \<noteq> []"
  shows "device_mac_of (copy_allowed (case map_of (device_by_mac [] devices) k of
           Some d \<Rightarrow> d | None \<Rightarrow> [(''mac'', PStr k)]) SYNC_DEVICE_FIELDS) k = k"
proof (cases "map_of (device_by_mac [] devices) k")
  case None
  with assms show ?thesis
    by (simp add: device_mac_of_def dget_copy_allowed SYNC_DEVICE_FIELDS_def py_or_def)
next
  case (Some d)
  with device_by_mac_keys [OF Some] obtain s where "dget d ''mac'' = PStr s" "lower s = k" by auto
  with Some assms show ?thesis
    by (auto simp: device_mac_of_def dget_copy_allowed SYNC_DEVICE_FIELDS_def py_or_def lower_def)
qed

text \<open>An entry of the payload: only allowed fields, its address, and its activity.\<close>

definition clean_entry :: "string \<Rightarrow> pyval \<Rightarrow> bool" where
  "clean_entry window_id v \<longleftrightarrow>
     (\<exists>e a m. v = PDict e \<and> fst ` set e \<subseteq> set SYNC_DEVICE_FIELDS \<union> {''activity''} \<and>
        dget e ''mac'' = PStr m \<and> lower m = m \<and> m \<noteq> [] \<and>
        dget e ''activity'' = PDict a \<and> fst ` set a \<subseteq> set SYNC_ACTIVITY_FIELDS \<and>
        dget a ''device_mac'' = PStr m \<and> dget a ''window_id'' = PStr window_id)"

definition entry_mac :: "pyval \<Rightarrow> pyval" where
  "entry_mac v = dget (dict_of v) ''mac''"

lemma strip_lower_nonempty: "strip m \<noteq> [] \<Longrightarrow> lower m \<noteq> []"
  by (auto simp: strip_def lstrip_def rstrip_def lower_def)

lemma device_entry_clean:
  assumes "activity_key w v = Some k"
  shows "clean_entry w (PDict (device_entry (device_by_mac [] devices) w k (dict_of v)))"
    and "entry_mac (PDict (device_entry (device_by_mac [] devices) w k (dict_of v))) = PStr k"
proof -
  from activity_key_Some [OF assms] obtain a m where v: "v = PDict a" and k: "k = lower m" "strip m \<noteq> []"
    by blast
  let ?base = "case map_of (device_by_mac [] devices) k of Some d \<Rightarrow> d | None \<Rightarrow> [(''mac'', PStr k)]"
  have mac: "device_mac_of (copy_allowed ?base SYNC_DEVICE_FIELDS) k = k"
    by (rule device_entry_mac [OF k(1)]) (use k strip_lower_nonempty in auto)
  let ?safe = "dset ''window_id'' (PStr w) (dset ''device_mac'' (PStr k) (copy_allowed a SYNC_ACTIVITY_FIELDS))"
  have e: "device_entry (device_by_mac [] devices) w k (dict_of v)
      = dset ''activity'' (PDict ?safe) (dset ''mac'' (PStr k) (copy_allowed ?base SYNC_DEVICE_FIELDS))"
    by (simp add: device_entry_def Let_def mac v dict_of_def)
  show "entry_mac (PDict (device_entry (device_by_mac [] devices) w k (dict_of v))) = PStr k"
    unfolding e by (simp add: entry_mac_def dict_of_def)
  have "fst ` set ?safe \<subseteq> set SYNC_ACTIVITY_FIELDS"
    using keys_copy_allowed [of a SYNC_ACTIVITY_FIELDS] by (auto simp: keys_dset SYNC_ACTIVITY_FIELDS_def)
  moreover have "fst ` set (dset ''activity'' (PDict ?safe) (dset ''mac'' (PStr k) (copy_allowed ?base SYNC_DEVICE_FIELDS)))
      \<subseteq> set SYNC_DEVICE_FIELDS \<union> {''activity''}"
    using keys_copy_allowed [of ?base SYNC_DEVICE_FIELDS] by (auto simp: keys_dset SYNC_DEVICE_FIELDS_def)
  ultimately show "clean_entry w (PDict (device_entry (device_by_mac [] devices) w k (dict_of v)))"
    unfolding clean_entry_def e using k strip_lower_nonempty
    by (intro exI [of _ "dset ''activity'' (PDict ?safe) (dset ''mac'' (PStr k) (copy_allowed ?base SYNC_DEVICE_FIELDS))"]
          exI [of _ ?safe] exI [of _ k]) auto
qed

lemma delta_devices_clean:
  "list_all (clean_entry w) (delta_devices (device_by_mac [] devices) w seen vs)"
  by (induction vs arbitrary: seen) (auto simp: device_entry_clean(1) split: option.splits)

lemma delta_devices_macs:
  "distinct (map entry_mac (delta_devices (device_by_mac [] devices) w seen vs)) \<and>
   PStr ` set seen \<inter> entry_mac ` set (delta_devices (device_by_mac [] devices) w seen vs) = {}"
proof (induction vs arbitrary: seen)
  case (Cons v vs)
  show ?case
  proof (cases "activity_key w v")
    case (Some k)
    with Cons.IH [of "k # seen"] Cons.IH [of seen] device_entry_clean(2) [OF Some, of devices] show ?thesis
      by (auto simp: disjoint_iff)
  qed (use Cons.IH in simp)
qed simp



section \<open>Client payloads are accepted by the server\<close>

lemma strip_plain: "list_all (\<lambda>c. \<not> is_space c) s \<Longrightarrow> strip s = s"
proof -
  assume s: "list_all (\<lambda>c. \<not> is_space c) s"
  have drop: "dropWhile is_space t = t" if "list_all (\<lambda>c. \<not> is_space c) t" for t
    using that by (cases t) auto
  show "strip s = s"
    using s by (simp add: strip_def lstrip_def rstrip_def drop list_all_rev)
qed

definition mac_char :: "char \<Rightarrow> bool" where
  "mac_char c \<longleftrightarrow> is_hex_lower c \<or> c = CHR '':''"

lemma mac_char_range:
  "mac_char c \<Longrightarrow> (48 \<le> (of_char c :: int) \<and> (of_char c :: int) \<le> 58) \<or>
     (97 \<le> (of_char c :: int) \<and> (of_char c :: int) \<le> 102)"
  by (auto simp: mac_char_def is_hex_lower_def is_digit_def)

lemma mac_char_plain: "mac_char c \<Longrightarrow> \<not> is_space c"
  using mac_char_range [of c] by (auto simp: is_space_def Let_def)

lemma mac_char_lower: "mac_char c \<Longrightarrow> lower_char c = c"
  using mac_char_range [of c] by (auto simp: lower_char_def Let_def)

lemma mac_char_upper: "mac_char c \<Longrightarrow> lower_char (upper_char c) = c"
  using mac_char_range [of c] by (auto simp: lower_char_def upper_char_def Let_def)

lemma pairs_colon_chars: "list_all is_hex_lower c \<Longrightarrow> list_all mac_char (pairs_colon c)"
  by (induction c rule: pairs_colon.induct) (auto simp: mac_char_def)

lemma hex_lower_no_separator: "list_all is_hex_lower c \<Longrightarrow> CHR '':'' \<notin> set c \<and> CHR ''-'' \<notin> set c"
  by (auto simp: list_all_iff is_hex_lower_def is_digit_def)

text \<open>A MAC address in lower case with colons, the form in which the client stores addresses.\<close>

definition colon_mac :: "string \<Rightarrow> bool" where
  "colon_mac m \<longleftrightarrow> (\<exists>c. length c = 12 \<and> list_all is_hex_lower c \<and> m = pairs_colon c)"

lemma normalise_colon_mac:
  assumes "colon_mac m"
  shows "normalise_mac (PStr m) = Inr (upper m) \<and> lower (upper m) = m \<and> lower m = m"
proof -
  from assms obtain c where c: "length c = 12" "list_all is_hex_lower c" "m = pairs_colon c"
    by (auto simp: colon_mac_def)
  from pairs_colon_chars [OF c(2)] have chars: "list_all mac_char m" by (simp add: c(3))
  then have "strip m = m" by (intro strip_plain) (auto simp: list_all_iff mac_char_plain)
  moreover from chars have "lower m = m" "lower (upper m) = m"
    by (auto simp: lower_def upper_def list_all_iff map_idI mac_char_lower mac_char_upper)
  moreover have "mac_compact m = c"
    unfolding c(3) using hex_lower_no_separator [OF c(2)] by (intro pairs_colon_compact) simp_all
  ultimately show ?thesis
    using c by (simp add: normalise_mac_def ilen_length)
qed

definition sendable_activity :: "pyval \<Rightarrow> bool" where
  "sendable_activity v \<longleftrightarrow>
     (\<exists>a m t1 t2. v = PDict a \<and> dget a ''device_mac'' = PStr m \<and> colon_mac (lower m) \<and>
        required_datetime (dget a ''window_start'') ''activity.window_start'' = Inr t1 \<and>
        required_datetime (dget a ''window_end'') ''activity.window_end'' = Inr t2 \<and>
        is_bool (dget a ''active'') \<and>
        (\<forall>f\<in>{''flow_count'', ''packet_count'', ''bytes'', ''unique_destinations''}. is_count (dget a f)) \<and>
        (\<forall>f\<in>{''protocols'', ''ports'', ''connections''}. is_dict (dget a f)))"

definition reportable_device :: "pyval \<Rightarrow> bool" where
  "reportable_device v \<longleftrightarrow>
     (\<forall>d. v = PDict d \<longrightarrow> (\<exists>ip. optional_ip (dget d ''ip'') = Inr ip) \<and>
        (\<exists>t. parse_datetime (dget d ''last_seen'') ''last_seen'' False = Inr t) \<and>
        (map_of d ''discovery'' = None \<or> (\<exists>x. map_of d ''discovery'' = Some (PDict x))))"

lemma allowed_fields:
  "set SYNC_DEVICE_FIELDS \<union> {''activity''} \<subseteq> set DEVICE_FIELDS"
  "set SYNC_ACTIVITY_FIELDS = set ACTIVITY_FIELDS"
  "set DEVICE_FIELDS \<inter> set FORBIDDEN_FIELDS = {}" "set ACTIVITY_FIELDS \<inter> set FORBIDDEN_FIELDS = {}"
  by (simp_all add: SYNC_DEVICE_FIELDS_def SYNC_ACTIVITY_FIELDS_def DEVICE_FIELDS_def ACTIVITY_FIELDS_def
      FORBIDDEN_FIELDS_def)

lemma check_activity_sent:
  fixes w :: string
  assumes "sendable_activity (PDict a)" "colon_mac k"
  defines "safe \<equiv> dset ''window_id'' (PStr w) (dset ''device_mac'' (PStr k) (copy_allowed a SYNC_ACTIVITY_FIELDS))"
  shows "check_activity safe (upper k) w = Inr ()"
proof -
  have "fst ` set safe \<subseteq> set ACTIVITY_FIELDS"
    using keys_copy_allowed [of a SYNC_ACTIVITY_FIELDS]
    by (auto simp: safe_def keys_dset allowed_fields(2) ACTIVITY_FIELDS_def)
  moreover have "dget safe f = dget a f"
    if "f \<in> set SYNC_ACTIVITY_FIELDS" "f \<noteq> ''window_id''" "f \<noteq> ''device_mac''" for f
    using that by (simp add: safe_def dget_copy_allowed)
  ultimately show ?thesis
    using assms(1) normalise_colon_mac [OF assms(2)] allowed_fields(4)
    by (auto simp: check_activity_def then_do_eq_Inr sendable_activity_def SYNC_ACTIVITY_FIELDS_def
          activity_mac_def dget_or_def safe_def)
qed


lemma entry_base:
  assumes "list_all reportable_device devices"
    and "base = (case map_of (device_by_mac [] devices) k of Some d \<Rightarrow> d | None \<Rightarrow> [(''mac'', PStr k)])"
  shows "reportable_device (PDict base)"
proof (cases "map_of (device_by_mac [] devices) k")
  case None
  with assms(2) show ?thesis by (simp add: reportable_device_def optional_ip_def parse_datetime_def)
next
  case (Some d)
  with device_by_mac_keys [OF Some] assms show ?thesis by (auto simp: list_all_iff)
qed

lemma sent_device_accepted:
  assumes "list_all reportable_device devices" "sendable_activity v" "activity_key w v = Some k"
  shows "\<exists>d. validate_delta_device w (PDict (device_entry (device_by_mac [] devices) w k (dict_of v))) = Inr d"
proof -
  from assms(2) activity_key_Some [OF assms(3)] obtain a where v: "v = PDict a" and k: "colon_mac k"
    by (auto simp: sendable_activity_def)
  have "k \<noteq> []" using k by (auto simp: colon_mac_def elim: pairs_colon.elims)
  define base where "base = (case map_of (device_by_mac [] devices) k of Some d \<Rightarrow> d | None \<Rightarrow> [(''mac'', PStr k)])"
  define safe where "safe = dset ''window_id'' (PStr w) (dset ''device_mac'' (PStr k) (copy_allowed a SYNC_ACTIVITY_FIELDS))"
  define e where "e = dset ''activity'' (PDict safe) (dset ''mac'' (PStr k) (copy_allowed base SYNC_DEVICE_FIELDS))"
  have "device_mac_of (copy_allowed base SYNC_DEVICE_FIELDS) k = k"
    unfolding base_def using device_entry_mac [of k k] normalise_colon_mac [OF k] \<open>k \<noteq> []\<close> by simp
  then have entry: "device_entry (device_by_mac [] devices) w k (dict_of v) = e"
    by (simp add: device_entry_def Let_def v dict_of_def e_def safe_def base_def)
  have names: "fst ` set e \<subseteq> set DEVICE_FIELDS"
    using keys_copy_allowed [of base SYNC_DEVICE_FIELDS] allowed_fields(1)
    by (auto simp: e_def keys_dset DEVICE_FIELDS_def)
  have same: "map_of e f = map_of base f" if "f \<in> {''ip'', ''last_seen'', ''discovery''}" for f
    using that by (auto simp: e_def map_of_copy_allowed SYNC_DEVICE_FIELDS_def)
  then have "dget e ''ip'' = dget base ''ip''" "dget e ''last_seen'' = dget base ''last_seen''"
    by (simp_all add: dget_def)
  moreover have "reportable_device (PDict base)"
    by (rule entry_base [OF assms(1) base_def])
  ultimately obtain ip t where dev: "optional_ip (dget e ''ip'') = Inr ip"
      "parse_datetime (dget e ''last_seen'') ''last_seen'' False = Inr t"
    and disc: "map_of e ''discovery'' = None \<or> (\<exists>x. map_of e ''discovery'' = Some (PDict x))"
    using same [of "''discovery''"] by (auto simp: reportable_device_def)
  from disc obtain x where x: "dget_or e ''discovery'' (PDict []) = PDict x"
    by (auto simp: dget_or_def)
  have "dget e ''mac'' = PStr k" "dget e ''activity'' = PDict safe"
    by (simp_all add: e_def)
  with names allowed_fields(3) check_activity_sent [of a k w] assms(2) v k normalise_colon_mac [OF k] x dev
  show ?thesis
    unfolding entry by (auto simp: validate_delta_device_def then_do_eq_Inr normalise_device_def safe_def)
qed

lemma each_total: "\<forall>x\<in>set xs. \<exists>y. f x = Inr y \<Longrightarrow> \<exists>ys. each f xs = Inr ys"
  by (induction xs) auto

lemma delta_devices_accepted:
  "list_all reportable_device devices \<Longrightarrow> list_all sendable_activity vs
   \<Longrightarrow> \<forall>x\<in>set (delta_devices (device_by_mac [] devices) w seen vs). \<exists>d. validate_delta_device w x = Inr d"
proof (induction vs arbitrary: seen)
  case (Cons v vs)
  show ?case
  proof (cases "activity_key w v")
    case (Some k)
    with Cons sent_device_accepted [OF Cons.prems(1) _ Some] show ?thesis by auto
  qed (use Cons in simp)
qed simp


section \<open>No window is lost\<close>

text \<open>
  Every accepted window is acknowledged or still has its payload in a pending file.  The windows are
  those of a set \<open>W\<close> on which the digest is injective.
\<close>

definition kept :: "(string \<Rightarrow> string) \<Rightarrow> sync \<Rightarrow> bool" where
  "kept sha s \<longleftrightarrow>
     (\<forall>w\<in>set (accepted s). w \<in> set (acknowledged s) \<or>
        (\<exists>p. map_of (pending s) (safe_window_key sha w) = Some p \<and> window_of p = w))"

definition windows_in :: "string set \<Rightarrow> sync \<Rightarrow> bool" where
  "windows_in W s \<longleftrightarrow> set (accepted s) \<subseteq> W \<and> (\<forall>(n, p)\<in>set (pending s). window_of p \<in> W) \<and>
     fst ` set (workers s) \<subseteq> W"

definition sync_good :: "(string \<Rightarrow> string) \<Rightarrow> string set \<Rightarrow> sync \<Rightarrow> bool" where
  "sync_good sha W s \<longleftrightarrow> windows_in W s \<and> (inj_on (safe_window_key sha) W \<longrightarrow> kept sha s)"

lemma map_of_ddel [simp]: "map_of (ddel k d) k' = (if k' = k then None else map_of d k')"
  by (induction d) (auto simp: ddel_def)

lemma windows_in_pending:
  "windows_in W s \<Longrightarrow> window_of p \<in> W \<Longrightarrow> \<forall>(n, p)\<in>set (dset k p (pending s)). window_of p \<in> W"
  using set_dset [of k p "pending s"] by (auto simp: windows_in_def)

lemma enqueue_windows: "windows_in W s \<Longrightarrow> window_of p \<in> W \<Longrightarrow> windows_in W (enqueue_payload sha p s)"
  using windows_in_pending [of W s p]
  by (auto simp: enqueue_payload_def windows_in_def Let_def keys_dset split: option.splits phase.splits)

lemma kept_enqueue:
  assumes "inj_on (safe_window_key sha) W" "windows_in W s" "window_of p \<in> W" "kept sha s"
  shows "kept sha (enqueue_payload sha p s)"
  using assms
  by (auto simp: enqueue_payload_def kept_def windows_in_def Let_def dest: inj_onD split: option.splits phase.splits)

lemma good_enqueue: "sync_good sha W s \<Longrightarrow> window_of p \<in> W \<Longrightarrow> sync_good sha W (enqueue_payload sha p s)"
  by (auto simp: sync_good_def enqueue_windows kept_enqueue)

lemma kept_mark:
  "inj_on (safe_window_key sha) W \<Longrightarrow> windows_in W s \<Longrightarrow> w \<in> W \<Longrightarrow> kept sha s
   \<Longrightarrow> kept sha (mark_completed sha w s)"
  by (auto simp: mark_completed_def kept_def windows_in_def Let_def dest: inj_onD)

lemma mark_windows: "windows_in W s \<Longrightarrow> windows_in W (mark_completed sha w s)"
  by (auto simp: mark_completed_def windows_in_def ddel_def Let_def)

lemma kept_same:
  "accepted s' = accepted s \<Longrightarrow> acknowledged s' = acknowledged s \<Longrightarrow> pending s' = pending s
   \<Longrightarrow> kept sha s' = kept sha s"
  by (simp add: kept_def)

lemma finish_fields [simp]:
  "accepted (finish w s) = accepted s" "acknowledged (finish w s) = acknowledged s"
  "pending (finish w s) = pending s" "completed (finish w s) = completed s"
  by (simp_all add: finish_def set_phase_def)

lemma after_attempt_fields [simp]:
  "accepted (after_attempt k w n p s) = accepted s" "acknowledged (after_attempt k w n p s) = acknowledged s"
  "pending (after_attempt k w n p s) = pending s"
  by (simp_all add: after_attempt_def set_phase_def)

definition ack_ready :: "string \<Rightarrow> sync \<Rightarrow> bool" where
  "ack_ready w s \<longleftrightarrow> (\<exists>m. map_of (ack_results s) w = Some m \<and> dget m ''status'' = PStr ''ack'')"

text \<open>A worker step keeps what \<open>kept\<close> looks at, or completes a window whose acknowledgement is in.\<close>

lemma worker_step_cases:
  obtains (same) "accepted (worker_step sha k w ok s) = accepted s"
      "acknowledged (worker_step sha k w ok s) = acknowledged s"
      "pending (worker_step sha k w ok s) = pending s"
  | (marked) "worker_step sha k w ok s = finish w (mark_completed sha w s)" "ack_ready w s"
      "map_of (workers s) w \<noteq> None"
proof (cases "\<exists>n p. map_of (workers s) w = Some (Waiting n p) \<and> map_of (ack_events s) w = Some True \<and> ack_ready w s \<and> ok")
  case True
  then have "worker_step sha k w ok s = finish w (mark_completed sha w s)" "ack_ready w s"
      "map_of (workers s) w \<noteq> None"
    by (auto simp: worker_step_def ack_ready_def)
  then show thesis by (rule marked)
next
  case False
  show thesis
  proof (rule same)
    show "accepted (worker_step sha k w ok s) = accepted s"
      "acknowledged (worker_step sha k w ok s) = acknowledged s"
      "pending (worker_step sha k w ok s) = pending s"
      using False
      by (auto simp: worker_step_def ack_ready_def set_phase_def split: option.splits phase.splits)
  qed
qed

lemma retry_fold_good:
  "sync_good sha W s \<Longrightarrow> \<forall>(n, p)\<in>set todo. window_of p \<in> W
   \<Longrightarrow> sync_good sha W (fold (\<lambda>(name, payload). enqueue_payload sha payload) todo s)"
  by (induction todo arbitrary: s) (auto simp: good_enqueue)

lemma retry_good: "sync_good sha W s \<Longrightarrow> sync_good sha W (snd (retry_pending sha s))"
proof -
  assume good: "sync_good sha W s"
  then have "\<forall>(n, p)\<in>set (pending s). window_of p \<in> W"
    by (simp add: sync_good_def windows_in_def)
  then show ?thesis
    unfolding retry_pending_def Let_def snd_conv by (intro retry_fold_good good) auto
qed

lemma handle_ack_fields:
  "accepted (snd (handle_ack repr m s)) = accepted s"
  "acknowledged (snd (handle_ack repr m s)) = acknowledged s"
  "pending (snd (handle_ack repr m s)) = pending s"
  "workers (snd (handle_ack repr m s)) = workers s"
  by (auto simp: handle_ack_def Let_def split: pyval.splits option.splits)

lemma worker_step_workers: "fst ` set (workers (worker_step sha k w ok s)) = fst ` set (workers s)"
proof (cases "map_of (workers s) w")
  case None
  then show ?thesis by (simp add: worker_step_def)
next
  case (Some ph)
  then have "w \<in> fst ` set (workers s)" by (force dest: map_of_SomeD)
  with Some show ?thesis
    by (cases ph) (auto simp: worker_step_def set_phase_def after_attempt_def finish_def mark_completed_def
        Let_def keys_dset)
qed

lemma good_worker_step:
  assumes "sync_good sha W s"
  shows "sync_good sha W (worker_step sha k w ok s)"
proof (cases rule: worker_step_cases [of sha k w ok s])
  case same
  with assms worker_step_workers [of sha k w ok s] show ?thesis
    by (simp add: sync_good_def windows_in_def kept_def)
next
  case marked
  then have "w \<in> fst ` set (workers s)" by (force dest: map_of_SomeD)
  with assms have "w \<in> W" "windows_in W s" by (auto simp: sync_good_def windows_in_def)
  with assms kept_mark [of sha W s w] mark_windows [of W s sha w] worker_step_workers [of sha k w ok s] marked(1)
  show ?thesis by (auto simp: sync_good_def windows_in_def kept_def)
qed

lemma good_ack: "sync_good sha W s \<Longrightarrow> sync_good sha W (snd (handle_ack repr v s))"
  by (simp add: sync_good_def windows_in_def kept_def handle_ack_fields)

definition event_in :: "string set \<Rightarrow> sync_event \<Rightarrow> bool" where
  "event_in W ev \<longleftrightarrow> (\<forall>p. ev = WindowClosed p \<longrightarrow> window_of p \<in> W)"

lemma good_step: "event_in W ev \<Longrightarrow> sync_good sha W s \<Longrightarrow> sync_good sha W (sync_step sha repr k ev s)"
  by (cases ev)
     (auto simp: sync_step_def good_enqueue good_worker_step retry_good event_in_def good_ack)

interpretation sync_run: lifecycle "sync_step sha repr k" "event_in W" "sync_good sha W" for sha repr k W
  by unfold_locales (rule good_step)

text \<open>An acknowledgement that a worker may act on was received for its window.\<close>

definition ack_for :: "string \<Rightarrow> sync_event \<Rightarrow> bool" where
  "ack_for w ev \<longleftrightarrow>
     (\<exists>m. ev = AckReceived (PDict m) \<and> dget m ''window_id'' = PStr w \<and> dget m ''status'' = PStr ''ack'')"

definition justified :: "sync_event list \<Rightarrow> sync \<Rightarrow> bool" where
  "justified evs s \<longleftrightarrow>
     (\<forall>w. (w \<in> set (acknowledged s) \<or> ack_ready w s) \<longrightarrow> (\<exists>ev\<in>set evs. ack_for w ev))"

lemma enqueue_fields:
  "acknowledged (enqueue_payload sha p s) = acknowledged s" "ack_results (enqueue_payload sha p s) = ack_results s"
  by (auto simp: enqueue_payload_def Let_def split: option.splits phase.splits)

lemma retry_fold_fields:
  "acknowledged (fold (\<lambda>(name, payload). enqueue_payload sha payload) todo s) = acknowledged s"
  "ack_results (fold (\<lambda>(name, payload). enqueue_payload sha payload) todo s) = ack_results s"
  by (induction todo arbitrary: s) (auto simp: enqueue_fields)

lemma worker_step_results:
  "map_of (ack_results (worker_step sha k w' ok s)) w = None \<or>
   map_of (ack_results (worker_step sha k w' ok s)) w = map_of (ack_results s) w"
  by (auto simp: worker_step_def set_phase_def after_attempt_def finish_def mark_completed_def Let_def
        split: option.splits phase.splits)

lemma justified_worker_step:
  assumes "justified evs s"
  shows "justified evs (worker_step sha k w ok s)"
proof -
  have ready: "ack_ready w' s" if "ack_ready w' (worker_step sha k w ok s)" for w'
    using that worker_step_results [of sha k w ok s w'] by (auto simp: ack_ready_def)
  have "w' \<in> set (acknowledged s) \<or> ack_ready w' s" if "w' \<in> set (acknowledged (worker_step sha k w ok s))" for w'
    by (cases rule: worker_step_cases [of sha k w ok s])
       (use that in \<open>auto simp: mark_completed_def Let_def\<close>)
  with ready assms show ?thesis by (meson justified_def)
qed

lemma justified_ack:
  assumes "justified evs s"
  shows "justified (evs @ [AckReceived v]) (snd (handle_ack repr v s))"
proof -
  have "ack_ready w s \<or> ack_for w (AckReceived v)" if "ack_ready w (snd (handle_ack repr v s))" for w
    using that
    by (auto simp: handle_ack_def ack_ready_def ack_for_def Let_def
          split: pyval.splits option.splits if_splits)
  then have "w \<in> set (acknowledged s) \<or> ack_ready w s \<or> ack_for w (AckReceived v)"
    if "w \<in> set (acknowledged (snd (handle_ack repr v s))) \<or> ack_ready w (snd (handle_ack repr v s))" for w
    using that by (auto simp: handle_ack_fields)
  with assms show ?thesis
    unfolding justified_def by fastforce
qed

lemma justified_step:
  assumes "justified evs s"
  shows "justified (evs @ [ev]) (sync_step sha repr k ev s)"
proof -
  have more: "justified (evs @ [ev]) s'" if "justified evs s'" for s'
    using that by (auto simp: justified_def)
  show ?thesis
  proof (cases ev)
    case (WindowClosed p)
    have "justified evs (enqueue_payload sha p s)"
      using assms by (simp add: justified_def ack_ready_def enqueue_fields)
    with WindowClosed more show ?thesis by (simp add: sync_step_def)
  next
    case (WorkerStep w ok)
    with more [OF justified_worker_step [OF assms]] show ?thesis by (simp add: sync_step_def)
  next
    case (AckReceived v)
    with justified_ack [OF assms] show ?thesis by (simp add: sync_step_def)
  next
    case RetryPending
    have "justified evs (snd (retry_pending sha s))"
      using assms by (simp add: justified_def ack_ready_def retry_pending_def Let_def retry_fold_fields)
    with RetryPending more show ?thesis by (simp add: sync_step_def)
  qed
qed

lemma justified_run: "justified evs (fold (sync_step sha repr k) evs (initial_sync files dn))"
proof (induction evs rule: rev_induct)
  case Nil
  then show ?case by (simp add: justified_def initial_sync_def ack_ready_def)
next
  case (snoc ev evs)
  then show ?case using justified_step by simp
qed

text \<open>
  C19. Whatever the interleaving of closed windows, worker steps, failing sends and writes, messages
  and reconnects: a window that was accepted still has its payload in a pending file, unless a
  message with status \<open>ack\<close> for that very window was received.  The hypothesis: the digest names
  the windows of the run, and those of the files it starts with, differently.
\<close>

theorem no_window_lost:
  assumes "inj_on (safe_window_key sha) W" "\<forall>ev\<in>set evs. event_in W ev" "\<forall>(n, p)\<in>set saved. window_of p \<in> W"
    and "s = fold (sync_step sha repr k) evs (initial_sync saved dn)" "w \<in> set (accepted s)"
  shows "(\<exists>p. map_of (pending s) (safe_window_key sha w) = Some p \<and> window_of p = w) \<or>
    (\<exists>m. AckReceived (PDict m) \<in> set evs \<and> dget m ''window_id'' = PStr w \<and> dget m ''status'' = PStr ''ack'')"
proof -
  have "sync_good sha W (initial_sync saved dn)"
    using assms(3) by (auto simp: sync_good_def windows_in_def kept_def initial_sync_def)
  with sync_run.run_good assms(2) have "sync_good sha W s"
    unfolding assms(4) by blast
  with assms(1,5) have "w \<in> set (acknowledged s) \<or>
      (\<exists>p. map_of (pending s) (safe_window_key sha w) = Some p \<and> window_of p = w)"
    by (auto simp: sync_good_def kept_def)
  with justified_run [of evs sha repr k saved dn] show ?thesis
    unfolding assms(4) justified_def ack_for_def by blast
qed

section \<open>Workers end\<close>

text \<open>The steps a worker has left.\<close>

definition steps_left :: "int \<Rightarrow> phase \<Rightarrow> int" where
  "steps_left k ph =
     (case ph of
        Starting p \<Rightarrow> 3 * k + 3
      | Sending n p \<Rightarrow> 3 * (k - n) + 2
      | Waiting n p \<Rightarrow> 3 * (k - n) + 1
      | Sleeping n p \<Rightarrow> 3 * (k - n)
      | Ended \<Rightarrow> 0)"

definition phase_ok :: "int \<Rightarrow> phase \<Rightarrow> bool" where
  "phase_ok k ph \<longleftrightarrow>
     (case ph of
        Starting p \<Rightarrow> True
      | Sending n p \<Rightarrow> 0 \<le> n \<and> n \<le> k
      | Waiting n p \<Rightarrow> 0 \<le> n \<and> n \<le> k
      | Sleeping n p \<Rightarrow> 0 \<le> n \<and> n < k
      | Ended \<Rightarrow> True)"

definition worker_of :: "string \<Rightarrow> sync \<Rightarrow> phase" where
  "worker_of w s = (case map_of (workers s) w of None \<Rightarrow> Ended | Some ph \<Rightarrow> ph)"

lemma worker_step_progress:
  assumes "0 \<le> k" "phase_ok k (worker_of w s)"
  shows "phase_ok k (worker_of w (worker_step sha k w ok s)) \<and>
    steps_left k (worker_of w (worker_step sha k w ok s)) \<le> max 0 (steps_left k (worker_of w s) - 1)"
  using assms
  by (cases "map_of (workers s) w")
     (auto simp: worker_of_def worker_step_def set_phase_def after_attempt_def finish_def mark_completed_def
        phase_ok_def steps_left_def Let_def split: phase.splits option.splits)

lemma worker_step_other: "w' \<noteq> w \<Longrightarrow> worker_of w (worker_step sha k w' ok s) = worker_of w s"
  by (auto simp: worker_of_def worker_step_def set_phase_def after_attempt_def finish_def mark_completed_def
        Let_def split: phase.splits option.splits)

lemma steps_left_Ended: "0 \<le> k \<Longrightarrow> phase_ok k ph \<Longrightarrow> steps_left k ph \<le> 0 \<Longrightarrow> ph = Ended"
  by (cases ph) (auto simp: phase_ok_def steps_left_def)

lemma steps_left_run:
  "0 \<le> k \<Longrightarrow> phase_ok k (worker_of w s) \<Longrightarrow>
     \<forall>ev\<in>set evs. (\<exists>w ok. ev = WorkerStep w ok) \<or> (\<exists>m. ev = AckReceived m) \<Longrightarrow>
     phase_ok k (worker_of w (fold (sync_step sha repr k) evs s)) \<and>
     steps_left k (worker_of w (fold (sync_step sha repr k) evs s))
       \<le> max 0 (steps_left k (worker_of w s) - ilen (filter (\<lambda>ev. \<exists>ok. ev = WorkerStep w ok) evs))"
proof (induction evs arbitrary: s)
  case Nil
  then show ?case by (simp)
next
  case (Cons ev evs)
  let ?s = "sync_step sha repr k ev s"
  have "phase_ok k (worker_of w ?s) \<and>
      steps_left k (worker_of w ?s) \<le> max 0 (steps_left k (worker_of w s)
        - (if \<exists>ok. ev = WorkerStep w ok then 1 else 0))"
  proof (cases ev)
    case (WorkerStep w' ok)
    then show ?thesis
      using worker_step_progress [OF Cons.prems(1,2), of sha ok] Cons.prems(2) worker_step_other [of w' w sha k ok s]
      by (cases "w' = w") (auto simp: sync_step_def)
  next
    case (AckReceived m)
    then show ?thesis using Cons.prems(2) by (simp add: sync_step_def worker_of_def handle_ack_fields)
  qed (use Cons.prems in auto)
  moreover from this Cons.IH [of ?s] Cons.prems
  have "phase_ok k (worker_of w (fold (sync_step sha repr k) evs ?s)) \<and>
      steps_left k (worker_of w (fold (sync_step sha repr k) evs ?s))
        \<le> max 0 (steps_left k (worker_of w ?s) - ilen (filter (\<lambda>ev. \<exists>ok. ev = WorkerStep w ok) evs))"
    by simp
  moreover have "0 \<le> ilen (filter (\<lambda>ev. \<exists>ok. ev = WorkerStep w ok) evs)"
    by (simp add: ilen_length)
  ultimately show ?case by (cases "\<exists>ok. ev = WorkerStep w ok") auto
qed

text \<open>
  C40. A worker always ends: from its start, after \<open>3 * max_retries + 3\<close> steps of its own, with the
  steps of other workers and any messages in between and whatever sends, waits and writes do, it is
  no longer alive, so that a reconnect can start it again.
\<close>

theorem worker_ends:
  assumes "0 \<le> k" "map_of (workers s) w = Some (Starting p)"
    and "\<forall>ev\<in>set evs. (\<exists>w ok. ev = WorkerStep w ok) \<or> (\<exists>m. ev = AckReceived m)"
    and "3 * k + 3 \<le> ilen (filter (\<lambda>ev. \<exists>ok. ev = WorkerStep w ok) evs)"
  shows "worker_of w (fold (sync_step sha repr k) evs s) = Ended"
proof -
  have "worker_of w s = Starting p" using assms(2) by (simp add: worker_of_def)
  then have "phase_ok k (worker_of w s)" "steps_left k (worker_of w s) = 3 * k + 3"
    by (simp_all add: phase_ok_def steps_left_def)
  with steps_left_run [OF assms(1) _ assms(3), of w s sha repr] assms(1,4) show ?thesis
    by (intro steps_left_Ended) auto
qed

text \<open>
  After a NACK the event of the worker stays set: its next wait does not wait, finds no result and
  counts as a failed attempt unless the answer arrived first.
\<close>

lemma nack_disables_waiting:
  assumes "map_of (workers s) w = Some (Waiting n p)" "n < k" "map_of (ack_events s) w = Some True"
    and "map_of (ack_results s) w = Some m" "dget m ''status'' = PStr ''nack''"
    and "s' = worker_step sha k w b3 (worker_step sha k w b2 (worker_step sha k w b1 s))"
  shows "map_of (workers s') w = Some (Waiting (n + 1) p) \<and> map_of (ack_events s') w = Some True \<and>
    map_of (ack_results s') w = None"
  using assms by (simp add: worker_step_def after_attempt_def set_phase_def)

section \<open>A concrete run\<close>

lemma demo_colon_mac: "colon_mac ''aa:bb:cc:dd:ee:01''"
  unfolding colon_mac_def by (intro exI [of _ "''aabbccddee01''"]) code_simp


definition demo_events :: "sync_event list" where
  "demo_events = [WindowClosed [(''window_id'', PStr ''w1'')], WorkerStep ''w1'' True, WorkerStep ''w1'' False]"

lemma no_window_lost_witness:
  "\<exists>p. map_of (pending (fold (sync_step (\<lambda>w. w) (\<lambda>_. []) 3) demo_events (initial_sync [] [])))
     (safe_window_key (\<lambda>w. w) ''w1'') = Some p \<and> window_of p = ''w1''"
proof -
  let ?s = "fold (sync_step (\<lambda>w. w) (\<lambda>_. []) 3) demo_events (initial_sync [] [])"
  have "''w1'' \<in> set (accepted ?s)" by code_simp
  then show ?thesis
    using no_window_lost [of "\<lambda>w. w" "{''w1''}" demo_events "[]" ?s "\<lambda>_. []" 3 "[]" "''w1''"]
    by (auto simp: demo_events_def event_in_def window_of_def)
qed

lemma worker_ends_witness:
  "worker_of ''w1'' (fold (sync_step (\<lambda>w. w) (\<lambda>_. []) 0)
       [WorkerStep ''w1'' True, AckReceived PNone, WorkerStep ''w1'' False, WorkerStep ''w1'' True]
       (enqueue_payload (\<lambda>w. w) [(''window_id'', PStr ''w1'')] (initial_sync [] []))) = Ended"
proof (rule worker_ends)
  show "map_of (workers (enqueue_payload (\<lambda>w. w) [(''window_id'', PStr ''w1'')] (initial_sync [] []))) ''w1''
      = Some (Starting [(''window_id'', PStr ''w1'')])"
    by code_simp
qed auto

end
