(* ===== verification/Bytes.thy ===== *)
theory Bytes
  imports Formats
begin

text \<open>
  Byte strings as lists of integers, with slicing and big-endian reads as Python's slices and
  \<open>struct.unpack_from\<close> do them: a slice is clamped to the data, a read beyond it raises
  \<open>struct.error\<close>.  Indexes are integers, as in the sources.  Decoding of UTF-8 is a parameter where
  a component needs it.
\<close>

type_synonym bytes = "int list"

definition byte_range :: "bytes \<Rightarrow> bool" where
  "byte_range bs \<longleftrightarrow> list_all (\<lambda>b. 0 \<le> b \<and> b < 256) bs"

fun idrop :: "int \<Rightarrow> 'a list \<Rightarrow> 'a list" where
  "idrop n [] = []"
| "idrop n (x # xs) = (if n \<le> 0 then x # xs else idrop (n - 1) xs)"

fun itake :: "int \<Rightarrow> 'a list \<Rightarrow> 'a list" where
  "itake n [] = []"
| "itake n (x # xs) = (if n \<le> 0 then [] else x # itake (n - 1) xs)"

lemma nat_Suc_diff: "\<not> n \<le> 0 \<Longrightarrow> nat n = Suc (nat (n - 1))"
  by simp

lemma idrop_drop: "idrop n xs = drop (nat n) xs"
  by (induction n xs rule: idrop.induct) (auto simp: nat_Suc_diff)

lemma itake_take: "itake n xs = take (nat n) xs"
  by (induction n xs rule: itake.induct) (auto simp: nat_Suc_diff)

lemma itake_idrop: "itake n xs @ idrop n xs = xs"
  by (simp add: itake_take idrop_drop)

lemma length_idrop [simp]: "length (idrop n xs) \<le> length xs"
  by (simp add: idrop_drop)

lemma itake_append: "n = ilen xs \<Longrightarrow> itake n (xs @ ys) = xs"
  by (simp add: itake_take ilen_length)

lemma idrop_append: "n = ilen xs \<Longrightarrow> idrop n (xs @ ys) = ys"
  by (simp add: idrop_drop ilen_length)

text \<open>\<open>data[a:b]\<close> for indexes that are not negative.\<close>

definition slice :: "int \<Rightarrow> int \<Rightarrow> 'a list \<Rightarrow> 'a list" where
  "slice a b xs = itake (b - a) (idrop a xs)"

lemma set_slice: "set (slice a b xs) \<subseteq> set xs"
  unfolding slice_def itake_take idrop_drop by (meson set_drop_subset set_take_subset subset_trans)

lemma byte_range_slice: "byte_range xs \<Longrightarrow> byte_range (slice a b xs)"
  using set_slice [of a b xs] by (auto simp: byte_range_def list_all_iff)

definition iget :: "int \<Rightarrow> 'a list \<Rightarrow> 'a option" where
  "iget i xs = (if i < 0 then None else case idrop i xs of [] \<Rightarrow> None | x # _ \<Rightarrow> Some x)"

lemma iget_Some: "iget i xs = Some x \<Longrightarrow> x \<in> set xs \<and> 0 \<le> i \<and> i < ilen xs"
  by (auto simp: iget_def idrop_drop ilen_length split: if_splits list.splits)
     (metis in_set_dropD list.set_intros(1), metis drop_all linorder_not_le list.distinct(1) zless_nat_conj
        nat_less_iff)

definition struct_error :: "'a result" where
  "struct_error = raise_exc StructError ''unpack_from requires a buffer of more bytes''"

definition be :: "bytes \<Rightarrow> int" where
  "be bs = foldl (\<lambda>acc b. acc * 256 + b) 0 bs"

text \<open>\<open>struct.unpack_from("!H", data, off)[0]\<close> and \<open>"!I"\<close>.\<close>

definition be16_at :: "bytes \<Rightarrow> int \<Rightarrow> int result" where
  "be16_at data off = (if off + 2 \<le> ilen data then Inr (be (slice off (off + 2) data)) else struct_error)"

definition be32_at :: "bytes \<Rightarrow> int \<Rightarrow> int result" where
  "be32_at data off = (if off + 4 \<le> ilen data then Inr (be (slice off (off + 4) data)) else struct_error)"

lemma be_bound: "byte_range bs \<Longrightarrow> 0 \<le> be bs \<and> be bs < 256 ^ length bs"
proof (induction bs rule: rev_induct)
  case (snoc b bs)
  then have "0 \<le> be bs" "be bs + 1 \<le> 256 ^ length bs" "0 \<le> b" "b < 256"
    by (auto simp: byte_range_def)
  then have "be bs * 256 + b < 256 ^ length bs * 256" "0 \<le> be bs * 256 + b" by linarith+
  then show ?case by (simp add: be_def mult.commute)
qed (simp add: be_def)

text \<open>The text of IPv4 addresses, and hexadecimal text.\<close>

definition ipv4_str :: "int \<Rightarrow> string" where
  "ipv4_str v =
     join ''.'' [int_str (v div 16777216 mod 256), int_str (v div 65536 mod 256), int_str (v div 256 mod 256),
                 int_str (v mod 256)]"

definition hex_lower_digit :: "int \<Rightarrow> char" where
  "hex_lower_digit d = (if d < 10 then char_of (48 + d) else char_of (87 + d))"

function hex_str :: "int \<Rightarrow> string" where
  "hex_str n = (if n < 16 then [hex_lower_digit n] else hex_str (n div 16) @ [hex_lower_digit (n mod 16)])"
  by pat_completeness auto
termination
  by (relation "measure nat") auto

declare hex_str.simps [simp del]

definition hex_bytes :: "bytes \<Rightarrow> string" where
  "hex_bytes bs = join '':'' (map hex2 bs)"

lemma digits_val_append: "digits_val acc (xs @ ys) = digits_val (digits_val acc xs) ys"
  by (induction acc xs rule: digits_val.induct) simp_all

lemma digit_char_facts:
  "0 \<le> d \<Longrightarrow> d < 10 \<Longrightarrow> is_digit (digit_char d) \<and> digit_val (digit_char d) = d \<and> digit_char d \<noteq> CHR ''.''"
proof -
  assume d: "0 \<le> d" "d < 10"
  then have "of_char (digit_char d) = 48 + d" by (simp add: digit_char_def)
  moreover from this d have "digit_char d \<noteq> CHR ''.''" by (auto dest: arg_cong [where f = of_char])
  ultimately show ?thesis using d by (simp add: is_digit_def digit_val_def)
qed

text \<open>Decimal text is digits only, without a leading zero, and reads back as the number.\<close>

lemma pos_str_digits:
  "0 \<le> n \<Longrightarrow> pos_str n \<noteq> [] \<and> list_all (\<lambda>c. is_digit c \<and> c \<noteq> CHR ''.'') (pos_str n) \<and>
     digits_val 0 (pos_str n) = n"
proof (induction n rule: pos_str.induct)
  case (1 n)
  show ?case
  proof (cases "n < 10")
    case True
    with "1.prems" show ?thesis using pos_str.simps [of n] digit_char_facts [of n] by simp
  next
    case False
    have "10 * (n div 10) + n mod 10 = n" by simp
    with False 1 digit_char_facts [of "n mod 10"] pos_str.simps [of n] show ?thesis
      by (simp add: digits_val_append)
  qed
qed

lemma pos_str_head: "0 < n \<Longrightarrow> hd (pos_str n) \<noteq> CHR ''0''"
proof (induction n rule: pos_str.induct)
  case (1 n)
  show ?case
  proof (cases "n < 10")
    case True
    then have "digit_val (digit_char n) = n" using digit_char_facts [of n] "1.prems" by simp
    with True "1.prems" pos_str.simps [of n] show ?thesis by (auto simp: digit_val_def)
  next
    case False
    with 1 pos_str_digits [of "n div 10"] pos_str.simps [of n] show ?thesis by auto
  qed
qed

lemma pos_str_length: "0 \<le> n \<Longrightarrow> n < 1000 \<Longrightarrow> ilen (pos_str n) \<le> 3"
  using pos_str.simps [of n] pos_str.simps [of "n div 10"] pos_str.simps [of "n div 10 div 10"]
  by (auto simp: ilen_length)

lemma octet_int_str: "0 \<le> n \<Longrightarrow> n < 256 \<Longrightarrow> octet (int_str n) = Some n"
  using pos_str_digits [of n] pos_str_head [of n] pos_str_length [of n]
  by (cases "n = 0") (auto simp: octet_def int_str_def list_all_iff pos_str.simps [of 0] digit_char_def is_digit_def
      digit_val_def)

lemma split_char_append:
  "c \<notin> set xs \<Longrightarrow> split_char c (xs @ c # ys) = xs # split_char c ys"
  by (induction xs) auto

lemma split_char_none: "c \<notin> set xs \<Longrightarrow> split_char c xs = [xs]"
  by (induction xs) auto

lemma ipv4_roundtrip: "0 \<le> v \<Longrightarrow> v < 4294967296 \<Longrightarrow> ipv4_of (ipv4_str v) = Some v"
proof -
  assume v: "0 \<le> v" "v < 4294967296"
  define a b c d where "a = v div 16777216 mod 256" and "b = v div 65536 mod 256"
    and "c = v div 256 mod 256" and "d = v mod 256"
  note oct = a_def b_def c_def d_def
  have plain: "CHR ''.'' \<notin> set (int_str n)" if "0 \<le> n" for n
    using pos_str_digits [OF that] that by (auto simp: int_str_def list_all_iff)
  have bounds: "0 \<le> a" "a < 256" "0 \<le> b" "b < 256" "0 \<le> c" "c < 256" "0 \<le> d" "d < 256"
    by (simp_all add: oct)
  have "split_char (CHR ''.'') (ipv4_str v) = [int_str a, int_str b, int_str c, int_str d]"
    using plain bounds by (simp add: ipv4_str_def oct [symmetric] split_char_append split_char_none)
  moreover have "((a * 256 + b) * 256 + c) * 256 + d = v"
  proof -
    have step: "u = (u div 256) * 256 + u mod 256" for u :: int
      by (simp only: div_mult_mod_eq)
    have "v div 256 div 256 = v div 65536" "v div 65536 div 256 = v div 16777216"
      by (simp_all add: zdiv_zmult2_eq [symmetric])
    then have "v div 256 = (v div 65536) * 256 + c" "v div 65536 = (v div 16777216) * 256 + b"
      "v = (v div 256) * 256 + d"
      using step [of "v div 256"] step [of "v div 65536"] step [of v] unfolding oct by (simp_all only:)
    moreover have "v div 16777216 = a"
      using v by (simp add: a_def)
    ultimately show ?thesis by (simp only:)
  qed
  ultimately show ?thesis
    using bounds by (simp add: ipv4_of_def octet_int_str)
qed

end
