(* ===== verification/Dhcp.thy ===== *)
theory Dhcp
  imports Bytes
begin

text \<open>
  Passive DHCP observation, \<open>client/app/dhcp_listener.py\<close>: the option list of a BOOTP/DHCP payload,
  the fixed header, the observation dictionary built from them and the listener's filter on message
  types.  Payloads come from the network, so nothing is assumed of their bytes.

  A captured packet is the record of what the sources read of its Scapy layers.  The decoding of
  bytes to text is a parameter (\<open>codec\<close>), since a \<^typ>\<open>string\<close> has no code points above 255.
\<close>

record codec =
  utf8_ignore :: "bytes \<Rightarrow> string"
  utf8_replace :: "bytes \<Rightarrow> string"
  ascii_replace :: "bytes \<Rightarrow> string"

record transport =
  t_sport :: int
  t_dport :: int
  t_payload :: bytes

record captured =
  cap_ether :: "(string \<times> string) option"
  cap_ip :: "(string \<times> string) option"
  cap_ip6 :: "(string \<times> string) option"
  cap_tcp :: "transport option"
  cap_udp :: "transport option"
  cap_length :: int

section \<open>Decoding\<close>

definition format_mac :: "bytes \<Rightarrow> string option" where
  "format_mac bs = (if ilen bs < 6 then None else Some (hex_bytes (itake 6 bs)))"

text \<open>\<open>_parse_options\<close>: \<open>rest\<close> is what the index has not passed yet.\<close>

function parse_options_from :: "bytes \<Rightarrow> (int \<times> bytes) list \<Rightarrow> (int \<times> bytes) list" where
  "parse_options_from [] result = result"
| "parse_options_from (code # rest) result =
     (if code = 0 then parse_options_from rest result
      else if code = 255 then result
      else case rest of
        [] \<Rightarrow> result
      | len # body \<Rightarrow>
          if ilen body < len then result
          else parse_options_from (idrop len body) (dset code (itake len body) result))"
  by pat_completeness auto
termination
  by (relation "measure (length \<circ> fst)") (auto simp: idrop_drop)

definition parse_options :: "bytes \<Rightarrow> (int \<times> bytes) list" where
  "parse_options options = parse_options_from options []"

definition strip_nul :: "string \<Rightarrow> string" where
  "strip_nul s = rev (dropWhile (\<lambda>c. c = CHR 0x00) (rev (dropWhile (\<lambda>c. c = CHR 0x00) s)))"

definition decode_str :: "codec \<Rightarrow> bytes option \<Rightarrow> string option" where
  "decode_str cd value =
     (case value of
        None \<Rightarrow> None
      | Some v \<Rightarrow>
          if v = [] then None
          else (let clean = strip (strip_nul (utf8_ignore cd v)) in if clean = [] then None else Some clean))"

definition decode_ipv4 :: "bytes option \<Rightarrow> string option" where
  "decode_ipv4 value =
     (case value of
        None \<Rightarrow> None
      | Some v \<Rightarrow> if v = [] \<or> ilen v < 4 then None else Some (ipv4_str (be (itake 4 v))))"

function ipv4_chunks :: "bytes \<Rightarrow> string list" where
  "ipv4_chunks bs =
     (if bs = [] then []
      else (case decode_ipv4 (Some (itake 4 bs)) of None \<Rightarrow> [] | Some ip \<Rightarrow> [ip]) @ ipv4_chunks (idrop 4 bs))"
  by pat_completeness auto
termination
  by (relation "measure length") (auto simp: idrop_drop)

declare ipv4_chunks.simps [simp del]

definition decode_ipv4_list :: "bytes option \<Rightarrow> string list" where
  "decode_ipv4_list value =
     (case value of
        None \<Rightarrow> []
      | Some v \<Rightarrow> if v = [] \<or> ilen v mod 4 \<noteq> 0 then [] else ipv4_chunks v)"

definition decode_int32 :: "bytes option \<Rightarrow> int option" where
  "decode_int32 value =
     (case value of None \<Rightarrow> None | Some v \<Rightarrow> if v = [] \<or> ilen v < 4 then None else Some (be (itake 4 v)))"

section \<open>The observation\<close>

definition MAGIC_COOKIE :: bytes where
  "MAGIC_COOKIE = [99, 130, 83, 99]"

text \<open>Option 50, then \<open>ciaddr\<close>, then \<open>yiaddr\<close>; the address zero is no address.\<close>

definition requested_ip :: "bytes \<Rightarrow> (int \<times> bytes) list \<Rightarrow> string option" where
  "requested_ip data options =
     (let ciaddr = be (slice 12 16 data); yiaddr = be (slice 16 20 data)
      in case decode_ipv4 (map_of options 50) of
           Some ip \<Rightarrow> Some ip
         | None \<Rightarrow> if ciaddr \<noteq> 0 then Some (ipv4_str ciaddr)
                   else if yiaddr \<noteq> 0 then Some (ipv4_str yiaddr) else None)"

text \<open>The MAC address of a single station: six bytes, not broadcast and not multicast.\<close>

definition station_mac :: "bytes \<Rightarrow> string option" where
  "station_mac data =
     (case format_mac (itake (nth data 2) (slice 28 44 data)) of
        None \<Rightarrow> None
      | Some mac \<Rightarrow>
          if mac = ''FF:FF:FF:FF:FF:FF'' \<or> hex_value 0 (itake 2 mac) mod 2 = 1 then None else Some mac)"

definition dhcp_raw_fields :: "codec \<Rightarrow> bytes \<Rightarrow> (int \<times> bytes) list \<Rightarrow> pydict" where
  "dhcp_raw_fields cd data options =
     (let entry = (\<lambda>k v. if truthy v then [(k, v)] else []) in
      (''transaction_id'', PStr (''0x'' @ hex_str (be (slice 4 8 data))))
      # entry ''vendor_class'' (opt_str (decode_str cd (map_of options 60)))
      @ entry ''parameter_request_list'' (case map_of options 55 of None \<Rightarrow> PNone | Some v \<Rightarrow> PList (map PInt v))
      @ entry ''subnet_mask'' (opt_str (decode_ipv4 (map_of options 1)))
      @ entry ''routers'' (PList (map PStr (decode_ipv4_list (map_of options 3))))
      @ entry ''dns_servers'' (PList (map PStr (decode_ipv4_list (map_of options 6))))
      @ entry ''domain_name'' (opt_str (decode_str cd (map_of options 15)))
      @ (case decode_int32 (map_of options 51) of None \<Rightarrow> [] | Some t \<Rightarrow> [(''lease_time'', PInt t)])
      @ entry ''server_identifier'' (opt_str (decode_ipv4 (map_of options 54)))
      @ entry ''broadcast_address'' (opt_str (decode_ipv4 (map_of options 28))))"

definition parse_dhcp_packet :: "codec \<Rightarrow> bytes \<Rightarrow> pydict option" where
  "parse_dhcp_packet cd data =
     (if ilen data < 240 \<or> slice 236 240 data \<noteq> MAGIC_COOKIE then None
      else (let options = parse_options (idrop 240 data);
                ip = requested_ip data options
            in case station_mac data of
                 None \<Rightarrow> None
               | Some mac \<Rightarrow> Some
                   [(''protocol'', PStr ''dhcp''),
                    (''mac_address'', PStr mac),
                    (''dhcp_message_type'', (case map_of options 53 of Some (t # _) \<Rightarrow> PInt t | _ \<Rightarrow> PNone)),
                    (''requested_ip'', opt_str ip),
                    (''ip_address'', opt_str ip),
                    (''hostname'', opt_str (decode_str cd (map_of options 12))),
                    (''vendor_class'', opt_str (decode_str cd (map_of options 60))),
                    (''client_id'', (case map_of options 61 of
                                       Some (b # bs) \<Rightarrow> PStr (hex_bytes (b # bs)) | _ \<Rightarrow> PNone)),
                    (''parameter_request_list'', (case map_of options 55 of
                                       Some (b # bs) \<Rightarrow> PList (map PInt (b # bs)) | _ \<Rightarrow> PNone)),
                    (''raw_fields'', PDict (dhcp_raw_fields cd data options))]))"

text \<open>The calls of \<open>on_observation\<close> that one payload, or one captured packet, causes.\<close>

definition handle_payload :: "codec \<Rightarrow> bytes \<Rightarrow> pydict list" where
  "handle_payload cd payload =
     (case parse_dhcp_packet cd payload of
        None \<Rightarrow> []
      | Some parsed \<Rightarrow>
          if \<not> truthy (dget parsed ''mac_address'') then []
          else (let t = dget parsed ''dhcp_message_type'' in
                if t \<noteq> PNone \<and> t \<notin> set (map PInt [1, 2, 3, 5, 8]) then [] else [parsed]))"

definition is_dhcp_packet :: "captured \<Rightarrow> bool" where
  "is_dhcp_packet p =
     (case cap_udp p of
        None \<Rightarrow> False
      | Some u \<Rightarrow> t_sport u \<in> set [67, 68] \<or> t_dport u \<in> set [67, 68])"

definition handle_scapy_packet :: "codec \<Rightarrow> captured \<Rightarrow> pydict list" where
  "handle_scapy_packet cd p =
     (case cap_udp p of None \<Rightarrow> [] | Some u \<Rightarrow> if is_dhcp_packet p then handle_payload cd (t_payload u) else [])"

section \<open>Options\<close>

text \<open>What a server or client writes: a code, a length byte and the value, with pads before it.\<close>

definition encode_option :: "int \<times> int \<times> bytes \<Rightarrow> bytes" where
  "encode_option = (\<lambda>(pads, code, v). zeros pads @ code # ilen v # v)"

lemma parse_options_pads: "parse_options_from (zeros n @ bs) r = parse_options_from bs r"
proof -
  have "parse_options_from (map (\<lambda>_. 0) is @ bs) r = parse_options_from bs r" for "is" :: "int list"
    by (induction "is") simp_all
  then show ?thesis by (simp add: zeros_def)
qed

lemma dset_fresh: "k \<notin> fst ` set d \<Longrightarrow> dset k v d = d @ [(k, v)]"
  by (induction d) auto

lemma parse_options_step:
  "1 \<le> c \<Longrightarrow> c \<le> 254 \<Longrightarrow>
   parse_options_from (encode_option (n, c, v) @ bs) r = parse_options_from bs (dset c v r)"
  by (simp add: encode_option_def parse_options_pads itake_append idrop_append ilen_length)

lemma parse_options_encode:
  "list_all (\<lambda>(n, c, v). 1 \<le> c \<and> c \<le> 254) opts \<Longrightarrow> distinct (map fst r @ map (fst \<circ> snd) opts) \<Longrightarrow>
   parse_options_from (concat (map encode_option opts) @ 255 # rest) r = r @ map snd opts"
proof (induction opts arbitrary: r)
  case (Cons opt opts)
  obtain n c v where opt: "opt = (n, c, v)" by (cases opt)
  from Cons.prems have "c \<notin> fst ` set r" by (auto simp: opt)
  then have "dset c v r = r @ [(c, v)]" by (rule dset_fresh)
  with Cons show ?case by (simp add: opt parse_options_step)
qed simp

text \<open>Reading an option field that a sender wrote gives back exactly its options in order, whatever
  pads stand between them and whatever follows the end mark.\<close>

theorem dhcp_options_roundtrip:
  assumes "list_all (\<lambda>(pads, code, v). 1 \<le> code \<and> code \<le> 254) opts"
    and "distinct (map (fst \<circ> snd) opts)"
  shows "parse_options (concat (map encode_option opts) @ 255 # rest) = map snd opts"
  using parse_options_encode [of opts "[]" rest] assms by (simp add: parse_options_def)

theorem dhcp_options_roundtrip_witness:
  "parse_options (concat (map encode_option [(0, 53, [1]), (2, 12, [104, 111]), (1, 0x37, [])]) @ 255 # [9, 9])
   = [(53, [1]), (12, [104, 111]), (0x37, [])]"
  using dhcp_options_roundtrip [of "[(0, 53, [1]), (2, 12, [104, 111]), (1, 0x37, [])]" "[9, 9]"] by simp

definition options_within :: "bytes \<Rightarrow> (int \<times> bytes) list \<Rightarrow> bool" where
  "options_within data opts \<longleftrightarrow>
     list_all (\<lambda>(c, v). 1 \<le> c \<and> c \<le> 254 \<and> ilen v \<le> 255 \<and> sublist v data) opts"

lemma options_within_dset:
  "options_within data r \<Longrightarrow> 1 \<le> c \<Longrightarrow> c \<le> 254 \<Longrightarrow> ilen v \<le> 255 \<Longrightarrow> sublist v data \<Longrightarrow>
   options_within data (dset c v r)"
  by (induction r) (auto simp: options_within_def)

lemma suffix_idrop: "suffix (idrop n xs) xs"
  by (simp add: idrop_drop suffix_drop)

lemma sublist_itake: "sublist (itake n xs) xs"
  by (simp add: itake_take)

lemma ilen_itake: "ilen (itake n xs) \<le> max 0 n"
  by (simp add: itake_take ilen_length)

lemma parse_options_within:
  "options_within data r \<Longrightarrow> suffix rest data \<Longrightarrow> byte_range data \<Longrightarrow>
   options_within data (parse_options_from rest r)"
proof (induction rest r rule: parse_options_from.induct)
  case (2 code rest r)
  have rest: "suffix rest data" using "2.prems"(2) by (rule suffix_ConsD)
  have code: "0 \<le> code" "code < 256"
    using "2.prems" by (auto simp: byte_range_def list_all_iff dest: set_mono_suffix)
  show ?case
  proof (cases "code = 0 \<or> code = 255")
    case True
    with "2.IH"(1) rest "2.prems" show ?thesis by auto
  next
    case False
    note plain = this
    show ?thesis
    proof (cases rest)
      case (Cons len body)
      have body: "suffix body data" using rest unfolding Cons by (rule suffix_ConsD)
      have len: "len \<le> 255" "0 \<le> len"
   
      using set_mono_suffix [OF rest] "2.prems"(3) by (force simp: Cons byte_range_def list_all_iff)+
      have v: "sublist (itake len body) data" "suffix (idrop len body) data"
        using body sublist_itake suffix_idrop
        by (blast intro: sublist_order.order_trans suffix_imp_sublist suffix_order.order_trans)+
      have "ilen (itake len body) \<le> 255" using ilen_itake [of len body] len by simp
      with plain code "2.prems"(1) v have "options_within data (dset code (itake len body) r)"
        by (intro options_within_dset) auto
      with "2.IH"(2) plain Cons "2.prems" v show ?thesis by simp
    qed (use "2.prems" False in simp)
  qed
qed simp

text \<open>Whatever bytes arrive, parsing ends with options whose codes are neither pad nor end marks,
  whose values have at most 255 bytes, and are contiguous parts of the payload: a length byte that runs
  past the end is never followed.\<close>

theorem dhcp_options_bounds:
  assumes "byte_range data"
  shows "options_within data (parse_options data)"
  using parse_options_within [of data "[]" data] assms
  by (simp add: parse_options_def options_within_def)

theorem dhcp_options_bounds_witness:
  "options_within [53, 1, 3, 0, 12, 200, 104] (parse_options [53, 1, 3, 0, 12, 200, 104])"
  by (rule dhcp_options_bounds) (simp add: byte_range_def)

section \<open>Observations\<close>

lemma byte_range_take: "byte_range bs \<Longrightarrow> byte_range (itake n bs)"
  by (auto simp: byte_range_def list_all_iff itake_take dest: in_set_takeD)

lemma hex2_value: "0 \<le> b \<Longrightarrow> b < 256 \<Longrightarrow> hex_value 0 (hex2 b) = b"
proof -
  have digit: "hex_val (hex_digit d) = d" if "0 \<le> d" "d < 16" for d
    using that by (simp add: hex_val_def hex_digit_def)
  assume "0 \<le> b" "b < 256"
  then have "0 \<le> b div 16" "b div 16 < 16" "0 \<le> b mod 16" "b mod 16 < 16" by auto
  then show ?thesis by (simp add: hex2_def digit)
qed

text \<open>Six address bytes and their text.\<close>

definition station :: "bytes \<Rightarrow> bool" where
  "station bs \<longleftrightarrow> ilen bs = 6 \<and> hd bs mod 2 = 0"

lemma hex_bytes_two: "b # bs = xs \<Longrightarrow> itake 2 (hex_bytes xs) = hex2 b"
  by (cases bs) (auto simp: hex_bytes_def hex2_def)

lemma station_mac_Some:
  assumes "station_mac data = Some mac" "byte_range data" "240 \<le> ilen data"
  shows "6 \<le> data ! 2 \<and> mac = hex_bytes (slice 28 34 data) \<and> station (slice 28 34 data)"
proof -
  let ?hw = "slice 28 44 data" and ?six = "itake 6 (itake (data ! 2) (slice 28 44 data))"
  from assms(1) have six: "6 \<le> ilen (itake (data ! 2) ?hw)" and mac: "mac = hex_bytes ?six"
    and even: "hex_value 0 (itake 2 mac) mod 2 \<noteq> 1"
    by (auto simp: station_mac_def format_mac_def split: if_splits)
  from six have hlen: "6 \<le> data ! 2" using ilen_itake [of "data ! 2" ?hw] by simp
  then have eq: "?six = slice 28 34 data"
    by (simp add: slice_def itake_take idrop_drop min_def)
  have len: "ilen (slice 28 34 data) = 6"
    using assms(3) by (simp add: slice_def itake_take idrop_drop ilen_length)
  then obtain b bs where b: "slice 28 34 data = b # bs" by (cases "slice 28 34 data") auto
  have "byte_range (slice 28 34 data)" using assms(2) by (rule byte_range_slice)
  then have "0 \<le> b" "b < 256" by (simp_all add: b byte_range_def)
  with even mac eq b hex_bytes_two [OF b [symmetric]] have "b mod 2 \<noteq> 1"
    by (simp add: hex2_value)
  with len hlen mac eq b show ?thesis by (simp add: station_def)
qed

lemma byte_range_idrop: "byte_range bs \<Longrightarrow> byte_range (idrop n bs)"
  by (auto simp: byte_range_def list_all_iff idrop_drop dest: in_set_dropD)

lemma parse_options_all_within: "byte_range bs \<Longrightarrow> options_within bs (parse_options bs)"
  using parse_options_within [of bs "[]" bs] by (simp add: parse_options_def options_within_def)

lemma options_within_byte_range:
  "options_within bs opts \<Longrightarrow> map_of opts c = Some v \<Longrightarrow> byte_range bs \<Longrightarrow> byte_range v"
  using set_mono_sublist [of v bs] by (force simp: options_within_def byte_range_def list_all_iff dest!: map_of_SomeD)

text \<open>A payload that yields an observation has the full header and the magic cookie, and is
  reported under the unicast address of its six hardware-address bytes, with the requested address,
  when there is one, the text of an IPv4 address.\<close>

theorem dhcp_observation_sound:
  assumes "byte_range data" and "parse_dhcp_packet cd data = Some d"
  shows "240 \<le> ilen data \<and> slice 236 240 data = MAGIC_COOKIE \<and>
    dget d ''mac_address'' = PStr (hex_bytes (slice 28 34 data)) \<and> station (slice 28 34 data) \<and>
    (dget d ''ip_address'' = PNone \<or> (\<exists>s. dget d ''ip_address'' = PStr s \<and> ipv4_of s \<noteq> None))"
proof -
  from assms(2) obtain mac where len: "240 \<le> ilen data" "slice 236 240 data = MAGIC_COOKIE"
    and mac: "station_mac data = Some mac"
    and get: "dget d ''mac_address'' = PStr mac"
      "dget d ''ip_address'' = opt_str (requested_ip data (parse_options (idrop 240 data)))"
    by (auto simp: parse_dhcp_packet_def Let_def split: if_splits option.splits)
  have addr: "ipv4_of (ipv4_str (be bs)) \<noteq> None" if "byte_range bs" "length bs \<le> 4" for bs
  proof -
    have "be bs < 256 ^ 4"
      using be_bound [OF that(1)] power_increasing [OF that(2), of "256 :: int"] by simp
    with be_bound [OF that(1)] show ?thesis by (simp add: ipv4_roundtrip)
  qed
  have short: "length (slice a b data) \<le> nat (b - a)" for a b
    by (simp add: slice_def itake_take)
  have slices: "ipv4_of (ipv4_str (be (slice a b data))) \<noteq> None" if "b - a \<le> 4" for a b
    using addr [OF byte_range_slice [OF assms(1)]] short [of a b] that by auto
  have opts: "options_within (idrop 240 data) (parse_options (idrop 240 data))"
    by (rule parse_options_all_within) (rule byte_range_idrop [OF assms(1)])
  have "ipv4_of s \<noteq> None" if "requested_ip data (parse_options (idrop 240 data)) = Some s" for s
  proof (cases "decode_ipv4 (map_of (parse_options (idrop 240 data)) 50)")
    case None
    with that slices [of 16 12] slices [of 20 16] show ?thesis
      by (auto simp: requested_ip_def Let_def split: if_splits)
  next
    case (Some ip)
    then obtain v where v: "map_of (parse_options (idrop 240 data)) 50 = Some v"
      and ip: "ip = ipv4_str (be (itake 4 v))" by (auto simp: decode_ipv4_def split: option.splits if_splits)
    have "byte_range v"
      using options_within_byte_range [OF opts v byte_range_idrop [OF assms(1)]] .
    then have "ipv4_of ip \<noteq> None"
      unfolding ip by (intro addr byte_range_take) (simp_all add: itake_take)
    with that Some show ?thesis by (simp add: requested_ip_def Let_def)
  qed
  then have "opt_str (requested_ip data (parse_options (idrop 240 data))) = PNone \<or>
      (\<exists>s. opt_str (requested_ip data (parse_options (idrop 240 data))) = PStr s \<and> ipv4_of s \<noteq> None)"
    by (simp add: opt_str_def split: option.split)
  with len get station_mac_Some [OF mac assms(1) len(1)] show ?thesis by simp
qed

definition SAMPLE_REQUEST :: bytes where
  "SAMPLE_REQUEST =
     [1, 1, 6, 0, 0, 0, 18, 52, 0, 0, 0, 0] @ zeros 16 @ [2, 66, 172, 17, 0, 9] @ zeros 202 @ MAGIC_COOKIE
     @ [53, 1, 3, 50, 4, 192, 168, 1, 20, 255]"

theorem dhcp_observation_sound_witness:
  "\<exists>d. parse_dhcp_packet \<lparr>utf8_ignore = map char_of, utf8_replace = map char_of, ascii_replace = map char_of\<rparr>
         SAMPLE_REQUEST = Some d \<and>
       dget d ''mac_address'' = PStr (hex_bytes (slice 28 34 SAMPLE_REQUEST)) \<and> station (slice 28 34 SAMPLE_REQUEST)"
proof -
  let ?cd = "\<lparr>utf8_ignore = map char_of, utf8_replace = map char_of, ascii_replace = map char_of\<rparr>"
  have "byte_range SAMPLE_REQUEST" by code_simp
  moreover have "parse_dhcp_packet ?cd SAMPLE_REQUEST \<noteq> None" by code_simp
  then obtain d where "parse_dhcp_packet ?cd SAMPLE_REQUEST = Some d" by blast
  ultimately show ?thesis using dhcp_observation_sound [of SAMPLE_REQUEST ?cd d] by blast
qed

end
