(* ===== verification/Iso.thy ===== *)
theory Iso
  imports Bytes
begin

text \<open>
  Writing timestamps: the calendar date of a day number (\<open>datetime\<close>'s conversion from ordinals) and
  \<open>datetime.isoformat\<close> in UTC, each with the proof that reading back gives the same instant.
\<close>

section \<open>From day numbers to dates\<close>

definition month_of_day :: "int \<Rightarrow> int \<Rightarrow> int" where
  "month_of_day y r =
     (if r < days_before_month y 2 then 1 else if r < days_before_month y 3 then 2
      else if r < days_before_month y 4 then 3 else if r < days_before_month y 5 then 4
      else if r < days_before_month y 6 then 5 else if r < days_before_month y 7 then 6
      else if r < days_before_month y 8 then 7 else if r < days_before_month y 9 then 8
      else if r < days_before_month y 10 then 9 else if r < days_before_month y 11 then 10
      else if r < days_before_month y 12 then 11 else 12)"

definition year_of_ordinal :: "int \<Rightarrow> int \<times> int" where
  "year_of_ordinal n =
     (let n400 = n div 146097; r1 = n mod 146097;
          n100 = r1 div 36524; r2 = r1 mod 36524;
          n4 = r2 div 1461; r3 = r2 mod 1461;
          n1 = r3 div 365; r4 = r3 mod 365;
          year = 400 * n400 + 100 * n100 + 4 * n4 + n1 + 1
      in if n1 = 4 \<or> n100 = 4 then (year - 1, 365) else (year, r4))"

definition civil_of_days :: "int \<Rightarrow> int \<times> int \<times> int" where
  "civil_of_days n =
     (let (y, r) = year_of_ordinal (n + 719162); m = month_of_day y r
      in (y, m, r - days_before_month y m + 1))"

definition year_start :: "int \<Rightarrow> int" where
  "year_start y = 365 * (y - 1) + (y - 1) div 4 - (y - 1) div 100 + (y - 1) div 400"

lemma days_of_year_start: "days_of y m d = year_start y + days_before_month y m + d - 719163"
  by (simp add: days_of_def year_start_def)

lemma year_start_digits:
  fixes a b c d :: int
  assumes "0 \<le> b" "b \<le> 3" "0 \<le> c" "c \<le> 24" "0 \<le> d" "d \<le> 3"
  shows "year_start (400 * a + 100 * b + 4 * c + d + 1) = 146097 * a + 36524 * b + 1461 * c + 365 * d"
proof -
  let ?x = "400 * a + 100 * b + 4 * c + d"
  have "?x div 4 = 100 * a + 25 * b + c"
    using assms by (intro int_div_pos_eq [of _ _ _ d]) simp_all
  moreover have "?x div 100 = 4 * a + b"
    using assms by (intro int_div_pos_eq [of _ _ _ "4 * c + d"]) simp_all
  moreover have "?x div 400 = a"
    using assms by (intro int_div_pos_eq [of _ _ _ "100 * b + 4 * c + d"]) simp_all
  ultimately show ?thesis by (simp add: year_start_def)
qed

lemma leap_digits:
  fixes a b c :: int
  shows "0 \<le> c \<Longrightarrow> c < 24 \<Longrightarrow> is_leap (400 * a + 100 * b + 4 * (c + 1))"
    and "is_leap (400 * (a + 1))"
proof -
  assume c: "0 \<le> c" "c < 24"
  have "(400 * a + 100 * b + 4 * (c + 1)) mod 4 = 0"
    by (rule int_mod_pos_eq [of _ _ "100 * a + 25 * b + c + 1"]) simp_all
  moreover have "(400 * a + 100 * b + 4 * (c + 1)) mod 100 = 4 * (c + 1)"
    using c by (intro int_mod_pos_eq [of _ _ "4 * a + b"]) simp_all
  ultimately show "is_leap (400 * a + 100 * b + 4 * (c + 1))"
    using c by (simp add: is_leap_def)
next
  show "is_leap (400 * (a + 1))"
    by (simp add: is_leap_def mod_eq_0_iff_dvd)
qed

text \<open>An ordinal is the start of its year and a day within the year.\<close>

definition year_length :: "int \<Rightarrow> int" where
  "year_length y = (if is_leap y then 366 else 365)"

lemma year_of_ordinal:
  assumes "0 \<le> n" "year_of_ordinal n = (y, r)"
  shows "n = year_start y + r \<and> 0 \<le> r \<and> r < year_length y \<and> 1 \<le> y"
proof -
  define a r1 where "a = n div 146097" and "r1 = n mod 146097"
  define b r2 where "b = r1 div 36524" and "r2 = r1 mod 36524"
  define c r3 where "c = r2 div 1461" and "r3 = r2 mod 1461"
  define d r4 where "d = r3 div 365" and "r4 = r3 mod 365"
  have n: "n = 146097 * a + r1" "0 \<le> r1" "r1 < 146097" "0 \<le> a"
    using assms(1) by (simp_all add: a_def r1_def pos_imp_zdiv_nonneg_iff)
  have r1: "r1 = 36524 * b + r2" "0 \<le> r2" "r2 < 36524" "0 \<le> b"
    using n(2) by (simp_all add: b_def r2_def pos_imp_zdiv_nonneg_iff)
  have r2: "r2 = 1461 * c + r3" "0 \<le> r3" "r3 < 1461" "0 \<le> c"
    using r1(2) by (simp_all add: c_def r3_def pos_imp_zdiv_nonneg_iff)
  have r3: "r3 = 365 * d + r4" "0 \<le> r4" "r4 < 365" "0 \<le> d"
    using r2(2) by (simp_all add: d_def r4_def pos_imp_zdiv_nonneg_iff)
  have y: "(y, r) = (if d = 4 \<or> b = 4 then (400 * a + 100 * b + 4 * c + d + 1 - 1, 365)
      else (400 * a + 100 * b + 4 * c + d + 1, r4))"
    unfolding assms(2) [symmetric] by (simp add: year_of_ordinal_def Let_def a_def b_def c_def d_def r1_def
        r2_def r3_def r4_def)
  have bounds: "b \<le> 4" "c \<le> 24" "d \<le> 4" using n r1 r2 r3 by linarith+
  consider "b = 4" "c = 0" "d = 0" "r2 = 0" | "b \<le> 3" "d = 4" "c \<le> 23" "r4 = 0" | "b \<le> 3" "d \<le> 3"
    using n r1 r2 r3 bounds by linarith
  then show ?thesis
  proof cases
    case 1
    with y have yr: "y = 400 * a + 100 * 3 + 4 * 24 + 3 + 1" "r = 365" by simp_all
    have "is_leap y" using leap_digits(2) [of a] by (simp add: yr add.commute)
    with n r1 r2 r3 yr 1 year_start_digits [of 3 24 3 a] show ?thesis by (simp add: year_length_def)
  next
    case 2
    with y have yr: "y = 400 * a + 100 * b + 4 * c + 3 + 1" "r = 365" by simp_all
    have "is_leap y" using leap_digits(1) [of c a b] r2(4) 2 by (simp add: yr algebra_simps)
    with n r1 r2 r3 yr 2 year_start_digits [of b c 3 a] show ?thesis by (simp add: year_length_def)
  next
    case 3
    with y have yr: "y = 400 * a + 100 * b + 4 * c + d + 1" "r = r4" by simp_all
    with n r1 r2 r3 bounds 3 year_start_digits [of b c d a] show ?thesis by (simp add: year_length_def)
  qed
qed

lemma month_of_day:
  assumes "0 \<le> r" "r < year_length y" "month_of_day y r = m"
  shows "1 \<le> m \<and> m \<le> 12 \<and> days_before_month y m \<le> r \<and> r < days_before_month y m + days_in_month y m"
  using assms unfolding month_of_day_def
  by (auto simp: days_before_month_def days_in_month_def year_length_def split: if_splits)

theorem civil_of_days:
  assumes "0 \<le> n + 719162" "civil_of_days n = (y, m, d)"
  shows "valid_date y m d \<and> days_of y m d = n"
proof -
  obtain r where yr: "year_of_ordinal (n + 719162) = (y, r)" and m: "month_of_day y r = m"
    and d: "d = r - days_before_month y m + 1"
    using assms(2) by (auto simp: civil_of_days_def Let_def split: prod.splits)
  note year = year_of_ordinal [OF assms(1) yr]
  with month_of_day [of r y m] m have "1 \<le> m \<and> m \<le> 12 \<and> days_before_month y m \<le> r \<and>
      r < days_before_month y m + days_in_month y m" by simp
  with year d show ?thesis by (simp add: valid_date_def days_of_year_start)
qed

section \<open>Writing a timestamp\<close>

definition two :: "int \<Rightarrow> string" where
  "two n = [digit_char (n div 10), digit_char (n mod 10)]"

definition six :: "int \<Rightarrow> string" where
  "six n = two (n div 10000) @ two (n div 100 mod 100) @ two (n mod 100)"

definition format_date :: "int \<Rightarrow> string" where
  "format_date n =
     (let (y, m, d) = civil_of_days n in two (y div 100) @ two (y mod 100) @ ''-'' @ two m @ ''-'' @ two d)"

text \<open>The fraction is written only when it is not zero.\<close>

definition format_time :: "int \<Rightarrow> string" where
  "format_time u =
     (let s = u div USEC; f = u mod USEC
      in two (s div 3600) @ '':'' @ two (s div 60 mod 60) @ '':'' @ two (s mod 60)
         @ (if f = 0 then [] else ''.'' @ six f))"

text \<open>\<open>datetime.isoformat\<close> of an instant in UTC.\<close>

definition isoformat_utc :: "int \<Rightarrow> string" where
  "isoformat_utc t = format_date (t div DAY) @ ''T'' @ format_time (t mod DAY) @ ''+00:00''"

text \<open>The instants of the years 1 to 9999, which a \<open>datetime\<close> can hold.\<close>

definition MIN_INSTANT :: int where
  "MIN_INSTANT = DAY * -719162"

definition MAX_INSTANT :: int where
  "MAX_INSTANT = DAY * 2932897 - 1"

definition representable :: "int \<Rightarrow> bool" where
  "representable t \<longleftrightarrow> MIN_INSTANT \<le> t \<and> t \<le> MAX_INSTANT"

lemma two_digits_two: "0 \<le> n \<Longrightarrow> n < 100 \<Longrightarrow> two_digits (digit_char (n div 10)) (digit_char (n mod 10)) = Some n"
proof -
  assume "0 \<le> n" "n < 100"
  then have "0 \<le> n div 10" "n div 10 < 10" "0 \<le> n mod 10" "n mod 10 < 10"
    by (auto simp: pos_imp_zdiv_nonneg_iff)
  then show ?thesis
    using digit_char_facts [of "n div 10"] digit_char_facts [of "n mod 10"] by (simp add: two_digits_def)
qed

lemma two_digits_val: "0 \<le> n \<Longrightarrow> n < 100 \<Longrightarrow>
    digits_val acc (two n) = 100 * acc + n \<and> list_all is_digit (two n)"
proof -
  assume "0 \<le> n" "n < 100"
  then have "0 \<le> n div 10" "n div 10 < 10" "0 \<le> n mod 10" "n mod 10 < 10"
    by (auto simp: pos_imp_zdiv_nonneg_iff)
  moreover have "10 * (n div 10) + n mod 10 = n" by simp
  ultimately show ?thesis
    using digit_char_facts [of "n div 10"] digit_char_facts [of "n mod 10"] by (simp add: two_def)
qed


lemma year_start_step: "year_start (y + 1) = year_start y + year_length y"
  using days_of_next_year [of y] by (simp add: days_of_year_start days_before_month_def year_length_def)

lemma year_start_mono: "y \<le> z \<Longrightarrow> year_start y \<le> year_start z"
proof (induction z rule: int_ge_induct)
  case (step i)
  then show ?case by (simp add: year_start_step year_length_def)
qed simp

lemma year_le_9999:
  assumes "days_of y m d \<le> 2932896" "1 \<le> m" "1 \<le> d"
  shows "y \<le> 9999"
proof (rule ccontr)
  assume "\<not> y \<le> 9999"
  then have "year_start 10000 \<le> year_start y" by (intro year_start_mono) simp
  moreover have "year_start 10000 = 3652059" by (simp add: year_start_def)
  moreover have "0 \<le> days_before_month y m" by (simp add: days_before_month_def)
  ultimately show False using assms by (simp add: days_of_year_start)
qed

lemma no_digit_Z: "\<not> is_digit (CHR ''Z'')"
  by (simp add: is_digit_def)

lemma parse_format_date:
  assumes "-719162 \<le> n" "n \<le> 2932896"
  shows "length (format_date n) = 10 \<and> parse_date (format_date n) = Some n \<and> CHR ''Z'' \<notin> set (format_date n)"
proof -
  obtain y m d where c: "civil_of_days n = (y, m, d)" by (cases "civil_of_days n")
  with civil_of_days [of n y m d] assms(1) have v: "valid_date y m d" and n: "days_of y m d = n" by auto
  from v have range: "1 \<le> y" "1 \<le> m" "m \<le> 12" "1 \<le> d" "d \<le> 31"
    by (auto simp: valid_date_def days_in_month_def split: if_splits)
  with year_le_9999 [of y m d] n assms have "y \<le> 9999" by simp
  with range have "0 \<le> y div 100" "y div 100 < 100" "0 \<le> y mod 100" "y mod 100 < 100"
    by (auto simp: pos_imp_zdiv_nonneg_iff)
  moreover have "100 * (y div 100) + y mod 100 = y" by simp
  moreover have "CHR ''Z'' \<notin> set (two k)" if "0 \<le> k" "k < 100" for k
    using two_digits_val [OF that] no_digit_Z by (fastforce simp: list_all_iff)
  ultimately have "CHR ''Z'' \<notin> set (format_date n)"
    "length (format_date n) = 10 \<and> parse_date (format_date n) = Some n"
    using range v n
    by (simp_all add: format_date_def c) (simp add: two_def parse_date_def two_digits_two)
  then show ?thesis by simp
qed

lemma no_offset_digit: "is_digit c \<Longrightarrow> \<not> is_offset_start c"
  by (auto simp: is_digit_def is_offset_start_def)

lemma three_twos:
  assumes "0 \<le> a" "a < 100" "0 \<le> b" "b < 100" "0 \<le> c" "c < 100"
  shows "length (two a @ two b @ two c) = 6 \<and> list_all is_digit (two a @ two b @ two c) \<and>
    digits_val 0 (two a @ two b @ two c) = 100 * (100 * a + b) + c"
proof -
  have "length (two n) = 2" for n by (simp add: two_def)
  with assms show ?thesis by (simp add: digits_val_append two_digits_val)
qed

lemma six_digits:
  assumes "0 \<le> f" "f < USEC"
  shows "length (six f) = 6 \<and> list_all is_digit (six f) \<and> digits_val 0 (six f) = f"
proof -
  have "f div 10000 = f div 100 div 100" by (simp add: zdiv_zmult2_eq [symmetric])
  then have f: "100 * (100 * (f div 10000) + f div 100 mod 100) + f mod 100 = f"
    by (simp only: mult_div_mod_eq)
  have "0 \<le> f div 10000" "f div 10000 < 100" "0 \<le> f div 100 mod 100" "f div 100 mod 100 < 100"
    "0 \<le> f mod 100" "f mod 100 < 100"
    using assms by (simp_all add: USEC_def pos_imp_zdiv_nonneg_iff)
  from three_twos [OF this] show ?thesis unfolding f six_def by simp
qed

lemma parse_fraction_six:
  assumes "0 \<le> f" "f < USEC"
  shows "parse_fraction (CHR ''.'' # six f) = Some f"
proof -
  from six_digits [OF assms] have six: "length (six f) = Suc (Suc (Suc (Suc (Suc (Suc 0)))))"
    "list_all is_digit (six f)" "digits_val 0 (six f) = f" by simp_all
  then obtain a b c d e g where "six f = [a, b, c, d, e, g]"
    by (auto simp: length_Suc_conv)
  with six show ?thesis by (simp add: parse_fraction_def)
qed

text \<open>Hours, minutes and seconds of a time of day.\<close>

lemma clock_digits:
  assumes "0 \<le> u" "u < DAY"
  shows "0 \<le> u div USEC div 3600 \<and> u div USEC div 3600 < 24 \<and> 0 \<le> u mod USEC \<and> u mod USEC < USEC \<and>
    HOUR * (u div USEC div 3600) + (60 * USEC * (u div USEC div 60 mod 60) + (USEC * (u div USEC mod 60) + u mod USEC))
    = u"
proof -
  define s f where "s = u div USEC" and "f = u mod USEC"
  have u: "u = USEC * s + f" and f: "0 \<le> f" "f < USEC"
    by (simp_all add: s_def f_def USEC_def)
  with assms have s: "0 \<le> s" "s < 86400" by (simp_all add: DAY_def USEC_def)
  define q r h m where "q = s div 60" and "r = s mod 60" and "h = s div 3600" and "m = q mod 60"
  have "s div 60 div 60 = s div 3600" by (simp add: zdiv_zmult2_eq [symmetric])
  then have "s = 60 * q + r" "q = 60 * h + m"
    using mult_div_mod_eq [of 60 q] by (simp_all add: q_def r_def h_def m_def)
  then have "HOUR * h + (60 * USEC * m + (USEC * r + f)) = u"
    unfolding u by (simp add: HOUR_def USEC_def)
  moreover from s have "0 \<le> h" "h < 24" by (simp_all add: h_def pos_imp_zdiv_nonneg_iff)
  ultimately show ?thesis
    using f unfolding q_def r_def h_def m_def s_def f_def by simp
qed

lemma parse_format_time:
  assumes "0 \<le> u" "u < DAY"
  shows "parse_time (format_time u) = Some u"
proof -
  define h m s f where "h = u div USEC div 3600" and "m = u div USEC div 60 mod 60"
    and "s = u div USEC mod 60" and "f = u mod USEC"
  note clock = clock_digits [OF assms, folded h_def m_def s_def f_def]
  have ms: "0 \<le> m" "m < 60" "0 \<le> s" "s < 60" by (simp_all add: m_def s_def)
  define fr where "fr = (if f = 0 then [] else ''.'' @ six f)"
  have frac: "parse_fraction fr = Some f"
    using parse_fraction_six [of f] clock by (simp add: fr_def parse_fraction_def [of "[]"])
  have sec: "parse_seconds ('':'' @ two s @ fr) = Some (USEC * s + f)"
    using ms frac by (simp add: parse_seconds_def two_def two_digits_two)
  have min: "parse_minutes ('':'' @ two m @ '':'' @ two s @ fr)
      = Some (60 * USEC * m + (USEC * s + f))"
    using ms sec by (simp add: parse_minutes_def two_def two_digits_two)
  have "format_time u = two h @ '':'' @ two m @ '':'' @ two s @ fr"
    by (simp add: format_time_def Let_def h_def m_def s_def f_def fr_def)
  with clock min show ?thesis by (simp add: parse_time_def two_def two_digits_two)
qed

text \<open>Every character of the written time is a digit, a colon or a point.\<close>

definition time_char :: "char \<Rightarrow> bool" where
  "time_char c \<longleftrightarrow> is_digit c \<or> c = CHR '':'' \<or> c = CHR ''.'' \<or> c = CHR ''-''"

lemma time_char_no_offset: "time_char c \<Longrightarrow> c \<noteq> CHR ''-'' \<Longrightarrow> \<not> is_offset_start c"
  by (auto simp: time_char_def is_digit_def is_offset_start_def)

lemma format_time_chars:
  assumes "0 \<le> u" "u < DAY"
  shows "list_all (\<lambda>c. time_char c \<and> c \<noteq> CHR ''-'') (format_time u)"
proof -
  define h m s f where "h = u div USEC div 3600" and "m = u div USEC div 60 mod 60"
    and "s = u div USEC mod 60" and "f = u mod USEC"
  note clock = clock_digits [OF assms, folded h_def m_def s_def f_def]
  have ms: "0 \<le> m" "m < 60" "0 \<le> s" "s < 60" by (simp_all add: m_def s_def)
  have digit: "is_digit c \<Longrightarrow> time_char c \<and> c \<noteq> CHR ''-''" for c
    by (auto simp: time_char_def is_digit_def)
  have digits: "list_all is_digit xs \<Longrightarrow> list_all (\<lambda>c. time_char c \<and> c \<noteq> CHR ''-'') xs" for xs
    using digit by (auto simp: list_all_iff)
  have "format_time u = two h @ '':'' @ two m @ '':'' @ two s @ (if f = 0 then [] else ''.'' @ six f)"
    by (simp add: format_time_def Let_def h_def m_def s_def f_def)
  moreover have "time_char (CHR '':'')" "time_char (CHR ''.'')" by (simp_all add: time_char_def)
  ultimately show ?thesis
    using clock ms two_digits_val six_digits [of f] by (simp add: digits)
qed

lemma takeWhile_append_stop: "list_all P xs \<Longrightarrow> \<not> P y \<Longrightarrow> takeWhile P (xs @ y # ys) = xs \<and> dropWhile P (xs @ y # ys) = y # ys"
  by (induction xs) auto

lemma representable_days:
  assumes "representable t"
  shows "-719162 \<le> t div DAY \<and> t div DAY \<le> 2932896 \<and> 0 \<le> t mod DAY \<and> t mod DAY < DAY"
proof -
  define q r where "q = t div DAY" and "r = t mod DAY"
  have "t = DAY * q + r" "0 \<le> r" "r < DAY"
    by (simp_all add: q_def r_def DAY_def USEC_def)
  with assms have "-719162 \<le> q \<and> q \<le> 2932896 \<and> 0 \<le> r \<and> r < DAY"
    by (simp add: representable_def MIN_INSTANT_def MAX_INSTANT_def DAY_def USEC_def)
  then show ?thesis by (simp only: q_def r_def)
qed

lemma take10_append: "length ds = 10 \<Longrightarrow> take10 (ds @ r) = Some (ds, r)"
  by (auto simp: take10_def numeral_eq_Suc length_Suc_conv)

lemma isoformat_roundtrip_utc:
  assumes "representable t"
  shows "fromisoformat (isoformat_utc t) = Some (t, Some 0)"
proof -
  note days = representable_days [OF assms]
  have date: "length (format_date (t div DAY)) = 10" "parse_date (format_date (t div DAY)) = Some (t div DAY)"
    using parse_format_date [of "t div DAY"] days by auto
  have time: "parse_time (format_time (t mod DAY)) = Some (t mod DAY)"
    using parse_format_time days by simp
  have chars: "list_all (\<lambda>c. \<not> is_offset_start c) (format_time (t mod DAY))"
    using format_time_chars [of "t mod DAY"] days time_char_no_offset by (auto simp: list_all_iff)
  have "is_offset_start (CHR ''+'')" by (simp add: is_offset_start_def)
  with takeWhile_append_stop [OF chars, of "CHR ''+''" "''00:00''"]
  have split: "takeWhile (\<lambda>c. \<not> is_offset_start c) (format_time (t mod DAY) @ ''+00:00'') = format_time (t mod DAY)"
    "dropWhile (\<lambda>c. \<not> is_offset_start c) (format_time (t mod DAY) @ ''+00:00'') = ''+00:00''" by auto
  have offset: "parse_offset ''+00:00'' = Some (Some 0)"
    by code_simp
  have "DAY * (t div DAY) + t mod DAY = t" by (rule mult_div_mod_eq)
  with date time split offset show ?thesis
    by (simp add: fromisoformat_def isoformat_utc_def take10_append)
qed

lemma isoformat_no_Z:
  assumes "representable t"
  shows "z_to_offset (isoformat_utc t) = isoformat_utc t"
proof -
  note days = representable_days [OF assms]
  have plain: "CHR ''Z'' \<notin> set xs \<Longrightarrow> z_to_offset xs = xs" for xs
    by (induction xs) (auto simp: z_to_offset_def)
  have "\<not> time_char (CHR ''Z'')" by (simp add: time_char_def is_digit_def)
  then have "CHR ''Z'' \<notin> set (format_time (t mod DAY))"
    using format_time_chars [of "t mod DAY"] days by (metis list_all_iff)
  moreover have "CHR ''Z'' \<notin> set (format_date (t div DAY))"
    using parse_format_date [of "t div DAY"] days by simp
  ultimately have "CHR ''Z'' \<notin> set (isoformat_utc t)"
    by (simp add: isoformat_utc_def)
  then show ?thesis by (rule plain)
qed

section \<open>Order\<close>

text \<open>Comparing written timestamps as texts compares the instants, which the sources rely on.\<close>

lemma less_append_same_length:
  fixes a b x y :: string
  shows "length a = length b \<Longrightarrow> a @ x < b @ y \<longleftrightarrow> a < b \<or> (a = b \<and> x < y)"
proof (induction a arbitrary: b)
  case (Cons c a)
  then obtain d b' where "b = d # b'" by (cases b) auto
  with Cons show ?case by auto
qed simp

lemma digit_char_less: "0 \<le> m \<Longrightarrow> m < n \<Longrightarrow> n < 10 \<Longrightarrow> digit_char m < digit_char n"
proof -
  assume "0 \<le> m" "m < n" "n < 10"
  then have "(of_char (digit_char m) :: int) < of_char (digit_char n)"
    by (simp add: digit_char_def)
  then have "(of_char (digit_char m) :: nat) < of_char (digit_char n)"
    by (metis of_nat_less_iff of_nat_of_char)
  then show ?thesis by (simp add: less_char_def)
qed

lemma length_two [simp]: "length (two n) = 2"
  by (simp add: two_def)

lemma div_mod_less:
  fixes m n k :: int
  shows "0 < k \<Longrightarrow> m < n \<Longrightarrow> m div k < n div k \<or> (m div k = n div k \<and> m mod k < n mod k)"
proof -
  assume k: "0 < k" "m < n"
  then have "m div k \<le> n div k" by (simp add: zdiv_mono1)
  moreover have "m div k = n div k \<Longrightarrow> m mod k < n mod k"
    using k by (simp add: minus_mult_div_eq_mod [symmetric])
  ultimately show ?thesis by linarith
qed

lemma two_less: "0 \<le> m \<Longrightarrow> m < n \<Longrightarrow> n < 100 \<Longrightarrow> two m < two n"
proof -
  assume mn: "0 \<le> m" "m < n" "n < 100"
  then have "0 \<le> m div 10" "n div 10 < 10" "0 \<le> m mod 10" "n mod 10 < 10"
    by (simp_all add: pos_imp_zdiv_nonneg_iff)
  moreover have "m div 10 < n div 10 \<or> (m div 10 = n div 10 \<and> m mod 10 < n mod 10)"
    using div_mod_less [of 10 m n] mn by simp
  ultimately show ?thesis by (auto simp: two_def digit_char_less)
qed

text \<open>A lexicographic comparison of numbers of two digits each.\<close>

lemma two_append_less:
  "0 \<le> m \<Longrightarrow> n < 100 \<Longrightarrow> m < n \<or> (m = n \<and> x < y) \<Longrightarrow> two m @ x < two n @ y"
  by (auto simp: less_append_same_length two_less)

lemma three_twos_less:
  assumes "0 \<le> a" "0 \<le> b" "0 \<le> c" "a' < 100" "b' < 100" "c' < 100"
    and "a < a' \<or> (a = a' \<and> (b < b' \<or> (b = b' \<and> (c < c' \<or> (c = c' \<and> x < y)))))"
  shows "two a @ p @ two b @ q @ two c @ x < two a' @ p @ two b' @ q @ two c' @ y"
proof -
  have same: "p @ v < p @ w \<longleftrightarrow> v < w" for p v w :: string
    by (simp add: less_append_same_length)
  have tail: "c < c' \<or> (c = c' \<and> x < y) \<Longrightarrow> q @ two c @ x < q @ two c' @ y"
    using assms(3,6) by (simp only: same two_append_less)
  have "b < b' \<or> (b = b' \<and> (c < c' \<or> (c = c' \<and> x < y))) \<Longrightarrow>
      p @ two b @ q @ two c @ x < p @ two b' @ q @ two c' @ y"
    unfolding same [of p] using tail by (intro two_append_less assms(2,5)) blast
  with assms(7) show ?thesis
    by (intro two_append_less assms(1,4)) auto
qed

lemma six_append_less:
  assumes "0 \<le> f" "f < g" "g < USEC"
  shows "six f @ x < six g @ y"
proof -
  have hundreds: "k div 100 div 100 = k div 10000" for k :: int
    by (simp add: zdiv_zmult2_eq [symmetric])
  have shape: "six h @ z = two (h div 100 div 100) @ [] @ two (h div 100 mod 100) @ [] @ two (h mod 100) @ z" for h z
    by (simp add: six_def hundreds)
  have "f div 100 < g div 100 \<or> (f div 100 = g div 100 \<and> f mod 100 < g mod 100)"
    using assms(2) by (intro div_mod_less) simp_all
  moreover have "f div 100 < g div 100 \<Longrightarrow> f div 100 div 100 < g div 100 div 100 \<or>
      (f div 100 div 100 = g div 100 div 100 \<and> f div 100 mod 100 < g div 100 mod 100)"
    by (intro div_mod_less) simp_all
  moreover have "0 \<le> f div 100 div 100" "g div 100 div 100 < 100"
    using assms by (simp_all add: hundreds USEC_def pos_imp_zdiv_nonneg_iff)
  moreover have mods: "0 \<le> k mod 100" "k mod 100 < 100" for k :: int
    using pos_mod_bound [of 100 k] by simp_all
  ultimately show ?thesis
    unfolding shape by (intro three_twos_less mods) (assumption | metis)+
qed

lemma format_time_less:
  assumes "0 \<le> u" "u < v" "v < DAY"
  shows "format_time u @ ''+00:00'' < format_time v @ ''+00:00''"
proof -
  define frac where "frac = (\<lambda>f :: int. (if f = 0 then [] else ''.'' @ six f) @ ''+00:00'')"
  define s f s' f' where "s = u div USEC" and "f = u mod USEC" and "s' = v div USEC" and "f' = v mod USEC"
  have sixties: "k div 60 div 60 = k div 3600" for k :: int
    by (simp add: zdiv_zmult2_eq [symmetric])
  have shape: "format_time w @ ''+00:00'' = two (w div USEC div 60 div 60) @ '':'' @ two (w div USEC div 60 mod 60)
      @ '':'' @ two (w div USEC mod 60) @ frac (w mod USEC)" for w
    by (simp add: format_time_def Let_def frac_def sixties)
  have f: "0 \<le> f" "f < USEC" "f' < USEC" by (simp_all add: f_def f'_def USEC_def)
  have fracs: "f < f' \<Longrightarrow> frac f < frac f'"
    using f by (auto simp: frac_def six_append_less less_char_def)
  have lex: "s < s' \<or> (s = s' \<and> f < f')"
    unfolding s_def f_def s'_def f'_def using assms(2) by (intro div_mod_less) (simp_all add: USEC_def)
  have s: "0 \<le> s" "s' < 86400" using assms
    by (simp_all add: s_def s'_def USEC_def DAY_def pos_imp_zdiv_nonneg_iff)
  then have hours: "0 \<le> s div 60 div 60" "s' div 60 div 60 < 100"
    by (simp_all add: pos_imp_zdiv_nonneg_iff sixties)
  have mods: "0 \<le> k mod 60" "k mod 60 < 100" for k :: int
    using pos_mod_bound [of 60 k] by simp_all
  have "s < s' \<Longrightarrow> s div 60 < s' div 60 \<or> (s div 60 = s' div 60 \<and> s mod 60 < s' mod 60)"
    "s div 60 < s' div 60 \<Longrightarrow> s div 60 div 60 < s' div 60 div 60 \<or>
      (s div 60 div 60 = s' div 60 div 60 \<and> s div 60 mod 60 < s' div 60 mod 60)"
    by (intro div_mod_less; simp)+
  with lex fracs have "s div 60 div 60 < s' div 60 div 60 \<or> (s div 60 div 60 = s' div 60 div 60 \<and>
      (s div 60 mod 60 < s' div 60 mod 60 \<or> (s div 60 mod 60 = s' div 60 mod 60 \<and>
        (s mod 60 < s' mod 60 \<or> (s mod 60 = s' mod 60 \<and> frac f < frac f')))))"
    by auto
  then show ?thesis
    unfolding shape s_def [symmetric] f_def [symmetric] s'_def [symmetric] f'_def [symmetric]
    by (intro three_twos_less hours mods)
qed

lemma months_before:
  assumes "1 \<le> m" "m < n" "n \<le> 12"
  shows "days_before_month y m + days_in_month y m \<le> days_before_month y n"
proof -
  have "m + 1 \<le> n \<longrightarrow> n \<le> 12 \<longrightarrow> days_before_month y (m + 1) \<le> days_before_month y n" if "1 \<le> m" for m n
  proof (cases "m + 1 \<le> n")
    case True
    then show ?thesis
    proof (induction n rule: int_ge_induct)
      case (step i)
      have "0 \<le> days_in_month y i" by (simp add: days_in_month_def)
      with step that show ?case by (auto simp: days_before_month_step)
    qed simp
  qed simp
  with assms show ?thesis by (simp add: days_before_month_step)
qed

lemma civil_less:
  assumes "valid_date y m d" "valid_date y' m' d'" "days_of y m d < days_of y' m' d'"
  shows "y < y' \<or> (y = y' \<and> (m < m' \<or> (m = m' \<and> d < d')))"
proof -
  have range: "1 \<le> d \<and> d \<le> days_in_month y m \<and> 1 \<le> m \<and> m \<le> 12" "1 \<le> d' \<and> d' \<le> days_in_month y' m' \<and> 1 \<le> m' \<and> m' \<le> 12"
    using assms(1,2) by (simp_all add: valid_date_def)
  have "\<not> y' < y"
  proof
    assume "y' < y"
    then have "year_start y' + year_length y' \<le> year_start y"
      using year_start_mono [of "y' + 1" y] by (simp add: year_start_step)
    moreover have "days_before_month y' m' + days_in_month y' m' \<le> year_length y'"
    proof (cases "m' = 12")
      case True
      then show ?thesis by (simp add: days_before_month_def days_in_month_def year_length_def)
    next
      case False
      with months_before [of m' 12 y'] range have "days_before_month y' m' + days_in_month y' m' \<le> days_before_month y' 12"
        by simp
      moreover have "days_before_month y' 12 \<le> year_length y'" by (simp add: days_before_month_def year_length_def)
      ultimately show ?thesis by simp
    qed
    moreover have "0 \<le> days_before_month y m" by (simp add: days_before_month_def)
    ultimately show False using assms(3) range by (simp add: days_of_year_start)
  qed
  moreover have "\<not> (y = y' \<and> m' < m)"
  proof
    assume "y = y' \<and> m' < m"
    with months_before [of m' m y] range assms(3) show False by (simp add: days_of_year_start)
  qed
  moreover have "y = y' \<and> m = m' \<Longrightarrow> d < d'" using assms(3) by (simp add: days_of_year_start)
  ultimately show ?thesis by linarith
qed

lemma format_date_less:
  assumes "-719162 \<le> n" "n < n'" "n' \<le> 2932896"
  shows "format_date n < format_date n'"
proof -
  obtain y m d y' m' d' where c: "civil_of_days n = (y, m, d)" "civil_of_days n' = (y', m', d')"
    by (metis prod_cases3)
  have v: "valid_date y m d" "days_of y m d = n" "valid_date y' m' d'" "days_of y' m' d' = n'"
    using civil_of_days [of n y m d] civil_of_days [of n' y' m' d'] c assms by auto
  note lex = civil_less [OF v(1,3)]
  from v have range: "1 \<le> y" "1 \<le> m" "1 \<le> d" "1 \<le> y'" "1 \<le> m'" "m' \<le> 12" "1 \<le> d'" "d' \<le> 31"
    by (auto simp: valid_date_def days_in_month_def split: if_splits)
  with year_le_9999 [of y' m' d'] v assms have y': "y' \<le> 9999" by simp
  have years: "y < y' \<Longrightarrow> y div 100 < y' div 100 \<or> (y div 100 = y' div 100 \<and> y mod 100 < y' mod 100)"
    by (intro div_mod_less) simp_all
  have mods: "0 \<le> k mod 100" "k mod 100 < 100" for k :: int
    using pos_mod_bound [of 100 k] by simp_all
  have hundreds: "0 \<le> y div 100" "y' div 100 < 100"
    using range y' by (simp_all add: pos_imp_zdiv_nonneg_iff)
  have months: "m < m' \<or> (m = m' \<and> d < d') \<Longrightarrow>
      ''-'' @ two m @ ''-'' @ two d < ''-'' @ two m' @ ''-'' @ two d'"
    using range two_append_less [of m m' "''-'' @ two d" "''-'' @ two d'"] by (auto simp: two_less)
  have "y div 100 < y' div 100 \<or> (y div 100 = y' div 100 \<and> (y mod 100 < y' mod 100 \<or> (y mod 100 = y' mod 100 \<and>
      ''-'' @ two m @ ''-'' @ two d < ''-'' @ two m' @ ''-'' @ two d')))"
    using lex years months assms(2) v by metis
  then have "two (y div 100) @ two (y mod 100) @ ''-'' @ two m @ ''-'' @ two d
      < two (y' div 100) @ two (y' mod 100) @ ''-'' @ two m' @ ''-'' @ two d'"
    by (intro two_append_less hundreds mods) (metis two_append_less mods)
  then show ?thesis by (simp add: format_date_def c)
qed

text \<open>The texts of two instants of the years 1 to 9999 compare as the instants do, also when only one
  of them has a fraction of a second: choosing the oldest or the latest timestamp as a text is right.\<close>

theorem isoformat_order:
  assumes "representable t" "representable u"
  shows "isoformat_utc t < isoformat_utc u \<longleftrightarrow> t < u"
proof -
  have less: "isoformat_utc t < isoformat_utc u" if "representable t" "representable u" "t < u" for t u
  proof -
    note days = representable_days [OF that(1)] representable_days [OF that(2)]
    have "t div DAY < u div DAY \<or> (t div DAY = u div DAY \<and> t mod DAY < u mod DAY)"
      using that(3) by (intro div_mod_less) (simp_all add: DAY_def USEC_def)
    moreover have "t div DAY < u div DAY \<Longrightarrow> format_date (t div DAY) < format_date (u div DAY)"
      using days by (simp add: format_date_less)
    moreover have "t mod DAY < u mod DAY \<Longrightarrow>
        format_time (t mod DAY) @ ''+00:00'' < format_time (u mod DAY) @ ''+00:00''"
      using days by (simp add: format_time_less)
    moreover have "length (format_date (t div DAY)) = length (format_date (u div DAY))"
      using days by (simp add: parse_format_date)
    ultimately show ?thesis
      by (auto simp: isoformat_utc_def less_append_same_length)
  qed
  show ?thesis using less [OF assms] less [OF assms(2,1)] by (metis linorder_neqE order.asym)
qed

theorem isoformat_order_witness:
  "isoformat_utc 1700000000000000 < isoformat_utc 1700000000000001 \<longleftrightarrow> 1700000000000000 < (1700000000000001 :: int)"
  by (rule isoformat_order) (simp_all add: representable_def MIN_INSTANT_def MAX_INSTANT_def DAY_def USEC_def)

end
