(* ===== verification/Fingerprint.thy ===== *)
theory Fingerprint
  imports Formats
begin

text \<open>
  Device classification, \<open>client/app/fingerprinting.py\<close>: the tables of signatures and the functions
  that turn the evidence of one protocol (DHCP, host name, mDNS, SSDP, TLS, DNS, traffic) into hints
  with a confidence.  The regular expressions of the sources are terms of a small matcher on lower-case
  text (they are all compiled with \<open>IGNORECASE\<close>); \<open>client/app/oui.py\<close>'s vendor look-up is here too.
\<close>

section \<open>Regular expressions\<close>

datatype rx =
    Eps
  | Cls "char \<Rightarrow> bool"
  | Many "char \<Rightarrow> bool"
  | Then rx rx
  | Either rx rx
  | AtEnd

fun runs :: "(char \<Rightarrow> bool) \<Rightarrow> string \<Rightarrow> string list" where
  "runs p [] = [[]]"
| "runs p (c # cs) = (c # cs) # (if p c then runs p cs else [])"

text \<open>What can be left of a text once a match of the expression has been read from its front.\<close>

fun rests :: "rx \<Rightarrow> string \<Rightarrow> string list" where
  "rests Eps s = [s]"
| "rests (Cls p) s = (case s of [] \<Rightarrow> [] | c # cs \<Rightarrow> if p c then [cs] else [])"
| "rests (Many p) s = runs p s"
| "rests (Then a b) s = concat (map (rests b) (rests a s))"
| "rests (Either a b) s = rests a s @ rests b s"
| "rests AtEnd s = (if s = [] \<or> s = [CHR 0x0A] then [s] else [])"

definition match_start :: "rx \<Rightarrow> string \<Rightarrow> bool" where
  "match_start r s \<longleftrightarrow> rests r s \<noteq> []"

definition search :: "rx \<Rightarrow> string \<Rightarrow> bool" where
  "search r s \<longleftrightarrow> list_ex (match_start r) (suffixes s)"

fun lit :: "string \<Rightarrow> rx" where
  "lit [] = Eps"
| "lit (c # cs) = Then (Cls (\<lambda>x. x = c)) (lit cs)"

fun one_of :: "rx list \<Rightarrow> rx" where
  "one_of [] = Cls (\<lambda>_. False)"
| "one_of [r] = r"
| "one_of (r # rs) = Either r (one_of rs)"

fun seq :: "rx list \<Rightarrow> rx" where
  "seq [] = Eps"
| "seq (r # rs) = Then r (seq rs)"

definition opt :: "rx \<Rightarrow> rx" where
  "opt r = Either r Eps"

definition alnum :: "char \<Rightarrow> bool" where
  "alnum c \<longleftrightarrow> is_digit c \<or> (97 \<le> (of_char c :: int) \<and> (of_char c :: int) \<le> 122)"

definition any_char :: "char \<Rightarrow> bool" where
  "any_char c \<longleftrightarrow> c \<noteq> CHR 0x0A"

definition digits :: rx where
  "digits = Then (Cls is_digit) (Many is_digit)"

definition sep :: rx where
  "sep = opt (Cls (\<lambda>c. c = CHR '' '' \<or> c = CHR ''-''))"

definition repeat :: "int \<Rightarrow> int \<Rightarrow> rx \<Rightarrow> rx" where
  "repeat a b r = seq (map (\<lambda>_. r) [1..a] @ map (\<lambda>_. opt r) [a + 1..b])"

section \<open>Hints\<close>

record hint =
  os_hint :: "string option"
  device_type :: "string option"
  model_hint :: "string option"
  confidence :: rat
  evidence :: "string list"
  software_hints :: "string list"
  client_stack :: "string option"

definition no_hint :: hint where
  "no_hint = \<lparr>os_hint = None, device_type = None, model_hint = None, confidence = 0, evidence = [],
     software_hints = [], client_stack = None\<rparr>"

definition found :: "rat \<Rightarrow> string \<Rightarrow> hint \<Rightarrow> hint" where
  "found c ev h = h\<lparr>confidence := c, evidence := evidence h @ [ev]\<rparr>"

definition at_least :: "rat \<Rightarrow> hint \<Rightarrow> hint" where
  "at_least c h = h\<lparr>confidence := max (confidence h) c\<rparr>"

definition noted :: "string \<Rightarrow> hint \<Rightarrow> hint" where
  "noted ev h = h\<lparr>evidence := evidence h @ [ev]\<rparr>"

definition software :: "string \<Rightarrow> hint \<Rightarrow> hint" where
  "software s h = h\<lparr>software_hints := software_hints h @ [s]\<rparr>"

definition or_else :: "string option \<Rightarrow> string option \<Rightarrow> string option" where
  "or_else a b = (case given a of None \<Rightarrow> b | Some s \<Rightarrow> Some s)"

section \<open>Host names\<close>

text \<open>Anchored at the start or not, the expression, and what a match says.\<close>

definition HOSTNAME_PATTERNS ::
  "(bool \<times> rx \<times> string option \<times> string option \<times> string option \<times> rat \<times> string) list" where
  "HOSTNAME_PATTERNS =
     [(True, seq [lit ''desktop-'', repeat 5 8 (Cls alnum), AtEnd],
        Some ''Windows'', Some ''Workstation'', None, 88 / 100, ''hostname.windows_desktop''),
      (True, seq [lit ''laptop-'', repeat 5 8 (Cls alnum), AtEnd],
        Some ''Windows'', Some ''Laptop'', None, 88 / 100, ''hostname.windows_laptop''),
      (True, seq [lit ''win-'', repeat 5 10 (Cls alnum), AtEnd],
        Some ''Windows'', Some ''Workstation'', None, 85 / 100, ''hostname.windows_generic''),
      (False, lit ''iphone'', Some ''iOS'', Some ''Mobile Device'', Some ''iPhone'', 90 / 100, ''hostname.iphone''),
      (False, lit ''ipad'', Some ''iPadOS'', Some ''Tablet'', Some ''iPad'', 90 / 100, ''hostname.ipad''),
      (False, seq [lit ''macbook'', sep, lit ''pro''],
        Some ''macOS'', Some ''Laptop'', Some ''MacBook Pro'', 92 / 100, ''hostname.macbook_pro''),
      (False, seq [lit ''macbook'', sep, lit ''air''],
        Some ''macOS'', Some ''Laptop'', Some ''MacBook Air'', 92 / 100, ''hostname.macbook_air''),
      (False, lit ''imac'', Some ''macOS'', Some ''Desktop'', Some ''iMac'', 92 / 100, ''hostname.imac''),
      (False, seq [lit ''mac'', sep, lit ''mini''],
        Some ''macOS'', Some ''Desktop'', Some ''Mac mini'', 92 / 100, ''hostname.mac_mini''),
      (False, seq [lit ''galaxy'', sep,
          one_of [Then (lit ''s'') digits, Then (lit ''note'') digits, Then (lit ''a'') digits, lit ''tab'', lit ''z'']],
        Some ''Android'', Some ''Mobile Device'', None, 88 / 100, ''hostname.samsung_galaxy''),
      (False, seq [lit ''pixel'', sep, digits],
        Some ''Android'', Some ''Mobile Device'', Some ''Google Pixel'', 90 / 100, ''hostname.google_pixel''),
      (False, one_of [seq [lit ''direct-'', Many any_char, Cls alnum], lit ''hp-print'', lit ''epson'', lit ''brother'',
          lit ''canon'', lit ''xerox'', lit ''kyocera''],
        Some ''Embedded'', Some ''Printer'', None, 90 / 100, ''hostname.printer''),
      (False, one_of [lit ''bravia'', seq [lit ''samsung'', Many any_char, lit ''tv''],
          seq [lit ''lg'', Many any_char, lit ''tv''], lit ''roku'', lit ''firetv'', lit ''appletv''],
        None, Some ''Smart TV'', None, 85 / 100, ''hostname.smart_tv''),
      (False, one_of [lit ''sonos'', lit ''echo'', lit ''homepod'', lit ''soundbar''],
        Some ''Embedded'', Some ''Audio Device'', None, 85 / 100, ''hostname.audio'')]"

text \<open>\<open>s.rstrip(".local")\<close> drops trailing characters of that set, not the suffix.\<close>

definition rstrip_chars :: "string \<Rightarrow> string \<Rightarrow> string" where
  "rstrip_chars cs s = rev (dropWhile (\<lambda>c. c \<in> set cs) (rev s))"

fun first_hostname_pattern ::
  "(bool \<times> rx \<times> string option \<times> string option \<times> string option \<times> rat \<times> string) list \<Rightarrow> string \<Rightarrow> hint" where
  "first_hostname_pattern [] s = no_hint"
| "first_hostname_pattern ((anchored, r, os, dt, model, conf, tag) # ps) s =
     (if (if anchored then match_start r s else search r s)
      then no_hint\<lparr>os_hint := os, device_type := dt, model_hint := model, confidence := conf, evidence := [tag]\<rparr>
      else first_hostname_pattern ps s)"

definition evaluate_hostname_heuristics :: "string \<Rightarrow> hint" where
  "evaluate_hostname_heuristics hostname =
     (if hostname = [] then no_hint
      else first_hostname_pattern HOSTNAME_PATTERNS (lower (rstrip_chars ''.local'' (strip hostname))))"

section \<open>DHCP\<close>

definition DHCP_PRL_SIGNATURES :: "(string \<times> string \<times> rat \<times> string \<times> int list) list" where
  "DHCP_PRL_SIGNATURES =
     [(''Windows'', ''Workstation'', 85 / 100, ''dhcp.prl.windows'', [1, 3, 6, 15, 31, 43]),
      (''macOS / iOS'', ''Apple Device'', 80 / 100, ''dhcp.prl.apple'', [1, 3, 6, 15, 119, 252]),
      (''Android'', ''Mobile Device'', 80 / 100, ''dhcp.prl.android'', [1, 3, 6, 15, 26, 28, 51, 58, 59, 43])]"

definition vendor_class_step :: "string option \<Rightarrow> hint \<Rightarrow> hint" where
  "vendor_class_step vendor_class h =
     (case given vendor_class of
        None \<Rightarrow> h
      | Some v \<Rightarrow>
          (let vc = strip v; low = lower vc; h = noted (''dhcp.vendor_class:'' @ vc) h in
           if prefix ''MSFT 5.0'' vc \<or> prefix ''MSFT 98'' vc \<or> prefix ''MSFT'' vc
           then found (92 / 100) ''dhcp.vendor_class.microsoft''
                  (h\<lparr>os_hint := Some ''Windows'', device_type := Some ''Workstation''\<rparr>)
           else if contains ''android-dhcp'' low
           then found (95 / 100) ''dhcp.vendor_class.android''
                  (h\<lparr>os_hint := Some ''Android'', device_type := Some ''Mobile Device''\<rparr>)
           else if contains ''apple'' low \<or> prefix ''AAPL'' vc
           then found (90 / 100) ''dhcp.vendor_class.apple''
                  (h\<lparr>os_hint := Some ''Apple OS'', device_type := Some ''Apple Device''\<rparr>)
           else if contains ''cisco'' low
           then found (85 / 100) ''dhcp.vendor_class.cisco'' (h\<lparr>device_type := Some ''Network Device''\<rparr>)
           else if contains ''printer'' low \<or> contains ''hp-jetdirect'' low
           then found (95 / 100) ''dhcp.vendor_class.printer''
                  (h\<lparr>device_type := Some ''Printer'', os_hint := Some ''Embedded''\<rparr>)
           else h))"

fun prl_step :: "(string \<times> string \<times> rat \<times> string \<times> int list) list \<Rightarrow> int list \<Rightarrow> hint \<Rightarrow> hint" where
  "prl_step [] prl h = h"
| "prl_step ((os, dt, conf, tag, options) # sigs) prl h =
     (if list_all (\<lambda>x. x \<in> set prl) options
      then (let h = noted tag h in
            if os_hint h = Some os then h\<lparr>confidence := min (99 / 100) (confidence h + 6 / 100)\<rparr>
            else if given (os_hint h) = None
            then at_least conf (h\<lparr>os_hint := Some os, device_type := or_else (device_type h) (Some dt)\<rparr>)
            else h)
      else prl_step sigs prl h)"

definition hostname_step :: "string option \<Rightarrow> hint \<Rightarrow> hint" where
  "hostname_step hostname h =
     (case given hostname of
        None \<Rightarrow> h
      | Some name \<Rightarrow>
          (let e = evaluate_hostname_heuristics name;
               h1 = (case given (os_hint e) of
                       None \<Rightarrow> h
                     | Some os \<Rightarrow>
                         (let h = h\<lparr>evidence := evidence h @ evidence e\<rparr> in
                          case given (os_hint h) of
                            None \<Rightarrow> at_least (confidence e) (h\<lparr>os_hint := Some os\<rparr>)
                          | Some mine \<Rightarrow>
                              if contains (lower mine) (lower os)
                              then h\<lparr>confidence := min (99 / 100) (confidence h + 5 / 100)\<rparr> else h));
               h2 = (if given (device_type e) = None then h1 else h1\<lparr>device_type := device_type e\<rparr>)
           in if given (model_hint e) = None then h2 else h2\<lparr>model_hint := model_hint e\<rparr>))"

definition classify_dhcp_evidence :: "string option \<Rightarrow> int list \<Rightarrow> string option \<Rightarrow> hint" where
  "classify_dhcp_evidence vendor_class prl hostname =
     hostname_step hostname
       (let h = vendor_class_step vendor_class no_hint
        in if prl = [] then h else prl_step DHCP_PRL_SIGNATURES prl h)"

section \<open>mDNS and SSDP\<close>

definition model_step :: "(string \<times> string) list \<Rightarrow> hint \<Rightarrow> hint" where
  "model_step txt h =
     (case map_of txt ''model'' of
        None \<Rightarrow> h
      | Some m \<Rightarrow>
          (let raw = strip m;
               h = found (95 / 100) (''mdns.txt.model:'' @ raw) (h\<lparr>model_hint := Some raw\<rparr>);
               is = (\<lambda>os dt. h\<lparr>os_hint := Some os, device_type := Some dt\<rparr>)
           in if prefix ''MacBook'' raw then is ''macOS'' ''MacBook''
              else if prefix ''Mac'' raw then is ''macOS'' ''Mac Desktop''
              else if prefix ''iPhone'' raw then is ''iOS'' ''iPhone''
              else if prefix ''iPad'' raw then is ''iPadOS'' ''iPad''
              else if prefix ''AppleTV'' raw then is ''tvOS'' ''Apple TV''
              else h))"

definition osxvers_step :: "(string \<times> string) list \<Rightarrow> hint \<Rightarrow> hint" where
  "osxvers_step txt h =
     (case map_of txt ''osxvers'' of
        None \<Rightarrow> h
      | Some v \<Rightarrow> at_least (90 / 100) (noted (''mdns.txt.osxvers:'' @ v) (h\<lparr>os_hint := Some ''macOS''\<rparr>)))"

definition service_step :: "string option \<Rightarrow> hint \<Rightarrow> hint" where
  "service_step service_type h =
     (case given service_type of
        None \<Rightarrow> h
      | Some t \<Rightarrow>
          (let st = lower t; has = (\<lambda>p. contains p st) in
           if has ''_dosvc._tcp''
           then software ''Windows Delivery Optimization'' (noted ''mdns.service.dosvc'' (at_least (90 / 100)
                  (h\<lparr>os_hint := Some ''Windows'', device_type := or_else (device_type h) (Some ''Workstation'')\<rparr>)))
           else if has ''_airplay._tcp'' \<or> has ''_raop._tcp''
           then (let h = software ''AirPlay'' (noted ''mdns.service.airplay'' h) in
                 if given (os_hint h) = None then at_least (85 / 100) (h\<lparr>os_hint := Some ''Apple OS''\<rparr>) else h)
           else if has ''_googlecast._tcp''
           then software ''Google Cast'' (at_least (88 / 100) (noted ''mdns.service.googlecast''
                  (h\<lparr>device_type := Some ''Cast Device''\<rparr>)))
           else if has ''_ipp._tcp'' \<or> has ''_printer._tcp'' \<or> has ''_pdl-datastream._tcp''
           then software ''IPP / Network Print Service'' (at_least (92 / 100) (noted ''mdns.service.printer''
                  (h\<lparr>device_type := Some ''Printer''\<rparr>)))
           else if has ''_adb._tcp''
           then software ''Android Debug Bridge (ADB)'' (at_least (95 / 100) (noted ''mdns.service.adb''
                  (h\<lparr>os_hint := Some ''Android'', device_type := Some ''Android Device''\<rparr>)))
           else if has ''_spotify-connect._tcp''
           then software ''Spotify Connect'' (noted ''mdns.service.spotify_connect'' h)
           else if has ''_smb._tcp'' then software ''SMB File Sharing'' h
           else if has ''_ssh._tcp'' then software ''SSH Server'' h
           else if has ''_http._tcp'' \<or> has ''_https._tcp'' then software ''Web Server'' h
           else h))"

definition classify_mdns_evidence :: "string option \<Rightarrow> (string \<times> string) list \<Rightarrow> hint" where
  "classify_mdns_evidence service_type txt = service_step service_type (osxvers_step txt (model_step txt no_hint))"

definition server_step :: "string option \<Rightarrow> hint \<Rightarrow> hint" where
  "server_step server_header h =
     (case given server_header of
        None \<Rightarrow> h
      | Some s \<Rightarrow>
          (let srv = strip s; low = lower srv; h = noted (''ssdp.server:'' @ srv) h;
               h1 = (if contains ''Windows'' srv \<or> contains ''Microsoft'' srv
                     then found (85 / 100) ''ssdp.server.windows'' (h\<lparr>os_hint := Some ''Windows''\<rparr>)
                     else if contains ''Linux'' srv
                     then found (75 / 100) ''ssdp.server.linux'' (h\<lparr>os_hint := Some ''Linux''\<rparr>)
                     else if contains ''Darwin'' srv \<or> contains ''Mac OS'' srv
                     then found (85 / 100) ''ssdp.server.darwin'' (h\<lparr>os_hint := Some ''macOS''\<rparr>)
                     else if contains ''Roku'' srv
                     then software ''Roku OS'' (found (95 / 100) ''ssdp.server.roku''
                            (h\<lparr>device_type := Some ''Roku Streaming Device''\<rparr>))
                     else if contains ''Sonos'' srv
                     then software ''Sonos'' (found (95 / 100) ''ssdp.server.sonos''
                            (h\<lparr>device_type := Some ''Sonos Speaker''\<rparr>))
                     else h)
           in if contains ''utorrent'' low then software ''uTorrent'' h1
              else if contains ''bittorrent'' low then software ''BitTorrent'' h1
              else if contains ''plex'' low then software ''Plex Media Server'' h1
              else if contains ''kodi'' low then software ''Kodi'' h1
              else h1))"

definition urn_step :: "string option \<Rightarrow> hint \<Rightarrow> hint" where
  "urn_step device_type_urn h =
     (case given device_type_urn of
        None \<Rightarrow> h
      | Some t \<Rightarrow>
          (let urn = lower t in
           if contains ''printer'' urn
           then noted ''ssdp.urn.printer'' (at_least (90 / 100) (h\<lparr>device_type := Some ''Printer''\<rparr>))
           else if contains ''mediaserver'' urn \<or> contains ''mediarenderer'' urn
           then noted ''ssdp.urn.media'' (h\<lparr>device_type := or_else (device_type h) (Some ''Media Device'')\<rparr>)
           else if contains ''internetgatewaydevice'' urn \<or> contains ''router'' urn
           then noted ''ssdp.urn.router'' (at_least (92 / 100) (h\<lparr>device_type := Some ''Router / Gateway''\<rparr>))
           else h))"

definition classify_ssdp_evidence :: "string option \<Rightarrow> string option \<Rightarrow> hint" where
  "classify_ssdp_evidence server_header device_type_urn = urn_step device_type_urn (server_step server_header no_hint)"

section \<open>TLS, DNS and traffic\<close>

definition SNI_DOMAIN_RULES :: "(string list \<times> string option \<times> string option \<times> rat \<times> string) list" where
  "SNI_DOMAIN_RULES =
     [([''apple.com'', ''icloud.com'', ''aaplimg.com'', ''apple-cloudkit.com'',
         ''push.apple.com'', ''itunes.apple.com'', ''me.com''],
       Some ''Apple OS'', Some ''Apple Device'', 92 / 100, ''sni.apple_services''),
      ([''windowsupdate.com'', ''update.microsoft.com'', ''msftncsi.com'',
         ''telemetry.microsoft.com'', ''live.com'', ''office.com'', ''office365.com'',
         ''azure.com'', ''microsoft.com'', ''xboxlive.com''],
       Some ''Windows'', Some ''Workstation'', 90 / 100, ''sni.microsoft_services''),
      ([''android.com'', ''googleapis.com'', ''googleplay.com'', ''gvt1.com'', ''ggpht.com'',
         ''gstatic.com'', ''googleusercontent.com''],
       Some ''Android'', Some ''Mobile Device'', 88 / 100, ''sni.google_android_services''),
      ([''samsungcloud.com'', ''samsungqbe.com'', ''samsungosp.com'', ''samsung.com''],
       Some ''Android'', Some ''Samsung Device'', 90 / 100, ''sni.samsung_services''),
      ([''netflix.com'', ''nflxvideo.net'', ''nflxext.com'', ''roku.com'', ''hulu.com'',
         ''disneyplus.com'', ''spotify.com'', ''lgtvcommon.com'', ''bravia.sony'', ''tivo.com'',
         ''smarttv''],
       None, Some ''Smart TV / Media'', 92 / 100, ''sni.streaming_media''),
      ([''tuya.com'', ''tuyaeu.com'', ''smartthings.com'', ''tplinkcloud.com'', ''ring.com'',
         ''nest.com'', ''philips-hue.com'', ''espressif.com'', ''wyze.com'', ''arlo.com'',
         ''blink.com'', ''mi-cloud.com'', ''yeelight.com''],
       Some ''Embedded'', Some ''IoT Device'', 95 / 100, ''sni.iot_cloud''),
      ([''playstation.net'', ''playstation.com'', ''nintendo.net'', ''nintendo.com'',
         ''steamcommunity.com'', ''steampowered.com''],
       None, Some ''Gaming Console'', 92 / 100, ''sni.gaming_services''),
      ([''hpconnected.com'', ''hpsmart.com'', ''epsonconnect.com'', ''canon-c-asdp.com'',
         ''brother.com''],
       Some ''Embedded'', Some ''Printer'', 95 / 100, ''sni.printer_cloud'')]"

definition JA3_FINGERPRINT_MAP :: "(string \<times> string \<times> string \<times> string \<times> rat) list" where
  "JA3_FINGERPRINT_MAP =
     [(''b32309a26951912be7dba376398abc3b'', ''Windows'', ''Workstation'',
        ''Chrome/Edge on Windows'', 90 / 100),
      (''66918128f1b9b03303d77c6f2eefd128'', ''Windows'', ''Workstation'',
        ''Chrome on Windows'', 90 / 100),
      (''cd08e31494f9531f560d64c695473da9'', ''Windows'', ''Workstation'',
        ''Edge on Windows'', 90 / 100),
      (''51c64c77e60f39ac303c1b303e0e54b8'', ''iOS'', ''Mobile Device'',
        ''Safari on iOS'', 92 / 100),
      (''b845089720b0339b3346ff1755a90714'', ''iOS'', ''iPhone'',
        ''iOS MobileSafari'', 92 / 100),
      (''161b45ecdd3a32f6a7ae8991206cc4c6'', ''iOS'', ''Apple Device'',
        ''iOS Background TLS'', 90 / 100),
      (''773906b0efdefa24a7f2b8eb69858561'', ''macOS'', ''Mac Desktop/Laptop'',
        ''Safari on macOS'', 92 / 100),
      (''21c5798da20c0f997dbba7cb0f19ae39'', ''macOS'', ''Apple Device'',
        ''macOS System TLS'', 90 / 100),
      (''15af977ce251252b42433092782e407e'', ''Android'', ''Mobile Device'',
        ''OkHttp / Android App'', 92 / 100),
      (''8d70923055490717277e9caad8097b69'', ''Android'', ''Mobile Device'',
        ''Chrome on Android'', 90 / 100),
      (''a0e9f5d64349fb13191bc781f81f42e1'', ''Android'', ''Mobile Device'',
        ''Android System Webview'', 88 / 100),
      (''0cce74b019b7d90e0c8ff0f81d11ff31'', ''Linux'', ''Workstation/Server'',
        ''Python requests / urllib'', 85 / 100),
      (''71b78292c730823296dd5f311c107127'', ''Linux'', ''Workstation'',
        ''curl / libcurl'', 85 / 100),
      (''714e8679d67bf3c0beff3253b26639fc'', ''Embedded'', ''IoT Device'',
        ''ESP32 / mbedTLS'', 94 / 100),
      (''ade138fba3302132b2fa141fad3a94f3'', ''Embedded'', ''IoT Device'',
        ''wolfSSL Embedded'', 94 / 100)]"

fun first_sni_rule ::
  "(string list \<times> string option \<times> string option \<times> rat \<times> string) list \<Rightarrow> string \<Rightarrow> hint" where
  "first_sni_rule [] s = no_hint"
| "first_sni_rule ((domains, os, dt, conf, tag) # rules) s =
     (if search (Then (one_of (map lit domains)) AtEnd) s
      then no_hint\<lparr>os_hint := os, device_type := dt, confidence := conf, evidence := [tag @ '':'' @ s]\<rparr>
      else first_sni_rule rules s)"

definition classify_sni_evidence :: "string option \<Rightarrow> hint" where
  "classify_sni_evidence sni_host =
     (case given sni_host of None \<Rightarrow> no_hint | Some s \<Rightarrow> first_sni_rule SNI_DOMAIN_RULES (lower (strip s)))"

definition classify_ja3_evidence :: "string option \<Rightarrow> string option \<Rightarrow> hint" where
  "classify_ja3_evidence ja3_hash ja3_string =
     (case given ja3_hash of
        None \<Rightarrow> no_hint
      | Some h \<Rightarrow>
          (let clean = lower (strip h) in
           case map_of JA3_FINGERPRINT_MAP clean of
             Some (os, dt, stack, conf) \<Rightarrow>
               no_hint\<lparr>os_hint := Some os, device_type := Some dt, client_stack := Some stack, confidence := conf,
                 evidence := [''ja3.matched:'' @ clean]\<rparr>
           | None \<Rightarrow>
               (case given ja3_string of
                  None \<Rightarrow> no_hint
                | Some text \<Rightarrow>
                    (case split_char (CHR '','') text of
                       _ # p1 # p2 # _ \<Rightarrow>
                         (let ciphers = (if p1 = [] then [] else split_char (CHR ''-'') p1);
                              extensions = (if p2 = [] then [] else split_char (CHR ''-'') p2)
                          in if ilen ciphers \<le> 4 \<and> ilen extensions \<le> 5
                             then no_hint\<lparr>os_hint := Some ''Embedded'', device_type := Some ''IoT Device'',
                               confidence := 75 / 100, evidence := [''ja3.heuristic.minimal_tls:'' @ clean]\<rparr>
                             else no_hint)
                     | _ \<Rightarrow> no_hint))))"

definition classify_dns_evidence :: "string option \<Rightarrow> hint" where
  "classify_dns_evidence domain = (if given domain = None then no_hint else classify_sni_evidence domain)"

text \<open>The hint of a behavioural pattern: a device type, its confidence and the evidence.\<close>

definition classify_traffic_evidence :: "string option \<Rightarrow> string option \<times> rat \<times> string list" where
  "classify_traffic_evidence pattern =
     (case given pattern of
        None \<Rightarrow> (None, 0, [])
      | Some p \<Rightarrow>
          (if p = ''HEAVY_STREAMING_TRANSFER'' then (Some ''Smart TV / Workstation'', 70 / 100, [''traffic.pattern:'' @ p])
           else if p = ''BURST_TELEMETRY'' then (Some ''IoT Device / Mobile'', 75 / 100, [''traffic.pattern:'' @ p])
           else (None, 0, [''traffic.pattern:'' @ p])))"

section \<open>Vendors\<close>

definition hex_letters :: "string \<Rightarrow> string" where
  "hex_letters s = filter is_hex s"

text \<open>A database gives a table for each prefix length; the most specific assignment wins.\<close>

type_synonym vendors = "(string \<times> (string \<times> string) list) list"

fun first_vendor :: "(string \<times> int) list \<Rightarrow> vendors \<Rightarrow> string \<Rightarrow> string option" where
  "first_vendor [] db mac = None"
| "first_vendor ((table, n) # others) db mac =
     (case map_of db table of
        None \<Rightarrow> first_vendor others db mac
      | Some t \<Rightarrow>
          (case given (map_of t (take (nat n) mac)) of
             None \<Rightarrow> first_vendor others db mac
           | Some v \<Rightarrow> Some v))"

definition get_vendor :: "string \<Rightarrow> vendors \<Rightarrow> string option" where
  "get_vendor mac_address db =
     (let mac = upper (hex_letters mac_address) in
      if ilen mac \<noteq> 12 then None else first_vendor [(''mas'', 9), (''mam'', 7), (''oui'', 6)] db mac)"

section \<open>The matcher and the words it matches\<close>

text \<open>\<open>matches r w t\<close>: the expression matches the word \<open>w\<close> when \<open>t\<close> follows it.\<close>

inductive matches :: "rx \<Rightarrow> string \<Rightarrow> string \<Rightarrow> bool" where
  m_Eps: "matches Eps [] t"
| m_Cls: "p c \<Longrightarrow> matches (Cls p) [c] t"
| m_Many: "list_all p w \<Longrightarrow> matches (Many p) w t"
| m_Then: "matches a v (w @ t) \<Longrightarrow> matches b w t \<Longrightarrow> matches (Then a b) (v @ w) t"
| m_Left: "matches a w t \<Longrightarrow> matches (Either a b) w t"
| m_Right: "matches b w t \<Longrightarrow> matches (Either a b) w t"
| m_End: "t = [] \<or> t = [CHR 0x0A] \<Longrightarrow> matches AtEnd [] t"

inductive_simps matches_Eps [simp]: "matches Eps w t"
inductive_simps matches_Cls [simp]: "matches (Cls p) w t"
inductive_simps matches_Many [simp]: "matches (Many p) w t"
inductive_simps matches_Then [simp]: "matches (Then a b) w t"
inductive_simps matches_Either [simp]: "matches (Either a b) w t"
inductive_simps matches_AtEnd [simp]: "matches AtEnd w t"

lemma runs_words: "t \<in> set (runs p s) \<longleftrightarrow> (\<exists>w. s = w @ t \<and> list_all p w)"
proof (induction s)
  case (Cons c cs)
  have "(\<exists>w. c # cs = w @ t \<and> list_all p w) \<longleftrightarrow> t = c # cs \<or> (p c \<and> (\<exists>w. cs = w @ t \<and> list_all p w))"
    by (auto simp: Cons_eq_append_conv)
  with Cons show ?case by auto
qed auto

lemma rests_words: "t \<in> set (rests r s) \<longleftrightarrow> (\<exists>w. s = w @ t \<and> matches r w t)"
proof (induction r arbitrary: s t)
  case (Then a b)
  have "t \<in> set (rests (Then a b) s) \<longleftrightarrow> (\<exists>u. u \<in> set (rests a s) \<and> t \<in> set (rests b u))"
    by auto
  also have "\<dots> \<longleftrightarrow> (\<exists>u. (\<exists>v. s = v @ u \<and> matches a v u) \<and> (\<exists>w. u = w @ t \<and> matches b w t))"
    by (simp only: Then)
  also have "\<dots> \<longleftrightarrow> (\<exists>w. s = w @ t \<and> matches (Then a b) w t)"
    by simp (metis append.assoc)
  finally show ?case .
next
  case (Cls p)
  then show ?case by (cases s) (auto simp: Cons_eq_append_conv)
qed (auto simp: runs_words)

lemma match_start_words: "match_start r s \<longleftrightarrow> (\<exists>w t. s = w @ t \<and> matches r w t)"
proof -
  have "match_start r s \<longleftrightarrow> (\<exists>t. t \<in> set (rests r s))"
    by (cases "rests r s") (auto simp: match_start_def)
  then show ?thesis by (auto simp: rests_words)
qed

lemma search_words: "search r s \<longleftrightarrow> (\<exists>u w t. s = u @ w @ t \<and> matches r w t)"
proof -
  have start: "search r s \<longleftrightarrow> (\<exists>x. suffix x s \<and> match_start r x)"
    by (auto simp: search_def list_ex_iff)
  show ?thesis unfolding start match_start_words suffix_def by metis
qed

lemma matches_lit [simp]: "matches (lit d) w t \<longleftrightarrow> w = d"
proof (induction d arbitrary: w t)
  case (Cons c d)
  have "matches (lit (c # d)) w t \<longleftrightarrow> (\<exists>v u. w = v @ u \<and> (\<exists>x. v = [x] \<and> x = c) \<and> u = d)"
    by (simp only: lit.simps matches_Then matches_Cls Cons.IH)
  then show ?case by auto
qed simp

lemma matches_one_of: "matches (one_of rs) w t \<longleftrightarrow> (\<exists>r\<in>set rs. matches r w t)"
  by (induction rs rule: one_of.induct) auto

lemma search_suffix:
  assumes "s = [] \<or> last s \<noteq> CHR 0x0A"
  shows "search (Then (one_of (map lit ds)) AtEnd) s \<longleftrightarrow> list_ex (\<lambda>d. suffix d s) ds"
proof -
  have "search (Then (one_of (map lit ds)) AtEnd) s \<longleftrightarrow>
      (\<exists>u d t. s = u @ d @ t \<and> d \<in> set ds \<and> (t = [] \<or> t = [CHR 0x0A]))"
    unfolding search_words by (auto simp: matches_one_of)
  also have "\<dots> \<longleftrightarrow> (\<exists>u d. s = u @ d \<and> d \<in> set ds)"
    using assms by (metis append_Nil2 append_is_Nil_conv last_appendR last_ConsL not_Cons_self2)
  finally show ?thesis by (auto simp: list_ex_iff suffix_def)
qed

text \<open>A stripped text in lower case does not end with white space.\<close>

lemma last_rstrip: "rstrip s = [] \<or> \<not> is_space (last (rstrip s))"
  by (cases "dropWhile is_space (rev s) = []") (simp_all add: rstrip_def last_rev hd_dropWhile)

lemma last_strip_lower: "lower (strip s) = [] \<or> last (lower (strip s)) \<noteq> CHR 0x0A"
proof -
  have "lower_char c = CHR 0x0A \<Longrightarrow> is_space c" for c
  proof (rule ccontr)
    assume eq: "lower_char c = CHR 0x0A" and "\<not> is_space c"
    then have "lower_char c \<noteq> c" by (auto simp: is_space_def)
    then have "65 \<le> (of_char c :: int)" "(of_char c :: int) \<le> 90"
      and "lower_char c = char_of ((of_char c :: int) + 32)"
      by (auto simp: lower_char_def Let_def split: if_splits)
    then have "of_char (lower_char c) = (of_char c :: int) + 32" by simp
    with eq \<open>65 \<le> (of_char c :: int)\<close> show False by simp
  qed
  then show ?thesis
    using last_rstrip [of "lstrip s"] by (auto simp: lower_def strip_def last_map)
qed

definition rule_applies :: "string \<Rightarrow> string list \<Rightarrow> bool" where
  "rule_applies s domains = list_ex (\<lambda>d. suffix d s) domains"

text \<open>A TLS server name is classified by the first rule of the table one of whose domains is a
  suffix of the cleaned name, and by none when there is no such rule: the regular expressions do no
  more and no less than these suffix tests.\<close>

theorem sni_first_suffix_rule:
  assumes "host \<noteq> []"
  shows "classify_sni_evidence (Some host) =
    (let s = lower (strip host) in
     case find (\<lambda>(domains, _). rule_applies s domains) SNI_DOMAIN_RULES of
       None \<Rightarrow> no_hint
     | Some (_, os, dt, conf, tag) \<Rightarrow>
         no_hint\<lparr>os_hint := os, device_type := dt, confidence := conf, evidence := [tag @ '':'' @ s]\<rparr>)"
proof -
  have "first_sni_rule rules (lower (strip host)) =
    (case find (\<lambda>(domains, _). rule_applies (lower (strip host)) domains) rules of
       None \<Rightarrow> no_hint
     | Some (_, os, dt, conf, tag) \<Rightarrow>
         no_hint\<lparr>os_hint := os, device_type := dt, confidence := conf,
           evidence := [tag @ '':'' @ lower (strip host)]\<rparr>)" for rules
    by (induction rules "lower (strip host)" rule: first_sni_rule.induct)
       (simp_all add: search_suffix [OF last_strip_lower] rule_applies_def)
  with assms show ?thesis by (simp add: classify_sni_evidence_def given_def Let_def)
qed

theorem sni_first_suffix_rule_witness:
  "classify_sni_evidence (Some ''gateway.icloud.com'') =
     no_hint\<lparr>os_hint := Some ''Apple OS'', device_type := Some ''Apple Device'', confidence := 92 / 100,
       evidence := [''sni.apple_services:gateway.icloud.com'']\<rparr>"
proof -
  have "find (\<lambda>(domains, _). rule_applies ''gateway.icloud.com'' domains) SNI_DOMAIN_RULES = Some (hd SNI_DOMAIN_RULES)"
    "lower (strip ''gateway.icloud.com'') = ''gateway.icloud.com''" by code_simp+
  then show ?thesis
    using sni_first_suffix_rule [of "''gateway.icloud.com''"] by (simp add: SNI_DOMAIN_RULES_def)
qed

text \<open>The tests have no label boundary, so a name that merely ends in the letters of a domain is taken for it.\<close>

lemma unrelated_name_classified: "os_hint (classify_sni_evidence (Some ''acme.com'')) = Some ''Apple OS''"
  by code_simp

section \<open>Calibration\<close>

text \<open>A hint is calibrated when its confidence is at most 99 percent, and at least 75 percent once it
  names an operating system.\<close>

definition calibrated :: "hint \<Rightarrow> bool" where
  "calibrated h \<longleftrightarrow> 0 \<le> confidence h \<and> confidence h \<le> 99 / 100 \<and> (os_hint h \<noteq> None \<longrightarrow> 75 / 100 \<le> confidence h)"

named_theorems calibration

lemma calibrated_no_hint [calibration, simp]: "calibrated no_hint"
  by (simp add: calibrated_def no_hint_def)

lemma calibrated_found [calibration]: "75 / 100 \<le> c \<Longrightarrow> c \<le> 99 / 100 \<Longrightarrow> calibrated (found c ev h)"
  by (simp add: calibrated_def found_def)

lemma calibrated_at_least [calibration]:
  "75 / 100 \<le> c \<Longrightarrow> c \<le> 99 / 100 \<Longrightarrow> confidence h \<le> 99 / 100 \<Longrightarrow> calibrated (at_least c h)"
  by (simp add: calibrated_def at_least_def max_def)

lemma calibrated_noted [calibration, simp]: "calibrated (noted ev h) = calibrated h"
  by (simp add: calibrated_def noted_def)

lemma calibrated_software [calibration, simp]: "calibrated (software s h) = calibrated h"
  by (simp add: calibrated_def software_def)

lemma calibrated_upd [calibration, simp]:
  "calibrated (h\<lparr>device_type := v\<rparr>) = calibrated h"
  "calibrated (h\<lparr>model_hint := v\<rparr>) = calibrated h"
  "calibrated (h\<lparr>evidence := e\<rparr>) = calibrated h"
  by (simp_all add: calibrated_def)

lemma confidence_upd [simp]:
  "confidence (noted ev h) = confidence h"
  "confidence (software s h) = confidence h"
  by (simp_all add: noted_def software_def)

lemma calibrated_le: "calibrated h \<Longrightarrow> confidence h \<le> 99 / 100"
  by (simp add: calibrated_def)

lemma calibrated_os: "calibrated h \<Longrightarrow> given (os_hint h) \<noteq> None \<Longrightarrow> calibrated (h\<lparr>os_hint := v\<rparr>)"
  by (auto simp: calibrated_def given_def split: option.splits)

lemma calibrated_hostname: "calibrated (evaluate_hostname_heuristics s)"
proof -
  define ok where "ok = (\<lambda>p :: bool \<times> rx \<times> string option \<times> string option \<times> string option \<times> rat \<times> string.
    (\<lambda>(_, _, _, _, _, conf, _). 75 / 100 \<le> conf \<and> conf \<le> 99 / 100) p)"
  have "list_all ok ps \<Longrightarrow> calibrated (first_hostname_pattern ps t)" for ps t
    by (induction ps t rule: first_hostname_pattern.induct) (auto simp: ok_def calibrated_def no_hint_def)
  moreover have "list_all ok HOSTNAME_PATTERNS"
    by (simp add: HOSTNAME_PATTERNS_def ok_def)
  ultimately show ?thesis by (simp add: evaluate_hostname_heuristics_def)
qed

lemma calibrated_if: "calibrated x \<Longrightarrow> calibrated y \<Longrightarrow> calibrated (if b then x else y)"
  by simp

lemma calibrated_case: "calibrated x \<Longrightarrow> (\<And>s. calibrated (f s)) \<Longrightarrow> calibrated (case v of None \<Rightarrow> x | Some s \<Rightarrow> f s)"
  by (simp split: option.split)

lemmas calibrated_intros = calibrated_if calibrated_case calibrated_found calibrated_at_least

lemma calibrated_vendor_class: "calibrated h \<Longrightarrow> calibrated (vendor_class_step v h)"
  unfolding vendor_class_step_def Let_def by (intro calibrated_intros; simp)

text \<open>A fair confidence suits any hint.\<close>

definition fair :: "rat \<Rightarrow> bool" where
  "fair c \<longleftrightarrow> 75 / 100 \<le> c \<and> c \<le> 99 / 100"

lemma calibrated_fair: "fair (confidence h) \<Longrightarrow> calibrated h"
  by (simp add: fair_def calibrated_def)

lemma fair_os: "calibrated h \<Longrightarrow> os_hint h = Some os \<Longrightarrow> fair (confidence h)"
  by (simp add: fair_def calibrated_def)

lemma fair_boost: "fair c \<Longrightarrow> 0 \<le> x \<Longrightarrow> fair (min (99 / 100) (c + x))"
  by (auto simp: fair_def min_def)

lemma fair_at_least: "fair c \<Longrightarrow> calibrated h \<Longrightarrow> fair (confidence (at_least c (h\<lparr>os_hint := os, device_type := dt\<rparr>)))"
  by (auto simp: fair_def calibrated_def at_least_def max_def)

lemma calibrated_prl: "calibrated h \<Longrightarrow> calibrated (prl_step DHCP_PRL_SIGNATURES prl h)"
proof -
  have one: "calibrated (if os_hint h = Some os then h\<lparr>confidence := min (99 / 100) (confidence h + 6 / 100)\<rparr>
      else if given (os_hint h) = None then at_least conf (h\<lparr>os_hint := Some os, device_type := dt\<rparr>) else h)"
    if "calibrated h" "fair conf" for h :: hint and os conf dt
    using that fair_boost [OF fair_os [OF that(1)], of os "6 / 100"] fair_at_least [OF that(2,1)]
    by (auto intro: calibrated_fair)
  have "calibrated h \<Longrightarrow> list_all (\<lambda>(_, _, conf, _). fair conf) sigs \<Longrightarrow> calibrated (prl_step sigs prl h)" for sigs
  proof (induction sigs prl h rule: prl_step.induct)
    case (2 os dt conf tag options sigs prl h)
    then show ?case
      using one [of "noted tag h" conf os "or_else (device_type (noted tag h)) (Some dt)"] by (simp add: Let_def)
  qed simp
  then show "calibrated h \<Longrightarrow> calibrated (prl_step DHCP_PRL_SIGNATURES prl h)"
    by (simp add: DHCP_PRL_SIGNATURES_def fair_def del: prl_step.simps)
qed

lemma given_Some: "given v = Some s \<Longrightarrow> v = Some s"
  by (auto simp: given_def split: option.splits if_splits)

lemma calibrated_hostname_step:
  assumes "calibrated h"
  shows "calibrated (hostname_step name h)"
proof (cases "given name")
  case (Some n)
  define e where "e = evaluate_hostname_heuristics n"
  have e: "calibrated e" by (simp add: e_def calibrated_hostname)
  define h0 where "h0 = h\<lparr>evidence := evidence h @ evidence e\<rparr>"
  have h0: "calibrated h0" using assms by (simp add: h0_def)
  have "calibrated (case given (os_hint e) of None \<Rightarrow> h
      | Some os \<Rightarrow> (case given (os_hint h0) of None \<Rightarrow> at_least (confidence e) (h0\<lparr>os_hint := Some os\<rparr>)
         | Some mine \<Rightarrow> if contains (lower mine) (lower os)
             then h0\<lparr>confidence := min (99 / 100) (confidence h0 + 5 / 100)\<rparr> else h0))"
  proof (cases "given (os_hint e)")
    case (Some os)
    have "fair (confidence e)" using e given_Some [OF Some] by (rule fair_os)
    from fair_at_least [OF this h0, of "device_type h0" "Some os"]
    have "calibrated (at_least (confidence e) (h0\<lparr>os_hint := Some os\<rparr>))"
      by (intro calibrated_fair) simp
    moreover have "calibrated (h0\<lparr>confidence := min (99 / 100) (confidence h0 + 5 / 100)\<rparr>)"
      if "given (os_hint h0) = Some mine" for mine
      using fair_boost [OF fair_os [OF h0 given_Some [OF that]], of "5 / 100"]
      by (intro calibrated_fair) simp
    ultimately show ?thesis using Some h0 by (auto split: option.split)
  qed (use assms in simp)
  then show ?thesis
    unfolding hostname_step_def Some option.case Let_def e_def [symmetric] h0_def [symmetric] by simp
qed (use assms in \<open>simp add: hostname_step_def\<close>)

lemma calibrated_mdns: "calibrated (classify_mdns_evidence st txt)"
proof -
  have model: "calibrated h \<Longrightarrow> calibrated (model_step txt h)" for h
    by (auto simp: model_step_def Let_def intro!: calibrated_found split: option.split) (auto simp: calibrated_def found_def)
  have osx: "calibrated h \<Longrightarrow> calibrated (osxvers_step txt h)" for h
    by (auto simp: osxvers_step_def dest: calibrated_le intro!: calibrated_at_least split: option.split)
  have service: "calibrated h \<Longrightarrow> calibrated (service_step st h)" for h
    unfolding service_step_def Let_def calibrated_noted calibrated_software
    by (intro calibrated_intros; (simp only: calibrated_noted calibrated_software)?; (intro calibrated_intros)?;
        simp add: calibrated_def)
  show ?thesis by (simp add: classify_mdns_evidence_def model osx service)
qed

lemma calibrated_ssdp: "calibrated (classify_ssdp_evidence srv urn)"
proof -
  have server: "calibrated h \<Longrightarrow> calibrated (server_step srv h)" for h
    by (auto simp: server_step_def Let_def intro!: calibrated_found split: option.split)
  have "calibrated h \<Longrightarrow> calibrated (urn_step urn h)" for h
    by (auto simp: urn_step_def Let_def dest: calibrated_le intro!: calibrated_at_least split: option.split)
  then show ?thesis by (simp add: classify_ssdp_evidence_def server)
qed

lemma calibrated_sni: "calibrated (classify_sni_evidence host)"
proof -
  have "list_all (\<lambda>(_, _, _, conf, _). 75 / 100 \<le> conf \<and> conf \<le> 99 / 100) rules
      \<Longrightarrow> calibrated (first_sni_rule rules s)" for rules s
    by (induction rules s rule: first_sni_rule.induct) (auto simp: calibrated_def no_hint_def)
  then show ?thesis
    by (simp add: classify_sni_evidence_def SNI_DOMAIN_RULES_def del: first_sni_rule.simps split: option.split)
qed

lemma calibrated_ja3: "calibrated (classify_ja3_evidence h text)"
proof -
  have "list_all (\<lambda>(_, _, _, _, conf). fair conf) JA3_FINGERPRINT_MAP"
    by (simp add: JA3_FINGERPRINT_MAP_def fair_def)
  then have "map_of JA3_FINGERPRINT_MAP c = Some (os, dt, st, conf) \<Longrightarrow> fair conf" for c os dt st conf
    by (fastforce simp: list_all_iff dest!: map_of_SomeD)
  moreover have "fair (75 / 100)" by (simp add: fair_def)
  ultimately show ?thesis
    by (auto simp: classify_ja3_evidence_def Let_def intro!: calibrated_fair split: option.split list.split)
qed

text \<open>Whatever a device announces, every classifier answers with a confidence between 0 and 99
  percent, and with at least 75 percent whenever it names an operating system.\<close>

theorem hints_calibrated:
  "calibrated (classify_dhcp_evidence vendor_class prl hostname) \<and>
   calibrated (evaluate_hostname_heuristics name) \<and> calibrated (classify_mdns_evidence service txt) \<and>
   calibrated (classify_ssdp_evidence server urn) \<and> calibrated (classify_sni_evidence host) \<and>
   calibrated (classify_dns_evidence domain) \<and> calibrated (classify_ja3_evidence hash params)"
  by (simp add: classify_dhcp_evidence_def Let_def calibrated_hostname_step calibrated_prl calibrated_vendor_class
      calibrated_hostname calibrated_mdns calibrated_ssdp calibrated_sni calibrated_ja3 classify_dns_evidence_def)

section \<open>Local names\<close>

text \<open>Stripping the characters of the suffix removes more than the suffix: a name that ends in one of them is cut.\<close>

lemma mdns_suffix_cuts_names:
  "evaluate_hostname_heuristics ''imac.local'' = no_hint \<and>
   os_hint (evaluate_hostname_heuristics ''imac-7.local'') = Some ''macOS''"
  by code_simp

end
