(* ===== verification/Device.thy ===== *)
theory Device
  imports Dhcp Iso Fingerprint
begin

text \<open>
  The unified device model, \<open>client/app/device_model.py\<close>: normal forms of timestamps, MAC and IP
  addresses, the record that collects the evidence on one device, and the correlator that finds the
  record of an observation by MAC address or by IP address.  Records are shared between the two tables
  of the correlator, so it keeps them in a store and the tables hold references.  The combination of
  evidence on a record (\<open>apply_classification_to_device\<close> of \<open>client/app/fingerprinting.py\<close>) is here too.

  The clock is an argument of the operations that read it.
\<close>

section \<open>Normal forms\<close>

definition utc_now :: "int \<Rightarrow> string" where
  "utc_now now = isoformat_utc now"

text \<open>An instant outside the years 1 to 9999 makes \<open>astimezone\<close> raise \<open>OverflowError\<close>.\<close>

definition normalise_timestamp :: "pyval \<Rightarrow> string option \<Rightarrow> string option result" where
  "normalise_timestamp value dflt =
     (case value of
        PNone \<Rightarrow> Inr dflt
      | PStr s \<Rightarrow>
          (case fromisoformat (z_to_offset s) of
             None \<Rightarrow> Inr None
           | Some p \<Rightarrow>
               if representable (utc_of p) then Inr (Some (isoformat_utc (utc_of p)))
               else raise_exc OtherException ''date value out of range'')
      | _ \<Rightarrow> Inr None)"

text \<open>\<open>[0-9A-F]{2}(:[0-9A-F]{2}){5}\<close>.\<close>

definition mac_pattern :: "string \<Rightarrow> bool" where
  "mac_pattern s \<longleftrightarrow>
     (let parts = split_char (CHR '':'') s
      in ilen parts = 6 \<and> list_all (\<lambda>p. ilen p = 2 \<and> list_all is_hex_upper p) parts)"

definition normalise_mac_address :: "pyval \<Rightarrow> string option" where
  "normalise_mac_address value =
     (case value of
        PStr s \<Rightarrow>
          (let mac = upper (replace_char (CHR ''-'') (CHR '':'') (strip s)) in
           if \<not> mac_pattern mac then None
           else if mac = ''FF:FF:FF:FF:FF:FF'' \<or> hex_value 0 (itake 2 mac) mod 2 = 1 then None
           else Some mac)
      | _ \<Rightarrow> None)"

subsection \<open>IP addresses\<close>

text \<open>\<open>str\<close> of an IPv6 address: the longest run of at least two zero groups becomes \<open>::\<close>.\<close>

definition groups_of :: "int \<Rightarrow> int list" where
  "groups_of v = map (\<lambda>i. v div (65536 ^ nat (7 - i)) mod 65536) [0..7]"

fun zero_run :: "int list \<Rightarrow> int" where
  "zero_run [] = 0"
| "zero_run (g # gs) = (if g = 0 then 1 + zero_run gs else 0)"

text \<open>Start and length of the first longest run of zeros.\<close>

fun longest_run :: "int \<Rightarrow> int list \<Rightarrow> int \<times> int" where
  "longest_run i [] = (0, 0)"
| "longest_run i (g # gs) =
     (let (s, n) = longest_run (i + 1) gs; m = zero_run (g # gs) in if m \<ge> n \<and> m > 0 then (i, m) else (s, n))"

definition ipv6_str :: "int \<Rightarrow> string" where
  "ipv6_str v =
     (let gs = groups_of v; (s, n) = longest_run 0 gs; txt = map hex_str gs
      in if n > 1
         then (let before = itake s txt; after = idrop (s + n) txt
               in join '':'' ((if s = 0 then [[]] else []) @ before @ [[]] @ after @ (if after = [] then [[]] else [])))
         else join '':'' txt)"

text \<open>The scope of a text with one: \<open>%\<close> and what follows.\<close>

definition scope_of :: "string \<Rightarrow> string" where
  "scope_of s = dropWhile (\<lambda>c. c \<noteq> CHR 0x25) s"

text \<open>Unspecified, loopback, multicast and reserved addresses (of IPv6 by their first group, which for the
  unspecified and loopback addresses is reserved).\<close>

definition excluded_v4 :: "int \<Rightarrow> bool" where
  "excluded_v4 v \<longleftrightarrow> v = 0 \<or> v div 16777216 = 127 \<or> v div 16777216 \<ge> 224"

definition excluded_v6 :: "int \<Rightarrow> bool" where
  "excluded_v6 v \<longleftrightarrow>
     (let g = v div 65536 ^ 7 in g < 8192 \<or> (16384 \<le> g \<and> g < 64512) \<or> (65024 \<le> g \<and> g < 65152) \<or> 65280 \<le> g)"

definition normalise_ip_text :: "string \<Rightarrow> string option" where
  "normalise_ip_text s =
     (case ipv4_of s of
        Some v \<Rightarrow> if excluded_v4 v then None else Some (ipv4_str v)
      | None \<Rightarrow>
          (case ipv6_of s of
             None \<Rightarrow> None
           | Some v \<Rightarrow> if excluded_v6 v then None else Some (ipv6_str v @ scope_of s)))"

text \<open>The text of a value that is neither a string nor \<open>None\<close> is never an address.\<close>

definition normalise_ip_address :: "pyval \<Rightarrow> string option" where
  "normalise_ip_address value = (case value of PStr s \<Rightarrow> normalise_ip_text (strip s) | _ \<Rightarrow> None)"

section \<open>Presence\<close>

definition calculate_presence_state :: "string \<Rightarrow> int \<Rightarrow> string" where
  "calculate_presence_state last_seen now =
     (if last_seen = [] then ''NOT_RECENTLY_OBSERVED''
      else case fromisoformat (z_to_offset last_seen) of
        None \<Rightarrow> ''NOT_RECENTLY_OBSERVED''
      | Some p \<Rightarrow>
          (let delta = now - utc_of p in
           if delta < 900 * USEC then ''PASSIVELY_ACTIVE''
           else if delta < HOUR then ''PASSIVELY_IDLE''
           else if delta < 24 * HOUR then ''PASSIVELY_STALE''
           else ''NOT_RECENTLY_OBSERVED''))"

section \<open>Attributes with a confidence\<close>

record attribute =
  a_value :: "string option"
  a_confidence :: rat
  a_evidence :: "string list"

definition no_attribute :: attribute where
  "no_attribute = \<lparr>a_value = None, a_confidence = 0, a_evidence = []\<rparr>"

definition append_new :: "'a \<Rightarrow> 'a list \<Rightarrow> 'a list" where
  "append_new x xs = (if x \<in> set xs then xs else xs @ [x])"

definition update_if_better :: "string option \<Rightarrow> rat \<Rightarrow> string \<Rightarrow> attribute \<Rightarrow> bool \<times> attribute" where
  "update_if_better value conf source a =
     (if given value = None then (False, a)
      else (let a = (if source = [] then a else a\<lparr>a_evidence := append_new source (a_evidence a)\<rparr>)
            in if a_value a = None \<or> conf > a_confidence a
               then (True, a\<lparr>a_value := value, a_confidence := conf\<rparr>)
               else (False, a)))"

text \<open>\<open>round(x, 2)\<close>: to the nearest hundredth, halves to the even one.\<close>

definition round2 :: "rat \<Rightarrow> rat" where
  "round2 x =
     (let y = 100 * x; f = \<lfloor>y\<rfloor>; r = y - of_int f
      in of_int (if r < 1 / 2 then f else if r > 1 / 2 then f + 1 else if f mod 2 = 0 then f else f + 1) / 100)"

definition str_list :: "string list \<Rightarrow> pyval" where
  "str_list xs = PList (map PStr xs)"

definition attribute_dict :: "attribute \<Rightarrow> pyval" where
  "attribute_dict a =
     PDict [(''value'', opt_str (a_value a)), (''confidence'', PFloat (round2 (a_confidence a))),
            (''evidence'', str_list (a_evidence a))]"

section \<open>Device records\<close>

record asn =
  asn_provider :: string
  asn_description :: string
  asn_ip :: "string option"
  asn_count :: int

record profile =
  bytes_per_window :: int
  packets_per_window :: int
  avg_interval_sec :: "rat option"
  behavioral_pattern :: string
  window_seconds :: rat

record device =
  d_mac :: "string option"
  d_ips :: "string list"
  d_ips6 :: "string list"
  d_hostname :: "string option"
  d_priority :: int
  d_vendor :: "string option"
  d_type :: "string option"
  d_model :: "string option"
  d_os :: "string option"
  d_software :: "string option"
  d_softwares :: "string list"
  d_os_class :: attribute
  d_type_class :: attribute
  d_model_class :: attribute
  d_evidence :: "(string \<times> string list) list"
  d_protocols :: "string list"
  d_services :: "string list"
  d_last_protocol :: "string option"
  d_protocol_last :: "(string \<times> string) list"
  d_first_seen :: string
  d_last_seen :: string
  d_seen :: int
  d_observations :: int
  d_raw :: pydict
  d_sni :: "string list"
  d_dns :: "string list"
  d_ja3_strings :: "string list"
  d_ja3 :: "string list"
  d_traffic :: "profile option"
  d_asns :: "asn list"

text \<open>\<open>DeviceRecord(mac_address, first_seen=...)\<close>.\<close>

definition new_device :: "int \<Rightarrow> pyval \<Rightarrow> pyval \<Rightarrow> device result" where
  "new_device now mac first_seen =
     then_do (normalise_timestamp first_seen (Some (utc_now now))) (\<lambda>t.
       let seen = (case given t of None \<Rightarrow> utc_now now | Some s \<Rightarrow> s) in
       Inr \<lparr>d_mac = normalise_mac_address mac, d_ips = [], d_ips6 = [], d_hostname = None, d_priority = 0,
         d_vendor = None, d_type = None, d_model = None, d_os = None, d_software = None, d_softwares = [],
         d_os_class = no_attribute, d_type_class = no_attribute, d_model_class = no_attribute,
         d_evidence = [(''hostname'', []), (''vendor'', []), (''os_hint'', []), (''model_hint'', []),
                       (''device_type'', [])],
         d_protocols = [], d_services = [], d_last_protocol = None, d_protocol_last = [],
         d_first_seen = seen, d_last_seen = seen, d_seen = 1, d_observations = 1, d_raw = [],
         d_sni = [], d_dns = [], d_ja3_strings = [], d_ja3 = [], d_traffic = None, d_asns = []\<rparr>)"

definition add_evidence :: "string \<Rightarrow> string \<Rightarrow> device \<Rightarrow> device" where
  "add_evidence category source d =
     (let old = (case map_of (d_evidence d) category of None \<Rightarrow> [] | Some xs \<Rightarrow> xs)
      in d\<lparr>d_evidence := dset category (if source = [] then old else append_new source old) (d_evidence d)\<rparr>)"

text \<open>A bounded list: the oldest entry makes room for a new one.\<close>

definition push_bounded :: "int \<Rightarrow> 'a \<Rightarrow> 'a list \<Rightarrow> 'a list" where
  "push_bounded n x xs = (if n \<le> ilen xs then tl xs else xs) @ [x]"

definition add_sni_domain :: "string option \<Rightarrow> device \<Rightarrow> bool \<times> device" where
  "add_sni_domain domain d =
     (case given domain of
        None \<Rightarrow> (False, d)
      | Some s \<Rightarrow>
          (let clean = lower (strip s) in
           if clean \<noteq> [] \<and> clean \<notin> set (d_sni d)
           then (True, add_evidence ''sni'' (''sni:'' @ clean) (d\<lparr>d_sni := push_bounded 32 clean (d_sni d)\<rparr>))
           else (False, d)))"

definition add_dns_query :: "string option \<Rightarrow> device \<Rightarrow> bool \<times> device" where
  "add_dns_query domain d =
     (case given domain of
        None \<Rightarrow> (False, d)
      | Some s \<Rightarrow>
          (let clean = lower (strip s) in
           if clean \<noteq> [] \<and> clean \<notin> set (d_dns d)
           then (True, add_evidence ''dns'' (''dns:'' @ clean) (d\<lparr>d_dns := push_bounded 32 clean (d_dns d)\<rparr>))
           else (False, d)))"

definition add_ja3_fingerprint :: "string option \<Rightarrow> string option \<Rightarrow> device \<Rightarrow> bool \<times> device" where
  "add_ja3_fingerprint ja3_hash ja3_string d =
     (case given ja3_hash of
        None \<Rightarrow> (False, d)
      | Some h \<Rightarrow>
          (let clean = lower (strip h) in
           if clean \<noteq> [] \<and> clean \<notin> set (d_ja3 d)
           then (let d = d\<lparr>d_ja3 := push_bounded 16 clean (d_ja3 d)\<rparr>;
                     d = (case given ja3_string of
                            None \<Rightarrow> d
                          | Some t \<Rightarrow> if t \<in> set (d_ja3_strings d) then d
                                     else d\<lparr>d_ja3_strings := push_bounded 16 t (d_ja3_strings d)\<rparr>)
                 in (True, add_evidence ''ja3'' (''ja3:'' @ clean) d))
           else (False, d)))"

definition set_traffic_profile :: "profile option \<Rightarrow> device \<Rightarrow> device" where
  "set_traffic_profile p d =
     (case p of
        None \<Rightarrow> d
      | Some p \<Rightarrow>
          (let d = d\<lparr>d_traffic := Some p\<rparr> in
           if behavioral_pattern p = [] then d else add_evidence ''traffic'' (''pattern:'' @ behavioral_pattern p) d))"

fun count_asn :: "string \<Rightarrow> asn list \<Rightarrow> asn list option" where
  "count_asn provider [] = None"
| "count_asn provider (a # as) =
     (if asn_provider a = provider then Some (a\<lparr>asn_count := asn_count a + 1\<rparr> # as)
      else map_option (\<lambda>bs. a # bs) (count_asn provider as))"

definition add_destination_asn :: "asn option \<Rightarrow> device \<Rightarrow> bool \<times> device" where
  "add_destination_asn info d =
     (case info of
        None \<Rightarrow> (False, d)
      | Some v \<Rightarrow>
          if asn_provider v = [] then (False, d)
          else (case count_asn (asn_provider v) (d_asns d) of
                  Some as \<Rightarrow> (False, d\<lparr>d_asns := as\<rparr>)
                | None \<Rightarrow> (True, add_evidence ''asn'' (''cloud:'' @ asn_provider v)
                            (d\<lparr>d_asns := push_bounded 16 (v\<lparr>asn_count := 1\<rparr>) (d_asns d)\<rparr>))))"

definition add_ip_address :: "string option \<Rightarrow> device \<Rightarrow> bool \<times> device" where
  "add_ip_address ip d =
     (case given ip of
        None \<Rightarrow> (False, d)
      | Some s \<Rightarrow>
          (case normalise_ip_address (PStr s) of
             None \<Rightarrow> (False, d)
           | Some clean \<Rightarrow>
               if ipv4_of clean \<noteq> None
               then (if clean \<in> set (d_ips d) then (False, d) else (True, d\<lparr>d_ips := d_ips d @ [clean]\<rparr>))
               else if clean \<in> set (d_ips6 d) then (False, d) else (True, d\<lparr>d_ips6 := d_ips6 d @ [clean]\<rparr>)))"

definition add_protocol :: "string \<Rightarrow> device \<Rightarrow> device" where
  "add_protocol protocol d =
     d\<lparr>d_protocols := (if protocol = [] then d_protocols d else append_new protocol (d_protocols d)),
       d_last_protocol := Some protocol\<rparr>"

definition add_service :: "string \<Rightarrow> device \<Rightarrow> device" where
  "add_service service d =
     (if service = [] then d else d\<lparr>d_services := append_new service (d_services d)\<rparr>)"

definition add_software_hint :: "string \<Rightarrow> device \<Rightarrow> device" where
  "add_software_hint hint d =
     (if hint = [] then d
      else (let clean = strip hint;
                d = (if clean = [] then d else d\<lparr>d_softwares := append_new clean (d_softwares d)\<rparr>)
            in if given (d_software d) = None then d\<lparr>d_software := Some clean\<rparr> else d))"

definition set_hostname :: "string option \<Rightarrow> string \<Rightarrow> int \<Rightarrow> device \<Rightarrow> bool \<times> device" where
  "set_hostname hostname source priority d =
     (case given hostname of
        None \<Rightarrow> (False, d)
      | Some s \<Rightarrow>
          (let clean = strip s in
           if clean = [] \<or> ilen clean > 255 then (False, d)
           else (let d = (if source = [] then d else add_evidence ''hostname'' source d) in
                 case d_hostname d of
                   None \<Rightarrow> (True, d\<lparr>d_hostname := Some clean, d_priority := priority\<rparr>)
                 | Some old \<Rightarrow>
                     if priority > d_priority d
                     then (True, d\<lparr>d_hostname := Some clean, d_priority := priority\<rparr>)
                     else if priority = d_priority d \<and> ends_with old ''.local'' \<and> \<not> ends_with clean ''.local''
                     then (True, d\<lparr>d_hostname := Some clean\<rparr>)
                     else (False, d))))"

definition set_vendor :: "string option \<Rightarrow> string \<Rightarrow> device \<Rightarrow> bool \<times> device" where
  "set_vendor vendor source d =
     (case given vendor of
        None \<Rightarrow> (False, d)
      | Some s \<Rightarrow>
          (let clean = strip s in
           if clean = [] \<or> ilen clean > 255 then (False, d)
           else (let d = add_evidence ''vendor'' source d in
                 if (case given (d_vendor d) of None \<Rightarrow> True | Some v \<Rightarrow> ilen clean > ilen v)
                 then (True, d\<lparr>d_vendor := Some clean\<rparr>) else (False, d))))"

definition MAX_COUNT :: int where
  "MAX_COUNT = 2147483647"

definition record_activity :: "int \<Rightarrow> pyval \<Rightarrow> string option \<Rightarrow> device \<Rightarrow> device result" where
  "record_activity now timestamp protocol d =
     then_do (normalise_timestamp timestamp (Some (utc_now now))) (\<lambda>t.
       let ts = (case given t of None \<Rightarrow> utc_now now | Some s \<Rightarrow> s);
           d = d\<lparr>d_last_seen := (if ts > d_last_seen d then ts else d_last_seen d),
                 d_seen := min MAX_COUNT (d_seen d + 1),
                 d_observations := min MAX_COUNT (d_observations d + 1)\<rparr>
       in Inr (case given protocol of
                 None \<Rightarrow> d
               | Some p \<Rightarrow>
                   (let d = add_protocol p d in
                    if (case map_of (d_protocol_last d) p of None \<Rightarrow> True | Some old \<Rightarrow> ts > old)
                    then d\<lparr>d_protocol_last := dset p ts (d_protocol_last d)\<rparr> else d)))"

definition asn_dict :: "asn \<Rightarrow> pyval" where
  "asn_dict a =
     PDict [(''provider'', PStr (asn_provider a)), (''description'', PStr (asn_description a)),
            (''destination_ip'', opt_str (asn_ip a)), (''count'', PInt (asn_count a))]"

definition profile_dict :: "profile \<Rightarrow> pydict" where
  "profile_dict p =
     [(''bytes_per_window'', PInt (bytes_per_window p)), (''packets_per_window'', PInt (packets_per_window p)),
      (''avg_interval_sec'', (case avg_interval_sec p of None \<Rightarrow> PNone | Some r \<Rightarrow> PFloat r)),
      (''behavioral_pattern'', PStr (behavioral_pattern p)), (''window_seconds'', PFloat (window_seconds p))]"

definition to_dict :: "int \<Rightarrow> device \<Rightarrow> pydict" where
  "to_dict now d =
     [(''mac_address'', opt_str (d_mac d)), (''ip_addresses'', str_list (d_ips d)),
      (''ipv6_addresses'', str_list (d_ips6 d)), (''hostname'', opt_str (d_hostname d)),
      (''vendor'', opt_str (d_vendor d)), (''device_type'', opt_str (d_type d)),
      (''model_hint'', opt_str (d_model d)), (''os_hint'', opt_str (d_os d)),
      (''software_hint'', opt_str (d_software d)), (''software_hints'', str_list (d_softwares d)),
      (''protocols_seen'', str_list (d_protocols d)),
      (''protocol_last_seen'', PDict (map (\<lambda>(k, v). (k, PStr v)) (d_protocol_last d))),
      (''services'', str_list (d_services d)), (''first_seen'', PStr (d_first_seen d)),
      (''last_seen'', PStr (d_last_seen d)), (''seen_count'', PInt (d_seen d)),
      (''observation_count'', PInt (d_observations d)),
      (''presence_state'', PStr (calculate_presence_state (d_last_seen d) now)),
      (''evidence'', PDict (map (\<lambda>(k, v). (k, str_list v)) (filter (\<lambda>(k, v). v \<noteq> []) (d_evidence d)))),
      (''sni_domains'', str_list (d_sni d)), (''dns_queries'', str_list (d_dns d)),
      (''ja3_hashes'', str_list (d_ja3 d)), (''ja3_fingerprints'', str_list (d_ja3_strings d)),
      (''traffic_profile'', PDict (case d_traffic d of None \<Rightarrow> [] | Some p \<Rightarrow> profile_dict p)),
      (''destination_asns'', PList (map asn_dict (d_asns d)))]
     @ (if given (a_value (d_os_class d)) = None then []
        else [(''os_classification'', attribute_dict (d_os_class d))])
     @ (if given (a_value (d_type_class d)) = None then []
        else [(''device_type_classification'', attribute_dict (d_type_class d))])
     @ (if given (a_value (d_model_class d)) = None then []
        else [(''model_classification'', attribute_dict (d_model_class d))])
     @ (if d_raw d = [] then [] else [(''raw_fields'', PDict (d_raw d))])"

section \<open>Combining the evidence on a record\<close>

definition better_os :: "string option \<Rightarrow> rat \<Rightarrow> string \<Rightarrow> device \<Rightarrow> device" where
  "better_os v c source d =
     (let a = snd (update_if_better v c source (d_os_class d)) in d\<lparr>d_os_class := a, d_os := a_value a\<rparr>)"

definition better_type :: "string option \<Rightarrow> rat \<Rightarrow> string \<Rightarrow> device \<Rightarrow> device" where
  "better_type v c source d =
     (let a = snd (update_if_better v c source (d_type_class d)) in d\<lparr>d_type_class := a, d_type := a_value a\<rparr>)"

definition better_model :: "string option \<Rightarrow> rat \<Rightarrow> string \<Rightarrow> device \<Rightarrow> device" where
  "better_model v c source d =
     (let a = snd (update_if_better v c source (d_model_class d)) in d\<lparr>d_model_class := a, d_model := a_value a\<rparr>)"

text \<open>What a hint says, where it says something.\<close>

definition take_os :: "hint \<Rightarrow> string \<Rightarrow> device \<Rightarrow> device" where
  "take_os h source d = (if given (os_hint h) = None then d else better_os (os_hint h) (confidence h) source d)"

definition take_type :: "hint \<Rightarrow> string \<Rightarrow> device \<Rightarrow> device" where
  "take_type h source d =
     (if given (device_type h) = None then d else better_type (device_type h) (confidence h) source d)"

definition vendor_stage :: "vendors option \<Rightarrow> device \<Rightarrow> device" where
  "vendor_stage db d =
     (case (given (d_vendor d), given (d_mac d), db) of
        (None, Some mac, Some (t # ts)) \<Rightarrow>
          (case given (get_vendor mac (t # ts)) of None \<Rightarrow> d | Some v \<Rightarrow> snd (set_vendor (Some v) ''oui'' d))
      | _ \<Rightarrow> d)"

definition windows_stage :: "device \<Rightarrow> device" where
  "windows_stage d =
     (let ev = (case map_of (d_evidence d) ''os_hint'' of None \<Rightarrow> [] | Some xs \<Rightarrow> xs);
          mentions = (\<lambda>w. list_ex (\<lambda>s. contains w (lower s)) ev);
          dhcp = (mentions ''microsoft'' \<or> mentions ''msft'');
          llmnr = (''llmnr'' \<in> set (d_protocols d) \<or> ''nbns'' \<in> set (d_protocols d));
          mdns = mentions ''dosvc''; ssdp = mentions ''windows''
      in if dhcp \<or> (llmnr \<and> (mdns \<or> ssdp))
         then (let conf = (if dhcp \<and> llmnr \<and> (mdns \<or> ssdp) then 98 / 100 else if dhcp \<and> llmnr then 95 / 100 else 85 / 100);
                   d = better_os (Some ''Windows'') conf ''synergy.windows_multi_protocol'' d
               in if given (d_type d) = None
                  then better_type (Some ''Windows Workstation'') conf ''synergy.windows_workstation'' d else d)
         else d)"

definition sni_stage :: "device \<Rightarrow> device" where
  "sni_stage d =
     fold (\<lambda>sni d. let h = classify_sni_evidence (Some sni)
                   in take_type h (''sni.'' @ sni) (take_os h (''sni.'' @ sni) d)) (d_sni d) d"

definition ja3_stage :: "device \<Rightarrow> device" where
  "ja3_stage d =
     fold (\<lambda>ja3 d. let h = classify_ja3_evidence (Some ja3) None; source = ''ja3.'' @ itake 8 ja3;
                       d = take_type h source (take_os h source d)
                   in case given (client_stack h) of None \<Rightarrow> d | Some s \<Rightarrow> add_software_hint s d) (d_ja3 d) d"

definition dns_stage :: "device \<Rightarrow> device" where
  "dns_stage d =
     (if given (d_os d) \<noteq> None then d
      else fold (\<lambda>domain d. let h = classify_dns_evidence (Some domain);
                                d = take_os h (''dns.'' @ domain) d
                            in if given (d_type d) = None then take_type h (''dns.'' @ domain) d else d) (d_dns d) d)"

definition traffic_stage :: "device \<Rightarrow> device" where
  "traffic_stage d =
     (if given (d_type d) \<noteq> None then d
      else case d_traffic d of
        None \<Rightarrow> d
      | Some p \<Rightarrow>
          (case classify_traffic_evidence (Some (behavioral_pattern p)) of
             (None, _, _) \<Rightarrow> d
           | (Some t, c, _) \<Rightarrow> better_type (Some t) c ''traffic.behavior'' d))"

definition hostname_stage :: "device \<Rightarrow> device" where
  "hostname_stage d =
     (case (given (d_os d), given (d_hostname d)) of
        (None, Some name) \<Rightarrow>
          (let h = evaluate_hostname_heuristics name;
               d = take_os h ''hostname_heuristics'' d;
               d = (if given (d_type d) = None then take_type h ''hostname_heuristics'' d else d)
           in if given (model_hint h) \<noteq> None \<and> given (d_model d) = None
              then better_model (model_hint h) (confidence h) ''hostname_heuristics'' d else d)
      | _ \<Rightarrow> d)"

definition apply_classification_to_device :: "vendors option \<Rightarrow> device \<Rightarrow> device" where
  "apply_classification_to_device db d =
     hostname_stage (traffic_stage (dns_stage (ja3_stage (sni_stage (windows_stage (vendor_stage db d))))))"

section \<open>The correlator\<close>

text \<open>Records live in \<open>store\<close> under the reference they were created with; \<open>by_mac\<close> and \<open>by_ip\<close> share them.\<close>

record correlator =
  max_devices :: int
  store :: "(int \<times> device) list"
  by_mac :: "(string \<times> int) list"
  by_ip :: "(string \<times> int) list"
  next_ref :: int

definition empty_correlator :: "int \<Rightarrow> correlator" where
  "empty_correlator n = \<lparr>max_devices = n, store = [], by_mac = [], by_ip = [], next_ref = 0\<rparr>"

text \<open>\<open>store\<close> always holds the records the tables refer to (lemma \<open>correlator_ok\<close> below).\<close>

definition device_at :: "correlator \<Rightarrow> int \<Rightarrow> device option" where
  "device_at c r = map_of (store c) r"

definition update_device :: "int \<Rightarrow> (device \<Rightarrow> device) \<Rightarrow> correlator \<Rightarrow> correlator" where
  "update_device r f c =
     (case device_at c r of None \<Rightarrow> c | Some d \<Rightarrow> c\<lparr>store := dset r (f d) (store c)\<rparr>)"

definition last_seen_of :: "correlator \<Rightarrow> int \<Rightarrow> string" where
  "last_seen_of c r = (case device_at c r of None \<Rightarrow> [] | Some d \<Rightarrow> d_last_seen d)"

text \<open>\<open>min(d, key=...)\<close>: the first key with the least value.\<close>

fun min_by :: "('a \<Rightarrow> 'b::linorder) \<Rightarrow> 'a \<Rightarrow> 'a list \<Rightarrow> 'a" where
  "min_by f x [] = x"
| "min_by f x (y # ys) = (if f y < f x then min_by f y ys else min_by f x ys)"

definition remove_keys :: "string list \<Rightarrow> (string \<times> 'v) list \<Rightarrow> (string \<times> 'v) list" where
  "remove_keys ks d = filter (\<lambda>(k, _). k \<notin> set ks) d"

text \<open>Making room: the MAC entry of the record seen least recently goes, with that record's IPv4 entries.\<close>

definition enforce_bound :: "(correlator, unit) act" where
  "enforce_bound c =
     (if ilen (by_mac c) < max_devices c then (Inr (), c)
      else case by_mac c of
        [] \<Rightarrow> (raise_exc ValueError ''min() arg is an empty sequence'', c)
      | e # es \<Rightarrow>
          (let oldest = min_by (\<lambda>(m, r). last_seen_of c r) e es;
               ips = (case device_at c (snd oldest) of None \<Rightarrow> [] | Some d \<Rightarrow> d_ips d)
           in (Inr (), c\<lparr>by_mac := remove_keys [fst oldest] (by_mac c), by_ip := remove_keys ips (by_ip c)\<rparr>)))"

definition create_device :: "string option \<Rightarrow> string option \<Rightarrow> pyval \<Rightarrow> int \<Rightarrow> (correlator, int) act" where
  "create_device mac ip observed_at now c =
     (case new_device now (opt_str mac) observed_at of
        Inl e \<Rightarrow> (Inl e, c)
      | Inr d \<Rightarrow>
          (let d = snd (add_ip_address ip d) in
           case enforce_bound c of
             (Inl e, c) \<Rightarrow> (Inl e, c)
           | (Inr _, c) \<Rightarrow>
               (let r = next_ref c in
                (Inr r, c\<lparr>store := dset r d (store c), next_ref := r + 1,
                          by_mac := (case mac of None \<Rightarrow> by_mac c | Some m \<Rightarrow> dset m r (by_mac c)),
                          by_ip := (case ip of None \<Rightarrow> by_ip c | Some i \<Rightarrow> dset i r (by_ip c))\<rparr>))))"

definition lookup :: "string option \<Rightarrow> (string \<times> int) list \<Rightarrow> int option" where
  "lookup k t = (case k of None \<Rightarrow> None | Some x \<Rightarrow> map_of t x)"

definition set_mac_if_none :: "string option \<Rightarrow> device \<Rightarrow> device" where
  "set_mac_if_none mac d = (if given (d_mac d) = None then d\<lparr>d_mac := mac\<rparr> else d)"

definition get_or_create_device :: "pyval \<Rightarrow> pyval \<Rightarrow> pyval \<Rightarrow> int \<Rightarrow> (correlator, int) act" where
  "get_or_create_device mac_address ip_address observed_at now c =
     (let mac = normalise_mac_address mac_address; ip = normalise_ip_address ip_address in
      case lookup mac (by_mac c) of
        Some r \<Rightarrow>
          (case ip of
             None \<Rightarrow> (Inr r, c)
           | Some i \<Rightarrow> (Inr r, (update_device r (\<lambda>d. snd (add_ip_address ip d)) c)\<lparr>by_ip := dset i r (by_ip c)\<rparr>))
      | None \<Rightarrow>
          (case lookup ip (by_ip c) of
             Some r \<Rightarrow>
               (case mac of
                  None \<Rightarrow> (Inr r, c)
                | Some m \<Rightarrow>
                    (Inr r, (update_device r (set_mac_if_none mac) c)
                              \<lparr>by_mac := dset m r (by_mac c)\<rparr>))
           | None \<Rightarrow> create_device mac ip observed_at now c))"

definition get_device_by_mac :: "pyval \<Rightarrow> correlator \<Rightarrow> int option" where
  "get_device_by_mac mac c = lookup (normalise_mac_address mac) (by_mac c)"

definition get_device_by_ip :: "pyval \<Rightarrow> correlator \<Rightarrow> int option" where
  "get_device_by_ip ip c = lookup (normalise_ip_address ip) (by_ip c)"

definition clear :: "correlator \<Rightarrow> correlator" where
  "clear c = c\<lparr>by_mac := [], by_ip := []\<rparr>"

text \<open>The distinct records of both tables, in the order of their first mention.\<close>

fun first_mentions :: "'a list \<Rightarrow> 'a list" where
  "first_mentions [] = []"
| "first_mentions (x # xs) = x # filter (\<lambda>y. y \<noteq> x) (first_mentions xs)"

definition known_refs :: "correlator \<Rightarrow> int list" where
  "known_refs c = first_mentions (map snd (by_mac c) @ map snd (by_ip c))"

definition correlator_size :: "correlator \<Rightarrow> int" where
  "correlator_size c = ilen (known_refs c)"

text \<open>\<open>sorted(xs, key=f, reverse=True)\<close>: descending, equal elements in their old order.\<close>

fun insert_desc :: "('a \<Rightarrow> 'b::linorder) \<Rightarrow> 'a \<Rightarrow> 'a list \<Rightarrow> 'a list" where
  "insert_desc f x [] = [x]"
| "insert_desc f x (y # ys) = (if f y \<le> f x then x # y # ys else y # insert_desc f x ys)"

definition sort_desc :: "('a \<Rightarrow> 'b::linorder) \<Rightarrow> 'a list \<Rightarrow> 'a list" where
  "sort_desc f xs = foldr (insert_desc f) xs []"

definition snapshot :: "int \<Rightarrow> correlator \<Rightarrow> pydict list" where
  "snapshot now c =
     map (to_dict now) (sort_desc d_last_seen
       (concat (map (\<lambda>r. case device_at c r of None \<Rightarrow> [] | Some d \<Rightarrow> [d]) (known_refs c))))"

section \<open>Properties of normal forms\<close>

text \<open>A normal timestamp is a fixed point: normalising a result again changes nothing, and it denotes
  the instant of the text it was made from.\<close>

theorem normal_timestamp_stable:
  assumes "normalise_timestamp (PStr s) dflt = Inr (Some t)"
  shows "normalise_timestamp (PStr t) dflt' = Inr (Some t) \<and>
    map_option utc_of (fromisoformat t) = map_option utc_of (fromisoformat (z_to_offset s))"
proof -
  from assms obtain p where p: "fromisoformat (z_to_offset s) = Some p" "representable (utc_of p)"
    and t: "t = isoformat_utc (utc_of p)"
    by (auto simp: normalise_timestamp_def split: option.splits if_splits)
  have "fromisoformat t = Some (utc_of p, Some 0)"
    unfolding t using p(2) by (rule isoformat_roundtrip_utc)
  moreover have "z_to_offset t = t"
    unfolding t using p(2) by (rule isoformat_no_Z)
  ultimately show ?thesis
    using p by (simp add: normalise_timestamp_def t utc_of_def)
qed

theorem normal_timestamp_stable_witness:
  "normalise_timestamp (PStr ''2024-02-29T21:59:59.500000+00:00'') None
   = Inr (Some ''2024-02-29T21:59:59.500000+00:00'')"
proof -
  have "normalise_timestamp (PStr ''2024-02-29T23:59:59.5+02:00'') None
      = Inr (Some ''2024-02-29T21:59:59.500000+00:00'')" by code_simp
  from normal_timestamp_stable [OF this] show ?thesis by blast
qed

lemma split_char_set: "set s \<subseteq> insert c (\<Union>(set ` set (split_char c s)))"
  by (induction c s rule: split_char.induct) (auto split: list.splits, blast)

lemma mac_pattern_chars: "mac_pattern s \<Longrightarrow> x \<in> set s \<Longrightarrow> is_hex_upper x \<or> x = CHR '':''"
  using split_char_set [of s "CHR '':''"] by (fastforce simp: mac_pattern_def Let_def list_all_iff)

lemma hex_upper_plain: "is_hex_upper x \<or> x = CHR '':'' \<Longrightarrow> \<not> is_space x \<and> x \<noteq> CHR ''-'' \<and> upper_char x = x"
  by (auto simp: is_hex_upper_def is_digit_def is_space_def upper_char_def Let_def)

lemma strip_no_space: "list_all (\<lambda>c. \<not> is_space c) s \<Longrightarrow> strip s = s"
  by (simp add: strip_def lstrip_def rstrip_def list_all_iff dropWhile_eq_self_iff hd_rev) (metis last_in_set hd_in_set
      list.set_sel(1) dropWhile_eq_self_iff set_rev hd_rev rev_is_Nil_conv rev_rev_ident)

text \<open>A normal MAC address is a fixed point: normalising it again changes nothing.\<close>

lemma normal_mac_fixed:
  assumes "normalise_mac_address v = Some m"
  shows "normalise_mac_address (PStr m) = Some m"
proof -
  from assms have m: "mac_pattern m" "m \<noteq> ''FF:FF:FF:FF:FF:FF''" "hex_value 0 (itake 2 m) mod 2 \<noteq> 1"
    by (auto simp: normalise_mac_address_def Let_def split: pyval.splits if_splits)
  have plain: "\<not> is_space x \<and> x \<noteq> CHR ''-'' \<and> upper_char x = x" if "x \<in> set m" for x
    using hex_upper_plain mac_pattern_chars [OF m(1) that] by blast
  then have "strip m = m" by (intro strip_no_space) (simp add: list_all_iff)
  moreover have "replace_char (CHR ''-'') (CHR '':'') m = m" "upper m = m"
    using plain by (auto simp: replace_char_def upper_def intro!: map_idI)
  ultimately show ?thesis using m by (simp add: normalise_mac_address_def)
qed

section \<open>The invariant of a record\<close>

definition sane :: "attribute \<Rightarrow> bool" where
  "sane a \<longleftrightarrow> 0 \<le> a_confidence a \<and> a_confidence a \<le> 99 / 100 \<and> distinct (a_evidence a) \<and>
     (a_value a = None \<longrightarrow> a_confidence a = 0)"

definition bounded_set :: "int \<Rightarrow> 'a list \<Rightarrow> bool" where
  "bounded_set n xs \<longleftrightarrow> distinct xs \<and> ilen xs \<le> n"

definition counted :: "int \<Rightarrow> bool" where
  "counted n \<longleftrightarrow> 1 \<le> n \<and> n \<le> MAX_COUNT"

definition sane_evidence :: "(string \<times> string list) list \<Rightarrow> bool" where
  "sane_evidence e \<longleftrightarrow> distinct (map fst e) \<and> list_all (\<lambda>(k, xs). distinct xs) e"

definition device_ok :: "device \<Rightarrow> bool" where
  "device_ok d \<longleftrightarrow>
     distinct (d_ips d) \<and> distinct (d_ips6 d) \<and> distinct (d_protocols d) \<and> distinct (d_services d) \<and>
     distinct (d_softwares d) \<and> bounded_set 32 (d_sni d) \<and> bounded_set 32 (d_dns d) \<and> bounded_set 16 (d_ja3 d) \<and>
     bounded_set 16 (d_ja3_strings d) \<and> bounded_set 16 (map asn_provider (d_asns d)) \<and>
     sane (d_os_class d) \<and> sane (d_type_class d) \<and> sane (d_model_class d) \<and> sane_evidence (d_evidence d) \<and>
     counted (d_seen d) \<and> counted (d_observations d) \<and> d_first_seen d \<le> d_last_seen d"

lemma append_new_distinct [simp]: "distinct xs \<Longrightarrow> distinct (append_new x xs)"
  by (simp add: append_new_def)

lemma bounded_push: "bounded_set n xs \<Longrightarrow> 1 \<le> n \<Longrightarrow> x \<notin> set xs \<Longrightarrow> bounded_set n (push_bounded n x xs)"
  by (cases xs) (auto simp: bounded_set_def push_bounded_def ilen_length)

lemma sane_better: "sane a \<Longrightarrow> 0 \<le> c \<Longrightarrow> c \<le> 99 / 100 \<Longrightarrow> sane (snd (update_if_better v c source a))"
  by (auto simp: update_if_better_def sane_def Let_def given_def split: option.splits)

lemma sane_evidence_add: "sane_evidence e \<Longrightarrow> distinct xs \<Longrightarrow> sane_evidence (dset k xs e)"
proof -
  assume "sane_evidence e" "distinct xs"
  moreover from this have "list_all (\<lambda>(k, xs). distinct xs) (dset k xs e)"
    unfolding sane_evidence_def by (induction e) auto
  ultimately show ?thesis by (simp add: sane_evidence_def distinct_update)
qed

lemma sane_evidence_get: "sane_evidence e \<Longrightarrow> map_of e k = Some xs \<Longrightarrow> distinct xs"
  by (auto simp: sane_evidence_def list_all_iff dest: map_of_SomeD)

named_theorems device_intros

lemma device_ok_evidence [device_intros]: "device_ok d \<Longrightarrow> device_ok (add_evidence cat source d)"
  by (auto simp: device_ok_def add_evidence_def Let_def intro!: sane_evidence_add dest: sane_evidence_get
      split: option.split)

lemma add_evidence_frame [simp]:
  "d_sni (add_evidence c s d) = d_sni d" "d_dns (add_evidence c s d) = d_dns d"
  "d_os_class (add_evidence c s d) = d_os_class d" "d_model_class (add_evidence c s d) = d_model_class d"
  "d_type_class (add_evidence c s d) = d_type_class d"
  "d_vendor (add_evidence c s d) = d_vendor d" "d_hostname (add_evidence c s d) = d_hostname d"
  "d_priority (add_evidence c s d) = d_priority d" "d_last_seen (add_evidence c s d) = d_last_seen d"
  by (simp_all add: add_evidence_def Let_def)

lemma device_ok_sni [device_intros]: "device_ok d \<Longrightarrow> device_ok (snd (add_sni_domain v d))"
  by (auto simp: add_sni_domain_def Let_def intro!: device_ok_evidence split: option.split)
     (simp add: device_ok_def bounded_push)

lemma device_ok_dns [device_intros]: "device_ok d \<Longrightarrow> device_ok (snd (add_dns_query v d))"
  by (auto simp: add_dns_query_def Let_def intro!: device_ok_evidence split: option.split)
     (simp add: device_ok_def bounded_push)

lemma device_ok_ja3 [device_intros]: "device_ok d \<Longrightarrow> device_ok (snd (add_ja3_fingerprint v t d))"
  by (auto simp: add_ja3_fingerprint_def Let_def intro!: device_ok_evidence split: option.split)
     (simp_all add: device_ok_def bounded_push)

lemma device_ok_profile [device_intros]: "device_ok d \<Longrightarrow> device_ok (set_traffic_profile p d)"
  by (auto simp: set_traffic_profile_def Let_def intro!: device_ok_evidence split: option.split)
     (simp_all add: device_ok_def)

lemma count_asn_providers:
  "count_asn p as = (if p \<in> set (map asn_provider as) then count_asn p as else None) \<and>
   (\<forall>bs. count_asn p as = Some bs \<longrightarrow> map asn_provider bs = map asn_provider as) \<and>
   (count_asn p as = None \<longrightarrow> p \<notin> set (map asn_provider as))"
  by (induction as) auto

lemma device_ok_asn [device_intros]: "device_ok d \<Longrightarrow> device_ok (snd (add_destination_asn v d))"
proof -
  assume d: "device_ok d"
  have push: "map asn_provider (push_bounded 16 a as) = push_bounded 16 (asn_provider a) (map asn_provider as)" for a as
    by (simp add: push_bounded_def ilen_length map_tl)
  show ?thesis
    using d count_asn_providers [of _ "d_asns d"]
    by (auto simp: add_destination_asn_def intro!: device_ok_evidence split: option.split)
       (auto simp: device_ok_def push bounded_push)
qed

lemma device_ok_ip [device_intros]: "device_ok d \<Longrightarrow> device_ok (snd (add_ip_address v d))"
  by (auto simp: add_ip_address_def device_ok_def split: option.split)

lemma device_ok_protocol [device_intros]: "device_ok d \<Longrightarrow> device_ok (add_protocol p d)"
  by (simp add: add_protocol_def device_ok_def)

lemma device_ok_service [device_intros]: "device_ok d \<Longrightarrow> device_ok (add_service p d)"
  by (simp add: add_service_def device_ok_def)

lemma device_ok_software [device_intros]: "device_ok d \<Longrightarrow> device_ok (add_software_hint p d)"
  by (simp add: add_software_hint_def device_ok_def Let_def)

lemma device_ok_hostname [device_intros]: "device_ok d \<Longrightarrow> device_ok (snd (set_hostname h s p d))"
proof -
  assume d: "device_ok d"
  have upd: "device_ok (e\<lparr>d_hostname := v, d_priority := q\<rparr>) \<and> device_ok (e\<lparr>d_hostname := v\<rparr>)"
    if "device_ok e" for e v q using that by (simp add: device_ok_def)
  show ?thesis using d device_ok_evidence [OF d] upd
    by (auto simp: set_hostname_def Let_def split: option.split)
qed

lemma device_ok_vendor [device_intros]: "device_ok d \<Longrightarrow> device_ok (snd (set_vendor v s d))"
proof -
  assume d: "device_ok d"
  have upd: "device_ok (e\<lparr>d_vendor := v\<rparr>)" if "device_ok e" for e v using that by (simp add: device_ok_def)
  show ?thesis using d device_ok_evidence [OF d] upd
    by (auto simp: set_vendor_def Let_def split: option.split)
qed

lemma device_ok_activity [device_intros]:
  "device_ok d \<Longrightarrow> record_activity now ts p d = Inr e \<Longrightarrow> device_ok e"
proof -
  assume d: "device_ok d" and e: "record_activity now ts p d = Inr e"
  have upd: "device_ok (x\<lparr>d_protocol_last := v\<rparr>)" if "device_ok x" for x v using that by (simp add: device_ok_def)
  obtain t where t: "normalise_timestamp ts (Some (utc_now now)) = Inr t"
    using e by (auto simp: record_activity_def then_do_eq_Inr)
  define s where "s = (case given t of None \<Rightarrow> utc_now now | Some s \<Rightarrow> s)"
  define d1 where "d1 = d\<lparr>d_last_seen := (if s > d_last_seen d then s else d_last_seen d),
      d_seen := min MAX_COUNT (d_seen d + 1), d_observations := min MAX_COUNT (d_observations d + 1)\<rparr>"
  have d1: "device_ok d1"
    using d by (auto simp: d1_def device_ok_def counted_def MAX_COUNT_def)
  have "e = (case given p of None \<Rightarrow> d1
      | Some q \<Rightarrow> if (case map_of (d_protocol_last (add_protocol q d1)) q of None \<Rightarrow> True | Some old \<Rightarrow> s > old)
          then (add_protocol q d1)\<lparr>d_protocol_last := dset q s (d_protocol_last (add_protocol q d1))\<rparr>
          else add_protocol q d1)"
    using e unfolding record_activity_def t then_do_simps Let_def s_def d1_def by simp
  then show ?thesis using d1 by (cases "given p") (simp_all add: upd device_ok_protocol)
qed

lemma device_ok_better [device_intros]:
  assumes "device_ok d" "0 \<le> c" "c \<le> 99 / 100"
  shows "device_ok (better_os v c s d)" "device_ok (better_type v c s d)" "device_ok (better_model v c s d)"
  using assms by (simp_all add: better_os_def better_type_def better_model_def Let_def device_ok_def sane_better)


section \<open>Evidence only improves a record\<close>

text \<open>\<open>improves d e\<close>: \<open>e\<close> is a good record when \<open>d\<close> is, and at least as sure of the system, the type and
  the model: a value is replaced only by one of higher confidence, and never lost.\<close>

definition surer :: "attribute \<Rightarrow> attribute \<Rightarrow> bool" where
  "surer a b \<longleftrightarrow> a_confidence a \<le> a_confidence b \<and> (a_value a \<noteq> None \<longrightarrow> a_value b \<noteq> None) \<and>
     (a_value b \<noteq> a_value a \<longrightarrow> a_value a = None \<or> a_confidence a < a_confidence b)"

definition improves :: "device \<Rightarrow> device \<Rightarrow> bool" where
  "improves d e \<longleftrightarrow> (device_ok d \<longrightarrow> device_ok e \<and> surer (d_os_class d) (d_os_class e) \<and>
     surer (d_type_class d) (d_type_class e) \<and> surer (d_model_class d) (d_model_class e))"

lemma surer_refl [simp]: "surer a a"
  by (simp add: surer_def)

lemma surer_trans: "surer a b \<Longrightarrow> surer b c \<Longrightarrow> surer a c"
  unfolding surer_def by (metis order_trans order_le_less_trans order_less_le_trans)

lemma improves_refl [simp]: "improves d d"
  by (simp add: improves_def)

lemma improves_trans: "improves d e \<Longrightarrow> improves e f \<Longrightarrow> improves d f"
  unfolding improves_def by (metis surer_trans)

lemma improves_fold: "(\<And>x d. improves d (f x d)) \<Longrightarrow> improves d (fold f xs d)"
  by (induction xs arbitrary: d) (auto intro: improves_trans)

lemma surer_better: "sane a \<Longrightarrow> 0 \<le> c \<Longrightarrow> surer a (snd (update_if_better v c s a))"
  by (auto simp: update_if_better_def surer_def sane_def given_def Let_def split: option.splits)

lemma improves_better:
  assumes "0 \<le> c" "c \<le> 99 / 100"
  shows "improves d (better_os v c s d)" "improves d (better_type v c s d)" "improves d (better_model v c s d)"
  using assms by (simp_all add: improves_def device_ok_better)
    (simp_all add: better_os_def better_type_def better_model_def Let_def device_ok_def surer_better)

lemma improves_take:
  assumes "calibrated h"
  shows "improves d (take_os h s d)" "improves d (take_type h s d)"
  using assms by (simp_all add: take_os_def take_type_def improves_better calibrated_def)

lemma improves_software: "improves d (add_software_hint s d)"
  by (simp add: improves_def device_ok_software) (simp add: add_software_hint_def Let_def)

lemma improves_vendor: "improves d (snd (set_vendor v s d))"
  by (simp add: improves_def device_ok_vendor) (auto simp: set_vendor_def Let_def split: option.split)

lemma improves_vendor_stage: "improves d (vendor_stage db d)"
  by (auto simp: vendor_stage_def improves_vendor split: option.split list.split)

lemma improves_windows_stage: "improves d (windows_stage d)"
proof -
  have two_steps: "improves d (if b then better_type w c t (better_os v c s d) else better_os v c s d)"
    if "0 \<le> c" "c \<le> 99 / 100" for b v w c s t
    using improves_trans [OF improves_better(1) improves_better(2)] improves_better(1) that by auto
  show ?thesis
    unfolding windows_stage_def Let_def by (simp add: two_steps)
qed

lemma improves_sni_stage: "improves d (sni_stage d)"
  unfolding sni_stage_def Let_def
  by (intro improves_fold improves_trans [OF improves_take(1) improves_take(2)] calibrated_sni)

lemma improves_ja3_stage: "improves d (ja3_stage d)"
proof -
  have "improves d (case given v of None \<Rightarrow> take_type h t (take_os h s d)
      | Some x \<Rightarrow> add_software_hint x (take_type h t (take_os h s d)))" if "calibrated h" for h v s t d
    using improves_trans [OF improves_take(1) improves_take(2)] that
    by (auto intro: improves_trans [OF _ improves_software] split: option.split)
  then show ?thesis
    unfolding ja3_stage_def Let_def by (intro improves_fold) (simp add: calibrated_ja3)
qed

lemma improves_dns_stage: "improves d (dns_stage d)"
proof -
  have "calibrated (classify_dns_evidence x)" for x by (simp add: classify_dns_evidence_def calibrated_sni)
  then have "improves d (let h = classify_dns_evidence (Some x); e = take_os h s d
      in if given (d_type e) = None then take_type h s e else e)" for x s d
    by (simp add: Let_def improves_take improves_trans [OF improves_take(1) improves_take(2)])
  then show ?thesis
    unfolding dns_stage_def by (simp del: append.simps) (intro impI improves_fold)
qed

lemma improves_traffic_stage: "improves d (traffic_stage d)"
  by (auto simp: traffic_stage_def classify_traffic_evidence_def improves_better given_def split: option.split)

lemma improves_hostname_stage: "improves d (hostname_stage d)"
proof -
  have "improves d (if a then better_model v (confidence h) t (if b then take_type h t (take_os h t d) else take_os h t d)
      else (if b then take_type h t (take_os h t d) else take_os h t d))" if "calibrated h" for a b v h t
  proof -
    have "improves d (if b then take_type h t (take_os h t d) else take_os h t d)"
      using improves_trans [OF improves_take(1) improves_take(2)] improves_take(1) that by auto
    then show ?thesis
      using that by (auto intro: improves_trans [OF _ improves_better(3)] simp: calibrated_def)
  qed
  then show ?thesis
    unfolding hostname_stage_def Let_def by (auto simp: calibrated_hostname split: option.split)
qed

text \<open>Combining the evidence on a record keeps it well formed and only makes it surer: a named system,
  type or model is replaced only by one of strictly higher confidence and never lost, and no confidence
  exceeds 99 percent.\<close>

theorem classification_improves:
  assumes "device_ok d"
  shows "device_ok (apply_classification_to_device db d) \<and>
    surer (d_os_class d) (d_os_class (apply_classification_to_device db d)) \<and>
    surer (d_type_class d) (d_type_class (apply_classification_to_device db d)) \<and>
    surer (d_model_class d) (d_model_class (apply_classification_to_device db d))"
proof -
  have "improves d (apply_classification_to_device db d)"
    unfolding apply_classification_to_device_def
    by (intro improves_trans [OF _ improves_hostname_stage] improves_trans [OF _ improves_traffic_stage]
        improves_trans [OF _ improves_dns_stage] improves_trans [OF _ improves_ja3_stage]
        improves_trans [OF _ improves_sni_stage] improves_trans [OF _ improves_windows_stage] improves_vendor_stage)
  with assms show ?thesis by (simp add: improves_def)
qed

lemma new_device_ok: "new_device now mac ts = Inr d \<Longrightarrow> device_ok d"
  by (auto simp: new_device_def then_do_eq_Inr Let_def device_ok_def bounded_set_def sane_def no_attribute_def
      sane_evidence_def counted_def MAX_COUNT_def)

theorem classification_improves_witness:
  "\<exists>d. new_device 0 (PStr ''02:42:AC:11:00:09'') PNone = Inr d \<and> device_ok (apply_classification_to_device None d)"
proof -
  have "is_ok (new_device 0 (PStr ''02:42:AC:11:00:09'') PNone)" by code_simp
  then obtain d where "new_device 0 (PStr ''02:42:AC:11:00:09'') PNone = Inr d"
    by (auto simp: is_ok_def split: sum.splits)
  with classification_improves [OF new_device_ok [OF this], of None] show ?thesis by blast
qed

section \<open>Any sequence of operations\<close>

datatype device_op =
    OpHostname "string option" string int
  | OpIp "string option"
  | OpEvidence string string
  | OpActivity int pyval "string option"
  | OpSni "string option"
  | OpDns "string option"
  | OpJa3 "string option" "string option"
  | OpProfile "profile option"
  | OpAsn "asn option"
  | OpService string
  | OpSoftware string
  | OpVendor "string option" string
  | OpOs hint string
  | OpType hint string
  | OpClassify "vendors option"

fun device_step :: "device_op \<Rightarrow> device \<Rightarrow> device" where
  "device_step (OpHostname h s p) d = snd (set_hostname h s p d)"
| "device_step (OpIp ip) d = snd (add_ip_address ip d)"
| "device_step (OpEvidence c s) d = add_evidence c s d"
| "device_step (OpActivity now ts p) d = (case record_activity now ts p d of Inl e \<Rightarrow> d | Inr e \<Rightarrow> e)"
| "device_step (OpSni v) d = snd (add_sni_domain v d)"
| "device_step (OpDns v) d = snd (add_dns_query v d)"
| "device_step (OpJa3 h t) d = snd (add_ja3_fingerprint h t d)"
| "device_step (OpProfile p) d = set_traffic_profile p d"
| "device_step (OpAsn v) d = snd (add_destination_asn v d)"
| "device_step (OpService s) d = add_service s d"
| "device_step (OpSoftware s) d = add_software_hint s d"
| "device_step (OpVendor v s) d = snd (set_vendor v s d)"
| "device_step (OpOs h s) d = take_os h s d"
| "device_step (OpType h s) d = take_type h s d"
| "device_step (OpClassify db) d = apply_classification_to_device db d"

fun sound_op :: "device_op \<Rightarrow> bool" where
  "sound_op (OpOs h s) = calibrated h"
| "sound_op (OpType h s) = calibrated h"
| "sound_op x = True"

lemma classify_ok: "device_ok d \<Longrightarrow> device_ok (apply_classification_to_device db d)"
  unfolding apply_classification_to_device_def
  using improves_hostname_stage improves_traffic_stage improves_dns_stage improves_ja3_stage improves_sni_stage
    improves_windows_stage improves_vendor_stage by (simp add: improves_def)

interpretation devices: lifecycle device_step sound_op device_ok
proof
  fix op d
  assume "sound_op op" "device_ok d"
  then show "device_ok (device_step op d)"
    using improves_take by (cases op) (auto simp: device_intros improves_def classify_ok dest: device_ok_activity split: sum.split)
qed

text \<open>A record starts well formed and stays so under any sequence of observations: its lists have no
  duplicates, the domains, queries, fingerprints and providers stay within their bounds, its counters
  between one and the maximum, its confidences within 99 percent, and it is never last seen before it
  was first seen.\<close>

theorem device_record_invariant:
  assumes "new_device now mac ts = Inr d" and "\<forall>x\<in>set es. sound_op x"
  shows "device_ok (fold device_step es d)"
  using devices.run_good [OF new_device_ok [OF assms(1)] assms(2)] .

theorem device_record_invariant_witness:
  "\<exists>d. new_device 0 PNone PNone = Inr d \<and>
     device_ok (fold device_step [OpIp (Some ''10.0.0.7''), OpDns (Some ''acme.com''), OpClassify None] d)"
proof -
  have "is_ok (new_device 0 PNone PNone)" by code_simp
  then obtain d where d: "new_device 0 PNone PNone = Inr d"
    by (auto simp: is_ok_def split: sum.splits)
  have "device_ok (fold device_step [OpIp (Some ''10.0.0.7''), OpDns (Some ''acme.com''), OpClassify None] d)"
    by (rule device_record_invariant [OF d]) simp
  with d show ?thesis by blast
qed

section \<open>Correlation\<close>

definition refs_of :: "correlator \<Rightarrow> int list" where
  "refs_of c = map snd (by_mac c) @ map snd (by_ip c)"

definition correlator_ok :: "correlator \<Rightarrow> bool" where
  "correlator_ok c \<longleftrightarrow>
     distinct (map fst (by_mac c)) \<and> distinct (map fst (by_ip c)) \<and> distinct (map fst (store c)) \<and>
     list_all (\<lambda>r. device_at c r \<noteq> None) (refs_of c) \<and>
     list_all (\<lambda>(r, d). r < next_ref c \<and> device_ok d) (store c) \<and>
     list_all (\<lambda>(m, r). normalise_mac_address (PStr m) = Some m) (by_mac c)"

lemma device_at_tables [simp]:
  "device_at (c\<lparr>by_ip := v\<rparr>) q = device_at c q" "device_at (c\<lparr>by_mac := w\<rparr>) q = device_at c q"
  by (simp_all add: device_at_def)

lemma correlator_ok_device:
  assumes "correlator_ok c" "device_at c r = Some d"
  shows "device_ok d \<and> r < next_ref c"
proof -
  have "(r, d) \<in> set (store c)" using assms(2) by (simp add: device_at_def map_of_SomeD)
  with assms(1) show ?thesis by (auto simp: correlator_ok_def list_all_iff)
qed

lemma correlator_ok_ref: "correlator_ok c \<Longrightarrow> r \<in> set (refs_of c) \<Longrightarrow> device_at c r \<noteq> None"
  by (simp add: correlator_ok_def list_all_iff)

lemma lookup_ref:
  assumes "correlator_ok c" "lookup k (by_mac c) = Some r \<or> lookup k (by_ip c) = Some r"
  shows "device_at c r \<noteq> None"
proof -
  obtain x where "(x, r) \<in> set (by_mac c) \<or> (x, r) \<in> set (by_ip c)"
    using assms(2) by (auto simp: lookup_def split: option.splits dest: map_of_SomeD)
  then have "r \<in> set (refs_of c)" by (force simp: refs_of_def)
  with assms(1) show ?thesis by (rule correlator_ok_ref)
qed

lemma update_device_fields [simp]:
  "by_mac (update_device r f c) = by_mac c" "by_ip (update_device r f c) = by_ip c"
  "next_ref (update_device r f c) = next_ref c" "max_devices (update_device r f c) = max_devices c"
  by (simp_all add: update_device_def split: option.split)

lemma device_at_update:
  "device_at (update_device r f c) q = (if q = r then map_option f (device_at c r) else device_at c q)"
  by (simp add: update_device_def device_at_def split: option.split)

lemma update_device_ok:
  assumes "correlator_ok c" "\<And>d. device_ok d \<Longrightarrow> device_ok (f d)"
  shows "correlator_ok (update_device r f c)"
proof (cases "device_at c r")
  case None
  with assms(1) show ?thesis by (simp add: update_device_def)
next
  case (Some d)
  let ?c = "update_device r f c"
  from Some have store: "store ?c = dset r (f d) (store c)" by (simp add: update_device_def)
  have "\<forall>(q, e)\<in>set (store ?c). q < next_ref c \<and> device_ok e"
    using set_dset [of r "f d" "store c"] correlator_ok_device [OF assms(1) Some] assms
    unfolding store by (fastforce simp: correlator_ok_def list_all_iff)
  moreover have "list_all (\<lambda>q. device_at ?c q \<noteq> None) (refs_of ?c)"
    using assms(1) Some by (auto simp: correlator_ok_def list_all_iff refs_of_def device_at_update)
  moreover have "distinct (map fst (store ?c))"
    using assms(1) by (simp add: store correlator_ok_def distinct_update)
  ultimately show ?thesis
    using assms(1) by (auto simp: correlator_ok_def list_all_iff)
qed

text \<open>An entry for a record in the store.\<close>

lemma dset_values: "set (map snd (dset k v d)) \<subseteq> insert v (set (map snd d))"
  by (induction d) auto

lemma with_ip_ok:
  assumes "correlator_ok c" "device_at c r \<noteq> None"
  shows "correlator_ok (c\<lparr>by_ip := dset i r (by_ip c)\<rparr>)"
proof -
  have "set (refs_of (c\<lparr>by_ip := dset i r (by_ip c)\<rparr>)) \<subseteq> insert r (set (refs_of c))"
    using dset_values [of i r "by_ip c"] by (auto simp: refs_of_def)
  with assms have "list_all (\<lambda>q. device_at c q \<noteq> None) (refs_of (c\<lparr>by_ip := dset i r (by_ip c)\<rparr>))"
    unfolding list_all_iff using correlator_ok_ref [OF assms(1)] by blast
  with assms(1) show ?thesis by (simp add: correlator_ok_def distinct_update)
qed

lemma with_mac_ok:
  assumes "correlator_ok c" "device_at c r \<noteq> None" "normalise_mac_address (PStr m) = Some m"
  shows "correlator_ok (c\<lparr>by_mac := dset m r (by_mac c)\<rparr>)"
proof -
  have "set (refs_of (c\<lparr>by_mac := dset m r (by_mac c)\<rparr>)) \<subseteq> insert r (set (refs_of c))"
    using dset_values [of m r "by_mac c"] by (auto simp: refs_of_def)
  with assms have "list_all (\<lambda>q. device_at c q \<noteq> None) (refs_of (c\<lparr>by_mac := dset m r (by_mac c)\<rparr>))"
    unfolding list_all_iff using correlator_ok_ref [OF assms(1)] by blast
  moreover have "list_all (\<lambda>(m, r). normalise_mac_address (PStr m) = Some m) (dset m r (by_mac c))"
    using assms(1,3) set_dset [of m r "by_mac c"] by (auto simp: correlator_ok_def list_all_iff)
  ultimately show ?thesis using assms(1) by (simp add: correlator_ok_def distinct_update)
qed

lemma remove_keys_ok:
  assumes "correlator_ok c"
  shows "correlator_ok (c\<lparr>by_mac := remove_keys ms (by_mac c), by_ip := remove_keys is (by_ip c)\<rparr>)"
proof -
  let ?c = "c\<lparr>by_mac := remove_keys ms (by_mac c), by_ip := remove_keys is (by_ip c)\<rparr>"
  have sub: "set (remove_keys ks d) \<subseteq> set d" for ks and d :: "(string \<times> int) list"
    by (auto simp: remove_keys_def)
  then have "set (refs_of ?c) \<subseteq> set (refs_of c)" by (simp add: refs_of_def) (meson image_mono le_supI1 le_supI2)
  then have "list_all (\<lambda>q. device_at c q \<noteq> None) (refs_of ?c)"
    unfolding list_all_iff using correlator_ok_ref [OF assms] by blast
  moreover have "list_all (\<lambda>(m, r). normalise_mac_address (PStr m) = Some m) (remove_keys ms (by_mac c))"
    using assms sub [of ms "by_mac c"] by (auto simp: correlator_ok_def list_all_iff)
  ultimately show ?thesis
    using assms by (simp add: correlator_ok_def remove_keys_def distinct_map_filter)
qed

lemma enforce_bound_ok: "correlator_ok c \<Longrightarrow> enforce_bound c = (x, c') \<Longrightarrow>
    correlator_ok c' \<and> store c' = store c \<and> next_ref c' = next_ref c \<and> max_devices c' = max_devices c"
  using remove_keys_ok [of c] by (auto simp: enforce_bound_def Let_def split: if_splits list.splits)

lemma store_new_ok:
  assumes "correlator_ok c" "device_ok d"
  shows "correlator_ok (c\<lparr>store := dset (next_ref c) d (store c), next_ref := next_ref c + 1\<rparr>)"
proof -
  let ?c = "c\<lparr>store := dset (next_ref c) d (store c), next_ref := next_ref c + 1\<rparr>"
  have "\<forall>(q, e)\<in>set (dset (next_ref c) d (store c)). q < next_ref c + 1 \<and> device_ok e"
    using set_dset [of "next_ref c" d "store c"] assms by (fastforce simp: correlator_ok_def list_all_iff)
  moreover have "device_at ?c q \<noteq> None" if "device_at c q \<noteq> None" for q
    using that by (simp add: device_at_def)
  then have "list_all (\<lambda>q. device_at ?c q \<noteq> None) (refs_of ?c)"
    unfolding list_all_iff using correlator_ok_ref [OF assms(1)] by (simp add: refs_of_def)
  ultimately show ?thesis
    using assms(1) by (simp add: correlator_ok_def distinct_update list_all_iff)
qed

text \<open>The outcomes of a look-up, as one case analysis for the properties below.\<close>

lemma create_device_Inr:
  assumes "create_device mac ip ts now c = (Inr r, c')"
  obtains d c1 where "new_device now (opt_str mac) ts = Inr d" "enforce_bound c = (Inr (), c1)" "r = next_ref c1"
    "c' = c1\<lparr>store := dset r (snd (add_ip_address ip d)) (store c1), next_ref := r + 1,
       by_mac := (case mac of None \<Rightarrow> by_mac c1 | Some m \<Rightarrow> dset m r (by_mac c1)),
       by_ip := (case ip of None \<Rightarrow> by_ip c1 | Some i \<Rightarrow> dset i r (by_ip c1))\<rparr>"
  using assms by (auto simp: create_device_def Let_def split: sum.splits prod.splits)

lemma create_device_Inl: "create_device mac ip ts now c = (Inl e, c') \<Longrightarrow> c' = c"
  by (auto simp: create_device_def enforce_bound_def Let_def split: sum.splits prod.splits if_splits list.splits)

lemma create_device_ok:
  assumes "correlator_ok c" "\<And>m. mac = Some m \<Longrightarrow> normalise_mac_address (PStr m) = Some m"
    and "create_device mac ip ts now c = (x, c')"
  shows "correlator_ok c'"
proof (cases x)
  case (Inl e)
  with assms create_device_Inl show ?thesis by blast
next
  case (Inr r)
  with assms(3) obtain d c1 where d: "new_device now (opt_str mac) ts = Inr d"
    and c1: "enforce_bound c = (Inr (), c1)" "r = next_ref c1"
    and c': "c' = c1\<lparr>store := dset r (snd (add_ip_address ip d)) (store c1), next_ref := r + 1,
       by_mac := (case mac of None \<Rightarrow> by_mac c1 | Some m \<Rightarrow> dset m r (by_mac c1)),
       by_ip := (case ip of None \<Rightarrow> by_ip c1 | Some i \<Rightarrow> dset i r (by_ip c1))\<rparr>"
    by (auto elim: create_device_Inr)
  define c2 where "c2 = c1\<lparr>store := dset r (snd (add_ip_address ip d)) (store c1), next_ref := r + 1\<rparr>"
  have c2: "correlator_ok c2" "device_at c2 r \<noteq> None"
    using store_new_ok [OF _ device_ok_ip [OF new_device_ok [OF d]], of c1 ip]
      enforce_bound_ok [OF assms(1) c1(1)]
    by (simp_all add: c2_def c1(2) device_at_def)
  define c3 where "c3 = (case mac of None \<Rightarrow> c2 | Some m \<Rightarrow> c2\<lparr>by_mac := dset m r (by_mac c2)\<rparr>)"
  have c3: "correlator_ok c3" "device_at c3 r \<noteq> None"
    using c2 assms(2) by (auto simp: c3_def with_mac_ok device_at_def split: option.split)
  have "c' = (case ip of None \<Rightarrow> c3 | Some i \<Rightarrow> c3\<lparr>by_ip := dset i r (by_ip c3)\<rparr>)"
    by (simp add: c' c3_def c2_def split: option.split)
  with c3 show ?thesis by (auto simp: with_ip_ok split: option.split)
qed

lemma get_or_create_cases:
  assumes "get_or_create_device mac_v ip_v ts now c = (x, c')"
    and "mac = normalise_mac_address mac_v" "ip = normalise_ip_address ip_v"
  obtains (known_mac) r where "lookup mac (by_mac c) = Some r" "x = Inr r"
      "c' = (case ip of None \<Rightarrow> c
             | Some i \<Rightarrow> (update_device r (\<lambda>d. snd (add_ip_address ip d)) c)\<lparr>by_ip := dset i r (by_ip c)\<rparr>)"
    | (known_ip) r where "lookup mac (by_mac c) = None" "lookup ip (by_ip c) = Some r" "x = Inr r"
      "c' = (case mac of None \<Rightarrow> c
             | Some m \<Rightarrow> (update_device r (set_mac_if_none mac) c)\<lparr>by_mac := dset m r (by_mac c)\<rparr>)"
    | (created) "lookup mac (by_mac c) = None" "lookup ip (by_ip c) = None" "create_device mac ip ts now c = (x, c')"
  using assms by (auto simp: get_or_create_device_def Let_def split: option.splits)

lemma correlator_lookup_ok:
  assumes "correlator_ok c" and "get_or_create_device mac ip ts now c = (x, c')"
  shows "correlator_ok c'"
proof -
  have macs: "normalise_mac_address (PStr m) = Some m" if "normalise_mac_address mac = Some m" for m
    using that by (rule normal_mac_fixed)
  show ?thesis
  proof (cases rule: get_or_create_cases [OF assms(2) refl refl])
    case (1 r)
    let ?c = "update_device r (\<lambda>d. snd (add_ip_address (normalise_ip_address ip) d)) c"
    have "correlator_ok ?c" "device_at ?c r \<noteq> None"
      using assms(1) lookup_ref [OF assms(1)] 1(1)
      by (auto simp: update_device_ok device_ok_ip device_at_update)
    with 1 assms(1) show ?thesis using with_ip_ok [of ?c r] by (auto split: option.split)
  next
    case (2 r)
    let ?c = "update_device r (set_mac_if_none (normalise_mac_address mac)) c"
    have "correlator_ok ?c" "device_at ?c r \<noteq> None"
      using assms(1) lookup_ref [OF assms(1)] 2(2)
      by (auto simp: device_at_update set_mac_if_none_def device_ok_def intro!: update_device_ok)
    with 2 assms(1) macs show ?thesis using with_mac_ok [of ?c r] by (auto split: option.split)
  next
    case 3
    then show ?thesis using create_device_ok [OF assms(1) macs] by blast
  qed
qed

text \<open>C24.  Every look-up keeps the correlator consistent, also one that raises: both tables map distinct keys to
  records that exist and are well formed, and the MAC keys are in normal form.\<close>

theorem correlator_invariant:
  assumes "correlator_ok c" and "get_or_create_device mac ip ts now c = (x, c')"
  shows "correlator_ok c'"
  using assms by (rule correlator_lookup_ok)

text \<open>C21.  The record a look-up returns exists, and from then on it is the record of both addresses of the
  observation, those that are valid.\<close>

theorem correlation_finds_record:
  assumes "correlator_ok c" and "get_or_create_device mac ip ts now c = (Inr r, c')"
  shows "device_at c' r \<noteq> None \<and>
    (normalise_mac_address mac \<noteq> None \<longrightarrow> get_device_by_mac mac c' = Some r) \<and>
    (normalise_ip_address ip \<noteq> None \<longrightarrow> get_device_by_ip ip c' = Some r)"
proof -
  show ?thesis
  proof (cases rule: get_or_create_cases [OF assms(2) refl refl])
    case (1 q)
    with lookup_ref [OF assms(1), of "normalise_mac_address mac" q] show ?thesis
      by (auto simp: device_at_update get_device_by_mac_def get_device_by_ip_def lookup_def split: option.splits)
  next
    case (2 q)
    with lookup_ref [OF assms(1), of "normalise_ip_address ip" q] show ?thesis
      by (auto simp: device_at_update get_device_by_mac_def get_device_by_ip_def lookup_def split: option.splits)
  next
    case 3
    then show ?thesis
      by (elim create_device_Inr)
         (auto simp: device_at_def get_device_by_mac_def get_device_by_ip_def lookup_def split: option.splits)
  qed
qed

definition SAMPLE_MAC :: pyval where
  "SAMPLE_MAC = PStr ''02-42-ac-11-00-09''"

definition SAMPLE_IP :: pyval where
  "SAMPLE_IP = PStr '' 10.0.0.7 ''"

lemma empty_correlator_ok [simp]: "correlator_ok (empty_correlator n)"
  by (simp add: correlator_ok_def empty_correlator_def refs_of_def)

lemma sample_lookup:
  "\<exists>r c. get_or_create_device SAMPLE_MAC SAMPLE_IP PNone 0 (empty_correlator 8) = (Inr r, c)"
proof -
  have "case get_or_create_device SAMPLE_MAC SAMPLE_IP PNone 0 (empty_correlator 8) of
      (Inr r, c) \<Rightarrow> True | _ \<Rightarrow> False" by code_simp
  then show ?thesis by (auto split: prod.splits sum.splits)
qed

theorem correlator_invariant_witness:
  "\<exists>x c. get_or_create_device SAMPLE_MAC SAMPLE_IP PNone 0 (empty_correlator 8) = (Inr x, c) \<and> correlator_ok c"
proof -
  obtain r c where "get_or_create_device SAMPLE_MAC SAMPLE_IP PNone 0 (empty_correlator 8) = (Inr r, c)"
    using sample_lookup by blast
  with correlator_invariant [OF empty_correlator_ok this] show ?thesis by blast
qed

theorem correlation_finds_record_witness:
  "\<exists>r c. get_or_create_device SAMPLE_MAC SAMPLE_IP PNone 0 (empty_correlator 8) = (Inr r, c) \<and>
     get_device_by_mac SAMPLE_MAC c = Some r \<and> get_device_by_ip SAMPLE_IP c = Some r"
proof -
  obtain r c where eq: "get_or_create_device SAMPLE_MAC SAMPLE_IP PNone 0 (empty_correlator 8) = (Inr r, c)"
    using sample_lookup by blast
  moreover have "normalise_mac_address SAMPLE_MAC \<noteq> None" "normalise_ip_address SAMPLE_IP \<noteq> None" by code_simp+
  ultimately show ?thesis using correlation_finds_record [OF empty_correlator_ok eq] by blast
qed

subsection \<open>The bound\<close>

lemma min_by_in: "min_by f x xs \<in> set (x # xs)"
  by (induction xs arbitrary: x) auto

lemma min_by_least: "y \<in> set (x # xs) \<Longrightarrow> f (min_by f x xs) \<le> f y"
proof (induction xs arbitrary: x y)
  case (Cons z xs)
  show ?case
  proof (cases "f z < f x")
    case True
    with Cons.IH [of y z] Cons.IH [of z z] Cons.prems show ?thesis by force
  next
    case False
    with Cons.IH [of y x] Cons.IH [of x x] Cons.prems show ?thesis by force
  qed
qed simp

lemma ilen_remove_key: "k \<in> fst ` set d \<Longrightarrow> ilen (remove_keys [k] d) < ilen d"
proof -
  assume "k \<in> fst ` set d"
  then obtain v where "(k, v) \<in> set d" by force
  then have "length (filter (\<lambda>(x, _). x \<notin> set [k]) d) < length d"
    by (intro length_filter_less [of "(k, v)"]) simp_all
  then show ?thesis by (simp add: remove_keys_def ilen_length)
qed

lemma ilen_dset: "ilen (dset k v d) \<le> ilen d + 1"
  by (induction d) auto

text \<open>What making room removes: one MAC address, of a record that no other was seen before.\<close>

lemma enforce_bound_Inr:
  assumes "enforce_bound c = (Inr (), c1)"
  obtains (room) "ilen (by_mac c) < max_devices c" "c1 = c"
    | (evicted) m r where "(m, r) \<in> set (by_mac c)" "by_mac c1 = remove_keys [m] (by_mac c)"
        "\<forall>(m', r')\<in>set (by_mac c). last_seen_of c r \<le> last_seen_of c r'" "\<not> ilen (by_mac c) < max_devices c"
        "max_devices c1 = max_devices c"
proof (cases "ilen (by_mac c) < max_devices c")
  case True
  with assms have "c1 = c" by (simp add: enforce_bound_def)
  with True show thesis by (rule room)
next
  case False
  then obtain e es where e: "by_mac c = e # es"
    using assms by (auto simp: enforce_bound_def split: list.splits)
  obtain m r where mr: "min_by (\<lambda>(m, r). last_seen_of c r) e es = (m, r)" by (cases "min_by (\<lambda>(m, r). last_seen_of c r) e es")
  have "\<forall>(m', r')\<in>set (by_mac c). last_seen_of c r \<le> last_seen_of c r'"
  proof (intro ballI, clarify)
    fix m' r' assume "(m', r') \<in> set (by_mac c)"
    then have "(m', r') \<in> set (e # es)" by (simp only: e)
    from min_by_least [OF this, of "\<lambda>(m, r). last_seen_of c r"]
    show "last_seen_of c r \<le> last_seen_of c r'" unfolding mr by simp
  qed
  moreover have "(m, r) \<in> set (by_mac c)" using min_by_in [of "\<lambda>(m, r). last_seen_of c r" e es] by (simp only: e mr)
  moreover have "c1 = c\<lparr>by_mac := remove_keys [m] (by_mac c),
      by_ip := remove_keys (case device_at c r of None \<Rightarrow> [] | Some d \<Rightarrow> d_ips d) (by_ip c)\<rparr>"
    using assms False mr by (simp add: enforce_bound_def e Let_def)
  ultimately show thesis using False by (intro evicted [of m r]) simp_all
qed

text \<open>Unless the observation is found by its IP address alone, a table of MAC addresses within its bound
  stays within it, and an entry that is lost belongs to a record that no other known one was seen before.\<close>

theorem correlator_bound:
  assumes "correlator_ok c" and "get_or_create_device mac ip ts now c = (Inr r, c')"
    and "ilen (by_mac c) \<le> max_devices c"
    and "lookup (normalise_mac_address mac) (by_mac c) \<noteq> None \<or> lookup (normalise_ip_address ip) (by_ip c) = None"
  shows "ilen (by_mac c') \<le> max_devices c' \<and>
    (\<forall>(m, q)\<in>set (by_mac c). m \<notin> fst ` set (by_mac c') \<longrightarrow>
       (\<forall>(m', q')\<in>set (by_mac c). last_seen_of c q \<le> last_seen_of c q'))"
proof (cases rule: get_or_create_cases [OF assms(2) refl refl])
  case (1 q)
  with assms(3) show ?thesis by (force split: option.splits)
next
  case (2 q)
  with assms(4) show ?thesis by simp
next
  case 3
  then obtain d c1 where room: "enforce_bound c = (Inr (), c1)"
    and c': "max_devices c' = max_devices c1"
      "by_mac c' = (case normalise_mac_address mac of None \<Rightarrow> by_mac c1 | Some m \<Rightarrow> dset m r (by_mac c1))"
    by (elim create_device_Inr) (auto split: option.splits)
  have len: "ilen (by_mac c') \<le> ilen (by_mac c1) + 1"
    using ilen_dset by (auto simp: c' split: option.split)
  have keys: "fst ` set (by_mac c1) \<subseteq> fst ` set (by_mac c')"
    by (auto simp: c' keys_dset split: option.split)
  from room show ?thesis
  proof (cases rule: enforce_bound_Inr)
    case room
    then have "\<forall>(m, q)\<in>set (by_mac c). m \<in> fst ` set (by_mac c')" using keys by force
    moreover have "ilen (by_mac c') \<le> max_devices c'" using room len c'(1) by simp
    ultimately show ?thesis by blast
  next
    case (evicted m q)
    have m: "m \<in> fst ` set (by_mac c)" using evicted(1) by force
    have "ilen (by_mac c1) < ilen (by_mac c)"
      unfolding evicted(2) using m by (rule ilen_remove_key)
    then have "ilen (by_mac c') \<le> max_devices c'"
      using len evicted(5) assms(3) c'(1) by simp
    moreover have "q' = q" if "(m', q') \<in> set (by_mac c)" "m' \<notin> fst ` set (by_mac c')" for m' q'
    proof -
      have "m' \<notin> fst ` set (remove_keys [m] (by_mac c))" using that(2) keys evicted(2) by auto
      with that(1) have "m' = m" by (force simp: remove_keys_def)
      with that(1) evicted(1) assms(1) show "q' = q"
        by (auto simp: correlator_ok_def dest: eq_key_imp_eq_value)
    qed
    ultimately show ?thesis using evicted(3) by blast
  qed
qed

theorem correlator_bound_witness:
  "\<exists>r c. get_or_create_device SAMPLE_MAC SAMPLE_IP PNone 0 (empty_correlator 8) = (Inr r, c) \<and>
     ilen (by_mac c) \<le> max_devices c"
proof -
  obtain r c where eq: "get_or_create_device SAMPLE_MAC SAMPLE_IP PNone 0 (empty_correlator 8) = (Inr r, c)"
    using sample_lookup by blast
  have "ilen (by_mac (empty_correlator 8)) \<le> max_devices (empty_correlator 8)"
    "lookup (normalise_ip_address SAMPLE_IP) (by_ip (empty_correlator 8)) = None"
    by (simp_all add: empty_correlator_def lookup_def split: option.split)
  with correlator_bound [OF empty_correlator_ok eq] eq show ?thesis by blast
qed

text \<open>
  The exception is real: a new station that uses a known IP address gets the record of the station that
  had it, which keeps its MAC address, and the table of MAC addresses grows past its bound.
\<close>

lemma shared_address_merges_stations:
  "case get_or_create_device (PStr ''02:00:00:00:00:01'') (PStr ''10.0.0.7'') PNone 0 (empty_correlator 1) of
     (Inr r, c) \<Rightarrow>
       (case get_or_create_device (PStr ''02:00:00:00:00:02'') (PStr ''10.0.0.7'') PNone 0 c of
          (Inr q, c') \<Rightarrow> q = r \<and> ilen (by_mac c') = 2 \<and> max_devices c' = 1 \<and>
            map_option d_mac (device_at c' q) = Some (Some ''02:00:00:00:00:01'')
        | _ \<Rightarrow> False)
   | _ \<Rightarrow> False"
  by code_simp

end
