(* ===== verification/Protocols.thy ===== *)
theory Protocols
  imports Device
begin

text \<open>
  The protocol parsers of \<open>client/app/passive_protocol_listener.py\<close>: TLS ClientHello with its JA3
  fingerprint, DNS names and messages (mDNS, LLMNR and plain DNS), NetBIOS name service and SSDP.  They
  read untrusted payloads, so every read beyond the data is an exception (\<open>struct.error\<close>,
  \<open>ValueError\<close>) as in the source, caught where the source catches it.

  \<open>md5\<close> (the hash of a text) and the text codecs are parameters.
\<close>

section \<open>Texts and sources\<close>

definition byte_at :: "int \<Rightarrow> bytes \<Rightarrow> int" where
  "byte_at i data = (case idrop i data of [] \<Rightarrow> 0 | b # _ \<Rightarrow> b)"

definition normalise_text :: "int \<Rightarrow> pyval \<Rightarrow> string option" where
  "normalise_text limit value =
     (case value of
        PStr s \<Rightarrow>
          (let v = strip s in
           if v = [] \<or> ilen v > limit \<or> CHR 0x0D \<in> set v \<or> CHR 0x0A \<in> set v \<or> CHR 0x00 \<in> set v then None
           else Some v)
      | _ \<Rightarrow> None)"

text \<open>The addresses of the packet's source that are known.\<close>

definition source_data :: "pydict \<Rightarrow> pydict" where
  "source_data source =
     filter (\<lambda>(k, v). (k = ''ip_address'' \<or> k = ''mac_address'') \<and> v \<noteq> PNone) source"

definition updates :: "pydict \<Rightarrow> pydict \<Rightarrow> pydict" where
  "updates new d = fold (\<lambda>(k, v). dset k v) new d"

text \<open>The catch of \<open>ValueError\<close> and \<open>struct.error\<close>.\<close>

definition caught :: "'a result \<Rightarrow> 'a \<Rightarrow> 'a" where
  "caught r x = (case r of Inl e \<Rightarrow> x | Inr y \<Rightarrow> y)"

section \<open>Destinations\<close>

definition CLOUD_CIDR_MAP :: "(int \<times> int \<times> string \<times> string) list" where
  "CLOUD_CIDR_MAP =
     [(0x11100000, 0x111FFFFF, ''Apple'', ''Apple iCloud / Push''),
      (0x23000000, 0x23FFFFFF, ''Google'', ''Google Services''),
      (0x22000000, 0x22FFFFFF, ''Google'', ''Google Services''),
      (0x8EFA0000, 0x8EFAFFFF, ''Google'', ''Google DNS''),
      (0xD83ACF00, 0xD83ACF00, ''Google'', ''Google 8.8.8.8''),
      (0x34000000, 0x34FFFFFF, ''Microsoft'', ''Azure Services''),
      (0x35000000, 0x35FFFFFF, ''Microsoft'', ''Azure Services''),
      (0x28000000, 0x28FFFFFF, ''Microsoft'', ''Azure Services''),
      (0x68101000, 0x68101FFF, ''Cloudflare'', ''Cloudflare CDN''),
      (0x67D00000, 0x67DFFFFF, ''Cloudflare'', ''Cloudflare CDN''),
      (0x60000000, 0x600FFFFF, ''Akamai'', ''Akamai CDN''),
      (0x36000000, 0x36FFFFFF, ''AWS'', ''Amazon AWS''),
      (0x33000000, 0x33FFFFFF, ''AWS'', ''Amazon AWS''),
      (0xCDEF0000, 0xCDEFFFFF, ''Netflix'', ''Netflix CDN''),
      (0x9DF00000, 0x9DF0FFFF, ''Meta'', ''Meta/Facebook'')]"

definition lookup_destination_vendor :: "string option \<Rightarrow> pyval" where
  "lookup_destination_vendor dst_ip =
     (case given dst_ip of
        None \<Rightarrow> PNone
      | Some s \<Rightarrow>
          (case ipv4_of s of
             None \<Rightarrow> PNone
           | Some a \<Rightarrow>
               (case find (\<lambda>(lo, hi, _). lo \<le> a \<and> a \<le> hi) CLOUD_CIDR_MAP of
                  None \<Rightarrow> PNone
                | Some (_, _, provider, description) \<Rightarrow>
                    PDict [(''provider'', PStr provider), (''description'', PStr description),
                           (''destination_ip'', PStr s)])))"

section \<open>TLS ClientHello\<close>

record tls_hello =
  tls_sni :: "string option"
  tls_ja3_string :: string
  tls_ja3_hash :: string
  tls_ciphers :: int
  tls_extensions :: int
  tls_version :: int

text \<open>GREASE values: both bytes equal, each with the low half \<open>A\<close>.\<close>

definition grease :: "int \<Rightarrow> bool" where
  "grease v \<longleftrightarrow> v mod 16 = 10 \<and> v div 256 mod 16 = 10 \<and> v div 256 = v mod 256"

text \<open>\<open>for i in range(0, n, 2)\<close>: an odd length reads one byte more than the list has.\<close>

function cipher_suites :: "bytes \<Rightarrow> int \<Rightarrow> int \<Rightarrow> int list result" where
  "cipher_suites data pos n =
     (if n \<le> 0 then Inr []
      else then_do (be16_at data pos) (\<lambda>cs.
             then_do (cipher_suites data (pos + 2) (n - 2)) (\<lambda>rest.
               Inr (if grease cs then rest else cs # rest))))"
  by pat_completeness auto
termination
  by (relation "measure (\<lambda>(_, _, n). nat n)") auto

declare cipher_suites.simps [simp del]

function supported_groups :: "bytes \<Rightarrow> int \<Rightarrow> int \<Rightarrow> int list result" where
  "supported_groups ext i n =
     (if n \<le> i \<or> 2 + i + 2 > ilen ext then Inr []
      else then_do (be16_at ext (2 + i)) (\<lambda>g.
             then_do (supported_groups ext (i + 2) n) (\<lambda>rest. Inr (if grease g then rest else g # rest))))"
  by pat_completeness auto
termination
  by (relation "measure (\<lambda>(_, i, n). nat (n - i))") auto

declare supported_groups.simps [simp del]

record tls_ext =
  x_types :: "int list"
  x_curves :: "int list"
  x_points :: "int list"
  x_sni :: "string option"

definition server_name :: "codec \<Rightarrow> bytes \<Rightarrow> tls_ext \<Rightarrow> tls_ext result" where
  "server_name cd ext x =
     (if byte_at 2 ext \<noteq> 0 then Inr x
      else then_do (be16_at ext 3) (\<lambda>n.
             if ilen ext \<ge> 5 + n then Inr (x\<lparr>x_sni := Some (strip (ascii_replace cd (slice 5 (5 + n) ext)))\<rparr>)
             else Inr x))"

definition one_extension :: "codec \<Rightarrow> int \<Rightarrow> bytes \<Rightarrow> tls_ext \<Rightarrow> tls_ext result" where
  "one_extension cd ty ext x =
     (let x = x\<lparr>x_types := x_types x @ [ty]\<rparr> in
      if ty = 0 \<and> ilen ext \<ge> 5 then server_name cd ext x
      else if ty = 10 \<and> ilen ext \<ge> 2
      then then_do (be16_at ext 0) (\<lambda>n.
             then_do (supported_groups ext 0 n) (\<lambda>gs. Inr (x\<lparr>x_curves := x_curves x @ gs\<rparr>)))
      else if ty = 11 \<and> ilen ext \<ge> 1
      then Inr (x\<lparr>x_points := x_points x @ itake (byte_at 0 ext) (idrop 1 ext)\<rparr>)
      else Inr x)"

function extension_loop :: "codec \<Rightarrow> bytes \<Rightarrow> int \<Rightarrow> int \<Rightarrow> tls_ext \<Rightarrow> tls_ext result" where
  "extension_loop cd data pos stop x =
     (if pos + 4 \<le> stop \<and> pos + 4 \<le> ilen data
      then then_do (be16_at data pos) (\<lambda>ty. then_do (be16_at data (pos + 2)) (\<lambda>n.
             if n < 0 \<or> pos + 4 + n > ilen data then Inr x
             else if grease ty then extension_loop cd data (pos + 4 + n) stop x
             else then_do (one_extension cd ty (slice (pos + 4) (pos + 4 + n) data) x)
                    (extension_loop cd data (pos + 4 + n) stop)))
      else Inr x)"
  by pat_completeness auto
termination
  by (relation "measure (\<lambda>(_, _, pos, stop, _). nat (stop - pos))") auto

declare extension_loop.simps [simp del]

definition ja3_text :: "int \<Rightarrow> int list \<Rightarrow> tls_ext \<Rightarrow> string" where
  "ja3_text version ciphers x =
     (let dash = (\<lambda>ns. join ''-'' (map int_str ns))
      in join '','' [int_str version, dash ciphers, dash (x_types x), dash (x_curves x), dash (x_points x)])"

definition no_ext :: tls_ext where
  "no_ext = \<lparr>x_types = [], x_curves = [], x_points = [], x_sni = None\<rparr>"

text \<open>From the end of the cipher suites on.\<close>

definition hello_tail :: "(string \<Rightarrow> string) \<Rightarrow> codec \<Rightarrow> bytes \<Rightarrow> int \<Rightarrow> int list \<Rightarrow> int \<Rightarrow> tls_hello option result" where
  "hello_tail md5 cd data version ciphers pos =
     (if ilen data < pos + 1 then Inr None
      else (let pos = pos + 1 + byte_at pos data in
            then_do (if ilen data \<ge> pos + 2
                     then then_do (be16_at data pos) (\<lambda>total.
                            extension_loop cd data (pos + 2) (pos + 2 + total) no_ext)
                     else Inr no_ext) (\<lambda>x.
              let ja3 = ja3_text version ciphers x in
              Inr (Some \<lparr>tls_sni = x_sni x, tls_ja3_string = ja3, tls_ja3_hash = md5 ja3,
                         tls_ciphers = ilen ciphers, tls_extensions = ilen (x_types x),
                         tls_version = version\<rparr>))))"

definition parse_tls_client_hello :: "(string \<Rightarrow> string) \<Rightarrow> codec \<Rightarrow> bytes \<Rightarrow> tls_hello option result" where
  "parse_tls_client_hello md5 cd data =
     (if ilen data < 6 \<or> byte_at 0 data \<noteq> 22 then Inr None
      else then_do (be16_at data 3) (\<lambda>record_len.
        if ilen data < 5 + record_len \<or> byte_at 5 data \<noteq> 1 \<or> ilen data < 11 then Inr None
        else then_do (be16_at data 9) (\<lambda>version.
          if ilen data < 44 then Inr None
          else (let pos = 44 + byte_at 43 data in
            if ilen data < pos + 2 then Inr None
            else then_do (be16_at data pos) (\<lambda>n.
              if ilen data < pos + 2 + n then Inr None
              else then_do (cipher_suites data (pos + 2) n) (\<lambda>ciphers.
                hello_tail md5 cd data version ciphers (pos + 2 + n)))))))"

section \<open>DNS\<close>

definition MAX_DEPTH :: int where
  "MAX_DEPTH = 12"

text \<open>
  \<open>_read_dns_name\<close>: the loop over labels, entered for a name at \<open>offset\<close> through \<open>read_dns_name\<close>.  A
  compression pointer starts a name one level deeper, at most twelve; a label advances the cursor.
\<close>

function dns_labels :: "codec \<Rightarrow> bytes \<Rightarrow> int \<Rightarrow> int \<Rightarrow> string list \<Rightarrow> (string \<times> int) result" where
  "dns_labels cd data depth cursor labels =
     (if cursor \<ge> ilen data then raise_exc ValueError ''truncated DNS name''
      else (let n = byte_at cursor data in
        if n = 0 then Inr (join ''.'' labels, cursor + 1)
        else if n \<ge> 192
        then (if cursor + 1 \<ge> ilen data then raise_exc ValueError ''truncated DNS pointer''
              else (let pointer = (n mod 64) * 256 + byte_at (cursor + 1) data in
                if depth + 1 > MAX_DEPTH \<or> pointer \<ge> ilen data then raise_exc ValueError ''invalid DNS name''
                else then_do (dns_labels cd data (depth + 1) pointer []) (\<lambda>(name, _).
                       Inr (join ''.'' (filter (\<lambda>l. l \<noteq> []) (labels @ [name])), cursor + 2))))
        else if n < 0 \<or> n \<ge> 64 \<or> cursor + 1 + n > ilen data then raise_exc ValueError ''invalid DNS label''
        else dns_labels cd data depth (cursor + 1 + n)
               (labels @ [utf8_replace cd (slice (cursor + 1) (cursor + 1 + n) data)])))"
  by pat_completeness auto
termination
  by (relation "measures [\<lambda>(_, _, depth, _, _). nat (MAX_DEPTH - depth), \<lambda>(_, data, _, cursor, _). nat (ilen data - cursor)]")
     (auto simp: MAX_DEPTH_def)

declare dns_labels.simps [simp del]

definition read_dns_name :: "codec \<Rightarrow> bytes \<Rightarrow> int \<Rightarrow> (string \<times> int) result" where
  "read_dns_name cd data offset =
     (if offset \<ge> ilen data then raise_exc ValueError ''invalid DNS name'' else dns_labels cd data 0 offset [])"

record dns_record =
  rr_name :: string
  rr_type :: int
  rr_class :: int
  rr_data :: bytes
  rr_offset :: int

function dns_questions :: "codec \<Rightarrow> bytes \<Rightarrow> int \<Rightarrow> int \<Rightarrow> ((string \<times> int) list \<times> int) result" where
  "dns_questions cd data n offset =
     (if n \<le> 0 then Inr ([], offset)
      else then_do (read_dns_name cd data offset) (\<lambda>(name, off).
             then_do (be16_at data off) (\<lambda>ty. then_do (be16_at data (off + 2)) (\<lambda>_.
               then_do (dns_questions cd data (n - 1) (off + 4)) (\<lambda>(qs, off). Inr ((name, ty) # qs, off))))))"
  by pat_completeness auto
termination
  by (relation "measure (\<lambda>(_, _, n, _). nat n)") auto

declare dns_questions.simps [simp del]

function dns_records :: "codec \<Rightarrow> bytes \<Rightarrow> int \<Rightarrow> int \<Rightarrow> dns_record list result" where
  "dns_records cd data n offset =
     (if n \<le> 0 then Inr []
      else then_do (read_dns_name cd data offset) (\<lambda>(name, off).
             then_do (be16_at data off) (\<lambda>ty. then_do (be16_at data (off + 2)) (\<lambda>cls.
             then_do (be32_at data (off + 4)) (\<lambda>_. then_do (be16_at data (off + 8)) (\<lambda>len.
               if off + 10 + len > ilen data then raise_exc ValueError ''truncated DNS record''
               else then_do (dns_records cd data (n - 1) (off + 10 + len)) (\<lambda>rs.
                      Inr (\<lparr>rr_name = name, rr_type = ty, rr_class = cls,
                            rr_data = slice (off + 10) (off + 10 + len) data, rr_offset = off + 10\<rparr> # rs)))))))) "
  by pat_completeness auto
termination
  by (relation "measure (\<lambda>(_, _, n, _). nat n)") auto

declare dns_records.simps [simp del]

definition parse_dns_message :: "codec \<Rightarrow> bytes \<Rightarrow> bool \<times> (string \<times> int) list \<times> dns_record list" where
  "parse_dns_message cd data =
     (if ilen data < 12 then (False, [], [])
      else (let count = (\<lambda>i. be (slice i (i + 2) data)) in
        caught
          (then_do (dns_questions cd data (count 4) 12) (\<lambda>(questions, offset).
             then_do (dns_records cd data (count 6 + count 8 + count 10) offset) (\<lambda>records.
               Inr (count 2 div 32768 mod 2 = 1, questions, records))))
          (False, [], [])))"

text \<open>\<open>value.split("=", 1)\<close>, the second part empty without the sign.\<close>

definition split_equals :: "string \<Rightarrow> string \<times> string" where
  "split_equals v = (takeWhile (\<lambda>c. c \<noteq> CHR ''='') v, drop 1 (dropWhile (\<lambda>c. c \<noteq> CHR ''='') v))"

definition MAX_RAW_FIELDS :: int where
  "MAX_RAW_FIELDS = 16"

definition MAX_RAW_FIELD_SIZE :: int where
  "MAX_RAW_FIELD_SIZE = 512"

function dns_txt :: "codec \<Rightarrow> bytes \<Rightarrow> pydict \<Rightarrow> pydict" where
  "dns_txt cd [] result = result"
| "dns_txt cd (len # rest) result =
     (if ilen result \<ge> MAX_RAW_FIELDS then result
      else if len > ilen rest then []
      else (let (k, v) = split_equals (strip (utf8_replace cd (itake len rest))) in
            dns_txt cd (idrop len rest)
              (case (normalise_text 64 (PStr k), normalise_text MAX_RAW_FIELD_SIZE (PStr v)) of
                 (Some key, Some item) \<Rightarrow> dset key (PStr item) result
               | _ \<Rightarrow> result)))"
  by pat_completeness auto
termination
  by (relation "measure (\<lambda>(_, bs, _). length bs)") (auto simp: idrop_drop)

definition parse_dns_txt :: "codec \<Rightarrow> bytes \<Rightarrow> pydict" where
  "parse_dns_txt cd data = dns_txt cd data []"

text \<open>The observation of one answer record; a record that says nothing or does not parse gives none.\<close>

definition record_fields :: "codec \<Rightarrow> string \<Rightarrow> bytes \<Rightarrow> dns_record \<Rightarrow> pydict option result" where
  "record_fields cd protocol payload r =
     (let name = PStr (rr_name r); rdata = rr_data r; mdns = (protocol = ''mdns'') in
      if rr_type r = 1 \<and> ilen rdata = 4
      then Inr (Some [(''hostname'', name), (''ip_address'', PStr (ipv4_str (be rdata)))])
      else if rr_type r = 28 \<and> ilen rdata = 16
      then Inr (Some [(''hostname'', name), (''ip_address'', PStr (ipv6_str (be rdata)))])
      else if mdns \<and> rr_type r = 12
      then then_do (read_dns_name cd payload (rr_offset r)) (\<lambda>(service, _).
             Inr (Some [(''service_type'', name), (''service_name'', PStr service)]))
      else if mdns \<and> rr_type r = 33 \<and> ilen rdata \<ge> 6
      then then_do (be16_at rdata 4) (\<lambda>port. then_do (read_dns_name cd payload (rr_offset r + 6)) (\<lambda>(target, _).
             Inr (Some [(''service_name'', name), (''hostname'', PStr target), (''service_port'', PInt port)])))
      else if mdns \<and> rr_type r = 16
      then Inr (Some [(''service_name'', name), (''raw_fields'', PDict [(''txt'', PDict (parse_dns_txt cd rdata))])])
      else Inr None)"

definition dns_observations :: "codec \<Rightarrow> string \<Rightarrow> bytes \<Rightarrow> pydict \<Rightarrow> pydict list" where
  "dns_observations cd protocol payload source =
     (let (is_response, questions, records) = parse_dns_message cd payload;
          base = (\<lambda>kind. updates (source_data source)
                     [(''protocol'', PStr protocol), (''observation_kind'', PStr kind)])
      in if \<not> is_response
         then map (\<lambda>(name, _). updates (source_data source)
                [(''protocol'', PStr protocol), (''observation_kind'', PStr ''query''), (''hostname'', PStr name)])
                questions
         else concat (map (\<lambda>r. case caught (record_fields cd protocol payload r) None of
                                  None \<Rightarrow> [] | Some fs \<Rightarrow> [updates fs (base ''response'')]) records))"

section \<open>NetBIOS name service\<close>

function nbns_scope :: "bytes \<Rightarrow> int \<Rightarrow> int result" where
  "nbns_scope data cursor =
     (if cursor \<ge> ilen data then raise_exc ValueError ''truncated NBNS name''
      else (let n = byte_at cursor data in
        if n = 0 then Inr (cursor + 1)
        else if n < 0 \<or> n \<ge> 64 \<or> cursor + 1 + n > ilen data then raise_exc ValueError ''invalid NBNS scope''
        else nbns_scope data (cursor + 1 + n)))"
  by pat_completeness auto
termination
  by (relation "measure (\<lambda>(data, cursor). nat (ilen data - cursor))") auto

declare nbns_scope.simps [simp del]

text \<open>Two letters \<open>A\<close> to \<open>P\<close> give one byte.\<close>

fun nbns_decode :: "bytes \<Rightarrow> bytes" where
  "nbns_decode (a # b # rest) = ((a - 65) * 16 + (b - 65)) # nbns_decode rest"
| "nbns_decode bs = []"

definition decode_nbns_name :: "codec \<Rightarrow> bytes \<Rightarrow> int \<Rightarrow> (string \<times> int) result" where
  "decode_nbns_name cd data offset =
     (if offset \<ge> ilen data \<or> byte_at offset data \<noteq> 32 \<or> offset + 33 > ilen data
      then raise_exc ValueError ''invalid NBNS name''
      else (let encoded = slice (offset + 1) (offset + 33) data in
        if list_ex (\<lambda>b. b < 65 \<or> b > 80) encoded then raise_exc ValueError ''invalid NBNS encoded name''
        else then_do (nbns_scope data (offset + 33)) (\<lambda>cursor.
               Inr (rstrip (ascii_replace cd (itake 15 (nbns_decode encoded))), cursor))))"

definition nbns_base :: "string \<Rightarrow> string \<Rightarrow> pydict \<Rightarrow> pydict" where
  "nbns_base kind name source =
     updates (source_data source)
       [(''protocol'', PStr ''nbns''), (''observation_kind'', PStr kind), (''hostname'', PStr name)]"

function nbns_questions :: "codec \<Rightarrow> string \<Rightarrow> pydict \<Rightarrow> bytes \<Rightarrow> int \<Rightarrow> int \<Rightarrow> (pydict list \<times> int) result" where
  "nbns_questions cd kind source data n offset =
     (if n \<le> 0 then Inr ([], offset)
      else then_do (decode_nbns_name cd data offset) (\<lambda>(name, off).
             then_do (be16_at data off) (\<lambda>_. then_do (be16_at data (off + 2)) (\<lambda>_.
               then_do (nbns_questions cd kind source data (n - 1) (off + 4)) (\<lambda>(os, off).
                 Inr (nbns_base kind name source # os, off))))))"
  by pat_completeness auto
termination
  by (relation "measure (\<lambda>(_, _, _, _, n, _). nat n)") auto

declare nbns_questions.simps [simp del]

text \<open>A record cut off by the end of the data ends the list, without an exception.\<close>

function nbns_records :: "codec \<Rightarrow> string \<Rightarrow> pydict \<Rightarrow> bytes \<Rightarrow> int \<Rightarrow> int \<Rightarrow> pydict list result" where
  "nbns_records cd kind source data n offset =
     (if n \<le> 0 then Inr []
      else then_do (decode_nbns_name cd data offset) (\<lambda>(name, off).
             then_do (be16_at data off) (\<lambda>ty. then_do (be16_at data (off + 2)) (\<lambda>_.
             then_do (be32_at data (off + 4)) (\<lambda>_. then_do (be16_at data (off + 8)) (\<lambda>len.
               let rdata = slice (off + 10) (off + 10 + len) data;
                   ob = nbns_base kind name source;
                   ob = (if ty = 32 \<and> ilen rdata \<ge> 6
                         then dset ''raw_fields'' (PDict [(''name_type'', PStr ''netbios'')])
                                (dset ''ip_address'' (PStr (ipv4_str (be (idrop (ilen rdata - 4) rdata)))) ob)
                         else ob)
               in if ilen rdata \<noteq> len then Inr []
                  else then_do (nbns_records cd kind source data (n - 1) (off + 10 + len)) (\<lambda>os. Inr (ob # os))))))))"
  by pat_completeness auto
termination
  by (relation "measure (\<lambda>(_, _, _, _, n, _). nat n)") auto

declare nbns_records.simps [simp del]

definition parse_nbns_payload :: "codec \<Rightarrow> bytes \<Rightarrow> pydict \<Rightarrow> pydict list" where
  "parse_nbns_payload cd data source =
     (if ilen data < 12 then []
      else (let count = (\<lambda>i. be (slice i (i + 2) data));
                kind = (if count 2 div 32768 mod 2 = 1 then ''response'' else ''query'')
            in caught
                 (then_do (nbns_questions cd kind source data (count 4) 12) (\<lambda>(qs, offset).
                    then_do (nbns_records cd kind source data (count 6 + count 8 + count 10) offset) (\<lambda>rs.
                      Inr (qs @ rs)))) []))"

section \<open>SSDP\<close>

fun crlf_to_lf :: "string \<Rightarrow> string" where
  "crlf_to_lf (a # b # cs) =
     (if a = CHR 0x0D \<and> b = CHR 0x0A then CHR 0x0A # crlf_to_lf cs else a # crlf_to_lf (b # cs))"
| "crlf_to_lf s = s"

definition SSDP_HEADERS :: "string list" where
  "SSDP_HEADERS = [''nt'', ''st'', ''usn'', ''server'', ''location'', ''cache-control'', ''host'', ''man'']"

definition ssdp_header :: "string \<Rightarrow> (string \<times> string) option" where
  "ssdp_header line =
     (if CHR '':'' \<notin> set line then None
      else (let key = lower (strip (takeWhile (\<lambda>c. c \<noteq> CHR '':'') line));
                value = normalise_text 2048 (PStr (drop 1 (dropWhile (\<lambda>c. c \<noteq> CHR '':'') line)))
            in case value of
                 None \<Rightarrow> None
               | Some v \<Rightarrow> if key \<in> set SSDP_HEADERS then Some (key, v) else None))"

text \<open>Lines up to the first empty one; a repeated header replaces the earlier one.\<close>

fun ssdp_headers :: "string list \<Rightarrow> (string \<times> string) list \<Rightarrow> (string \<times> string) list" where
  "ssdp_headers [] h = h"
| "ssdp_headers (line # lines) h =
     (if line = [] then h
      else ssdp_headers lines (case ssdp_header line of None \<Rightarrow> h | Some (k, v) \<Rightarrow> dset k v h))"

definition ssdp_kind :: "string \<Rightarrow> string option" where
  "ssdp_kind first_line =
     (let start = upper (strip first_line) in
      if prefix ''NOTIFY '' start then Some ''advertisement''
      else if prefix ''M-SEARCH '' start then Some ''search''
      else if prefix ''HTTP/1.'' start then Some ''response''
      else None)"

definition header_value :: "(string \<times> string) list \<Rightarrow> string \<Rightarrow> pyval" where
  "header_value h k = opt_str (map_of h k)"

definition parse_ssdp_payload :: "codec \<Rightarrow> bytes \<Rightarrow> pydict \<Rightarrow> pydict list" where
  "parse_ssdp_payload cd payload source =
     (case split_char (CHR 0x0A) (crlf_to_lf (utf8_replace cd (itake 8192 payload))) of
        [] \<Rightarrow> []
      | line # lines \<Rightarrow>
          if line = [] then []
          else (case ssdp_kind line of
            None \<Rightarrow> []
          | Some kind \<Rightarrow>
              (let h = ssdp_headers lines [];
                   raw = concat (map (\<lambda>(i, out). case map_of h i of None \<Rightarrow> [] | Some v \<Rightarrow> [(out, PStr v)])
                           [(''usn'', ''usn''), (''cache-control'', ''cache_control''), (''host'', ''host''),
                            (''man'', ''man'')])
               in [[(''protocol'', PStr ''ssdp''), (''observation_kind'', PStr kind),
                    (''ip_address'', dget source ''ip_address''), (''mac_address'', dget source ''mac_address''),
                    (''device_type'', py_or (header_value h ''nt'') (header_value h ''st'')),
                    (''server'', header_value h ''server''), (''location'', header_value h ''location''),
                    (''raw_fields'', PDict raw)]])))"

section \<open>Reading stays inside the data\<close>

lemma ilen_nonneg: "0 \<le> ilen xs"
  by (simp add: ilen_length)

lemma ilen_append [simp]: "ilen (xs @ ys) = ilen xs + ilen ys"
  by (simp add: ilen_length)

lemma byte_at_append: "0 \<le> i \<Longrightarrow> byte_at (ilen xs + i) (xs @ ys) = byte_at i ys"
  by (simp add: byte_at_def idrop_drop ilen_length nat_add_distrib)

lemma byte_at_0 [simp]: "byte_at 0 (b # bs) = b"
  by (simp add: byte_at_def)

lemma slice_append: "0 \<le> a \<Longrightarrow> slice (ilen xs + a) (ilen xs + b) (xs @ ys) = slice a b ys"
  by (simp add: slice_def itake_take idrop_drop ilen_length nat_add_distrib)

lemma dns_labels_bounds:
  "0 \<le> cursor \<Longrightarrow> dns_labels cd data depth cursor labels = Inr (s, off) \<Longrightarrow> cursor < off \<and> off \<le> ilen data"
proof (induction cd data depth cursor labels arbitrary: s off rule: dns_labels.induct)
  case (1 cd data depth cursor labels)
  define n where "n = byte_at cursor data"
  from "1.prems"(2) have here: "cursor < ilen data"
    by (subst (asm) dns_labels.simps) (auto split: if_splits)
  consider (root) "n = 0" | (pointer) "n \<ge> 192" | (label) "0 < n" "n < 64" "cursor + 1 + n \<le> ilen data"
    using "1.prems"(2) here by (subst (asm) dns_labels.simps) (auto simp: n_def Let_def split: if_splits)
  then show ?case
  proof cases
    case root
    with "1.prems"(2) here show ?thesis by (subst (asm) dns_labels.simps) (simp add: n_def)
  next
    case pointer
    with "1.prems"(2) here show ?thesis
      by (subst (asm) dns_labels.simps) (auto simp: n_def Let_def then_do_eq_Inr split: if_splits)
  next
    case label
    then have "dns_labels cd data depth (cursor + 1 + n)
        (labels @ [utf8_replace cd (slice (cursor + 1) (cursor + 1 + n) data)]) = Inr (s, off)"
      using "1.prems"(2) here by (subst (asm) dns_labels.simps) (simp add: n_def Let_def)
    with "1.IH"(2) [OF _ n_def] label here "1.prems"(1) show ?thesis by (simp add: n_def)
  qed
qed

text \<open>A name that is read ends after its start and inside the message, however the pointers in it
  lead, so a reader of questions and records always advances.\<close>

theorem dns_name_bounds:
  assumes "0 \<le> offset" and "read_dns_name cd data offset = Inr (s, off)"
  shows "offset < off \<and> off \<le> ilen data"
  using assms dns_labels_bounds by (simp add: read_dns_name_def split: if_splits)

text \<open>What a sender writes for a name: each label after its length, and a zero.\<close>

definition encode_dns_name :: "bytes list \<Rightarrow> bytes" where
  "encode_dns_name labels = concat (map (\<lambda>l. ilen l # l) labels) @ [0]"

lemma slice_label: "slice 1 (1 + ilen l) (n # l @ rest) = l"
  by (simp add: slice_def itake_append idrop_drop)

lemma ilen_pos: "0 < 1 + ilen xs"
  using ilen_nonneg [of xs] by linarith

lemma dns_labels_encode:
  "list_all (\<lambda>l. 1 \<le> ilen l \<and> ilen l \<le> 63) ls \<Longrightarrow>
   dns_labels cd (pre @ encode_dns_name ls @ post) depth (ilen pre) seen
   = Inr (join ''.'' (seen @ map (utf8_replace cd) ls), ilen pre + ilen (encode_dns_name ls))"
proof (induction ls arbitrary: pre seen)
  case Nil
  have "byte_at (ilen pre + 0) (pre @ 0 # post) = 0" by (simp only: byte_at_append byte_at_0)
  then show ?case
    by (subst dns_labels.simps) (simp add: encode_dns_name_def not_le ilen_pos)
next
  case (Cons l ls)
  let ?n = "ilen l" and ?tail = "encode_dns_name ls @ post"
  have data: "pre @ encode_dns_name (l # ls) @ post = pre @ ?n # l @ ?tail"
    by (simp add: encode_dns_name_def)
  have n: "byte_at (ilen pre) (pre @ ?n # l @ ?tail) = ?n"
    using byte_at_append [of 0 pre "?n # l @ ?tail"] by simp
  have lab: "slice (ilen pre + 1) (ilen pre + 1 + ?n) (pre @ ?n # l @ ?tail) = l"
    using slice_append [of 1 pre "1 + ?n" "?n # l @ ?tail"] slice_label [of l ?n ?tail] by (simp add: add.assoc)
  have next_data: "pre @ ?n # l @ ?tail = (pre @ ?n # l) @ ?tail" by simp
  have IH: "dns_labels cd (pre @ ?n # l @ ?tail) depth (ilen pre + 1 + ?n) (seen @ [utf8_replace cd l])
      = Inr (join ''.'' (seen @ map (utf8_replace cd) (l # ls)), ilen pre + ilen (encode_dns_name (l # ls)))"
    unfolding next_data using Cons.IH [of "pre @ ?n # l" "seen @ [utf8_replace cd l]"] Cons.prems
    by (simp add: encode_dns_name_def algebra_simps)
  show ?case
    unfolding data using Cons.prems IH lab n ilen_nonneg [of "encode_dns_name ls"] ilen_nonneg [of post]
    by (subst dns_labels.simps) (simp add: Let_def)
qed

text \<open>C37.  A name written with its labels, anywhere in a message, is read back as those labels, decoded and
  joined by points, and reading ends right after it.\<close>

theorem dns_name_roundtrip:
  assumes "list_all (\<lambda>l. 1 \<le> ilen l \<and> ilen l \<le> 63) ls"
  shows "read_dns_name cd (pre @ encode_dns_name ls @ post) (ilen pre)
    = Inr (join ''.'' (map (utf8_replace cd) ls), ilen pre + ilen (encode_dns_name ls))"
proof -
  have "\<not> ilen (pre @ encode_dns_name ls @ post) \<le> ilen pre"
    using add_nonneg_pos [OF ilen_nonneg [of "concat (map (\<lambda>l. ilen l # l) ls)"] ilen_pos [of post]]
    by (simp add: encode_dns_name_def not_le)
  with dns_labels_encode [OF assms, of cd pre post 0 "[]"] show ?thesis
    by (simp add: read_dns_name_def)
qed

definition ASCII :: codec where
  "ASCII = \<lparr>utf8_ignore = map char_of, utf8_replace = map char_of, ascii_replace = map char_of\<rparr>"

theorem dns_name_roundtrip_witness:
  "read_dns_name ASCII ([9, 9] @ encode_dns_name [[116, 118], [108, 97, 110]] @ [7]) (ilen [9, 9 :: int])
    = Inr (''tv.lan'', ilen [9, 9 :: int] + ilen (encode_dns_name [[116, 118], [108, 97, 110]]))"
proof -
  have "join ''.'' (map (utf8_replace ASCII) [[116, 118], [108, 97, 110]]) = ''tv.lan''" by code_simp
  with dns_name_roundtrip [of "[[116, 118], [108, 97, 110]]" ASCII "[9, 9]" "[7]"] show ?thesis by simp
qed

theorem dns_name_bounds_witness:
  "\<exists>s off. read_dns_name ASCII [2, 116, 118, 0, 192, 0] 4 = Inr (s, off) \<and> 4 < off \<and>
     off \<le> ilen [2, 116, 118, 0, 192, 0 :: int]"
proof -
  have "case read_dns_name ASCII [2, 116, 118, 0, 192, 0] 4 of Inr _ \<Rightarrow> True | _ \<Rightarrow> False" by code_simp
  then obtain s off where "read_dns_name ASCII [2, 116, 118, 0, 192, 0] 4 = Inr (s, off)"
    by (auto split: sum.splits)
  with dns_name_bounds [OF _ this] show ?thesis by simp
qed

section \<open>NetBIOS names\<close>

text \<open>The first-level encoding of a name of sixteen bytes.\<close>

definition encode_nbns_name :: "bytes \<Rightarrow> bytes" where
  "encode_nbns_name name = 32 # concat (map (\<lambda>b. [65 + b div 16, 65 + b mod 16]) name) @ [0]"

lemma nbns_decode_encode: "nbns_decode (concat (map (\<lambda>b. [65 + b div 16, 65 + b mod 16]) name)) = name"
  by (induction name) simp_all

lemma nbns_letters:
  assumes "byte_range name"
  shows "\<not> list_ex (\<lambda>b. b < 65 \<or> b > 80) (concat (map (\<lambda>b. [65 + b div 16, 65 + b mod 16]) name))"
proof -
  have "0 \<le> b div 16 \<and> b div 16 < 16 \<and> 0 \<le> b mod 16 \<and> b mod 16 < 16" if "0 \<le> b" "b < 256" for b :: int
    using that by (simp add: pos_imp_zdiv_nonneg_iff)
  with assms show ?thesis by (fastforce simp: byte_range_def list_ex_iff list_all_iff)
qed

text \<open>A sixteen-byte NetBIOS name in its encoding, anywhere in a message, is read back as its first
  fifteen bytes, decoded and without the trailing blanks, and reading ends right after it.\<close>

theorem nbns_name_roundtrip:
  assumes "ilen name = 16" and "byte_range name"
  shows "decode_nbns_name cd (pre @ encode_nbns_name name @ post) (ilen pre)
    = Inr (rstrip (ascii_replace cd (itake 15 name)), ilen pre + 34)"
proof -
  define code where "code = concat (map (\<lambda>b. [65 + b div 16, 65 + b mod 16]) name)"
  have len: "ilen code = 32"
  proof -
    have "ilen (concat (map (\<lambda>b. [65 + b div 16, 65 + b mod 16]) bs)) = 2 * ilen bs" for bs :: bytes
      by (induction bs) simp_all
    with assms(1) show ?thesis by (simp add: code_def)
  qed
  let ?data = "pre @ 32 # code @ 0 # post"
  have data: "pre @ encode_nbns_name name @ post = ?data" by (simp add: encode_nbns_name_def code_def)
  have first: "byte_at (ilen pre) ?data = 32"
    using byte_at_append [of 0 pre "32 # code @ 0 # post"] by simp
  have encoded: "slice (ilen pre + 1) (ilen pre + 33) ?data = code"
    using slice_append [of 1 pre 33 "32 # code @ 0 # post"] slice_label [of code 32 "0 # post"] len by simp
  have "?data = (pre @ 32 # code) @ 0 # post" by simp
  then have last: "byte_at (ilen pre + 33) ?data = 0"
    using byte_at_append [of 0 "pre @ 32 # code" "0 # post"] len by simp
  have total: "ilen ?data = ilen pre + 34 + ilen post" using len by simp
  then have "nbns_scope ?data (ilen pre + 33) = Inr (ilen pre + 34)"
    using last by (subst nbns_scope.simps) (simp add: Let_def not_le ilen_pos)
  with first encoded total nbns_letters [OF assms(2)] show ?thesis
    unfolding data decode_nbns_name_def code_def [symmetric] using ilen_nonneg [of post] len
    by (simp add: Let_def) (simp add: code_def nbns_decode_encode)
qed

theorem nbns_name_roundtrip_witness:
  "decode_nbns_name ASCII ([1] @ encode_nbns_name ([80, 67] @ zeros 0 @ replicate 14 32) @ []) (ilen [1 :: int])
    = Inr (''PC'', ilen [1 :: int] + 34)"
proof -
  have "ilen ([80, 67] @ zeros 0 @ replicate 14 32) = 16" "byte_range ([80, 67] @ zeros 0 @ replicate 14 32)"
    "rstrip (ascii_replace ASCII (itake 15 ([80, 67] @ zeros 0 @ replicate 14 32))) = ''PC''" by code_simp+
  with nbns_name_roundtrip [of "[80, 67] @ zeros 0 @ replicate 14 32" ASCII "[1]" "[]"] show ?thesis by simp
qed

section \<open>ClientHello\<close>

lemma cipher_suites_even:
  "n \<le> 0 \<or> 0 \<le> pos \<and> pos + n \<le> ilen data \<Longrightarrow> n mod 2 = 0 \<Longrightarrow>
   \<exists>cs. cipher_suites data pos n = Inr cs \<and> list_all (\<lambda>c. \<not> grease c) cs"
proof (induction data pos n rule: cipher_suites.induct)
  case (1 data pos n)
  show ?case
  proof (cases "n \<le> 0")
    case True
    then show ?thesis by (subst cipher_suites.simps) simp
  next
    case False
    with "1.prems"(2) have "2 \<le> n" by presburger
    with "1.prems" have read: "be16_at data pos = Inr (be (slice pos (pos + 2) data))"
      by (simp add: be16_at_def)
    have "\<exists>cs. cipher_suites data (pos + 2) (n - 2) = Inr cs \<and> list_all (\<lambda>c. \<not> grease c) cs"
      using "1.prems" False by (intro "1.IH") simp_all
    with False read show ?thesis by (subst cipher_suites.simps) auto
  qed
qed

lemma cipher_suites_raise: "cipher_suites data pos n = Inl e \<Longrightarrow> 0 \<le> pos \<Longrightarrow> pos + n \<le> ilen data \<Longrightarrow> n mod 2 = 1"
  using cipher_suites_even [of n pos data] by force

lemma supported_groups_total: "0 \<le> i \<Longrightarrow> \<exists>gs. supported_groups ext i n = Inr gs \<and> list_all (\<lambda>g. \<not> grease g) gs"
proof (induction ext i n rule: supported_groups.induct)
  case (1 ext i n)
  show ?case
  proof (cases "n \<le> i \<or> 2 + i + 2 > ilen ext")
    case True
    then show ?thesis by (subst supported_groups.simps) simp
  next
    case False
    then have read: "be16_at ext (2 + i) = Inr (be (slice (2 + i) (2 + i + 2) ext))"
      by (simp add: be16_at_def)
    have "\<exists>gs. supported_groups ext (i + 2) n = Inr gs \<and> list_all (\<lambda>g. \<not> grease g) gs"
      using "1.prems" by (intro "1.IH" False) simp
    with False read show ?thesis by (subst supported_groups.simps) auto
  qed
qed

text \<open>What the extensions collect is free of GREASE values.\<close>

definition plain_ext :: "tls_ext \<Rightarrow> bool" where
  "plain_ext x \<longleftrightarrow> list_all (\<lambda>t. \<not> grease t) (x_types x) \<and> list_all (\<lambda>g. \<not> grease g) (x_curves x)"

lemma one_extension_total:
  assumes "plain_ext x" "\<not> grease ty"
  shows "\<exists>y. one_extension cd ty ext x = Inr y \<and> plain_ext y"
proof -
  have x: "plain_ext (x\<lparr>x_types := x_types x @ [ty]\<rparr>)" using assms by (simp add: plain_ext_def)
  have keep: "plain_ext (z\<lparr>x_sni := s\<rparr>) = plain_ext z" "plain_ext (z\<lparr>x_points := p\<rparr>) = plain_ext z" for z s p
    by (simp_all add: plain_ext_def)
  have "\<exists>y. server_name cd ext z = Inr y \<and> plain_ext y" if "5 \<le> ilen ext" "plain_ext z" for z
    using that by (auto simp: server_name_def be16_at_def keep)
  moreover obtain gs where "supported_groups ext 0 (be (slice 0 2 ext)) = Inr gs" "list_all (\<lambda>g. \<not> grease g) gs"
    using supported_groups_total [of 0 ext] by auto
  moreover from this x have "plain_ext (x\<lparr>x_types := x_types x @ [ty], x_curves := x_curves x @ gs\<rparr>)"
    by (simp add: plain_ext_def)
  ultimately show ?thesis
    using x by (auto simp: one_extension_def Let_def be16_at_def keep)
qed

lemma extension_loop_total:
  "0 \<le> pos \<Longrightarrow> plain_ext x \<Longrightarrow> \<exists>y. extension_loop cd data pos stop x = Inr y \<and> plain_ext y"
proof (induction cd data pos stop x rule: extension_loop.induct)
  case (1 cd data pos stop x)
  show ?case
  proof (cases "pos + 4 \<le> stop \<and> pos + 4 \<le> ilen data")
    case False
    with "1.prems" show ?thesis by (subst extension_loop.simps) auto
  next
    case True
    define ty n where "ty = be (slice pos (pos + 2) data)" and "n = be (slice (pos + 2) (pos + 2 + 2) data)"
    from True have reads: "be16_at data pos = Inr ty" "be16_at data (pos + 2) = Inr n"
      by (simp_all add: be16_at_def ty_def n_def)
    show ?thesis
    proof (cases "n < 0 \<or> pos + 4 + n > ilen data")
      case stop: True
      with True reads "1.prems" show ?thesis by (subst extension_loop.simps) auto
    next
      case go: False
      show ?thesis
      proof (cases "grease ty")
        case grs: True
        have "\<exists>y. extension_loop cd data (pos + 4 + n) stop x = Inr y \<and> plain_ext y"
          using "1.prems" go by (intro "1.IH"(1) [OF True go grs]) simp_all
        with True reads go grs show ?thesis by (subst extension_loop.simps) auto
      next
        case plain: False
        obtain y where y: "one_extension cd ty (slice (pos + 4) (pos + 4 + n) data) x = Inr y" "plain_ext y"
          using one_extension_total [OF "1.prems"(2) plain] by blast
        have "\<exists>z. extension_loop cd data (pos + 4 + n) stop y = Inr z \<and> plain_ext z"
          using "1.prems" y go by (intro "1.IH"(2) [OF True go plain]) simp_all
        with True reads go plain y show ?thesis by (subst extension_loop.simps) auto
      qed
    qed
  qed
qed

text \<open>The length field of the cipher suites, where a hello that is complete so far has it.\<close>

definition cipher_list_length :: "bytes \<Rightarrow> int" where
  "cipher_list_length data = (let pos = 44 + byte_at 43 data in be (slice pos (pos + 2) data))"

lemma byte_at_nonneg: "byte_range data \<Longrightarrow> 0 \<le> byte_at i data"
  using byte_range_idrop [of data i] by (cases "idrop i data") (simp_all add: byte_at_def byte_range_def)

text \<open>Parsing a ClientHello raises nothing but for one shape of payload: a complete record whose list of
  cipher suites has an odd length (the loop then reads one byte more than the list has).\<close>

theorem client_hello_raises_only_on_odd_ciphers:
  assumes "byte_range data" and "parse_tls_client_hello md5 cd data = Inl e"
  shows "cipher_list_length data mod 2 = 1"
proof -
  have tail: "\<exists>r. hello_tail md5 cd data version ciphers pos = Inr r" if "0 \<le> pos" for version ciphers pos
  proof -
    have b: "0 \<le> byte_at pos data" by (rule byte_at_nonneg [OF assms(1)])
    have "plain_ext no_ext" by (simp add: no_ext_def plain_ext_def)
    then have "\<exists>y. extension_loop cd data (pos + 1 + byte_at pos data + 2) stop no_ext = Inr y" for stop
      using extension_loop_total [of "pos + 1 + byte_at pos data + 2" no_ext] that b by fastforce
    then show ?thesis
      by (auto simp: hello_tail_def Let_def be16_at_def then_do_def split: sum.split) (metis sum.distinct(1))
  qed
  have b: "0 \<le> byte_at 43 data" by (rule byte_at_nonneg [OF assms(1)])
  from assms(2) obtain n where n: "n = cipher_list_length data" "44 + byte_at 43 data + 2 + n \<le> ilen data"
    and e: "then_do (cipher_suites data (44 + byte_at 43 data + 2) n) (\<lambda>ciphers.
      hello_tail md5 cd data (be (slice 9 11 data)) ciphers (44 + byte_at 43 data + 2 + n)) = Inl e"
    by (auto simp: parse_tls_client_hello_def be16_at_def Let_def cipher_list_length_def split: if_splits)
  show ?thesis
  proof (cases "cipher_suites data (44 + byte_at 43 data + 2) n")
    case (Inl e')
    from cipher_suites_raise [OF this] b n show ?thesis by simp
  next
    case (Inr cs)
    show ?thesis
    proof (cases "0 \<le> n")
      case True
      obtain r where "hello_tail md5 cd data (be (slice 9 11 data)) cs (44 + byte_at 43 data + 2 + n) = Inr r"
        using tail [of "44 + byte_at 43 data + 2 + n"] True b by fastforce
      with e Inr show ?thesis by simp
    next
      case False
      then show ?thesis
        using be_bound [OF byte_range_slice [OF assms(1)]] n(1) by (auto simp: cipher_list_length_def Let_def)
    qed
  qed
qed

text \<open>A hello of 47 bytes: no session id, and one byte of cipher suites.\<close>

definition odd_hello :: bytes where
  "odd_hello = [22, 3, 1, 0, 42, 1, 0, 0, 38, 3, 3] @ replicate 32 0 @ [0, 0, 1, 7]"

lemma client_hello_raises_only_on_odd_ciphers_witness:
  "\<exists>e. byte_range odd_hello \<and> parse_tls_client_hello (\<lambda>s. s) ASCII odd_hello = Inl e
      \<and> cipher_list_length odd_hello mod 2 = 1"
proof -
  have b: "byte_range odd_hello"
    by (simp add: odd_hello_def byte_range_def numeral_eq_Suc)
  have "case parse_tls_client_hello (\<lambda>s. s) ASCII odd_hello of Inl e \<Rightarrow> True | _ \<Rightarrow> False"
    by code_simp
  then obtain e where "parse_tls_client_hello (\<lambda>s. s) ASCII odd_hello = Inl e"
    by (auto split: sum.splits)
  with b client_hello_raises_only_on_odd_ciphers [OF b this] show ?thesis by blast
qed

end
