(* ===== verification/Observations.thy ===== *)
theory Observations
  imports Protocols
begin

text \<open>
  Passive observations, the first half of \<open>client/app/passive_protocol_listener.py\<close> without its parsers:
  the normal form of an observation, its key, the bounded buffer of observations, and the tracker of
  traffic per source address.  The clock and \<open>repr\<close> of floats are arguments.  Keys compare by their
  structure; all that the parsers put into them are texts and port numbers.  Integers are below the
  4300 digits at which Python refuses to write them.
\<close>

section \<open>Normal forms of fields\<close>

text \<open>\<open>int(s)\<close> of a text: an optional sign and digits, single underscores between them.\<close>

definition int_of_text :: "string \<Rightarrow> int option" where
  "int_of_text s =
     (let t = strip s;
          (sg, body) = (case t of [] \<Rightarrow> (1, []) | c # cs \<Rightarrow>
             if c = CHR ''-'' then (- 1, cs) else if c = CHR ''+'' then (1, cs) else (1, t));
          parts = split_char (CHR 0x5F) body; ds = concat parts
      in if list_ex (\<lambda>p. p = [] \<or> \<not> list_all is_digit p) parts \<or> ilen ds > 4300 then None
         else Some (sg * digits_val 0 ds))"

definition normalise_port :: "pyval \<Rightarrow> int option" where
  "normalise_port value =
     (case (case value of
              PInt i \<Rightarrow> Some i
            | PFloat r \<Rightarrow> Some (int_of_float r)
            | PStr s \<Rightarrow> int_of_text s
            | _ \<Rightarrow> None) of
        None \<Rightarrow> None
      | Some port \<Rightarrow> if 1 \<le> port \<and> port \<le> 65535 then Some port else None)"

text \<open>The length of \<open>json.dumps(v)\<close>, whose text is ASCII; sorting the keys does not change it.\<close>

definition json_char_size :: "char \<Rightarrow> int" where
  "json_char_size c =
     (let n = of_char c :: int in
      if c = CHR 0x22 \<or> c = CHR 0x5C \<or> n \<in> set [8, 9, 10, 12, 13] then 2
      else if n < 32 \<or> n > 126 then 6 else 1)"

definition json_str_size :: "string \<Rightarrow> int" where
  "json_str_size s = 2 + sum_list (map json_char_size s)"

fun json_size :: "(rat \<Rightarrow> string) \<Rightarrow> pyval \<Rightarrow> int" where
  "json_size repr PNone = 4"
| "json_size repr (PBool b) = (if b then 4 else 5)"
| "json_size repr (PInt i) = ilen (int_str i)"
| "json_size repr (PFloat r) = ilen (repr r)"
| "json_size repr (PStr s) = json_str_size s"
| "json_size repr (PList xs) = (if xs = [] then 2 else sum_list (map (\<lambda>x. json_size repr x + 2) xs))"
| "json_size repr (PDict d) =
     (if d = [] then 2 else sum_list (map (\<lambda>(k, v). json_str_size k + 2 + json_size repr v + 2) d))"

definition MAX_RAW_SERIALIZED_SIZE :: int where
  "MAX_RAW_SERIALIZED_SIZE = 4096"

definition put_nested :: "string \<times> pyval \<Rightarrow> pydict \<Rightarrow> pydict" where
  "put_nested kv nested =
     (case (normalise_text 64 (PStr (fst kv)), normalise_text MAX_RAW_FIELD_SIZE (snd kv)) of
        (Some k, Some v) \<Rightarrow> if ilen nested < MAX_RAW_FIELDS then dset k (PStr v) nested else nested
      | _ \<Rightarrow> nested)"

definition clean_element :: "pyval \<Rightarrow> pyval" where
  "clean_element v = (case v of PStr s \<Rightarrow> opt_str (normalise_text MAX_RAW_FIELD_SIZE v) | _ \<Rightarrow> v)"

text \<open>One field; the text of a value that is no container is bounded too (\<open>None\<close> becomes the text \<open>None\<close>).\<close>

definition put_raw :: "(pyval \<Rightarrow> string) \<Rightarrow> string \<times> pyval \<Rightarrow> pydict \<Rightarrow> pydict" where
  "put_raw repr kv result =
     (case normalise_text 64 (PStr (fst kv)) of
        None \<Rightarrow> result
      | Some k \<Rightarrow>
          if ilen result \<ge> MAX_RAW_FIELDS then result
          else (case snd kv of
                  PDict d \<Rightarrow>
                    (let nested = fold put_nested d [] in
                     if nested = [] then result else dset k (PDict nested) result)
                | PList xs \<Rightarrow> dset k (PList (map clean_element (itake MAX_RAW_FIELDS xs))) result
                | v \<Rightarrow>
                    (case normalise_text MAX_RAW_FIELD_SIZE (PStr (py_str repr v)) of
                       None \<Rightarrow> result
                     | Some t \<Rightarrow> dset k (case v of PInt _ \<Rightarrow> v | PFloat _ \<Rightarrow> v | PBool _ \<Rightarrow> v | _ \<Rightarrow> PStr t) result)))"

text \<open>The last fields go until the rest is small enough.\<close>

function shrink_raw :: "(rat \<Rightarrow> string) \<Rightarrow> pydict \<Rightarrow> pydict" where
  "shrink_raw repr d =
     (if d = [] \<or> json_size repr (PDict d) \<le> MAX_RAW_SERIALIZED_SIZE then d else shrink_raw repr (butlast d))"
  by pat_completeness auto
termination
  by (relation "measure (length \<circ> snd)") auto

declare shrink_raw.simps [simp del]

definition float_repr :: "(rat \<Rightarrow> string) \<Rightarrow> pyval \<Rightarrow> string" where
  "float_repr repr v = (case v of PFloat r \<Rightarrow> repr r | _ \<Rightarrow> [])"

definition normalise_raw_fields :: "(rat \<Rightarrow> string) \<Rightarrow> pyval \<Rightarrow> pydict" where
  "normalise_raw_fields repr value =
     (case value of
        PDict d \<Rightarrow> shrink_raw repr (fold (put_raw (float_repr repr)) d [])
      | _ \<Rightarrow> [])"

section \<open>Observations\<close>

definition SUPPORTED_PROTOCOLS :: "string list" where
  "SUPPORTED_PROTOCOLS = [''dhcp'', ''mdns'', ''llmnr'', ''nbns'', ''ssdp'', ''dns'', ''tls'', ''traffic'']"

definition OBSERVATION_KINDS :: "string list" where
  "OBSERVATION_KINDS =
     [''query'', ''response'', ''announcement'', ''search'', ''advertisement'', ''request'', ''discover'', ''ack'']"

text \<open>\<open>v in frozenset(...)\<close> of texts: an unhashable value raises.\<close>

definition member_of :: "pyval \<Rightarrow> string list \<Rightarrow> bool result" where
  "member_of v xs = (if unhashable v then raise_exc TypeError ''unhashable type'' else Inr (v \<in> set (map PStr xs)))"

definition with_field :: "string \<Rightarrow> pyval \<Rightarrow> pydict \<Rightarrow> pydict" where
  "with_field k v d = (if v = PNone then d else dset k v d)"

definition optional_fields :: "pydict \<Rightarrow> (string \<times> pyval) list" where
  "optional_fields ob =
     (let t = (\<lambda>k. opt_str (normalise_text 255 (dget ob k))) in
      [(''observation_kind'', opt_str (normalise_text 32 (dget ob ''observation_kind''))),
       (''ip_address'', opt_str (normalise_ip_address (dget ob ''ip_address''))),
       (''mac_address'', opt_str (normalise_mac_address (dget ob ''mac_address''))),
       (''hostname'', t ''hostname''), (''device_name'', t ''device_name''),
       (''service_type'', t ''service_type''), (''service_name'', t ''service_name''),
       (''service_port'', opt_int (normalise_port (dget ob ''service_port''))),
       (''device_type'', t ''device_type''), (''vendor'', t ''vendor''), (''model'', t ''model''),
       (''server'', opt_str (normalise_text 512 (dget ob ''server''))),
       (''location'', opt_str (normalise_text 2048 (dget ob ''location'')))])"

definition normal_fields :: "pydict \<Rightarrow> string \<Rightarrow> string \<Rightarrow> pydict \<Rightarrow> pydict" where
  "normal_fields ob ts fs raw =
     (let n = fold (\<lambda>(k, v). with_field k v) (optional_fields ob)
                [(''protocol'', dget ob ''protocol''), (''observed_at'', PStr ts),
                 (''first_observed_at'', PStr fs), (''seen_count'', PInt 1)]
      in if raw = [] then n else dset ''raw_fields'' (PDict raw) n)"

definition normal_form :: "(rat \<Rightarrow> string) \<Rightarrow> pydict \<Rightarrow> string \<Rightarrow> string \<Rightarrow> pydict option" where
  "normal_form repr ob ts fs =
     (let raw = normalise_raw_fields repr (dget ob ''raw_fields''); n = normal_fields ob ts fs raw
      in if \<not> list_ex (\<lambda>f. truthy (dget n f))
               [''hostname'', ''service_name'', ''device_type'', ''ip_address'', ''mac_address'']
            \<and> \<not> truthy (dget raw ''usn'')
         then None else Some n)"

definition normalise_passive_observation ::
  "(rat \<Rightarrow> string) \<Rightarrow> int \<Rightarrow> pydict \<Rightarrow> string option \<Rightarrow> pydict option result" where
  "normalise_passive_observation repr now ob observed_at =
     then_do (member_of (dget ob ''protocol'') SUPPORTED_PROTOCOLS) (\<lambda>known.
       if \<not> known then Inr None
       else then_do (normalise_timestamp (py_or (opt_str observed_at) (dget ob ''observed_at''))
                       (Some (utc_now now))) (\<lambda>timestamp.
            then_do (normalise_timestamp (dget ob ''first_observed_at'') timestamp) (\<lambda>first.
              case (timestamp, first) of
                (Some ts, Some fs) \<Rightarrow>
                  then_do (if dget ob ''observation_kind'' = PNone then Inr True
                           else member_of (dget ob ''observation_kind'') OBSERVATION_KINDS) (\<lambda>kind_ok.
                    if \<not> kind_ok then Inr None
                    else Inr (normal_form repr ob ts fs))
              | _ \<Rightarrow> Inr None)))"

text \<open>\<open>observation.get(f) or ""\<close>.\<close>

definition part :: "pydict \<Rightarrow> string \<Rightarrow> pyval" where
  "part ob f = py_or (dget ob f) (PStr [])"

definition usn_of :: "pydict \<Rightarrow> pyval" where
  "usn_of ob = (case py_or (dget ob ''raw_fields'') (PDict []) of PDict d \<Rightarrow> dget_or d ''usn'' (PStr []) | _ \<Rightarrow> PStr [])"

definition passive_observation_key :: "pydict \<Rightarrow> pyval list option" where
  "passive_observation_key ob =
     (let p = dget ob ''protocol'' in
      if p = PStr ''dhcp''
      then Some [p, part ob ''mac_address'', part ob ''ip_address'', part ob ''hostname'']
      else if p = PStr ''mdns''
      then Some [p, py_or (dget ob ''service_name'') (part ob ''hostname''), part ob ''service_type'',
                 part ob ''ip_address'', part ob ''service_port'']
      else if p = PStr ''llmnr'' \<or> p = PStr ''nbns''
      then Some [p, part ob ''observation_kind'', part ob ''hostname'', part ob ''ip_address'']
      else if p = PStr ''ssdp''
      then Some [p, part ob ''observation_kind'', usn_of ob, part ob ''device_type'', part ob ''location'',
                 part ob ''ip_address'']
      else None)"

section \<open>The buffer\<close>

record buffer =
  b_max :: int
  b_items :: "(pyval list \<times> pydict) list"

definition new_buffer :: "pyval \<Rightarrow> buffer result" where
  "new_buffer max_observations =
     (if \<not> is_int max_observations \<or> int_value max_observations < 1
      then raise_exc ValueError ''max_observations must be a positive integer''
      else Inr \<lparr>b_max = int_value max_observations, b_items = []\<rparr>)"

definition observed_str :: "pydict \<Rightarrow> string" where
  "observed_str e = (case dget e ''observed_at'' of PStr s \<Rightarrow> s | _ \<Rightarrow> [])"

text \<open>A repeated observation counts, is seen now, and fills in what was missing.\<close>

definition BOOKKEPT :: "string list" where
  "BOOKKEPT = [''observed_at'', ''first_observed_at'', ''seen_count'']"

definition fill_field :: "string \<times> pyval \<Rightarrow> pydict \<Rightarrow> pydict" where
  "fill_field kv e =
     (if fst kv \<notin> set BOOKKEPT \<and> \<not> truthy (dget e (fst kv))
      then dset (fst kv) (snd kv) e else e)"

definition merge_observation :: "pydict \<Rightarrow> pydict \<Rightarrow> pydict" where
  "merge_observation n e =
     fold fill_field n
       (dset ''seen_count'' (PInt (min MAX_COUNT (int_value (dget e ''seen_count'') + 1)))
         (dset ''observed_at'' (dget n ''observed_at'') e))"

definition oldest_key :: "pyval list \<times> pydict \<Rightarrow> (pyval list \<times> pydict) list \<Rightarrow> pyval list" where
  "oldest_key x xs = fst (min_by (\<lambda>(k, e). observed_str e) x xs)"

definition make_room :: "(buffer, unit) act" where
  "make_room b =
     (if ilen (b_items b) < b_max b then (Inr (), b)
      else case b_items b of
        [] \<Rightarrow> (raise_exc ValueError ''min() arg is an empty sequence'', b)
      | x # xs \<Rightarrow> (Inr (), b\<lparr>b_items := filter (\<lambda>(k, e). k \<noteq> oldest_key x xs) (b_items b)\<rparr>))"

definition add_observation :: "(rat \<Rightarrow> string) \<Rightarrow> int \<Rightarrow> pydict \<Rightarrow> string option \<Rightarrow> (buffer, bool) act" where
  "add_observation repr now ob observed_at b =
     (case normalise_passive_observation repr now ob observed_at of
        Inl e \<Rightarrow> (Inl e, b)
      | Inr None \<Rightarrow> (Inr False, b)
      | Inr (Some n) \<Rightarrow>
          (case passive_observation_key n of
             None \<Rightarrow> (Inr False, b)
           | Some k \<Rightarrow>
               if list_ex unhashable k then (raise_exc TypeError ''unhashable type'', b)
               else (case map_of (b_items b) k of
                       Some e \<Rightarrow> (Inr True, b\<lparr>b_items := dset k (merge_observation n e) (b_items b)\<rparr>)
                     | None \<Rightarrow>
                         (case make_room b of
                            (Inl e, b) \<Rightarrow> (Inl e, b)
                          | (Inr _, b) \<Rightarrow> (Inr True, b\<lparr>b_items := dset k n (b_items b)\<rparr>)))))"

definition buffer_snapshot :: "buffer \<Rightarrow> pydict list" where
  "buffer_snapshot b = sort_desc observed_str (map snd (b_items b))"

definition buffer_size :: "buffer \<Rightarrow> int" where
  "buffer_size b = ilen (b_items b)"

section \<open>The buffer stays within its bound, one entry per key\<close>

text \<open>What every entry satisfies: it is filed under its own key, and was seen a countable number of times.\<close>

definition entry_ok :: "pyval list \<times> pydict \<Rightarrow> bool" where
  "entry_ok ke \<longleftrightarrow> passive_observation_key (snd ke) = Some (fst ke) \<and>
     (\<exists>n. dget (snd ke) ''seen_count'' = PInt n \<and> counted n)"

definition buffer_ok :: "buffer \<Rightarrow> bool" where
  "buffer_ok b \<longleftrightarrow> 1 \<le> b_max b \<and> ilen (b_items b) \<le> b_max b \<and> distinct (map fst (b_items b)) \<and>
     list_all entry_ok (b_items b)"

lemma fill_field_get:
  "dget (fill_field kv e) f =
     (if f = fst kv \<and> f \<notin> set BOOKKEPT \<and> \<not> truthy (dget e f) then snd kv else dget e f)"
  by (auto simp: fill_field_def)

lemma fill_fields_get:
  "distinct (map fst n) \<Longrightarrow> dget (fold fill_field n e) f =
     (if f \<notin> set BOOKKEPT \<and> \<not> truthy (dget e f) \<and> has_key n f then dget n f else dget e f)"
proof (induction n arbitrary: e)
  case Nil
  then show ?case by simp
next
  case (Cons kv n)
  obtain k v where kv: "kv = (k, v)" by force
  have out: "map_of n k = None" using Cons.prems by (simp add: kv map_of_eq_None_iff)
  show ?case
  proof (cases "f = k")
    case True
    then show ?thesis using Cons out by (simp add: kv fill_field_get)
  next
    case False
    then show ?thesis using Cons by (simp add: kv fill_field_get)
  qed
qed

lemma merge_get:
  "distinct (map fst n) \<Longrightarrow> dget (merge_observation n e) f =
     (if f = ''seen_count'' then PInt (min MAX_COUNT (int_value (dget e ''seen_count'') + 1))
      else if f = ''observed_at'' then dget n f
      else if f \<noteq> ''first_observed_at'' \<and> \<not> truthy (dget e f) \<and> has_key n f then dget n f else dget e f)"
  by (simp add: merge_observation_def fill_fields_get BOOKKEPT_def)

lemma truthy_empty [simp]: "\<not> truthy (PStr [])" "\<not> truthy PNone"
  by simp_all

lemma dget_absent: "\<not> has_key n f \<Longrightarrow> dget n f = PNone"
  by (simp add: dget_def)

lemma part_merge:
  assumes "distinct (map fst n)" "part n f = part e f" "f \<notin> set BOOKKEPT"
  shows "part (merge_observation n e) f = part e f"
  using assms(2,3) by (auto simp: part_def py_or_def merge_get [OF assms(1)] dget_absent BOOKKEPT_def split: if_splits)

lemma merge_key:
  assumes "distinct (map fst n)" "passive_observation_key n = Some k" "passive_observation_key e = Some k"
  shows "passive_observation_key (merge_observation n e) = Some k"
proof -
  let ?m = "merge_observation n e"
  have p: "dget n ''protocol'' = dget e ''protocol''"
    using assms(2,3) by (auto simp: passive_observation_key_def Let_def split: if_splits)
  have mp: "dget ?m ''protocol'' = dget e ''protocol''"
    using p by (simp add: merge_get [OF assms(1)])
  have parts: "part ?m f = part e f" if "part n f = part e f" "f \<notin> set BOOKKEPT" for f
    using part_merge [OF assms(1)] that by blast
  have name: "py_or (dget ?m ''service_name'') (part ?m ''hostname'') = py_or (dget e ''service_name'') (part e ''hostname'')"
    if "py_or (dget n ''service_name'') (part n ''hostname'') = py_or (dget e ''service_name'') (part e ''hostname'')"
    using that by (auto simp: py_or_def part_def merge_get [OF assms(1)] dget_absent split: if_splits)
  have usn: "usn_of ?m = usn_of e" if "usn_of n = usn_of e"
    using that by (auto simp: usn_of_def py_or_def merge_get [OF assms(1)] dget_absent dget_or_def split: if_splits)
  show ?thesis
    using assms(2,3) p mp parts name usn
    by (auto simp: passive_observation_key_def Let_def BOOKKEPT_def split: if_splits)
qed

lemma with_fields_distinct: "distinct (map fst n) \<Longrightarrow> distinct (map fst (fold (\<lambda>(k, v). with_field k v) fs n))"
  by (induction fs arbitrary: n) (auto simp: with_field_def distinct_update)

lemma with_fields_other:
  "list_all (\<lambda>k. k \<noteq> f) (map fst fs) \<Longrightarrow> dget (fold (\<lambda>(k, v). with_field k v) fs n) f = dget n f"
  by (induction fs arbitrary: n) (auto simp: with_field_def)

lemma optional_names: "map fst (optional_fields ob) =
    [''observation_kind'', ''ip_address'', ''mac_address'', ''hostname'', ''device_name'', ''service_type'', ''service_name'',
     ''service_port'', ''device_type'', ''vendor'', ''model'', ''server'', ''location'']"
  by (simp add: optional_fields_def Let_def)

lemma normalised_observation:
  assumes "normalise_passive_observation repr now ob observed_at = Inr (Some n)"
  shows "distinct (map fst n) \<and> dget n ''seen_count'' = PInt 1 \<and> dget n ''protocol'' = dget ob ''protocol'' \<and>
    (\<exists>ts. dget n ''observed_at'' = PStr ts)"
proof -
  have "\<exists>ts fs. normal_form repr ob ts fs = Some n"
    using assms unfolding normalise_passive_observation_def
    by (auto simp: then_do_eq_Inr split: if_split_asm option.split_asm) (metis option.exhaust)+
  then obtain ts fs raw where n: "n = normal_fields ob ts fs raw"
    by (auto simp: normal_form_def Let_def split: if_splits)
  show ?thesis
    unfolding n normal_fields_def Let_def
    by (simp add: distinct_update with_fields_distinct with_fields_other optional_names)
qed

lemma ilen_filter_key:
  "k \<in> fst ` set xs \<Longrightarrow> ilen (filter (\<lambda>(k', e). k' \<noteq> k) xs) + 1 \<le> ilen xs"
proof (induction xs)
  case (Cons x xs)
  have "ilen (filter P ys) \<le> ilen ys" for P and ys :: "('a \<times> 'b) list"
    by (simp add: ilen_length)
  with Cons show ?case
    by (cases "fst x = k") (simp_all add: case_prod_beta)
qed simp

lemma map_of_filter_key: "map_of (filter (\<lambda>(k', e). k' \<noteq> k) xs) j = (if j = k then None else map_of xs j)"
  by (induction xs) auto

text \<open>Making room in a buffer that is full removes the entry seen least recently.\<close>

lemma make_room_spec:
  assumes "buffer_ok b"
  obtains (room) "make_room b = (Inr (), b)" "ilen (b_items b) < b_max b"
    | (evicted) j e b' where "make_room b = (Inr (), b')" "ilen (b_items b) = b_max b" "map_of (b_items b) j = Some e"
        "\<forall>(i, e')\<in>set (b_items b). observed_str e \<le> observed_str e'" "b_max b' = b_max b"
        "b_items b' = filter (\<lambda>(i, e). i \<noteq> j) (b_items b)"
proof (cases "ilen (b_items b) < b_max b")
  case True
  with room show ?thesis by (simp add: make_room_def)
next
  case False
  with assms obtain x xs where items: "b_items b = x # xs" and len: "ilen (b_items b) = b_max b"
    by (cases "b_items b") (auto simp: buffer_ok_def)
  let ?m = "min_by (\<lambda>(k, e). observed_str e) x xs"
  have least: "?m \<in> set (b_items b)" "\<forall>y\<in>set (b_items b). observed_str (snd ?m) \<le> observed_str (snd y)"
    using min_by_in [of "\<lambda>(k, e). observed_str e" x xs] min_by_least [of _ x xs "\<lambda>(k, e). observed_str e"]
    unfolding items by (auto simp: case_prod_beta)
  show ?thesis
  proof (rule evicted [of "b\<lparr>b_items := filter (\<lambda>(i, e). i \<noteq> fst ?m) (b_items b)\<rparr>" "fst ?m" "snd ?m"])
    show "make_room b = (Inr (), b\<lparr>b_items := filter (\<lambda>(i, e). i \<noteq> fst ?m) (b_items b)\<rparr>)"
      using False unfolding make_room_def items oldest_key_def by simp
    show "map_of (b_items b) (fst ?m) = Some (snd ?m)"
      using assms least(1) by (simp add: buffer_ok_def)
    show "\<forall>(i, e')\<in>set (b_items b). observed_str (snd ?m) \<le> observed_str e'"
      using least(2) by auto
  qed (use len in simp_all)
qed

lemma add_observation_cases:
  assumes "add_observation repr now ob observed_at b = (x, b')"
  obtains (ignored) "b' = b" "x \<noteq> Inr True"
    | (merged) n k e where "normalise_passive_observation repr now ob observed_at = Inr (Some n)"
        "passive_observation_key n = Some k" "map_of (b_items b) k = Some e" "x = Inr True"
        "b' = b\<lparr>b_items := dset k (merge_observation n e) (b_items b)\<rparr>"
    | (added) n k b1 where "normalise_passive_observation repr now ob observed_at = Inr (Some n)"
        "passive_observation_key n = Some k" "map_of (b_items b) k = None" "make_room b = (Inr (), b1)" "x = Inr True"
        "b' = b1\<lparr>b_items := dset k n (b_items b1)\<rparr>"
    | (no_room) e where "make_room b = (Inl e, b')"
proof (cases "normalise_passive_observation repr now ob observed_at")
  case (Inl e)
  with assms ignored show ?thesis by (auto simp: add_observation_def)
next
  case (Inr m)
  note norm = this
  show ?thesis
  proof (cases m)
    case None
    with assms ignored norm show ?thesis by (auto simp: add_observation_def)
  next
    case (Some n)
    show ?thesis
    proof (cases "passive_observation_key n")
      case None
      with assms ignored norm Some show ?thesis by (auto simp: add_observation_def)
    next
      case (Some k)
      note run = assms [unfolded add_observation_def norm \<open>m = Some n\<close> Some sum.case option.case]
      show ?thesis
      proof (cases "list_ex unhashable k")
        case True
        with run ignored show ?thesis by auto
      next
        case False
        with run merged [of n k] added [of n k] no_room norm \<open>m = Some n\<close> Some show ?thesis
          by (cases "map_of (b_items b) k"; cases "make_room b"; cases "fst (make_room b)") auto
      qed
    qed
  qed
qed

lemma make_room_total: "buffer_ok b \<Longrightarrow> make_room b \<noteq> (Inl e, b')"
  by (erule make_room_spec) simp_all

lemma entry_ok_new:
  "normalise_passive_observation repr now ob observed_at = Inr (Some n) \<Longrightarrow> passive_observation_key n = Some k
   \<Longrightarrow> entry_ok (k, n)"
  using normalised_observation by (fastforce simp: entry_ok_def counted_def MAX_COUNT_def)

lemma entry_ok_merge:
  assumes "entry_ok (k, e)" "distinct (map fst n)" "passive_observation_key n = Some k"
  shows "entry_ok (k, merge_observation n e)"
  using assms merge_key [OF assms(2,3)] by (auto simp: entry_ok_def merge_get counted_def MAX_COUNT_def)

lemma buffer_ok_dset:
  assumes "buffer_ok b" "entry_ok (k, v)" "has_key (b_items b) k \<or> ilen (b_items b) < b_max b"
  shows "buffer_ok (b\<lparr>b_items := dset k v (b_items b)\<rparr>)"
proof -
  have "ilen (dset k v xs) = (if has_key xs k then ilen xs else ilen xs + 1)" for xs
    by (induction xs) auto
  moreover have "list_all entry_ok (dset k v (b_items b))"
    using assms(1,2) set_dset [of k v "b_items b"] by (auto simp: buffer_ok_def list_all_iff)
  ultimately show ?thesis using assms(1,3) by (auto simp: buffer_ok_def distinct_update)
qed

lemma make_room_ok:
  assumes "buffer_ok b" "make_room b = (Inr (), b')"
  shows "buffer_ok b' \<and> ilen (b_items b') < b_max b' \<and> (map_of (b_items b) k = None \<longrightarrow> map_of (b_items b') k = None)"
  using assms(1)
proof (cases rule: make_room_spec)
  case room
  with assms show ?thesis by simp
next
  case (evicted j e c)
  then have "j \<in> fst ` set (b_items b)" by (metis domI dom_map_of_conv_image_fst)
  from ilen_filter_key [OF this] evicted assms show ?thesis
    by (auto simp: buffer_ok_def map_of_filter_key distinct_map_filter list_all_iff)
qed

lemma add_observation_ok:
  assumes "buffer_ok b" "add_observation repr now ob observed_at b = (x, b')"
  shows "buffer_ok b'"
  using assms(2)
proof (cases rule: add_observation_cases)
  case ignored
  with assms(1) show ?thesis by simp
next
  case (merged n k e)
  then have "entry_ok (k, e)"
    using assms(1) by (auto simp: buffer_ok_def list_all_iff dest: map_of_SomeD)
  then have "entry_ok (k, merge_observation n e)"
    using merged normalised_observation entry_ok_merge by blast
  with buffer_ok_dset [OF assms(1)] merged show ?thesis by simp
next
  case (added n k b1)
  then show ?thesis
    using make_room_ok [OF assms(1) added(4)] buffer_ok_dset [of b1 k n] entry_ok_new by simp
next
  case (no_room e)
  with make_room_total [OF assms(1)] show ?thesis by blast
qed

text \<open>One call of \<open>add\<close>: the clock, the observation and the time given for it.\<close>

definition buffer_step :: "(rat \<Rightarrow> string) \<Rightarrow> int \<times> pydict \<times> string option \<Rightarrow> buffer \<Rightarrow> buffer" where
  "buffer_step repr ev b = (case ev of (now, ob, seen_at) \<Rightarrow> snd (add_observation repr now ob seen_at b))"

interpretation passive_buffer: lifecycle "buffer_step repr" "\<lambda>_. True" buffer_ok for repr
  by unfold_locales (auto simp: buffer_step_def split: prod.split intro: add_observation_ok prod.collapse [symmetric])

lemma new_buffer_ok: "new_buffer m = Inr b \<Longrightarrow> buffer_ok b"
  by (auto simp: new_buffer_def buffer_ok_def split: if_splits)

text \<open>C36.  Whatever is added, in any order and at any times, a buffer that could be created stays within its
  bound and keeps one entry per key, each filed under the key of its own contents (merging never
  changes it), so that no TLS, DNS or traffic observation is ever in it.\<close>

theorem observation_buffer_invariant:
  assumes "new_buffer m = Inr b0" and b: "b = fold (buffer_step repr) evs b0"
  shows "ilen (b_items b) \<le> b_max b \<and> distinct (map fst (b_items b)) \<and>
    (\<forall>(k, e)\<in>set (b_items b). passive_observation_key e = Some k \<and>
       dget e ''protocol'' \<in> set (map PStr [''dhcp'', ''mdns'', ''llmnr'', ''nbns'', ''ssdp'']))"
proof -
  have "buffer_ok b"
    unfolding b using passive_buffer.run_good [OF new_buffer_ok [OF assms(1)]] by simp
  moreover have "dget e ''protocol'' \<in> set (map PStr [''dhcp'', ''mdns'', ''llmnr'', ''nbns'', ''ssdp''])"
    if "passive_observation_key e = Some k" for e k
    using that by (auto simp: passive_observation_key_def Let_def split: if_splits)
  ultimately show ?thesis unfolding buffer_ok_def entry_ok_def list_all_iff by fastforce
qed

text \<open>A buffer of one entry, and two observations for it.\<close>

definition SAMPLE_QUERY :: pydict where
  "SAMPLE_QUERY = [(''protocol'', PStr ''llmnr''), (''observation_kind'', PStr ''query''), (''hostname'', PStr ''pc'')]"

definition SAMPLE_HOST :: pydict where
  "SAMPLE_HOST = [(''protocol'', PStr ''mdns''), (''hostname'', PStr ''tv''), (''ip_address'', PStr ''10.0.0.7'')]"

theorem observation_buffer_invariant_witness:
  "\<exists>b0 b. new_buffer (PInt 1) = Inr b0
     \<and> b = fold (buffer_step (\<lambda>_. [])) [(0, SAMPLE_QUERY, None), (5, SAMPLE_HOST, None)] b0
     \<and> ilen (b_items b) \<le> b_max b \<and> ilen (b_items b) = 1"
proof -
  define b0 where "b0 = \<lparr>b_max = 1, b_items = []\<rparr>"
  define b where "b = fold (buffer_step (\<lambda>_. [])) [(0, SAMPLE_QUERY, None), (5, SAMPLE_HOST, None)] b0"
  have new: "new_buffer (PInt 1) = Inr b0"
    by (simp add: new_buffer_def b0_def)
  have "ilen (b_items (fold (buffer_step (\<lambda>_. [])) [(0, SAMPLE_QUERY, None), (5, SAMPLE_HOST, None)]
      \<lparr>b_max = 1, b_items = []\<rparr>)) = 1"
    by code_simp
  then have "ilen (b_items b) = 1" by (simp only: b_def b0_def)
  with new observation_buffer_invariant [OF new b_def] show ?thesis unfolding b_def by blast
qed

text \<open>C35.  An observation that is accepted is in the buffer, with its time; every other entry is unchanged,
  but for the one seen least recently when the buffer was full and the observation new.\<close>

theorem accepted_observation_kept:
  assumes "buffer_ok b" and "add_observation repr now ob observed_at b = (Inr True, b')"
  shows "\<exists>n k e. normalise_passive_observation repr now ob observed_at = Inr (Some n) \<and>
    passive_observation_key n = Some k \<and> map_of (b_items b') k = Some e \<and>
    observed_str e = observed_str n \<and>
    (\<forall>j. j \<noteq> k \<longrightarrow> map_of (b_items b') j = map_of (b_items b) j \<or>
      (\<exists>old. map_of (b_items b) j = Some old \<and> map_of (b_items b) k = None \<and> buffer_size b = b_max b \<and>
         (\<forall>(i, e')\<in>set (b_items b). observed_str old \<le> observed_str e') \<and>
         (\<forall>i. i \<noteq> j \<longrightarrow> i \<noteq> k \<longrightarrow> map_of (b_items b') i = map_of (b_items b) i)))"
  using assms(2)
proof (cases rule: add_observation_cases)
  case ignored
  then show ?thesis by simp
next
  case (merged n k e)
  have "observed_str (merge_observation n e) = observed_str n"
    using normalised_observation [OF merged(1)] by (simp add: observed_str_def merge_get)
  with merged show ?thesis by auto
next
  case (added n k b1)
  from assms(1) show ?thesis
  proof (cases rule: make_room_spec)
    case room
    with added show ?thesis by auto
  next
    case (evicted j e b2)
    then have items: "map_of (b_items b') i = (if i = k then Some n else if i = j then None else map_of (b_items b) i)" for i
      using added by (simp add: map_of_filter_key)
    show ?thesis
      using added(1,2,3) evicted items by (intro exI [of _ n] exI [of _ k]) (auto simp: buffer_size_def)
  qed
next
  case (no_room e)
  with make_room_total [OF assms(1)] show ?thesis by blast
qed

theorem accepted_observation_kept_witness:
  "\<exists>b' k e. add_observation (\<lambda>_. []) 7 SAMPLE_HOST None \<lparr>b_max = 1, b_items = []\<rparr> = (Inr True, b')
     \<and> map_of (b_items b') k = Some e"
proof -
  have ok: "buffer_ok \<lparr>b_max = 1, b_items = []\<rparr>" by (simp add: buffer_ok_def)
  have "fst (add_observation (\<lambda>_. []) 7 SAMPLE_HOST None \<lparr>b_max = 1, b_items = []\<rparr>) = Inr True"
    by code_simp
  then obtain b' where b': "add_observation (\<lambda>_. []) 7 SAMPLE_HOST None \<lparr>b_max = 1, b_items = []\<rparr> = (Inr True, b')"
    by (metis prod.collapse)
  with accepted_observation_kept [OF ok b'] show ?thesis by blast
qed

end
