(* ===== verification/Passive.thy ===== *)
theory Passive
  imports Observations
begin

text \<open>
  The listener itself, the rest of \<open>client/app/passive_protocol_listener.py\<close>: the traffic tracker, the
  correlation of one observation with the device records, and the synchronous processing of a captured
  packet, where buffer, correlator, tracker and DHCP callback meet.  One packet reads the clock once
  (\<open>clock\<close>: the wall clock in microseconds and the monotonic clock in seconds).
\<close>

section \<open>Traffic\<close>

record flow =
  f_bytes :: int
  f_packets :: int
  f_first :: rat
  f_last :: rat
  f_intervals :: "rat list"
  f_pattern :: string

definition WINDOW_SECONDS :: rat where
  "WINDOW_SECONDS = 60"

definition HEAVY_TRANSFER_BYTES :: int where
  "HEAVY_TRANSFER_BYTES = 500000"

definition BURST_PACKET_THRESHOLD :: int where
  "BURST_PACKET_THRESHOLD = 30"

definition INTERACTIVE_PACKET_THRESHOLD :: int where
  "INTERACTIVE_PACKET_THRESHOLD = 15"

definition new_flow :: "rat \<Rightarrow> flow" where
  "new_flow now = \<lparr>f_bytes = 0, f_packets = 0, f_first = now, f_last = now, f_intervals = [], f_pattern = ''IDLE_BEACON''\<rparr>"

definition average :: "rat list \<Rightarrow> rat option" where
  "average xs = (if xs = [] then None else Some (sum_list xs / of_int (ilen xs)))"

definition push_interval :: "rat \<Rightarrow> rat list \<Rightarrow> rat list" where
  "push_interval i xs =
     (if i > 1 / 1000 then (let ys = xs @ [i] in if ilen ys > 50 then tl ys else ys) else xs)"

definition classify_flow :: "flow \<Rightarrow> string" where
  "classify_flow f =
     (let avg = (case average (f_intervals f) of None \<Rightarrow> 9999 | Some a \<Rightarrow> a) in
      if f_bytes f \<ge> HEAVY_TRANSFER_BYTES then ''HEAVY_STREAMING_TRANSFER''
      else if f_packets f \<ge> BURST_PACKET_THRESHOLD \<and> avg < 1 / 2 then ''BURST_TELEMETRY''
      else if f_packets f \<ge> INTERACTIVE_PACKET_THRESHOLD then ''INTERACTIVE_BROWSING''
      else ''IDLE_BEACON'')"

definition count_packet :: "rat \<Rightarrow> int \<Rightarrow> flow \<Rightarrow> flow" where
  "count_packet now n f =
     (let f = f\<lparr>f_intervals := push_interval (now - f_last f) (f_intervals f), f_last := now,
                f_bytes := f_bytes f + n, f_packets := f_packets f + 1\<rparr>;
          f = (if now - f_first f > WINDOW_SECONDS
               then f\<lparr>f_bytes := n, f_packets := 1, f_first := now, f_intervals := []\<rparr> else f)
      in f\<lparr>f_pattern := classify_flow f\<rparr>)"

definition record_packet :: "rat \<Rightarrow> string \<Rightarrow> int \<Rightarrow> (string \<times> flow) list \<Rightarrow> (string \<times> flow) list" where
  "record_packet now src_ip n flows =
     (if src_ip = [] then flows
      else dset src_ip (count_packet now n (case map_of flows src_ip of None \<Rightarrow> new_flow now | Some f \<Rightarrow> f)) flows)"

text \<open>\<open>round(x, 3)\<close>, as \<open>round2\<close>.\<close>

definition round3 :: "rat \<Rightarrow> rat" where
  "round3 x = round2 (10 * x) / 10"

definition get_profile :: "string \<Rightarrow> (string \<times> flow) list \<Rightarrow> profile option" where
  "get_profile src_ip flows =
     (case map_of flows src_ip of
        None \<Rightarrow> None
      | Some f \<Rightarrow> Some \<lparr>bytes_per_window = f_bytes f, packets_per_window = f_packets f,
                       avg_interval_sec = map_option round3 (average (f_intervals f)),
                       behavioral_pattern = f_pattern f, window_seconds = WINDOW_SECONDS\<rparr>)"

subsection \<open>The window holds exactly the latest packets\<close>

type_synonym sighting = "rat \<times> string \<times> int"

definition track :: "sighting \<Rightarrow> (string \<times> flow) list \<Rightarrow> (string \<times> flow) list" where
  "track e flows = (case e of (now, src, n) \<Rightarrow> record_packet now src n flows)"

text \<open>The flow \<open>f\<close> counts the sightings \<open>recent\<close>.\<close>

definition accounts :: "sighting list \<Rightarrow> flow \<Rightarrow> bool" where
  "accounts recent f \<longleftrightarrow> recent \<noteq> [] \<and> f_packets f = ilen recent \<and> f_bytes f = sum_list (map (\<lambda>(t, s, n). n) recent) \<and>
     f_first f = fst (hd recent) \<and> (\<forall>(t, s, n)\<in>set recent. t - f_first f \<le> WINDOW_SECONDS) \<and> ilen (f_intervals f) \<le> 50"

lemma push_interval_bound: "ilen xs \<le> 50 \<Longrightarrow> ilen (push_interval i xs) \<le> 50"
  by (cases xs) (auto simp: push_interval_def Let_def ilen_length)

lemma accounts_new: "accounts [(now, s, n)] (count_packet now n (new_flow now))"
  by (simp add: accounts_def count_packet_def new_flow_def Let_def WINDOW_SECONDS_def push_interval_def)

lemma accounts_step:
  assumes "accounts recent f"
  shows "accounts (recent @ [(now, s, n)]) (count_packet now n f) \<or> accounts [(now, s, n)] (count_packet now n f)"
proof (cases "now - f_first f > WINDOW_SECONDS")
  case True
  then show ?thesis by (simp add: accounts_def count_packet_def Let_def WINDOW_SECONDS_def)
next
  case False
  with assms show ?thesis
    by (auto simp: accounts_def count_packet_def Let_def push_interval_bound)
qed

lemma track_get: "map_of (track (now, s, n) flows) ip =
    (if s \<noteq> [] \<and> s = ip
     then Some (count_packet now n (case map_of flows ip of None \<Rightarrow> new_flow now | Some f \<Rightarrow> f))
     else map_of flows ip)"
  by (auto simp: track_def record_packet_def)

lemma track_accounts:
  "map_of (fold track evs []) ip = Some f \<Longrightarrow>
     ip \<noteq> [] \<and> (\<exists>old recent. filter (\<lambda>(t, s, n). s = ip) evs = old @ recent \<and> accounts recent f)"
proof (induction evs arbitrary: f rule: rev_induct)
  case Nil
  then show ?case by simp
next
  case (snoc e evs)
  obtain now s n where e: "e = (now, s, n)" by (cases e)
  show ?case
  proof (cases "s \<noteq> [] \<and> s = ip")
    case False
    then have "map_of (fold track evs []) ip = Some f" "ip \<noteq> s \<or> s = []"
      using snoc.prems by (auto simp: e track_get split: if_splits)
    from snoc.IH [OF this(1)] this(2) show ?thesis by (auto simp: e)
  next
    case True
    show ?thesis
    proof (cases "map_of (fold track evs []) ip")
      case None
      with snoc.prems True have "f = count_packet now n (new_flow now)" by (auto simp: e track_get)
      with True accounts_new [of now s n] show ?thesis by (auto simp: e)
    next
      case (Some g)
      with snoc.prems True have f: "f = count_packet now n g" by (auto simp: e track_get)
      from snoc.IH [OF Some] obtain old recent where
        split: "filter (\<lambda>(t, s, n). s = ip) evs = old @ recent" "accounts recent g" by blast
      have "filter (\<lambda>(t, s, n). s = ip) (evs @ [e]) = old @ (recent @ [e])"
        "filter (\<lambda>(t, s, n). s = ip) (evs @ [e]) = (old @ recent) @ [e]"
        using split(1) True by (simp_all add: e)
      with accounts_step [OF split(2), of now s n] f True e show ?thesis by metis
    qed
  qed
qed

text \<open>The profile of an address accounts for exactly its latest packets: the counted packets are the last
  ones seen from it, the counted bytes are the sum of their lengths, and all of them are within one
  window of the first of them.\<close>

theorem traffic_window_exact:
  assumes "get_profile ip (fold track evs []) = Some p"
  shows "\<exists>old recent. filter (\<lambda>(t, s, n). s = ip) evs = old @ recent \<and> recent \<noteq> [] \<and>
    packets_per_window p = ilen recent \<and> bytes_per_window p = sum_list (map (\<lambda>(t, s, n). n) recent) \<and>
    (\<forall>(t, s, n)\<in>set recent. t - fst (hd recent) \<le> window_seconds p)"
proof -
  from assms obtain f where f: "map_of (fold track evs []) ip = Some f"
    and p: "packets_per_window p = f_packets f" "bytes_per_window p = f_bytes f" "window_seconds p = WINDOW_SECONDS"
    by (auto simp: get_profile_def split: option.splits)
  from track_accounts [OF f] p show ?thesis by (fastforce simp: accounts_def)
qed

theorem traffic_window_exact_witness:
  "\<exists>p. get_profile ''a'' (fold track [(0, ''a'', 10), (1, ''b'', 7), (70, ''a'', 20), (71, ''a'', 5)] []) = Some p
     \<and> packets_per_window p = 2 \<and> bytes_per_window p = 25"
proof -
  let ?evs = "[(0, ''a'', 10), (1, ''b'', 7), (70, ''a'', 20), (71, ''a'', 5)] :: sighting list"
  have "case get_profile ''a'' (fold track ?evs []) of None \<Rightarrow> False
      | Some p \<Rightarrow> packets_per_window p = 2 \<and> bytes_per_window p = 25"
    by code_simp
  then obtain p where p: "get_profile ''a'' (fold track ?evs []) = Some p" "packets_per_window p = 2 \<and> bytes_per_window p = 25"
    by (auto split: option.splits)
  from traffic_window_exact [OF p(1)] p show ?thesis by blast
qed

section \<open>Correlating one observation\<close>

definition str_of :: "pyval \<Rightarrow> string option" where
  "str_of v = (case v of PStr s \<Rightarrow> Some s | _ \<Rightarrow> None)"

definition dict_of :: "pyval \<Rightarrow> pydict" where
  "dict_of v = (case v of PDict d \<Rightarrow> d | _ \<Rightarrow> [])"

definition ints_of :: "pyval \<Rightarrow> int list" where
  "ints_of v = (case v of PList xs \<Rightarrow> map int_value xs | _ \<Rightarrow> [])"

text \<open>A look-up result of \<open>lookup_destination_vendor\<close>; the count is set by \<open>add_destination_asn\<close>.\<close>

definition asn_of :: "pyval \<Rightarrow> asn option" where
  "asn_of v =
     (case v of
        PDict d \<Rightarrow>
          (case str_of (dget d ''provider'') of
             None \<Rightarrow> None
           | Some provider \<Rightarrow>
               Some \<lparr>asn_provider = provider,
                     asn_description = (case str_of (dget d ''description'') of None \<Rightarrow> [] | Some t \<Rightarrow> t),
                     asn_ip = str_of (dget d ''destination_ip''), asn_count = 1\<rparr>)
      | _ \<Rightarrow> None)"

text \<open>\<open>device.raw_fields.setdefault(k, {}).update(d)\<close>.\<close>

definition raw_update :: "string \<Rightarrow> pydict \<Rightarrow> device \<Rightarrow> device" where
  "raw_update k new d =
     (if new = [] then d
      else d\<lparr>d_raw := dset k (PDict (updates new (dict_of (dget (d_raw d) k)))) (d_raw d)\<rparr>)"

text \<open>What an evaluation says of the system, the type and the model, with its evidence.\<close>

definition note_all :: "string \<Rightarrow> string list \<Rightarrow> device \<Rightarrow> device" where
  "note_all category sources d = fold (add_evidence category) sources d"

definition evaluated_os :: "hint \<Rightarrow> string \<Rightarrow> device \<Rightarrow> device" where
  "evaluated_os h source d =
     (if given (os_hint h) = None then d
      else note_all ''os_hint'' (evidence h) (better_os (os_hint h) (confidence h) source d))"

definition evaluated_type :: "hint \<Rightarrow> string \<Rightarrow> device \<Rightarrow> device" where
  "evaluated_type h source d =
     (if given (device_type h) = None then d
      else note_all ''device_type'' (evidence h) (better_type (device_type h) (confidence h) source d))"

definition evaluated_model :: "hint \<Rightarrow> string \<Rightarrow> device \<Rightarrow> device" where
  "evaluated_model h source d =
     (if given (model_hint h) = None then d
      else note_all ''model_hint'' (evidence h) (better_model (model_hint h) (confidence h) source d))"

definition enrich_dhcp :: "pydict \<Rightarrow> device \<Rightarrow> device" where
  "enrich_dhcp ob d =
     (let hostname = str_of (dget ob ''hostname''); vendor_class = str_of (dget ob ''vendor_class'');
          prl = ints_of (dget ob ''parameter_request_list'');
          h = classify_dhcp_evidence vendor_class prl hostname;
          d = snd (set_hostname hostname ''dhcp'' 40 d);
          d = raw_update ''dhcp'' (dict_of (dget ob ''raw_fields'')) d;
          d = (if given vendor_class = None then d else add_evidence ''os_hint'' ''dhcp.vendor_class'' d);
          d = (if prl = [] then d else add_evidence ''os_hint'' ''dhcp.parameter_request_list'' d)
      in evaluated_type h ''dhcp.device_type'' (evaluated_os h ''dhcp.vendor_class'' d))"

definition txt_of :: "pydict \<Rightarrow> (string \<times> string) list" where
  "txt_of ob =
     concat (map (\<lambda>(k, v). case v of PStr s \<Rightarrow> [(k, s)] | _ \<Rightarrow> [])
       (dict_of (dget (dict_of (dget ob ''raw_fields'')) ''txt'')))"

definition enrich_mdns :: "pydict \<Rightarrow> device \<Rightarrow> device" where
  "enrich_mdns ob d =
     (let service_type = str_of (dget ob ''service_type''); txt = txt_of ob;
          h = classify_mdns_evidence service_type txt;
          d = (case given service_type of None \<Rightarrow> d | Some t \<Rightarrow> add_service t d);
          d = snd (set_hostname (str_of (dget ob ''hostname'')) ''mdns'' 30 d);
          d = raw_update ''mdns_txt'' (map (\<lambda>(k, v). (k, PStr v)) txt) d;
          d = evaluated_model h ''mdns.txt.model'' (evaluated_type h ''mdns'' (evaluated_os h ''mdns'' d))
      in fold add_software_hint (software_hints h) d)"

definition enrich_name :: "string \<Rightarrow> int \<Rightarrow> pydict \<Rightarrow> device \<Rightarrow> device" where
  "enrich_name protocol priority ob d =
     add_evidence ''os_hint'' protocol (snd (set_hostname (str_of (dget ob ''hostname'')) protocol priority d))"

definition enrich_ssdp :: "pydict \<Rightarrow> device \<Rightarrow> device" where
  "enrich_ssdp ob d =
     (let server = str_of (dget ob ''server'');
          h = classify_ssdp_evidence server (str_of (dget ob ''device_type''));
          d = (if given server = None then d else d\<lparr>d_software := server\<rparr>)
      in fold add_software_hint (software_hints h)
           (evaluated_type h ''ssdp.device_type'' (evaluated_os h ''ssdp.server'' d)))"

definition enrich_tls :: "profile option \<Rightarrow> pydict \<Rightarrow> device \<Rightarrow> device" where
  "enrich_tls p ob d =
     (let sni = str_of (dget ob ''sni'');
          d = (case given sni of
                 None \<Rightarrow> d
               | Some name \<Rightarrow>
                   (let h = classify_sni_evidence sni; d = snd (add_sni_domain sni d)
                    in take_type h (''sni.'' @ name) (take_os h (''sni.'' @ name) d)));
          d = snd (add_ja3_fingerprint (str_of (dget ob ''ja3_hash'')) (str_of (dget ob ''ja3_string'')) d);
          d = snd (add_destination_asn (asn_of (dget ob ''destination_vendor'')) d)
      in set_traffic_profile p d)"

definition enrich_dns :: "pydict \<Rightarrow> device \<Rightarrow> device" where
  "enrich_dns ob d =
     snd (add_destination_asn (asn_of (dget ob ''destination_vendor''))
       (snd (add_dns_query (str_of (dget ob ''hostname'')) d)))"

text \<open>The part of each protocol; \<open>p\<close> is the traffic profile of the observation's address.\<close>

definition enrich :: "profile option \<Rightarrow> pydict \<Rightarrow> device \<Rightarrow> device" where
  "enrich p ob d =
     (case str_of (dget ob ''protocol'') of
        None \<Rightarrow> d
      | Some protocol \<Rightarrow>
          if protocol = ''dhcp'' then enrich_dhcp ob d
          else if protocol = ''mdns'' then enrich_mdns ob d
          else if protocol = ''llmnr'' then enrich_name protocol 20 ob d
          else if protocol = ''nbns'' then enrich_name protocol 10 ob d
          else if protocol = ''ssdp'' then enrich_ssdp ob d
          else if protocol = ''tls'' then enrich_tls p ob d
          else if protocol = ''dns'' then enrich_dns ob d
          else d)"

section \<open>The listener\<close>

record clock =
  wall :: int
  mono :: rat

record listener =
  l_buffer :: buffer
  l_corr :: correlator
  l_flows :: "(string \<times> flow) list"
  l_vendors :: "vendors option"
  l_reported :: "pydict list"

text \<open>\<open>l_reported\<close>: the observations passed to the DHCP callback, whose exceptions are logged.\<close>

definition new_listener :: "pyval \<Rightarrow> listener result" where
  "new_listener max_observations =
     then_do (new_buffer max_observations) (\<lambda>b.
       Inr \<lparr>l_buffer = b, l_corr = empty_correlator (b_max b), l_flows = [], l_vendors = None, l_reported = []\<rparr>)"

text \<open>What the record found for an observation takes from it.\<close>

definition absorb :: "pydict \<Rightarrow> (string \<times> flow) list \<Rightarrow> vendors option \<Rightarrow> device \<Rightarrow> device" where
  "absorb ob flows vs d =
     (let mac = dget ob ''mac_address''; ip = dget ob ''ip_address'';
          d = (if truthy mac then set_mac_if_none (str_of mac) d else d);
          d = snd (add_ip_address (str_of ip) d);
          p = (if truthy ip then get_profile (case str_of ip of None \<Rightarrow> [] | Some s \<Rightarrow> s) flows else None)
      in apply_classification_to_device vs (enrich p ob d))"

definition correlate_observation :: "clock \<Rightarrow> pydict \<Rightarrow> (listener, unit) act" where
  "correlate_observation k ob l =
     (let mac = dget ob ''mac_address''; ip = dget ob ''ip_address''; seen_at = dget ob ''observed_at'';
          protocol = str_of (dget ob ''protocol'') in
      if \<not> truthy mac \<and> \<not> truthy ip then (Inr (), l)
      else case get_or_create_device mac ip seen_at (wall k) (l_corr l) of
        (Inl e, c) \<Rightarrow> (Inl e, l\<lparr>l_corr := c\<rparr>)
      | (Inr r, c) \<Rightarrow>
          (case device_at c r of
             None \<Rightarrow> (raise_exc KeyError [], l\<lparr>l_corr := c\<rparr>)
           | Some d \<Rightarrow>
               (case record_activity (wall k) seen_at protocol d of
                  Inl e \<Rightarrow> (Inl e, l\<lparr>l_corr := c\<rparr>)
                | Inr d \<Rightarrow>
                    (Inr (), l\<lparr>l_corr := c\<lparr>store := dset r (absorb ob (l_flows l) (l_vendors l) d) (store c)\<rparr>\<rparr>))))"

text \<open>The loop over what a packet said: buffer it, count it when new or repeated, correlate it.\<close>

fun take_in :: "(rat \<Rightarrow> string) \<Rightarrow> clock \<Rightarrow> pydict list \<Rightarrow> (listener, int) act" where
  "take_in repr k [] l = (Inr 0, l)"
| "take_in repr k (ob # obs) l =
     (case add_observation repr (wall k) ob None (l_buffer l) of
        (Inl e, b) \<Rightarrow> (Inl e, l\<lparr>l_buffer := b\<rparr>)
      | (Inr kept, b) \<Rightarrow>
          (case correlate_observation k ob (l\<lparr>l_buffer := b\<rparr>) of
             (Inl e, l) \<Rightarrow> (Inl e, l)
           | (Inr _, l) \<Rightarrow>
               (case take_in repr k obs l of
                  (Inl e, l) \<Rightarrow> (Inl e, l)
                | (Inr n, l) \<Rightarrow> (Inr (if kept then n + 1 else n), l))))"

definition packet_source :: "captured \<Rightarrow> pydict" where
  "packet_source p =
     (case (cap_ip p, cap_ip6 p) of
        (Some (src, dst), _) \<Rightarrow> [(''ip_address'', PStr src), (''dst_ip'', PStr dst)]
      | (None, Some (src, _)) \<Rightarrow> [(''ip_address'', PStr src)]
      | (None, None) \<Rightarrow> [])
     @ (case cap_ether p of None \<Rightarrow> [] | Some (src, _) \<Rightarrow> [(''mac_address'', PStr src)])"

text \<open>The parameters of the parsers.\<close>

record parsers =
  ps_md5 :: "string \<Rightarrow> string"
  ps_codec :: codec
  ps_repr :: "rat \<Rightarrow> string"

definition tls_observation :: "pydict \<Rightarrow> tls_hello \<Rightarrow> pydict" where
  "tls_observation source h =
     [(''protocol'', PStr ''tls''), (''observation_kind'', PStr ''client_hello''),
      (''ip_address'', dget source ''ip_address''), (''mac_address'', dget source ''mac_address''),
      (''sni'', opt_str (tls_sni h)), (''ja3_hash'', PStr (tls_ja3_hash h)), (''ja3_string'', PStr (tls_ja3_string h)),
      (''tls_version'', PInt (tls_version h)),
      (''destination_vendor'', lookup_destination_vendor (str_of (dget source ''dst_ip'')))]"

definition parse_tcp :: "parsers \<Rightarrow> pydict \<Rightarrow> transport \<Rightarrow> pydict list result" where
  "parse_tcp ps source t =
     (if t_dport t = 443 \<or> t_sport t = 443
      then (if t_dport t = 443 \<and> t_payload t \<noteq> []
            then then_do (parse_tls_client_hello (ps_md5 ps) (ps_codec ps) (t_payload t)) (\<lambda>h.
                   Inr (case h of None \<Rightarrow> [] | Some h \<Rightarrow> [tls_observation source h]))
            else Inr [])
      else if t_dport t = 53 \<or> t_sport t = 53
      then Inr (if ilen (t_payload t) > 2
                then dns_observations (ps_codec ps) ''dns'' (idrop 2 (t_payload t)) source else [])
      else Inr [])"

definition UDP_PORTS :: "int list" where
  "UDP_PORTS = [53, 67, 68, 137, 1900, 5353, 5355]"

text \<open>What a datagram on a known port says, and what goes to the DHCP callback.\<close>

definition parse_udp :: "parsers \<Rightarrow> pydict \<Rightarrow> transport \<Rightarrow> (pydict list \<times> pydict list) option" where
  "parse_udp ps source u =
     (let port = (if t_sport u \<in> set UDP_PORTS then t_sport u else t_dport u);
          payload = t_payload u; cd = ps_codec ps in
      if port \<notin> set UDP_PORTS then None
      else if port = 67 \<or> port = 68
      then (case parse_dhcp_packet cd payload of
              None \<Rightarrow> Some ([], [])
            | Some ob \<Rightarrow> if truthy (dget ob ''mac_address'') then Some ([ob], [ob]) else Some ([], []))
      else Some (if port = 53 then dns_observations cd ''dns'' payload source
                 else if port = 5353 then dns_observations cd ''mdns'' payload source
                 else if port = 5355 then dns_observations cd ''llmnr'' payload source
                 else if port = 137 then parse_nbns_payload cd payload source
                 else parse_ssdp_payload cd payload source, []))"

text \<open>The body of the \<open>try\<close> block.\<close>

definition parse_packet :: "parsers \<Rightarrow> clock \<Rightarrow> captured \<Rightarrow> (listener, int) act" where
  "parse_packet ps k p l =
     (let source = packet_source p;
          l = (case str_of (dget source ''ip_address'') of
                 None \<Rightarrow> l
               | Some ip \<Rightarrow> l\<lparr>l_flows := record_packet (mono k) ip (cap_length p) (l_flows l)\<rparr>) in
      case cap_tcp p of
        Some t \<Rightarrow>
          (case parse_tcp ps source t of
             Inl e \<Rightarrow> (Inl e, l)
           | Inr obs \<Rightarrow> take_in (ps_repr ps) k obs l)
      | None \<Rightarrow>
          (case cap_udp p of
             None \<Rightarrow> (Inr 0, l)
           | Some u \<Rightarrow>
               (case parse_udp ps source u of
                  None \<Rightarrow> (Inr 0, l)
                | Some (obs, reported) \<Rightarrow>
                    take_in (ps_repr ps) k obs (l\<lparr>l_reported := l_reported l @ reported\<rparr>))))"

text \<open>Whatever the parsers raise is logged, and the packet counts as nothing.\<close>

definition process_packet :: "parsers \<Rightarrow> clock \<Rightarrow> captured \<Rightarrow> listener \<Rightarrow> int \<times> listener" where
  "process_packet ps k p l =
     (case parse_packet ps k p l of (Inl e, l) \<Rightarrow> (0, l) | (Inr n, l) \<Rightarrow> (n, l))"

definition is_supported_packet :: "captured \<Rightarrow> bool" where
  "is_supported_packet p =
     (case cap_tcp p of
        Some t \<Rightarrow> t_sport t \<in> set [53, 443] \<or> t_dport t \<in> set [53, 443]
      | None \<Rightarrow> (case cap_udp p of
          None \<Rightarrow> False
        | Some u \<Rightarrow> t_sport u \<in> set UDP_PORTS \<or> t_dport u \<in> set UDP_PORTS))"

subsection \<open>Announcing what works\<close>

record status =
  st_protocols :: "(string \<times> string) list"
  st_log :: "string list"

definition PROTOCOL_LABELS :: "(string \<times> string) list" where
  "PROTOCOL_LABELS =
     [(''dhcp'', ''DHCP''), (''mdns'', ''mDNS''), (''llmnr'', ''LLMNR''), (''nbns'', ''NBNS''), (''ssdp'', ''SSDP''),
      (''dns'', ''DNS''), (''tls'', ''TLS/SNI''), (''traffic'', ''Traffic'')]"

definition initial_status :: status where
  "initial_status = \<lparr>st_protocols = map (\<lambda>(p, _). (p, ''UNAVAILABLE'')) PROTOCOL_LABELS, st_log = []\<rparr>"

definition availability :: "status \<Rightarrow> string" where
  "availability s =
     (let vs = map snd (st_protocols s) in
      if list_all (\<lambda>v. v = ''UNAVAILABLE'') vs then ''UNAVAILABLE''
      else if list_all (\<lambda>v. v = ''AVAILABLE'') vs then ''AVAILABLE''
      else ''PARTIALLY_AVAILABLE'')"

definition emit_status :: "string \<Rightarrow> status \<Rightarrow> status" where
  "emit_status message s = s\<lparr>st_log := st_log s @ [message]\<rparr>"

definition mark_protocol_unavailable :: "string \<Rightarrow> string \<Rightarrow> status \<Rightarrow> status" where
  "mark_protocol_unavailable protocol reason s =
     (case map_of PROTOCOL_LABELS protocol of
        None \<Rightarrow> s
      | Some label \<Rightarrow>
          if map_of (st_protocols s) protocol = Some ''UNAVAILABLE'' then s
          else emit_status (''[PASSIVE LISTENER] '' @ label @ '' unavailable: '' @ reason)
                 (s\<lparr>st_protocols := dset protocol ''UNAVAILABLE'' (st_protocols s)\<rparr>))"

definition mark_capture_unavailable :: "string \<Rightarrow> status \<Rightarrow> status" where
  "mark_capture_unavailable reason s =
     (let s = fold (\<lambda>(p, _). mark_protocol_unavailable p reason) PROTOCOL_LABELS s
      in emit_status (''[PASSIVE LISTENER] Listener unavailable ('' @ availability s @ '')'') s)"

text \<open>What \<open>start\<close> announces before the capture thread runs.\<close>

definition start_status :: "status \<Rightarrow> status" where
  "start_status s =
     (let s = s\<lparr>st_protocols := map (\<lambda>(p, _). (p, ''AVAILABLE'')) (st_protocols s)\<rparr>;
          s = emit_status ''[PASSIVE LISTENER] Starting unified discovery scanner...'' s;
          s = fold (\<lambda>(_, label). emit_status (''[PASSIVE LISTENER] '' @ label @ '' listener active'')) PROTOCOL_LABELS s
      in emit_status (''[PASSIVE LISTENER] Unified listener ready ('' @ availability s @ '')'') s)"

lemma capture_lost:
  "availability (start_status initial_status) = ''AVAILABLE'' \<and>
   availability (mark_capture_unavailable ''off'' (start_status initial_status)) = ''UNAVAILABLE'' \<and>
   availability (mark_protocol_unavailable ''tls'' ''off'' (start_status initial_status)) = ''PARTIALLY_AVAILABLE''"
  by code_simp

section \<open>Every packet keeps the listener consistent\<close>

lemma device_ok_note_all [device_intros]: "device_ok d \<Longrightarrow> device_ok (note_all c sources d)"
  unfolding note_all_def by (induction sources arbitrary: d) (simp_all add: device_ok_evidence)

lemma device_ok_raw [device_intros]: "device_ok d \<Longrightarrow> device_ok (raw_update k new d)"
  by (simp add: raw_update_def device_ok_def)

lemma device_ok_evaluated [device_intros]:
  assumes "calibrated h" "device_ok d"
  shows "device_ok (evaluated_os h s d)" "device_ok (evaluated_type h s d)" "device_ok (evaluated_model h s d)"
  using assms by (simp_all add: evaluated_os_def evaluated_type_def evaluated_model_def device_ok_note_all
      device_ok_better calibrated_def)

lemma device_ok_take [device_intros]:
  "calibrated h \<Longrightarrow> device_ok d \<Longrightarrow> device_ok (take_os h s d)"
  "calibrated h \<Longrightarrow> device_ok d \<Longrightarrow> device_ok (take_type h s d)"
  using improves_take by (auto simp: improves_def)

lemma device_ok_softwares [device_intros]: "device_ok d \<Longrightarrow> device_ok (fold add_software_hint hs d)"
  by (induction hs arbitrary: d) (simp_all add: device_ok_software)

lemma device_ok_software_upd: "device_ok (d\<lparr>d_software := v\<rparr>) = device_ok d"
  by (simp add: device_ok_def)

lemma device_ok_mac_upd: "device_ok (d\<lparr>d_mac := v\<rparr>) = device_ok d"
  by (simp add: device_ok_def)

lemma calibrated_dhcp: "calibrated (classify_dhcp_evidence vendor_class prl hostname)"
  by (simp add: classify_dhcp_evidence_def Let_def calibrated_hostname_step calibrated_prl calibrated_vendor_class)

lemma enrich_ok: "device_ok d \<Longrightarrow> device_ok (enrich p ob d)"
  by (auto simp: enrich_def enrich_dhcp_def enrich_mdns_def enrich_name_def enrich_ssdp_def enrich_tls_def enrich_dns_def
      Let_def device_intros calibrated_dhcp calibrated_mdns calibrated_ssdp calibrated_sni device_ok_software_upd
      split: option.split)

definition listener_ok :: "listener \<Rightarrow> bool" where
  "listener_ok l \<longleftrightarrow> buffer_ok (l_buffer l) \<and> correlator_ok (l_corr l)"

lemma absorb_ok: "device_ok d \<Longrightarrow> device_ok (absorb ob flows vs d)"
  by (simp add: absorb_def Let_def classify_ok enrich_ok device_ok_ip set_mac_if_none_def device_ok_mac_upd)

lemma correlate_observation_ok:
  assumes "listener_ok l" "correlate_observation k ob l = (x, l')"
  shows "listener_ok l' \<and> l_buffer l' = l_buffer l"
proof -
  obtain y c where look: "get_or_create_device (dget ob ''mac_address'') (dget ob ''ip_address'') (dget ob ''observed_at'')
      (wall k) (l_corr l) = (y, c)" by force
  have c: "correlator_ok c"
    using correlator_lookup_ok [OF _ look] assms(1) by (simp add: listener_ok_def)
  have stored: "correlator_ok (c\<lparr>store := dset r e (store c)\<rparr>)"
    if "device_at c r = Some d" "device_ok e" for r d e
    using update_device_ok [OF c, of "\<lambda>_. e" r] that by (simp add: update_device_def)
  have enriched: "device_ok (absorb ob flows vs e)"
    if "device_at c r = Some d" "record_activity (wall k) ts pr d = Inr e" for r d e flows vs ts pr
    using device_ok_activity [OF _ that(2)] correlator_ok_device [OF c that(1)] by (simp add: absorb_ok)
  show ?thesis
    using assms stored enriched c unfolding correlate_observation_def look Let_def listener_ok_def
    by (auto split: if_split_asm sum.split_asm option.split_asm)
qed

lemma take_in_ok: "listener_ok l \<Longrightarrow> listener_ok (snd (take_in repr k obs l))"
proof (induction obs arbitrary: l)
  case Nil
  then show ?case by simp
next
  case (Cons ob obs)
  obtain x b where add: "add_observation repr (wall k) ob None (l_buffer l) = (x, b)" by force
  have l1: "listener_ok (l\<lparr>l_buffer := b\<rparr>)"
    using add_observation_ok [OF _ add] Cons.prems by (simp add: listener_ok_def)
  obtain y l2 where cor: "correlate_observation k ob (l\<lparr>l_buffer := b\<rparr>) = (y, l2)" by force
  have "listener_ok l2" using correlate_observation_ok [OF l1 cor] by blast
  from Cons.IH [OF this] l1 this show ?case
    by (cases "take_in repr k obs l2") (auto simp: add cor split: sum.split)
qed

lemma process_packet_ok: "listener_ok l \<Longrightarrow> listener_ok (snd (process_packet ps k p l))"
proof -
  assume l: "listener_ok l"
  define run where "run = parse_packet ps k p l"
  have "listener_ok (snd run)"
  proof -
    have upd: "listener_ok (m\<lparr>l_flows := f\<rparr>) = listener_ok m" "listener_ok (m\<lparr>l_reported := r\<rparr>) = listener_ok m"
      for m f r by (simp_all add: listener_ok_def)
    show ?thesis
      unfolding run_def parse_packet_def Let_def
      by (simp add: upd l take_in_ok split: option.split sum.split prod.split)
  qed
  then show ?thesis
    by (cases run; cases "fst run") (auto simp: process_packet_def run_def [symmetric])
qed

text \<open>The packets of a capture, each with the clock when it is processed.\<close>

definition listen :: "parsers \<Rightarrow> clock \<times> captured \<Rightarrow> listener \<Rightarrow> listener" where
  "listen ps kp l = snd (process_packet ps (fst kp) (snd kp) l)"

interpretation listening: lifecycle "listen ps" "\<lambda>_. True" listener_ok for ps
  by unfold_locales (simp add: listen_def process_packet_ok)

lemma new_listener_ok: "new_listener m = Inr l \<Longrightarrow> listener_ok l"
  by (auto simp: new_listener_def then_do_eq_Inr listener_ok_def empty_correlator_def correlator_ok_def refs_of_def
      dest: new_buffer_ok)

text \<open>C34.  Whatever is captured, in any order, the listener stays consistent: its buffer within its bound with
  one entry per key, and its correlator with tables that map distinct keys to existing, well-formed
  records.  Whatever a packet makes the parsers raise does not get out: it counts as nothing.\<close>

theorem passive_listener_invariant:
  assumes "new_listener m = Inr l0"
  shows "listener_ok (fold (listen ps) packets l0) \<and>
    (\<forall>k p l. (\<exists>e. fst (parse_packet ps k p l) = Inl e) \<longrightarrow> fst (process_packet ps k p l) = 0)"
  using listening.run_good [OF new_listener_ok [OF assms]]
  by (auto simp: process_packet_def split: prod.split)

definition SAMPLE_PARSERS :: parsers where
  "SAMPLE_PARSERS = \<lparr>ps_md5 = (\<lambda>s. s), ps_codec = ASCII, ps_repr = (\<lambda>_. [])\<rparr>"

text \<open>The hello with an odd list of cipher suites, from a station on the network.\<close>

definition SAMPLE_HELLO :: captured where
  "SAMPLE_HELLO = \<lparr>cap_ether = Some (''02:42:ac:11:00:09'', ''02:42:ac:11:00:01''),
     cap_ip = Some (''10.0.0.7'', ''52.1.2.3''), cap_ip6 = None,
     cap_tcp = Some \<lparr>t_sport = 50000, t_dport = 443, t_payload = odd_hello\<rparr>, cap_udp = None, cap_length = 101\<rparr>"

theorem passive_listener_invariant_witness:
  "\<exists>l0. new_listener (PInt 4) = Inr l0
     \<and> listener_ok (fold (listen SAMPLE_PARSERS) [(\<lparr>wall = 0, mono = 0\<rparr>, SAMPLE_HELLO)] l0)
     \<and> fst (process_packet SAMPLE_PARSERS \<lparr>wall = 0, mono = 0\<rparr> SAMPLE_HELLO l0) = 0"
proof -
  obtain l0 where l0: "new_listener (PInt 4) = Inr l0"
    by (auto simp: new_listener_def new_buffer_def)
  have "case new_listener (PInt 4) of Inl _ \<Rightarrow> False
      | Inr l \<Rightarrow> (case fst (parse_packet SAMPLE_PARSERS \<lparr>wall = 0, mono = 0\<rparr> SAMPLE_HELLO l) of Inl _ \<Rightarrow> True | _ \<Rightarrow> False)"
    by code_simp
  then have "\<exists>e. fst (parse_packet SAMPLE_PARSERS \<lparr>wall = 0, mono = 0\<rparr> SAMPLE_HELLO l0) = Inl e"
    by (simp add: l0 split: sum.splits)
  with passive_listener_invariant [OF l0, of SAMPLE_PARSERS "[(\<lparr>wall = 0, mono = 0\<rparr>, SAMPLE_HELLO)]"] l0
  show ?thesis by blast
qed

section \<open>Nothing of a TCP packet is ever buffered\<close>

text \<open>TLS and DNS observations have no key, so the buffer ignores them.\<close>

definition unkeyed :: "pydict \<Rightarrow> bool" where
  "unkeyed ob \<longleftrightarrow> dget ob ''protocol'' = PStr ''tls'' \<or> dget ob ''protocol'' = PStr ''dns''"

lemma add_unkeyed:
  assumes "unkeyed ob"
  shows "\<exists>x. add_observation repr now ob seen_at b = (x, b) \<and> x \<noteq> Inr True"
proof (cases "add_observation repr now ob seen_at b")
  case (Pair x b')
  have no_key: "passive_observation_key n = None" if "normalise_passive_observation repr now ob seen_at = Inr (Some n)" for n
    using normalised_observation [OF that] assms by (auto simp: unkeyed_def passive_observation_key_def Let_def)
  have "add_observation repr now ob seen_at b = (x, b) \<and> x \<noteq> Inr True"
    using Pair no_key by (auto simp: add_observation_def split: sum.splits option.splits)
  then show ?thesis by blast
qed

lemma take_in_unkeyed:
  "list_all unkeyed obs \<Longrightarrow> \<exists>x l'. take_in repr k obs l = (x, l') \<and> l_buffer l' = l_buffer l \<and> (\<forall>n. x = Inr n \<longrightarrow> n = 0)"
proof (induction obs arbitrary: l)
  case Nil
  then show ?case by simp
next
  case (Cons ob obs)
  have "unkeyed ob" using Cons.prems by simp
  from add_unkeyed [OF this] obtain x
    where add: "add_observation repr (wall k) ob None (l_buffer l) = (x, l_buffer l)" "x \<noteq> Inr True" by blast
  obtain y l2 where cor: "correlate_observation k ob l = (y, l2)" by force
  have keep: "l_buffer l2 = l_buffer l"
    using cor unfolding correlate_observation_def Let_def
    by (auto split: if_split_asm prod.split_asm sum.split_asm option.split_asm)
  have same: "l\<lparr>l_buffer := l_buffer l\<rparr> = l" by simp
  from Cons.IH [of l2] Cons.prems obtain z l3 where
    rest: "take_in repr k obs l2 = (z, l3)" "l_buffer l3 = l_buffer l2" "\<forall>n. z = Inr n \<longrightarrow> n = 0" by auto
  show ?case
    using add(2) rest keep by (cases x) (auto simp: add(1) same cor split: sum.split)
qed

lemma updates_other: "list_all (\<lambda>(k, v). k \<noteq> f) new \<Longrightarrow> dget (updates new d) f = dget d f"
  unfolding updates_def by (induction new arbitrary: d) auto

lemma source_data_other: "list_all (\<lambda>(k, v). k \<noteq> ''protocol'') (source_data source)"
  by (auto simp: source_data_def list_all_iff)

lemma record_fields_other:
  "record_fields cd protocol payload r = Inr (Some fs) \<Longrightarrow> list_all (\<lambda>(k, v). k \<noteq> ''protocol'') fs"
  by (auto simp: record_fields_def Let_def then_do_eq_Inr split: if_split_asm prod.split_asm)

lemma dns_protocol: "ob \<in> set (dns_observations cd protocol payload source) \<Longrightarrow> dget ob ''protocol'' = PStr protocol"
proof -
  assume ob: "ob \<in> set (dns_observations cd protocol payload source)"
  have base: "dget (updates (source_data source) d) ''protocol'' = dget d ''protocol''" for d
    by (rule updates_other [OF source_data_other])
  obtain resp qs rs where msg: "parse_dns_message cd payload = (resp, qs, rs)" by (cases "parse_dns_message cd payload")
  show ?thesis
  proof (cases resp)
    case False
    with ob base show ?thesis by (auto simp: dns_observations_def msg)
  next
    case True
    with ob obtain r fs where "Some fs = caught (record_fields cd protocol payload r) None"
      and u: "ob = updates fs (updates (source_data source) [(''protocol'', PStr protocol), (''observation_kind'', PStr ''response'')])"
      by (auto simp: dns_observations_def msg split: option.split_asm)
    then have "record_fields cd protocol payload r = Inr (Some fs)"
      by (auto simp: caught_def split: sum.split_asm)
    from updates_other [OF record_fields_other [OF this]] base show ?thesis by (simp add: u)
  qed
qed

lemma parse_tcp_unkeyed: "parse_tcp ps source t = Inr obs \<Longrightarrow> list_all unkeyed obs"
  using dns_protocol
  by (auto simp: parse_tcp_def then_do_eq_Inr list_all_iff unkeyed_def tls_observation_def
      split: if_split_asm option.split_asm)

text \<open>No TCP packet adds an observation: what TLS hellos and DNS answers say only reaches the device records,
  and the packet counts as nothing.\<close>

theorem tcp_packets_never_buffered:
  assumes "cap_tcp p = Some t"
  shows "fst (process_packet ps k p l) = 0 \<and> l_buffer (snd (process_packet ps k p l)) = l_buffer l"
proof -
  define l1 where "l1 = (case str_of (dget (packet_source p) ''ip_address'') of None \<Rightarrow> l
    | Some ip \<Rightarrow> l\<lparr>l_flows := record_packet (mono k) ip (cap_length p) (l_flows l)\<rparr>)"
  have same: "l_buffer l1 = l_buffer l" by (simp add: l1_def split: option.split)
  have run: "parse_packet ps k p l = (case parse_tcp ps (packet_source p) t of
      Inl e \<Rightarrow> (Inl e, l1) | Inr obs \<Rightarrow> take_in (ps_repr ps) k obs l1)"
    unfolding parse_packet_def assms Let_def l1_def by simp
  show ?thesis
  proof (cases "parse_tcp ps (packet_source p) t")
    case (Inl e)
    then show ?thesis by (simp add: process_packet_def run same)
  next
    case (Inr obs)
    from take_in_unkeyed [OF parse_tcp_unkeyed [OF this], of "ps_repr ps" k l1] obtain x l' where
      "take_in (ps_repr ps) k obs l1 = (x, l')" "l_buffer l' = l_buffer l1" "\<forall>n. x = Inr n \<longrightarrow> n = 0" by blast
    then show ?thesis by (simp add: process_packet_def run Inr same split: sum.split)
  qed
qed

theorem tcp_packets_never_buffered_witness:
  "\<exists>l0. new_listener (PInt 4) = Inr l0 \<and> cap_tcp SAMPLE_HELLO \<noteq> None \<and>
     l_buffer (snd (process_packet SAMPLE_PARSERS \<lparr>wall = 0, mono = 0\<rparr> SAMPLE_HELLO l0)) = l_buffer l0"
proof -
  obtain l0 where l0: "new_listener (PInt 4) = Inr l0"
    by (auto simp: new_listener_def new_buffer_def)
  have t: "cap_tcp SAMPLE_HELLO = Some \<lparr>t_sport = 50000, t_dport = 443, t_payload = odd_hello\<rparr>"
    by (simp add: SAMPLE_HELLO_def)
  from tcp_packets_never_buffered [OF this] l0 t show ?thesis by blast
qed

end
