(* ===== verification/Stamp.thy ===== *)
theory Stamp
  imports Iso Bytes
begin

text \<open>
  The time stamps of the telemetry files: \<open>strftime\<close> and \<open>strptime\<close> with the formats that
  \<open>client/app/packet_extractor.py\<close>, \<open>flow_aggregator.py\<close> and \<open>activity_window_aggregator.py\<close> use.
  \<open>strptime\<close> accepts fields of one or two digits and either case of the literal letters, as its regular
  expressions do; years are written with four digits (from the year 1000 on on every platform).
\<close>

section \<open>Writing\<close>

definition hms :: "int \<Rightarrow> string" where
  "hms u = (let s = u div USEC in two (s div 3600) @ '':'' @ two (s div 60 mod 60) @ '':'' @ two (s mod 60))"

text \<open>\<open>strftime("%Y-%m-%dT%H:%M:%S.%f")[:-3] + "Z"\<close>.\<close>

definition format_timestamp :: "int \<Rightarrow> string" where
  "format_timestamp t =
     format_date (t div DAY) @ ''T'' @ hms (t mod DAY) @ ''.'' @ itake 3 (six (t mod USEC)) @ ''Z''"

text \<open>\<open>strftime("%Y-%m-%dT%H:%M:%S") + "Z"\<close>.\<close>

definition format_iso :: "int \<Rightarrow> string" where
  "format_iso t = format_date (t div DAY) @ ''T'' @ hms (t mod DAY) @ ''Z''"

text \<open>\<open>strftime("%H-%M")\<close>.\<close>

definition format_file_label :: "int \<Rightarrow> string" where
  "format_file_label t =
     (let s = t mod DAY div USEC in two (s div 3600) @ ''-'' @ two (s div 60 mod 60))"

section \<open>Reading\<close>

definition strp_field :: "int \<Rightarrow> int \<Rightarrow> string \<Rightarrow> int option" where
  "strp_field lo hi s =
     (if (ilen s = 1 \<or> ilen s = 2) \<and> list_all is_digit s \<and> lo \<le> digits_val 0 s \<and> digits_val 0 s \<le> hi
      then Some (digits_val 0 s) else None)"

text \<open>A day may also be written with a space before its one digit.\<close>

definition strp_day :: "string \<Rightarrow> int option" where
  "strp_day s =
     (case s of
        [c, d] \<Rightarrow> if c = CHR '' '' then strp_field 1 9 [d] else strp_field 1 31 s
      | _ \<Rightarrow> strp_field 1 31 s)"

definition strp_year :: "string \<Rightarrow> int option" where
  "strp_year s = (if ilen s = 4 \<and> list_all is_digit s then Some (digits_val 0 s) else None)"

text \<open>\<open>%f\<close>: one to six digits, filled up to microseconds.\<close>

definition strp_micros :: "string \<Rightarrow> int option" where
  "strp_micros s =
     (if 1 \<le> ilen s \<and> ilen s \<le> 6 \<and> list_all is_digit s then Some (digits_val 0 (itake 6 (s @ ''000000''))) else None)"

definition strp_date :: "string \<Rightarrow> string \<Rightarrow> string \<Rightarrow> int option" where
  "strp_date ys ms ds =
     (case (strp_year ys, strp_field 1 12 ms, strp_day ds) of
        (Some y, Some m, Some d) \<Rightarrow> if valid_date y m d then Some (days_of y m d) else None
      | _ \<Rightarrow> None)"

text \<open>The seconds with their fraction, where the format has one, and the final letter.\<close>

definition strp_seconds :: "bool \<Rightarrow> string \<Rightarrow> int option" where
  "strp_seconds fraction s =
     (if s = [] \<or> last s \<notin> set [CHR ''Z'', CHR ''z''] then None
      else (case (if fraction then split_char (CHR ''.'') (butlast s) else [butlast s, ''0'']) of
              [ss, fs] \<Rightarrow>
                (case (strp_field 0 59 ss, strp_micros fs) of
                   (Some n, Some f) \<Rightarrow> Some (USEC * n + f)
                 | _ \<Rightarrow> None)
            | _ \<Rightarrow> None))"

definition strp_time :: "bool \<Rightarrow> string \<Rightarrow> int option" where
  "strp_time fraction s =
     (case split_char (CHR '':'') s of
        [hs, ms, ss] \<Rightarrow>
          (case (strp_field 0 23 hs, strp_field 0 59 ms, strp_seconds fraction ss) of
             (Some h, Some m, Some u) \<Rightarrow> Some (HOUR * h + 60 * USEC * m + u)
           | _ \<Rightarrow> None)
      | _ \<Rightarrow> None)"

definition not_T :: "char \<Rightarrow> bool" where
  "not_T c \<longleftrightarrow> c \<noteq> CHR ''T'' \<and> c \<noteq> CHR ''t''"

text \<open>\<open>strptime(s, "%Y-%m-%dT%H:%M:%S.%fZ")\<close>, or without the fraction, as an instant in UTC.\<close>

definition strptime :: "bool \<Rightarrow> string \<Rightarrow> int option" where
  "strptime fraction s =
     (case split_char (CHR ''-'') s of
        [ys, ms, rest] \<Rightarrow>
          (case (strp_date ys ms (takeWhile not_T rest), dropWhile not_T rest) of
             (Some d, _ # t) \<Rightarrow> map_option (\<lambda>u. DAY * d + u) (strp_time fraction t)
           | _ \<Rightarrow> None)
      | _ \<Rightarrow> None)"

section \<open>What is written is read back\<close>

lemma two_chars:
  assumes "0 \<le> n" "n < 100"
  shows "list_all is_digit (two n)" "ilen (two n) = 2" "digits_val 0 (two n) = n"
  using two_digits_val [OF assms, of 0] by (simp_all add: two_def)

lemma not_digit: "\<not> is_digit c \<Longrightarrow> list_all is_digit s \<Longrightarrow> c \<notin> set s"
  by (auto simp: list_all_iff)

lemma two_no_sep: "0 \<le> n \<Longrightarrow> n < 100 \<Longrightarrow> \<not> is_digit c \<Longrightarrow> c \<notin> set (two n)"
  using two_chars(1) not_digit by blast

lemma separators_no_digits:
  "\<not> is_digit (CHR ''-'')" "\<not> is_digit (CHR '':'')" "\<not> is_digit (CHR ''.'')" "\<not> is_digit (CHR '' '')"
  "\<not> is_digit (CHR ''T'')" "\<not> is_digit (CHR ''t'')" "\<not> is_digit (CHR ''Z'')"
  by (simp_all add: is_digit_def)

lemma strp_field_two: "0 \<le> lo \<Longrightarrow> lo \<le> n \<Longrightarrow> n \<le> hi \<Longrightarrow> n < 100 \<Longrightarrow> strp_field lo hi (two n) = Some n"
  by (simp add: strp_field_def two_chars)

lemma strp_day_two: "1 \<le> n \<Longrightarrow> n \<le> 31 \<Longrightarrow> strp_day (two n) = Some n"
proof -
  assume n: "1 \<le> n" "n \<le> 31"
  have "list_all is_digit (two n)" using n by (intro two_chars) simp_all
  then have "digit_char (n div 10) \<noteq> CHR '' ''" using separators_no_digits(4) by (auto simp: two_def)
  then show ?thesis
    using strp_field_two [of 1 n 31] n by (simp add: strp_day_def two_def)
qed

lemma strp_seconds_written:
  assumes "0 \<le> n" "n \<le> 59" "list_all is_digit fs" "strp_micros fs = Some f"
  shows "strp_seconds True (two n @ ''.'' @ fs @ ''Z'') = Some (USEC * n + f)"
    and "strp_seconds False (two n @ ''Z'') = Some (USEC * n)"
proof -
  have d: "list_all is_digit (two n)" using assms by (intro two_chars) simp_all
  have "split_char (CHR ''.'') (two n @ CHR ''.'' # fs) = [two n, fs]"
    using not_digit [OF separators_no_digits(3)] d assms(3) by (simp add: split_char_append split_char_none)
  moreover have "butlast (two n @ ''.'' @ fs @ ''Z'') = two n @ CHR ''.'' # fs"
    "butlast (two n @ ''Z'') = two n" by (simp_all add: butlast_append)
  moreover have "strp_micros ''0'' = Some 0" by code_simp
  ultimately show "strp_seconds True (two n @ ''.'' @ fs @ ''Z'') = Some (USEC * n + f)"
    "strp_seconds False (two n @ ''Z'') = Some (USEC * n)"
    using strp_field_two [of 0 n 59] assms by (simp_all add: strp_seconds_def)
qed

lemma strp_time_written:
  assumes "0 \<le> u" "u < DAY" "CHR '':'' \<notin> set r" "strp_seconds fraction (two (u div USEC mod 60) @ r) = Some v"
  shows "strp_time fraction (hms u @ r) = Some (HOUR * (u div USEC div 3600) + 60 * USEC * (u div USEC div 60 mod 60) + v)"
proof -
  define h m s where "h = u div USEC div 3600" and "m = u div USEC div 60 mod 60" and "s = u div USEC mod 60"
  have "0 \<le> h" "h < 24" using clock_digits [OF assms(1,2)] by (simp_all add: h_def)
  moreover have "0 \<le> m" "m < 60" "0 \<le> s" "s < 60" by (simp_all add: m_def s_def)
  moreover from this have "CHR '':'' \<notin> set (two h)" "CHR '':'' \<notin> set (two m)" "CHR '':'' \<notin> set (two s)"
    using \<open>0 \<le> h\<close> \<open>h < 24\<close> by (simp_all add: two_no_sep separators_no_digits)
  moreover have "hms u @ r = two h @ CHR '':'' # two m @ CHR '':'' # two s @ r"
    by (simp add: hms_def Let_def h_def m_def s_def)
  ultimately show ?thesis
    using assms(3,4) strp_field_two [of 0 h 23] strp_field_two [of 0 m 59]
    by (simp add: strp_time_def split_char_append split_char_none h_def [symmetric] m_def [symmetric] s_def [symmetric])
qed

lemma hms_no_sep:
  assumes "0 \<le> u" "u < DAY" "\<not> is_digit c" "c \<noteq> CHR '':''"
  shows "c \<notin> set (hms u)"
  using clock_digits [OF assms(1,2)] two_no_sep [of "u div USEC div 3600" c] two_no_sep [of "u div USEC div 60 mod 60" c]
    two_no_sep [of "u div USEC mod 60" c] assms(3,4)
  by (simp add: hms_def Let_def)

lemma strptime_written:
  assumes "-719162 \<le> n" "n \<le> 2932896" "CHR ''-'' \<notin> set t" "strp_time fraction t = Some v"
  shows "strptime fraction (format_date n @ ''T'' @ t) = Some (DAY * n + v)"
proof -
  obtain y m d where c: "civil_of_days n = (y, m, d)" by (cases "civil_of_days n")
  with civil_of_days [of n y m d] assms(1) have v: "valid_date y m d" and n: "days_of y m d = n" by auto
  from v have range: "1 \<le> y" "1 \<le> m" "m \<le> 12" "1 \<le> d" "d \<le> 31"
    by (auto simp: valid_date_def days_in_month_def split: if_splits)
  with year_le_9999 [of y m d] n assms have "y \<le> 9999" by simp
  define a b where "a = y div 100" and "b = y mod 100"
  have ab: "0 \<le> a" "a < 100" "0 \<le> b" "b < 100" "100 * a + b = y"
    using range \<open>y \<le> 9999\<close> by (auto simp: a_def b_def pos_imp_zdiv_nonneg_iff)
  have year: "strp_year (two a @ two b) = Some y"
    using ab two_digits_val [of b a] two_chars(1,3) [of a] by (simp add: strp_year_def two_chars digits_val_append ilen_length two_def)
  have date: "strp_date (two a @ two b) (two m) (two d) = Some n"
    using year range v n strp_field_two [of 1 m 12] by (simp add: strp_date_def strp_day_two)
  have no: "CHR ''-'' \<notin> set (two k)" if "0 \<le> k" "k < 100" for k
    using that separators_no_digits by (simp add: two_no_sep)
  have shape: "format_date n @ ''T'' @ t = (two a @ two b) @ CHR ''-'' # two m @ CHR ''-'' # two d @ CHR ''T'' # t"
    by (simp add: format_date_def c a_def b_def)
  have split: "split_char (CHR ''-'') (format_date n @ ''T'' @ t) = [two a @ two b, two m, two d @ CHR ''T'' # t]"
  proof -
    have "CHR ''-'' \<notin> set (two a @ two b)" using no [of a] no [of b] ab by simp
    then show ?thesis
      unfolding shape using range no assms(3)
      by (subst split_char_append) (simp_all add: split_char_append split_char_none)
  qed
  have "list_all not_T (two d)"
    using two_chars(1) [of d] range separators_no_digits by (auto simp: not_T_def list_all_iff)
  then have "takeWhile not_T (two d @ CHR ''T'' # t) = two d" "dropWhile not_T (two d @ CHR ''T'' # t) = CHR ''T'' # t"
    by (simp_all add: list_all_iff takeWhile_append dropWhile_append not_T_def)
  then show ?thesis unfolding strptime_def split using date assms(4) by simp
qed

text \<open>Reading a written stamp gives the instant up to what the format leaves out.\<close>

lemma strptime_format_timestamp:
  assumes "representable t"
  shows "strptime True (format_timestamp t) = Some (t - t mod 1000)"
proof -
  define n u f where "n = t div DAY" and "u = t mod DAY" and "f = t mod USEC"
  have u: "0 \<le> u" "u < DAY" "u mod USEC = f" "DAY * n + u = t"
    by (simp_all add: u_def f_def n_def DAY_def USEC_def mod_mod_cancel)
  have n: "-719162 \<le> n" "n \<le> 2932896"
    using assms u(1,2) u(4) [symmetric] by (simp_all add: representable_def MIN_INSTANT_def MAX_INSTANT_def DAY_def USEC_def)
  have f: "0 \<le> f" "f < USEC" by (simp_all add: f_def USEC_def)
  have six: "length (six f) = Suc (Suc (Suc (Suc (Suc (Suc 0)))))"
    "list_all is_digit (six f)" "digits_val 0 (six f) = f" using six_digits [OF f] by simp_all
  then obtain a b c d e g where abc: "six f = [a, b, c, d, e, g]" by (auto simp: length_Suc_conv)
  define lo where "lo = 100 * digit_val d + (10 * digit_val e + digit_val g)"
  have dig: "0 \<le> digit_val x \<and> digit_val x \<le> 9" if "is_digit x" for x
    using that by (simp add: is_digit_def digit_val_def)
  have lo: "0 \<le> lo" "lo < 1000"
    using six(2) dig [of d] dig [of e] dig [of g] by (auto simp: abc lo_def)
  have val: "digits_val 0 [a, b, c] * 1000 + lo = f" using six(3) by (simp add: abc lo_def)
  have micros: "strp_micros (itake 3 (six f)) = Some (f - f mod 1000)"
  proof -
    have "(x * 1000 + lo) mod 1000 = lo" for x using lo by simp
    then have "f mod 1000 = lo" unfolding val [symmetric] .
    with val six(2) show ?thesis by (simp add: strp_micros_def abc digit_val_def)
  qed
  have fs: "list_all is_digit (itake 3 (six f))" using six(2) by (simp add: abc)
  have sec: "strp_seconds True (two (u div USEC mod 60) @ ''.'' @ itake 3 (six f) @ ''Z'')
      = Some (USEC * (u div USEC mod 60) + (f - f mod 1000))"
  proof -
    define s where "s = u div USEC mod 60"
    have "0 \<le> s" "s \<le> 59" using pos_mod_bound [of 60 "u div USEC"] by (simp_all add: s_def)
    from strp_seconds_written(1) [OF this fs micros] show ?thesis by (simp add: s_def)
  qed
  have "CHR '':'' \<notin> set (''.'' @ itake 3 (six f) @ ''Z'')"
    using fs not_digit separators_no_digits by auto
  from strp_time_written [OF u(1,2) this] sec
  have "strp_time True (hms u @ ''.'' @ itake 3 (six f) @ ''Z'') =
      Some (HOUR * (u div USEC div 3600) + 60 * USEC * (u div USEC div 60 mod 60) + (USEC * (u div USEC mod 60) + (f - f mod 1000)))"
    by blast
  then have time: "strp_time True (hms u @ ''.'' @ itake 3 (six f) @ ''Z'') = Some (u - f mod 1000)"
    using clock_digits [OF u(1,2)] by (simp add: u(3))
  have "CHR ''-'' \<notin> set (hms u @ ''.'' @ itake 3 (six f) @ ''Z'')"
    using hms_no_sep [OF u(1,2)] fs not_digit separators_no_digits by auto
  from strptime_written [OF n this time] have "strptime True (format_timestamp t) = Some (DAY * n + (u - f mod 1000))"
    by (simp add: format_timestamp_def n_def u_def f_def)
  moreover have "f mod 1000 = t mod 1000" by (simp add: f_def USEC_def mod_mod_cancel)
  ultimately show ?thesis using u(4) by simp
qed

end
