(* ===== verification/Extract.thy ===== *)
theory Extract
  imports Stamp Protocols
begin

text \<open>
  Packet metadata, \<open>client/app/packet_extractor.py\<close>, and the subnet scope, \<open>client/app/scope_filter.py\<close>.
  A \<open>frame\<close> is what the extractor reads of a Scapy packet: a captured packet with the IP protocol number,
  TCP flags, ARP, ICMP and DNS layers.  An observation is the normalised record, a missing key \<open>None\<close>.
  \<open>wide\<close> stands for the characters above 255 that a malformed NetBIOS name decodes to.
\<close>

section \<open>Frames\<close>

record arp_layer =
  arp_hwsrc :: string
  arp_hwdst :: string
  arp_psrc :: string
  arp_pdst :: string
  arp_op :: int

record dns_layer =
  dns_qr :: int
  dns_rcode :: int
  dns_qdcount :: int
  dns_ancount :: int
  dns_qd :: "(bytes \<times> int) option"

record frame = captured +
  fr_proto :: int
  fr_flags :: int
  fr_arp :: "arp_layer option"
  fr_icmp :: "(int \<times> int) option"
  fr_dns :: "dns_layer option"

record packet_obs =
  o_timestamp :: string
  o_length :: int
  o_protocol :: string
  o_direction :: string
  o_observer :: "string option"
  o_interface :: "string option"
  o_src_mac :: "string option"
  o_dst_mac :: "string option"
  o_src_ip :: "string option"
  o_dst_ip :: "string option"
  o_src_port :: "int option"
  o_dst_port :: "int option"
  o_flags :: "string option"
  o_meta :: pydict

section \<open>Normal forms\<close>

definition normalize_mac :: "string \<Rightarrow> string option" where
  "normalize_mac value =
     (let v = upper (replace_char (CHR ''-'') (CHR '':'') (strip value)) in if mac_pattern v then Some v else None)"

definition normalize_ip :: "string \<Rightarrow> string option" where
  "normalize_ip value =
     (let s = strip value in
      case ipv4_of s of
        Some v \<Rightarrow> Some (ipv4_str v)
      | None \<Rightarrow> (case ipv6_of s of None \<Rightarrow> None | Some v \<Rightarrow> Some (ipv6_str v @ scope_of s)))"

text \<open>Scapy's flags, an integer: the letters of the bits that are set.\<close>

definition extract_tcp_flags :: "int \<Rightarrow> string option" where
  "extract_tcp_flags v =
     given (Some (concat (map (\<lambda>(i, c). if v div 2 ^ nat i mod 2 = 1 then [c] else [])
       [(0, CHR ''F''), (1, CHR ''S''), (2, CHR ''R''), (3, CHR ''P''), (4, CHR ''A''), (5, CHR ''U''),
        (6, CHR ''E''), (7, CHR ''C'')])))"

text \<open>\<open>a and a == b\<close>.\<close>

definition is_given :: "string option \<Rightarrow> string option \<Rightarrow> bool" where
  "is_given a b \<longleftrightarrow> given a \<noteq> None \<and> a = b"

definition determine_direction ::
  "string option \<Rightarrow> string option \<Rightarrow> string option \<Rightarrow> string option \<Rightarrow> string option \<Rightarrow> string option \<Rightarrow> string" where
  "determine_direction src_mac dst_mac src_ip dst_ip local_mac local_ip =
     (let lm = (case given local_mac of None \<Rightarrow> None | Some m \<Rightarrow> normalize_mac m);
          li = (case given local_ip of None \<Rightarrow> None | Some i \<Rightarrow> normalize_ip i);
          src = (lm \<noteq> None \<and> is_given src_mac lm) \<or> (li \<noteq> None \<and> is_given src_ip li);
          dst = (lm \<noteq> None \<and> is_given dst_mac lm) \<or> (li \<noteq> None \<and> is_given dst_ip li)
      in if src \<and> \<not> dst then ''outbound'' else if dst \<and> \<not> src then ''inbound'' else ''unknown'')"

section \<open>Application metadata\<close>

definition ICMP_TYPE_NAMES :: "(int \<times> string) list" where
  "ICMP_TYPE_NAMES =
     [(0, ''echo-reply''), (3, ''dest-unreachable''), (4, ''source-quench''), (5, ''redirect''), (8, ''echo-request''),
      (11, ''time-exceeded''), (12, ''parameter-problem''), (13, ''timestamp-request''), (14, ''timestamp-reply'')]"

definition DHCP_MESSAGE_TYPES :: "(int \<times> string) list" where
  "DHCP_MESSAGE_TYPES =
     [(1, ''DISCOVER''), (2, ''OFFER''), (3, ''REQUEST''), (4, ''DECLINE''), (5, ''ACK''), (6, ''NAK''),
      (7, ''RELEASE''), (8, ''INFORM'')]"

definition DNS_QTYPES :: "(int \<times> string) list" where
  "DNS_QTYPES =
     [(1, ''A''), (2, ''NS''), (5, ''CNAME''), (6, ''SOA''), (12, ''PTR''), (15, ''MX''), (16, ''TXT''), (28, ''AAAA''),
      (33, ''SRV''), (255, ''ANY'')]"

text \<open>\<open>names.get(n, str(n))\<close>.\<close>

definition name_of :: "(int \<times> string) list \<Rightarrow> int \<Rightarrow> string" where
  "name_of names n = (case map_of names n of None \<Rightarrow> int_str n | Some s \<Rightarrow> s)"

definition entry :: "string \<Rightarrow> pyval \<Rightarrow> pydict" where
  "entry k v = (if truthy v then [(k, v)] else [])"

definition dhcp_metadata :: "codec \<Rightarrow> bytes \<Rightarrow> pydict" where
  "dhcp_metadata cd payload =
     (case parse_dhcp_packet cd payload of
        None \<Rightarrow> []
      | Some p \<Rightarrow>
          (let raw = (case dget p ''raw_fields'' of PDict d \<Rightarrow> d | _ \<Rightarrow> []);
               code = dget p ''dhcp_message_type''
           in (if truthy code then [(''message_type'', PStr (name_of DHCP_MESSAGE_TYPES (int_value code)))] else [])
              @ concat (map (\<lambda>k. entry k (dget p k))
                  [''requested_ip'', ''hostname'', ''vendor_class'', ''client_id'', ''parameter_request_list''])
              @ entry ''domain_name'' (dget raw ''domain_name'')
              @ entry ''server_identifier'' (dget raw ''server_identifier'')
              @ (if dget raw ''lease_time'' = PNone then [] else [(''lease_time'', dget raw ''lease_time'')])))"

definition dns_metadata :: "codec \<Rightarrow> dns_layer \<Rightarrow> pydict" where
  "dns_metadata cd d =
     (let response = (dns_qr d = 1) in
      [(''message_type'', PStr (if response then ''response'' else ''query'')),
       (''query_count'', PInt (dns_qdcount d)), (''answer_count'', PInt (dns_ancount d))]
      @ (if response then [(''rcode'', PInt (dns_rcode d))] else [])
      @ (case dns_qd d of
           None \<Rightarrow> []
         | Some (qname, qtype) \<Rightarrow>
             entry ''query_name'' (PStr (rstrip_chars ''.'' (utf8_ignore cd qname)))
             @ [(''query_type'', PStr (name_of DNS_QTYPES qtype))]))"

definition SSDP_KEYS :: "(string \<times> string) list" where
  "SSDP_KEYS =
     [(''ST'', ''st''), (''NT'', ''nt''), (''USN'', ''usn''), (''SERVER'', ''server''), (''LOCATION'', ''location''),
      (''USER-AGENT'', ''user_agent'')]"

definition ssdp_line :: "string \<Rightarrow> pydict \<Rightarrow> pydict" where
  "ssdp_line line meta =
     (if CHR '':'' \<notin> set line then meta
      else (let key = upper (strip (takeWhile (\<lambda>c. c \<noteq> CHR '':'') line));
                v = strip (drop 1 (dropWhile (\<lambda>c. c \<noteq> CHR '':'') line))
            in if v = [] then meta
               else case map_of SSDP_KEYS key of None \<Rightarrow> meta | Some k \<Rightarrow> dset k (PStr v) meta))"

definition ssdp_metadata :: "codec \<Rightarrow> bytes \<Rightarrow> pydict" where
  "ssdp_metadata cd payload =
     (case filter (\<lambda>l. l \<noteq> []) (map strip (splitlines (utf8_ignore cd payload))) of
        [] \<Rightarrow> []
      | first # rest \<Rightarrow>
          (case (if prefix ''NOTIFY '' first then Some ''NOTIFY''
                 else if prefix ''M-SEARCH '' first then Some ''M-SEARCH''
                 else if prefix ''HTTP/1.1 200'' first then Some ''200 OK'' else None) of
             None \<Rightarrow> []
           | Some how \<Rightarrow> fold ssdp_line rest [(''method'', PStr how)]))"

text \<open>\<open>chr((a << 4) | b)\<close> of two letters less 65; a negative number is no character.\<close>

definition nb_char :: "(int \<Rightarrow> char) \<Rightarrow> int \<Rightarrow> int \<Rightarrow> char option" where
  "nb_char wide a b =
     (let n = or ((a - 65) * 16) (b - 65) in if n < 0 then None else Some (if n < 256 then char_of n else wide n))"

fun nb_decode :: "(int \<Rightarrow> char) \<Rightarrow> bytes \<Rightarrow> string option" where
  "nb_decode wide (a # b # rest) =
     (case (nb_char wide a b, nb_decode wide rest) of (Some c, Some cs) \<Rightarrow> Some (c # cs) | _ \<Rightarrow> None)"
| "nb_decode wide bs = Some []"

definition nbns_metadata :: "(int \<Rightarrow> char) \<Rightarrow> bytes \<Rightarrow> pydict" where
  "nbns_metadata wide payload =
     (if ilen payload < 12 then []
      else (let kind = [(''message_type'',
                  PStr (if be (slice 2 4 payload) div 32768 mod 2 = 1 then ''response'' else ''query''))] in
        if be (slice 4 6 payload) > 0 \<and> ilen payload \<ge> 45 \<and> byte_at 12 payload = 32
        then (case nb_decode wide (slice 13 45 payload) of
                None \<Rightarrow> []
              | Some name \<Rightarrow> kind @ entry ''name'' (PStr (strip name)))
        else kind))"

section \<open>One packet\<close>

text \<open>The two layers below TCP and UDP: protocol, MAC and IP addresses, metadata.\<close>

record lower =
  w_protocol :: string
  w_src_mac :: "string option"
  w_dst_mac :: "string option"
  w_src_ip :: "string option"
  w_dst_ip :: "string option"
  w_meta :: pydict

definition link_layer :: "frame \<Rightarrow> lower" where
  "link_layer p =
     (let (sm, dm) = (case cap_ether p of None \<Rightarrow> (None, None) | Some (s, d) \<Rightarrow> (normalize_mac s, normalize_mac d)) in
      case fr_arp p of
        None \<Rightarrow> \<lparr>w_protocol = ''UNKNOWN'', w_src_mac = sm, w_dst_mac = dm, w_src_ip = None, w_dst_ip = None, w_meta = []\<rparr>
      | Some a \<Rightarrow>
          \<lparr>w_protocol = ''ARP'',
           w_src_mac = (if given sm = None then normalize_mac (arp_hwsrc a) else sm),
           w_dst_mac = (if given dm = None then normalize_mac (arp_hwdst a) else dm),
           w_src_ip = normalize_ip (arp_psrc a), w_dst_ip = normalize_ip (arp_pdst a),
           w_meta = [(''operation'', PStr (if arp_op a = 1 then ''who-has'' else if arp_op a = 2 then ''is-at''
                                          else int_str (arp_op a)))]\<rparr>)"

definition ip_protocol :: "int \<Rightarrow> string" where
  "ip_protocol n =
     (if n = 1 then ''ICMP'' else if n = 6 then ''TCP'' else if n = 17 then ''UDP'' else if n = 2 then ''IGMP''
      else ''IP('' @ int_str n @ '')'')"

definition network_layer :: "frame \<Rightarrow> lower \<Rightarrow> lower" where
  "network_layer p w =
     (case (cap_ip p, cap_ip6 p) of
        (Some (s, d), _) \<Rightarrow>
          w\<lparr>w_src_ip := normalize_ip s, w_dst_ip := normalize_ip d, w_protocol := ip_protocol (fr_proto p)\<rparr>
      | (None, Some (s, d)) \<Rightarrow> w\<lparr>w_src_ip := Some s, w_dst_ip := Some d, w_protocol := ''IPv6''\<rparr>
      | (None, None) \<Rightarrow> w)"

definition on_port :: "transport \<Rightarrow> int \<Rightarrow> bool" where
  "on_port t n \<longleftrightarrow> t_sport t = n \<or> t_dport t = n"

text \<open>A TLS ClientHello on port 443; what the parser raises is ignored.\<close>

definition tcp_protocol :: "(string \<Rightarrow> string) \<Rightarrow> codec \<Rightarrow> transport \<Rightarrow> (string \<times> pydict) option" where
  "tcp_protocol md5 cd t =
     (if on_port t 443 \<and> ilen (t_payload t) \<ge> 6 \<and> byte_at 0 (t_payload t) = 22
      then (case parse_tls_client_hello md5 cd (t_payload t) of
              Inr (Some h) \<Rightarrow>
                Some (''TLS'', (case tls_sni h of None \<Rightarrow> [] | Some s \<Rightarrow> [(''sni'', PStr s)])
                  @ [(''ja3_hash'', PStr (tls_ja3_hash h)), (''tls_version'', PInt (tls_version h))])
            | _ \<Rightarrow> None)
      else None)"

definition udp_protocol :: "codec \<Rightarrow> (int \<Rightarrow> char) \<Rightarrow> frame \<Rightarrow> transport \<Rightarrow> (string \<times> pydict) option" where
  "udp_protocol cd wide p u =
     (let dns = (case fr_dns p of None \<Rightarrow> None | Some d \<Rightarrow> Some (dns_metadata cd d));
          named = (\<lambda>name. Some (name, case dns of None \<Rightarrow> [] | Some m \<Rightarrow> m)) in
      if on_port u 67 \<or> on_port u 68 then Some (''DHCP'', dhcp_metadata cd (t_payload u))
      else if on_port u 5353 then named ''mDNS''
      else if on_port u 5355 then named ''LLMNR''
      else if on_port u 137 then Some (''NBNS'', nbns_metadata wide (t_payload u))
      else if on_port u 1900 then Some (''SSDP'', ssdp_metadata cd (t_payload u))
      else if on_port u 53 then named ''DNS''
      else None)"

text \<open>Protocol, ports, flags and metadata of the transport layer.\<close>

record upper_layers =
  u_protocol :: string
  u_ports :: "(int \<times> int) option"
  u_flags :: "string option"
  u_meta :: pydict

definition transport_layer :: "(string \<Rightarrow> string) \<Rightarrow> codec \<Rightarrow> (int \<Rightarrow> char) \<Rightarrow> frame \<Rightarrow> lower \<Rightarrow> upper_layers" where
  "transport_layer md5 cd wide p w =
     (case cap_tcp p of
        Some t \<Rightarrow>
          (let (pr, meta) = (case tcp_protocol md5 cd t of None \<Rightarrow> (''TCP'', w_meta w) | Some x \<Rightarrow> x)
           in \<lparr>u_protocol = pr, u_ports = Some (t_sport t, t_dport t), u_flags = extract_tcp_flags (fr_flags p), u_meta = meta\<rparr>)
      | None \<Rightarrow>
          (case cap_udp p of
             Some u \<Rightarrow>
               (let (pr, meta) = (case udp_protocol cd wide p u of None \<Rightarrow> (''UDP'', w_meta w) | Some x \<Rightarrow> x)
                in \<lparr>u_protocol = pr, u_ports = Some (t_sport u, t_dport u), u_flags = None, u_meta = meta\<rparr>)
           | None \<Rightarrow>
               (case fr_icmp p of
                  Some (ty, code) \<Rightarrow>
                    \<lparr>u_protocol = ''ICMP'', u_ports = None, u_flags = None,
                     u_meta = [(''type'', PInt ty), (''code'', PInt code), (''type_name'', PStr (name_of ICMP_TYPE_NAMES ty))]\<rparr>
                | None \<Rightarrow> \<lparr>u_protocol = w_protocol w, u_ports = None, u_flags = None, u_meta = w_meta w\<rparr>)))"

definition extract_metadata ::
  "(string \<Rightarrow> string) \<Rightarrow> codec \<Rightarrow> (int \<Rightarrow> char) \<Rightarrow> string option \<Rightarrow> string option \<Rightarrow> string option \<Rightarrow> string option
   \<Rightarrow> int \<Rightarrow> frame \<Rightarrow> packet_obs" where
  "extract_metadata md5 cd wide iface observer local_mac local_ip now p =
     (let w = network_layer p (link_layer p); u = transport_layer md5 cd wide p w in
      \<lparr>o_timestamp = format_timestamp now, o_length = cap_length p, o_protocol = u_protocol u,
       o_direction = determine_direction (w_src_mac w) (w_dst_mac w) (w_src_ip w) (w_dst_ip w) local_mac local_ip,
       o_observer = given observer, o_interface = given iface,
       o_src_mac = given (w_src_mac w), o_dst_mac = given (w_dst_mac w),
       o_src_ip = given (w_src_ip w), o_dst_ip = given (w_dst_ip w),
       o_src_port = map_option fst (u_ports u), o_dst_port = map_option snd (u_ports u),
       o_flags = u_flags u, o_meta = u_meta u\<rparr>)"

section \<open>The subnet scope\<close>

text \<open>A network: IP version, its addresses' high bits and how many there are.\<close>

record network =
  n_version :: int
  n_prefix :: int
  n_length :: int

definition width :: "int \<Rightarrow> int" where
  "width version = (if version = 4 then 32 else 128)"

definition prefix_digits :: "int \<Rightarrow> string \<Rightarrow> int option" where
  "prefix_digits w s =
     (if s \<noteq> [] \<and> list_all is_digit s \<and> digits_val 0 s \<le> w then Some (digits_val 0 s) else None)"

text \<open>The prefix length of a netmask, or of a hostmask: ones, then zeros, or its complement.\<close>

definition mask_length :: "int \<Rightarrow> int option" where
  "mask_length m = find (\<lambda>n. 2 ^ 32 - 2 ^ nat (32 - n) = m) [0..32]"

definition ipv4_prefix :: "string \<Rightarrow> int option" where
  "ipv4_prefix s =
     (case prefix_digits 32 s of
        Some n \<Rightarrow> Some n
      | None \<Rightarrow>
          (case ipv4_of s of
             None \<Rightarrow> None
           | Some m \<Rightarrow> (case mask_length m of Some n \<Rightarrow> Some n | None \<Rightarrow> mask_length (2 ^ 32 - 1 - m))))"

definition network_of :: "int \<Rightarrow> int \<Rightarrow> int \<Rightarrow> network" where
  "network_of version address n =
     \<lparr>n_version = version, n_prefix = address div 2 ^ nat (width version - n), n_length = n\<rparr>"

text \<open>\<open>ip_network(s, strict=False)\<close>: IPv4 first, then IPv6.\<close>

definition ip_network :: "string \<Rightarrow> network option" where
  "ip_network s =
     (let make = (\<lambda>a p. case (ipv4_of a, ipv4_prefix p) of
                    (Some v, Some n) \<Rightarrow> Some (network_of 4 v n)
                  | _ \<Rightarrow> (case (ipv6_of a, prefix_digits 128 p) of
                      (Some v, Some n) \<Rightarrow> Some (network_of 6 v n)
                    | _ \<Rightarrow> None)) in
      case split_char (CHR ''/'') s of
        [a] \<Rightarrow> (case ipv4_of a of
                  Some v \<Rightarrow> Some (network_of 4 v 32)
                | None \<Rightarrow> map_option (\<lambda>v. network_of 6 v 128) (ipv6_of a))
      | [a, p] \<Rightarrow> make a p
      | _ \<Rightarrow> None)"

definition parse_cidr_list :: "pyval \<Rightarrow> network list" where
  "parse_cidr_list raw_values =
     (case raw_values of
        PList xs \<Rightarrow>
          concat (map (\<lambda>v. case v of PStr s \<Rightarrow> (case ip_network (strip s) of None \<Rightarrow> [] | Some n \<Rightarrow> [n]) | _ \<Rightarrow> []) xs)
      | _ \<Rightarrow> [])"

definition new_scope :: "pyval \<Rightarrow> network list" where
  "new_scope observation_scope = parse_cidr_list (py_or observation_scope (PList []))"

definition in_network :: "int \<Rightarrow> int \<Rightarrow> network \<Rightarrow> bool" where
  "in_network version address n \<longleftrightarrow>
     version = n_version n \<and> address div 2 ^ nat (width version - n_length n) = n_prefix n"

definition address_in :: "network list \<Rightarrow> string option \<Rightarrow> bool" where
  "address_in ns ip =
     (case given ip of
        None \<Rightarrow> False
      | Some s \<Rightarrow>
          (case ipv4_of s of
             Some v \<Rightarrow> list_ex (in_network 4 v) ns
           | None \<Rightarrow> (case ipv6_of s of None \<Rightarrow> False | Some v \<Rightarrow> list_ex (in_network 6 v) ns)))"

text \<open>\<open>ScopeFilter.keep\<close>: everything without a scope.\<close>

definition keep :: "network list \<Rightarrow> string option \<Rightarrow> string option \<Rightarrow> bool" where
  "keep ns src_ip dst_ip \<longleftrightarrow> ns = [] \<or> address_in ns src_ip \<or> address_in ns dst_ip"

definition keep_observation :: "network list \<Rightarrow> packet_obs \<Rightarrow> bool" where
  "keep_observation ns ob = keep ns (o_src_ip ob) (o_dst_ip ob)"

text \<open>\<open>load_scope_config\<close> on what \<open>json.load\<close> gives: a value that is no object raises.\<close>

definition load_scope_config :: "pyval option \<Rightarrow> pyval result" where
  "load_scope_config content =
     (case content of
        None \<Rightarrow> Inr (PList [])
      | Some (PDict d) \<Rightarrow> Inr (if is_list (dget d ''observation_scope'') then dget d ''observation_scope'' else PList [])
      | Some _ \<Rightarrow> raise_exc AttributeError ''get'')"

definition from_env_or_file :: "string option \<Rightarrow> pyval option \<Rightarrow> network list result" where
  "from_env_or_file env_value content =
     (case given env_value of
        Some v \<Rightarrow>
          Inr (new_scope (PList (map PStr (filter (\<lambda>p. p \<noteq> []) (map strip (split_char (CHR '','') v))))))
      | None \<Rightarrow> then_do (load_scope_config content) (\<lambda>scope. Inr (new_scope scope)))"

end
