(* ===== verification/Store.thy ===== *)
theory Store
  imports Iso Bytes
begin

text \<open>
  The append store of the network telemetry, \<open>client/app/telemetry_storage.py\<close>: JSON arrays that rotate at a
  size limit, and single JSON files written atomically with retries.  One value of \<open>jstore\<close> is the part of
  a directory that one \<open>RotatingJSONAppendStore\<close> owns: its active file and its numbered siblings.  What the
  operating system answers to the next operations that can fail (mkdir, rename and write) is in the state,
  \<open>True\<close> for success; after the last answer everything succeeds.
\<close>

section \<open>Files\<close>

text \<open>The length in bytes of \<open>json.dump(v, indent=2, ensure_ascii=False)\<close> at a nesting depth, as UTF-8.\<close>

definition dump_char_size :: "char \<Rightarrow> int" where
  "dump_char_size c =
     (let n = of_char c :: int in
      if c = CHR 0x22 \<or> c = CHR 0x5C \<or> n \<in> set [8, 9, 10, 12, 13] then 2
      else if n < 32 then 6 else if n < 128 then 1 else 2)"

definition dump_str_size :: "string \<Rightarrow> int" where
  "dump_str_size s = 2 + sum_list (map dump_char_size s)"

fun dump_size :: "(rat \<Rightarrow> string) \<Rightarrow> int \<Rightarrow> pyval \<Rightarrow> int" where
  "dump_size repr k PNone = 4"
| "dump_size repr k (PBool b) = (if b then 4 else 5)"
| "dump_size repr k (PInt i) = ilen (int_str i)"
| "dump_size repr k (PFloat r) = ilen (repr r)"
| "dump_size repr k (PStr s) = dump_str_size s"
| "dump_size repr k (PList xs) =
     (if xs = [] then 2 else 2 * k + 2 + sum_list (map (\<lambda>x. dump_size repr (k + 1) x + 2 * (k + 1) + 2) xs))"
| "dump_size repr k (PDict d) =
     (if d = [] then 2
      else 2 * k + 2 + sum_list (map (\<lambda>(key, x). dump_str_size key + 2 + dump_size repr (k + 1) x + 2 * (k + 1) + 2) d))"

text \<open>A file: what \<open>json.load\<close> makes of it (\<open>None\<close> when it is no JSON or cannot be opened; bytes that are no UTF-8 are not modelled), and its size.\<close>

record jfile =
  j_value :: "pyval option"
  j_size :: int

definition written :: "(rat \<Rightarrow> string) \<Rightarrow> pyval \<Rightarrow> jfile" where
  "written repr data = \<lparr>j_value = Some data, j_size = dump_size repr 0 data + 1\<rparr>"

definition read_json_file :: "jfile option \<Rightarrow> pyval \<Rightarrow> pyval" where
  "read_json_file f dflt = (case f of None \<Rightarrow> dflt | Some j \<Rightarrow> (case j_value j of None \<Rightarrow> dflt | Some v \<Rightarrow> v))"

section \<open>Paths\<close>

definition alnum_char :: "char \<Rightarrow> bool" where
  "alnum_char c \<longleftrightarrow>
     (let n = of_char c :: int in
      is_digit c \<or> (65 \<le> n \<and> n \<le> 90) \<or> (97 \<le> n \<and> n \<le> 122) \<or> n \<in> set [170, 178, 179, 181, 185, 186, 188, 189, 190]
      \<or> (192 \<le> n \<and> n \<noteq> 215 \<and> n \<noteq> 247))"

definition safe_protocol :: "string \<Rightarrow> string" where
  "safe_protocol protocol =
     (let p = filter (\<lambda>c. alnum_char c \<or> c = CHR ''-'' \<or> c = CHR 0x5F)
                (lower (if protocol = [] then ''unknown'' else protocol))
      in if p = [] then ''unknown'' else p)"

text \<open>Paths below the telemetry root, as their parts.\<close>

definition protocol_packet_path :: "string \<Rightarrow> string \<Rightarrow> string list" where
  "protocol_packet_path date protocol = [date, ''packets'', safe_protocol protocol @ ''.json'']"

definition flows_path :: "string \<Rightarrow> string list" where
  "flows_path date = [date, ''flows.json'']"

definition devices_path :: "string \<Rightarrow> string list" where
  "devices_path date = [date, ''devices.json'']"

definition activity_window_path :: "string \<Rightarrow> string \<Rightarrow> string \<Rightarrow> string list" where
  "activity_window_path date start_label end_label =
     [date, ''activity'', start_label @ ''_'' @ end_label @ ''.json'']"

section \<open>The rotating store\<close>

record jstore =
  s_max :: int
  s_active :: "jfile option"
  s_rotated :: "(int \<times> jfile) list"
  s_answers :: "bool list"
  s_slept :: "rat list"

text \<open>The next answer of the operating system.\<close>

definition answer :: "jstore \<Rightarrow> bool \<times> jstore" where
  "answer s = (case s_answers s of [] \<Rightarrow> (True, s) | a # as \<Rightarrow> (a, s\<lparr>s_answers := as\<rparr>))"

definition MAX_RETRIES :: int where
  "MAX_RETRIES = 3"

text \<open>\<open>atomic_write_json_with_retry\<close> from attempt \<open>attempt\<close> on, sleeping twice as long each time.\<close>

function write_with_retry :: "jfile \<Rightarrow> int \<Rightarrow> jstore \<Rightarrow> bool \<times> jstore" where
  "write_with_retry f attempt s =
     (case answer s of
        (True, s) \<Rightarrow> (True, s\<lparr>s_active := Some f\<rparr>)
      | (False, s) \<Rightarrow>
          if attempt < MAX_RETRIES
          then write_with_retry f (attempt + 1) (s\<lparr>s_slept := s_slept s @ [1 / 10 * 2 ^ nat attempt]\<rparr>)
          else (False, s))"
  by pat_completeness auto
termination
  by (relation "measure (\<lambda>(_, attempt, _). nat (MAX_RETRIES - attempt))") auto

declare write_with_retry.simps [simp del]

text \<open>\<open>_next_rotation_index\<close>: the first number from \<open>i\<close> on without a file.\<close>

function next_index :: "(int \<times> jfile) list \<Rightarrow> int \<Rightarrow> int" where
  "next_index files i = (if has_key files i then next_index files (i + 1) else i)"
  by pat_completeness auto
termination
proof (relation "measure (\<lambda>(files, i). card {k \<in> fst ` set files. i \<le> k})", goal_cases)
  case (2 files i)
  then have "i \<in> fst ` set files" by (metis domI dom_map_of_conv_image_fst not_Some_eq)
  then have "{k \<in> fst ` set files. i + 1 \<le> k} \<subset> {k \<in> fst ` set files. i \<le> k}" by force
  then show ?case by (simp add: psubset_card_mono)
qed simp

declare next_index.simps [simp del]

definition as_list :: "pyval \<Rightarrow> pyval list" where
  "as_list v = (case v of PList xs \<Rightarrow> xs | _ \<Rightarrow> [])"

text \<open>Moving an oversized active file out of the way; otherwise its records.\<close>

definition roll_or_read :: "jstore \<Rightarrow> pyval list result \<times> jstore" where
  "roll_or_read s =
     (case s_active s of
        None \<Rightarrow> (Inr [], s)
      | Some f \<Rightarrow>
          if j_size f \<ge> s_max s
          then (case answer s of
                  (False, s) \<Rightarrow> (raise_exc OSError ''rename failed'', s)
                | (True, s) \<Rightarrow>
                    (Inr [], s\<lparr>s_rotated := dset (next_index (s_rotated s) 1) f (s_rotated s), s_active := None\<rparr>))
          else (Inr (as_list (py_or (read_json_file (Some f) (PList [])) (PList []))), s))"

definition append_many :: "(rat \<Rightarrow> string) \<Rightarrow> pyval list \<Rightarrow> (jstore, unit) act" where
  "append_many repr records s =
     (if records = [] then (Inr (), s)
      else (case answer s of
              (False, s) \<Rightarrow> (raise_exc OSError ''mkdir failed'', s)
            | (True, s) \<Rightarrow>
                (case roll_or_read s of
                   (Inl e, s) \<Rightarrow> (Inl e, s)
                 | (Inr existing, s) \<Rightarrow>
                     (case write_with_retry (written repr (PList (existing @ records))) 0 s of
                        (True, s) \<Rightarrow> (Inr (), s)
                      | (False, s) \<Rightarrow> (raise_exc OSError ''Persistence failed after retries'', s)))))"

definition append_record :: "(rat \<Rightarrow> string) \<Rightarrow> pyval \<Rightarrow> (jstore, unit) act" where
  "append_record repr record s = append_many repr [record] s"

definition read_all :: "jstore \<Rightarrow> pyval list" where
  "read_all s = as_list (read_json_file (s_active s) (PList []))"

text \<open>The rotated files from number \<open>i\<close> up to the first that is missing.\<close>

function rotated_records :: "(int \<times> jfile) list \<Rightarrow> int \<Rightarrow> pyval list" where
  "rotated_records files i =
     (case map_of files i of
        None \<Rightarrow> []
      | Some f \<Rightarrow> as_list (read_json_file (Some f) (PList [])) @ rotated_records files (i + 1))"
  by pat_completeness auto
termination
proof (relation "measure (\<lambda>(files, i). card {k \<in> fst ` set files. i \<le> k})", goal_cases)
  case (2 files i f)
  then have "i \<in> fst ` set files" by (metis domI dom_map_of_conv_image_fst)
  then have "{k \<in> fst ` set files. i + 1 \<le> k} \<subset> {k \<in> fst ` set files. i \<le> k}" by force
  then show ?case by (simp add: psubset_card_mono)
qed simp

declare rotated_records.simps [simp del]

definition read_all_including_rotated :: "jstore \<Rightarrow> pyval list" where
  "read_all_including_rotated s = rotated_records (s_rotated s) 1 @ read_all s"

definition new_store :: "int \<Rightarrow> jstore" where
  "new_store max_bytes = \<lparr>s_max = max_bytes, s_active = None, s_rotated = [], s_answers = [], s_slept = []\<rparr>"

section \<open>The store is an append-only log\<close>

text \<open>Every file holds a list, and the numbered ones have the numbers from one on, without a gap.\<close>

definition holds_list :: "jfile \<Rightarrow> bool" where
  "holds_list f \<longleftrightarrow> (\<exists>xs. j_value f = Some (PList xs))"

definition numbered :: "(int \<times> jfile) list \<Rightarrow> bool" where
  "numbered fs \<longleftrightarrow> distinct (map fst fs) \<and> (\<exists>n\<ge>0. fst ` set fs = {1..n})"

definition store_ok :: "jstore \<Rightarrow> bool" where
  "store_ok s \<longleftrightarrow> numbered (s_rotated s) \<and> (\<forall>f. s_active s = Some f \<longrightarrow> holds_list f)"

lemma has_key_iff: "has_key xs k \<longleftrightarrow> k \<in> fst ` set xs"
  by (metis map_of_eq_None_iff)

lemma next_index_numbered:
  "fst ` set fs = {1..n} \<Longrightarrow> 1 \<le> i \<Longrightarrow> i \<le> n + 1 \<Longrightarrow> next_index fs i = n + 1"
proof (induction fs i rule: next_index.induct)
  case (1 fs i)
  show ?case
  proof (cases "has_key fs i")
    case True
    then have "i \<le> n" unfolding has_key_iff "1.prems"(1) by simp
    with 1 True show ?thesis by (subst next_index.simps) simp
  next
    case False
    then have "i = n + 1" using "1.prems"(2,3) unfolding has_key_iff "1.prems"(1) by simp
    with False show ?thesis by (subst next_index.simps) simp
  qed
qed

text \<open>A file under the next number is read after all the others.\<close>

lemma rotated_records_new:
  "fst ` set fs = {1..n} \<Longrightarrow> 1 \<le> i \<Longrightarrow> i \<le> n + 1 \<Longrightarrow>
   rotated_records (dset (n + 1) f fs) i = rotated_records fs i @ as_list (read_json_file (Some f) (PList []))"
proof (induction fs i rule: rotated_records.induct)
  case (1 fs i)
  show ?case
  proof (cases "map_of fs i")
    case None
    then have "i = n + 1" using 1 has_key_iff [of fs i] by auto
    moreover have "map_of fs (n + 1 + 1) = None" using 1 has_key_iff [of fs "n + 1 + 1"] by auto
    ultimately show ?thesis
      using None rotated_records.simps [of fs i] rotated_records.simps [of "dset (n + 1) f fs" i]
        rotated_records.simps [of "dset (n + 1) f fs" "i + 1"] by simp
  next
    case (Some g)
    then have "i \<noteq> n + 1" "i + 1 \<le> n + 1" using 1 has_key_iff [of fs i] by auto
    with 1 Some show ?thesis
      using rotated_records.simps [of fs i] rotated_records.simps [of "dset (n + 1) f fs" i] by simp
  qed
qed

lemma answer_fields [simp]:
  "answer s = (a, s') \<Longrightarrow> s_max s' = s_max s \<and> s_active s' = s_active s \<and> s_rotated s' = s_rotated s"
  by (auto simp: answer_def split: list.splits)

lemma write_with_retry_result:
  "write_with_retry f attempt s = (b, s') \<Longrightarrow>
   s_max s' = s_max s \<and> s_rotated s' = s_rotated s \<and> s_active s' = (if b then Some f else s_active s)"
proof (induction f attempt s rule: write_with_retry.induct)
  case (1 f attempt s)
  obtain a s1 where a: "answer s = (a, s1)" by force
  then show ?case
    using 1 answer_fields [OF a] write_with_retry.simps [of f attempt s] by (auto split: if_splits bool.splits)
qed

lemma read_all_None [simp]: "s_active s = None \<Longrightarrow> read_all s = []"
  by (simp add: read_all_def read_json_file_def as_list_def)

lemma read_written: "as_list (read_json_file (Some (written repr (PList xs))) dflt) = xs"
  by (simp add: read_json_file_def written_def as_list_def)

lemma holds_written: "holds_list (written repr (PList xs))"
  by (simp add: holds_list_def written_def)

lemma active_records:
  "holds_list f \<Longrightarrow> as_list (py_or (read_json_file (Some f) (PList [])) (PList [])) = as_list (read_json_file (Some f) (PList []))"
  by (auto simp: holds_list_def read_json_file_def as_list_def py_or_def)

text \<open>Rolling keeps what a reader gets, and hands over what the new active file has to repeat.\<close>

lemma roll_or_read_result:
  assumes "store_ok s" "roll_or_read s = (x, s')"
  shows "store_ok s' \<and> read_all_including_rotated s' = read_all_including_rotated s \<and>
    (\<forall>existing. x = Inr existing \<longrightarrow> existing = read_all s')"
proof (cases "s_active s")
  case None
  with assms show ?thesis by (auto simp: roll_or_read_def)
next
  case (Some f)
  have f: "holds_list f" using assms(1) Some by (simp add: store_ok_def)
  show ?thesis
  proof (cases "j_size f \<ge> s_max s")
    case False
    with assms Some f show ?thesis by (auto simp: roll_or_read_def read_all_def active_records)
  next
    case True
    obtain a s1 where a: "answer s = (a, s1)" by force
    from assms(1) obtain n where n: "0 \<le> n" "fst ` set (s_rotated s) = {1..n}" "distinct (map fst (s_rotated s))"
      by (auto simp: store_ok_def numbered_def)
    show ?thesis
    proof (cases a)
      case False
      with assms True Some a answer_fields [OF a] show ?thesis
        by (auto simp: roll_or_read_def store_ok_def read_all_including_rotated_def read_all_def)
    next
      case rolled: True
      have x: "x = Inr []" and s': "s' = s1\<lparr>s_rotated := dset (n + 1) f (s_rotated s), s_active := None\<rparr>"
        using assms(2) True Some a rolled answer_fields [OF a] next_index_numbered [OF n(2), of 1] n(1)
        by (simp_all add: roll_or_read_def)
      have "fst ` set (dset (n + 1) f (s_rotated s)) = {1..n + 1}"
        using n(1) unfolding keys_dset n(2) by auto
      then have "numbered (dset (n + 1) f (s_rotated s))"
        using n(1,3) unfolding numbered_def by (auto simp: distinct_update intro!: exI [of _ "n + 1"])
      moreover have "rotated_records (dset (n + 1) f (s_rotated s)) 1 =
          rotated_records (s_rotated s) 1 @ as_list (read_json_file (Some f) (PList []))"
        using rotated_records_new [OF n(2)] n(1) by simp
      ultimately show ?thesis
        using Some x by (simp add: s' store_ok_def read_all_including_rotated_def) (simp add: read_all_def)
    qed
  qed
qed

lemma append_many_result:
  assumes "store_ok s" "append_many repr records s = (x, s')"
  shows "store_ok s' \<and> read_all_including_rotated s' = read_all_including_rotated s @ (if is_ok x then records else [])"
proof (cases "records = []")
  case True
  with assms show ?thesis by (simp add: append_many_def)
next
  case False
  obtain a s1 where a: "answer s = (a, s1)" by force
  then have s1: "store_ok s1" "read_all_including_rotated s1 = read_all_including_rotated s"
    using assms(1) answer_fields [OF a]
    by (simp_all add: store_ok_def read_all_including_rotated_def read_all_def)
  obtain y s2 where roll: "roll_or_read s1 = (y, s2)" by force
  note s2 = roll_or_read_result [OF s1(1) roll]
  show ?thesis
  proof (cases a)
    case no: False
    with assms(2) False s1 a show ?thesis by (auto simp: append_many_def is_ok_def)
  next
    case yes: True
    show ?thesis
    proof (cases y)
      case (Inl e)
      with assms(2) False s1 s2 a yes roll show ?thesis by (auto simp: append_many_def is_ok_def)
    next
      case (Inr existing)
      obtain b s3 where w: "write_with_retry (written repr (PList (existing @ records))) 0 s2 = (b, s3)" by force
      have x: "x = (if b then Inr () else raise_exc OSError ''Persistence failed after retries'')" "s' = s3"
        using assms(2) False a yes roll Inr w by (auto simp: append_many_def split: bool.splits)
      with s1 s2 Inr write_with_retry_result [OF w] show ?thesis
        by (auto simp: is_ok_def store_ok_def read_all_including_rotated_def holds_written)
           (simp_all add: read_all_def read_written)
    qed
  qed
qed

text \<open>One call of \<open>append_many\<close>, with whether it returned.\<close>

definition append_batch :: "(rat \<Rightarrow> string) \<Rightarrow> pyval list \<Rightarrow> jstore \<Rightarrow> bool \<times> jstore" where
  "append_batch repr records s = (let (x, s) = append_many repr records s in (is_ok x, s))"

lemma append_batch_result:
  "store_ok s \<Longrightarrow> append_batch repr records s = (b, s') \<Longrightarrow>
   store_ok s' \<and> read_all_including_rotated s' = read_all_including_rotated s @ (if b then records else [])"
  using append_many_result by (fastforce simp: append_batch_def split: prod.splits)

interpretation rotating: append_store "append_batch repr" read_all_including_rotated store_ok for repr
  by unfold_locales (use append_batch_result in force)+

fun append_all :: "(rat \<Rightarrow> string) \<Rightarrow> pyval list list \<Rightarrow> jstore \<Rightarrow> pyval list \<times> jstore" where
  "append_all repr [] s = ([], s)"
| "append_all repr (records # batches) s =
     (let (b, s1) = append_batch repr records s; (accepted, s2) = append_all repr batches s1
      in ((if b then records else []) @ accepted, s2))"

lemma append_all_eq: "append_all repr batches s = rotating.add_all repr batches s"
  by (induction batches arbitrary: s) (auto split: prod.splits)

lemma new_store_ok: "store_ok (new_store n)"
  by (simp add: store_ok_def new_store_def numbered_def) (rule exI [of _ 0], simp)

text \<open>C25.  The rotating store refines an append-only log: whatever fails in between, and however often the active
  file rolls over, a reader gets the records of the batches that were accepted, each exactly once and in
  order; a batch that raised left nothing behind.\<close>

theorem rotating_store_refines_log:
  assumes "store_ok s" and "append_all repr batches s = (accepted, s')"
  shows "read_all_including_rotated s' = read_all_including_rotated s @ accepted \<and> store_ok s'"
  using rotating.add_all_contents [OF assms(1)] assms(2) by (simp add: append_all_eq)

text \<open>Three batches into a store that rolls over at every write; the second is refused five times.\<close>

definition SAMPLE_STORE :: jstore where
  "SAMPLE_STORE = (new_store 1)\<lparr>s_answers := [True, True, True, True, False, False, False, False]\<rparr>"

theorem rotating_store_refines_log_witness:
  "\<exists>s'. append_all (\<lambda>_. []) [[PInt 1], [PInt 2], [PInt 3]] SAMPLE_STORE = ([PInt 1, PInt 3], s')
     \<and> read_all_including_rotated s' = [PInt 1, PInt 3]"
proof -
  have "fst (append_all (\<lambda>_. []) [[PInt 1], [PInt 2], [PInt 3]] SAMPLE_STORE) = [PInt 1, PInt 3]"
    by code_simp
  then obtain s' where run: "append_all (\<lambda>_. []) [[PInt 1], [PInt 2], [PInt 3]] SAMPLE_STORE = ([PInt 1, PInt 3], s')"
    by (metis prod.collapse)
  have ok: "store_ok SAMPLE_STORE"
    using new_store_ok [of 1] by (simp add: SAMPLE_STORE_def store_ok_def)
  have "read_all_including_rotated SAMPLE_STORE = []" by code_simp
  with rotating_store_refines_log [OF ok run] run show ?thesis by auto
qed

section \<open>What the contract needs\<close>

text \<open>An active file that is no JSON is replaced by the next append; a missing number hides the files after it.\<close>

lemma broken_active_file_lost:
  "read_all (snd (append_many (\<lambda>_. []) [PInt 7]
     ((new_store 100)\<lparr>s_active := Some \<lparr>j_value = None, j_size = 50\<rparr>\<rparr>))) = [PInt 7]"
  by code_simp

lemma gap_hides_records:
  "read_all_including_rotated ((new_store 100)\<lparr>s_rotated := [(2, written (\<lambda>_. []) (PList [PInt 7]))]\<rparr>) = []"
  by code_simp

section \<open>The stores of a disk\<close>

text \<open>Every path has its store; one that was never written to is empty.\<close>

type_synonym 'k disk = "('k \<times> jstore) list"

definition store_at :: "int \<Rightarrow> 'k disk \<Rightarrow> 'k \<Rightarrow> jstore" where
  "store_at max_bytes disk k = (case map_of disk k of None \<Rightarrow> new_store max_bytes | Some s \<Rightarrow> s)"

definition append_at :: "(rat \<Rightarrow> string) \<Rightarrow> int \<Rightarrow> 'k \<Rightarrow> pyval list \<Rightarrow> ('k disk, unit) act" where
  "append_at repr max_bytes k records disk =
     (let (x, s) = append_many repr records (store_at max_bytes disk k) in (x, dset k s disk))"

definition disk_records :: "'k disk \<Rightarrow> 'k \<Rightarrow> pyval list" where
  "disk_records disk k = (case map_of disk k of None \<Rightarrow> [] | Some s \<Rightarrow> read_all_including_rotated s)"

definition disk_ok :: "'k disk \<Rightarrow> bool" where
  "disk_ok disk \<longleftrightarrow> (\<forall>(_, s)\<in>set disk. store_ok s)"

text \<open>No operation on the disk is going to fail.\<close>

definition disk_ready :: "'k disk \<Rightarrow> bool" where
  "disk_ready disk \<longleftrightarrow> (\<forall>(_, s)\<in>set disk. s_answers s = [])"

lemma append_many_ready:
  assumes "s_answers s = []"
  shows "is_ok (fst (append_many repr records s)) \<and> s_answers (snd (append_many repr records s)) = []"
proof -
  have a: "answer t = (True, t)" if "s_answers t = []" for t
    using that by (simp add: answer_def)
  have w: "write_with_retry f i t = (True, t\<lparr>s_active := Some f\<rparr>)" if "s_answers t = []" for f i t
    using that by (subst write_with_retry.simps) (simp add: a)
  show ?thesis
    using assms by (auto simp: append_many_def a roll_or_read_def w is_ok_def split: option.splits prod.splits sum.splits)
qed

lemma store_at_ok: "disk_ok disk \<Longrightarrow> store_ok (store_at max_bytes disk k)"
  by (auto simp: store_at_def disk_ok_def new_store_ok dest!: map_of_SomeD split: option.splits)

lemma store_at_ready: "disk_ready disk \<Longrightarrow> s_answers (store_at max_bytes disk k) = []"
  by (auto simp: store_at_def disk_ready_def new_store_def dest!: map_of_SomeD split: option.splits)

lemma new_store_records [simp]: "read_all_including_rotated (new_store n) = []"
  by (simp add: read_all_including_rotated_def new_store_def rotated_records.simps)

lemma store_at_records: "read_all_including_rotated (store_at max_bytes disk k) = disk_records disk k"
  by (simp add: store_at_def disk_records_def split: option.splits)

lemma append_at_result:
  assumes "disk_ok disk" "append_at repr max_bytes k records disk = (x, disk')"
  shows "disk_ok disk' \<and>
    disk_records disk' k' = disk_records disk k' @ (if k' = k \<and> is_ok x then records else []) \<and>
    (disk_ready disk \<longrightarrow> is_ok x \<and> disk_ready disk')"
proof -
  obtain s where s: "append_many repr records (store_at max_bytes disk k) = (x, s)" "disk' = dset k s disk"
    using assms(2) by (auto simp: append_at_def split: prod.splits)
  note r = append_many_result [OF store_at_ok [OF assms(1)] s(1)]
  have "disk_ok disk'" using assms(1) r set_dset [of k s disk] by (auto simp: s(2) disk_ok_def)
  moreover have "disk_records disk' k' = disk_records disk k' @ (if k' = k \<and> is_ok x then records else [])"
    using r by (simp add: s(2) store_at_records) (simp add: disk_records_def)
  moreover have "is_ok x \<and> disk_ready disk'" if "disk_ready disk"
    using append_many_ready [OF store_at_ready [OF that, of max_bytes k], of repr records] s that set_dset [of k s disk]
    by (auto simp: disk_ready_def)
  ultimately show ?thesis by simp
qed

subsection \<open>Sums over a dictionary\<close>

definition dsum :: "('v \<Rightarrow> int) \<Rightarrow> ('k \<times> 'v) list \<Rightarrow> int" where
  "dsum w d = sum_list (map (\<lambda>(_, v). w v) d)"

lemma dsum_dset:
  "dsum w (dset k v d) = dsum w d + w v - (case map_of d k of None \<Rightarrow> 0 | Some old \<Rightarrow> w old)"
  by (induction d) (auto simp: dsum_def)

lemma dsum_filter_absent: "k \<notin> fst ` set d \<Longrightarrow> filter (\<lambda>(k', _). k' \<noteq> k) d = d"
  by (induction d) auto

lemma dsum_remove:
  "distinct (map fst d) \<Longrightarrow> map_of d k = Some v \<Longrightarrow> dsum w (filter (\<lambda>(k', _). k' \<noteq> k) d) = dsum w d - w v"
proof (induction d)
  case (Cons p d)
  show ?case
  proof (cases "fst p = k")
    case True
    with Cons.prems have "filter (\<lambda>(k', _). k' \<noteq> k) d = d" by (intro dsum_filter_absent) auto
    with True Cons.prems show ?thesis by (auto simp: dsum_def split: prod.splits)
  qed (use Cons in \<open>auto simp: dsum_def split: prod.splits\<close>)
qed simp

text \<open>The sum of a measure of the records over a whole disk.\<close>

definition disk_sum :: "(pyval \<Rightarrow> int) \<Rightarrow> 'k disk \<Rightarrow> int" where
  "disk_sum w disk = dsum (\<lambda>s. sum_list (map w (read_all_including_rotated s))) disk"

lemma append_at_sum:
  assumes "disk_ok disk" "append_at repr max_bytes k records disk = (x, disk')"
  shows "disk_sum w disk' = disk_sum w disk + (if is_ok x then sum_list (map w records) else 0)"
proof -
  obtain s where s: "append_many repr records (store_at max_bytes disk k) = (x, s)" "disk' = dset k s disk"
    using assms(2) by (auto simp: append_at_def split: prod.splits)
  have "(case map_of disk k of None \<Rightarrow> 0 | Some s \<Rightarrow> sum_list (map w (read_all_including_rotated s))) =
      sum_list (map w (read_all_including_rotated (store_at max_bytes disk k)))"
    by (simp add: store_at_def split: option.splits)
  then show ?thesis
    using append_many_result [OF store_at_ok [OF assms(1)] s(1)] by (simp add: s(2) disk_sum_def dsum_dset)
qed

end
