(* ===== verification/Flow.thy ===== *)
theory Flow
  imports Extract Store
begin

text \<open>
  Flow aggregation, \<open>client/app/flow_aggregator.py\<close>: packets of one conversation, in either direction, are
  accumulated under an unordered key, and a flow that has been idle long enough becomes a record of
  \<open>flows.json\<close>.  The monotonic clock (seconds), the wall clock (microseconds) and the day are arguments.
\<close>

section \<open>Keys\<close>

text \<open>An endpoint is an address and a port, either of which may be missing.\<close>

type_synonym endpoint = "string option \<times> int option"

type_synonym flow_key = "string \<times> endpoint \<times> endpoint"

text \<open>\<open>a <= b\<close> of two values of which one is \<open>None\<close> raises.\<close>

definition given_le :: "'a::linorder option \<Rightarrow> 'a option \<Rightarrow> bool result" where
  "given_le a b =
     (case (a, b) of
        (Some x, Some y) \<Rightarrow> Inr (x \<le> y)
      | _ \<Rightarrow> raise_exc TypeError ''not supported between instances'')"

text \<open>Tuples compare at their first components that differ.\<close>

definition endpoint_le :: "endpoint \<Rightarrow> endpoint \<Rightarrow> bool result" where
  "endpoint_le a b =
     (if fst a \<noteq> fst b then given_le (fst a) (fst b)
      else if snd a \<noteq> snd b then given_le (snd a) (snd b)
      else Inr True)"

definition or_unknown :: "string \<Rightarrow> string" where
  "or_unknown protocol = (if protocol = [] then ''UNKNOWN'' else protocol)"

definition flow_key :: "packet_obs \<Rightarrow> flow_key result" where
  "flow_key ob =
     (let a = (o_src_ip ob, o_src_port ob); b = (o_dst_ip ob, o_dst_port ob); p = or_unknown (o_protocol ob)
      in then_do (endpoint_le a b) (\<lambda>le. Inr (if le then (p, a, b) else (p, b, a))))"

section \<open>Accumulating a flow\<close>

record active_flow =
  af_observer :: "string option"
  af_first_seen :: string
  af_last_seen :: string
  af_src_mac :: "string option"
  af_dst_mac :: "string option"
  af_src_ip :: "string option"
  af_dst_ip :: "string option"
  af_src_port :: "int option"
  af_dst_port :: "int option"
  af_protocol :: string
  af_application :: "string option"
  af_direction :: string
  af_packets :: int
  af_bytes :: int
  af_sizes :: int
  af_min :: "int option"
  af_max :: "int option"
  af_syn :: int
  af_fin :: int
  af_rst :: int
  af_in_packets :: int
  af_out_packets :: int
  af_in_bytes :: int
  af_out_bytes :: int
  af_last_mono :: rat
  af_gap_sum :: rat
  af_gap_count :: int

definition APPLICATION_PROTOCOL_BY_PORT :: "(int \<times> string) list" where
  "APPLICATION_PROTOCOL_BY_PORT =
     [(80, ''HTTP''), (443, ''HTTPS''), (53, ''DNS''), (67, ''DHCP''), (68, ''DHCP''), (5353, ''MDNS''),
      (5355, ''LLMNR''), (137, ''NBNS''), (1900, ''SSDP'')]"

definition port_name :: "int option \<Rightarrow> string option" where
  "port_name p = (case p of None \<Rightarrow> None | Some n \<Rightarrow> map_of APPLICATION_PROTOCOL_BY_PORT n)"

definition application_protocol :: "packet_obs \<Rightarrow> string option" where
  "application_protocol ob =
     (let p = upper (o_protocol ob) in
      if o_protocol ob \<noteq> [] \<and> p \<notin> set [''TCP'', ''UDP'', ''IP'', ''UNKNOWN''] then Some p
      else case port_name (o_src_port ob) of Some s \<Rightarrow> Some s | None \<Rightarrow> port_name (o_dst_port ob))"

definition new_active_flow :: "rat \<Rightarrow> string option \<Rightarrow> packet_obs \<Rightarrow> active_flow" where
  "new_active_flow now client ob =
     \<lparr>af_observer = (if given client = None then o_observer ob else client),
      af_first_seen = o_timestamp ob, af_last_seen = o_timestamp ob,
      af_src_mac = o_src_mac ob, af_dst_mac = o_dst_mac ob, af_src_ip = o_src_ip ob, af_dst_ip = o_dst_ip ob,
      af_src_port = o_src_port ob, af_dst_port = o_dst_port ob, af_protocol = or_unknown (o_protocol ob),
      af_application = application_protocol ob, af_direction = o_direction ob,
      af_packets = 0, af_bytes = 0, af_sizes = 0, af_min = None, af_max = None,
      af_syn = 0, af_fin = 0, af_rst = 0, af_in_packets = 0, af_out_packets = 0, af_in_bytes = 0, af_out_bytes = 0,
      af_last_mono = now, af_gap_sum = 0, af_gap_count = 0\<rparr>"

definition has_flag :: "char \<Rightarrow> packet_obs \<Rightarrow> bool" where
  "has_flag c ob \<longleftrightarrow> (case o_flags ob of None \<Rightarrow> False | Some s \<Rightarrow> c \<in> set s)"

definition bump :: "bool \<Rightarrow> int \<Rightarrow> int" where
  "bump b n = (if b then n + 1 else n)"

text \<open>\<open>update\<close>: the gap to the packet before, the sizes, the time stamps, the direction and the flags.\<close>

definition count_gap :: "rat \<Rightarrow> active_flow \<Rightarrow> active_flow" where
  "count_gap now f =
     (let gap = now - af_last_mono f;
          f = (if af_packets f > 0 \<and> gap \<ge> 0
               then f\<lparr>af_gap_sum := af_gap_sum f + gap, af_gap_count := af_gap_count f + 1\<rparr> else f)
      in f\<lparr>af_last_mono := now\<rparr>)"

definition count_size :: "int \<Rightarrow> active_flow \<Rightarrow> active_flow" where
  "count_size n f =
     f\<lparr>af_packets := af_packets f + 1, af_bytes := af_bytes f + n, af_sizes := af_sizes f + n,
       af_min := (case af_min f of None \<Rightarrow> Some n | Some m \<Rightarrow> Some (if n < m then n else m)),
       af_max := (case af_max f of None \<Rightarrow> Some n | Some m \<Rightarrow> Some (if n > m then n else m))\<rparr>"

definition count_time :: "string \<Rightarrow> active_flow \<Rightarrow> active_flow" where
  "count_time ts f =
     (if ts = [] then f
      else f\<lparr>af_first_seen := (if af_first_seen f = [] then ts else af_first_seen f), af_last_seen := ts\<rparr>)"

definition count_direction :: "string \<Rightarrow> int \<Rightarrow> active_flow \<Rightarrow> active_flow" where
  "count_direction d n f =
     (if d = ''outbound'' then f\<lparr>af_out_packets := af_out_packets f + 1, af_out_bytes := af_out_bytes f + n\<rparr>
      else if d = ''inbound'' then f\<lparr>af_in_packets := af_in_packets f + 1, af_in_bytes := af_in_bytes f + n\<rparr>
      else f)"

definition update_flow :: "rat \<Rightarrow> packet_obs \<Rightarrow> active_flow \<Rightarrow> active_flow" where
  "update_flow now ob f =
     (let f = count_direction (o_direction ob) (o_length ob)
                (count_time (o_timestamp ob) (count_size (o_length ob) (count_gap now f)));
          f = f\<lparr>af_syn := bump (has_flag (CHR ''S'') ob) (af_syn f), af_fin := bump (has_flag (CHR ''F'') ob) (af_fin f),
                af_rst := bump (has_flag (CHR ''R'') ob) (af_rst f)\<rparr>
      in if given (af_application f) = None then f\<lparr>af_application := application_protocol ob\<rparr> else f)"

definition idle_seconds :: "rat \<Rightarrow> active_flow \<Rightarrow> rat" where
  "idle_seconds now f = now - af_last_mono f"

section \<open>The record of a flow\<close>

definition round_to :: "int \<Rightarrow> rat \<Rightarrow> rat" where
  "round_to n x = round2 (of_int n * x / 100) * 100 / of_int n"

text \<open>\<open>_iso_to_epoch_ms\<close>; \<open>wall\<close> is the clock for a stamp that does not parse.\<close>

definition iso_to_epoch_ms :: "int \<Rightarrow> string \<Rightarrow> int" where
  "iso_to_epoch_ms wall s = (case strptime True s of None \<Rightarrow> wall div 1000 | Some t \<Rightarrow> int_of_float (of_int t / 1000))"

definition flow_duration :: "string \<Rightarrow> string \<Rightarrow> rat" where
  "flow_duration first last_text =
     (case (strptime True first, strptime True last_text) of
        (Some a, Some b) \<Rightarrow> max 0 (of_int (b - a) / of_int USEC)
      | _ \<Rightarrow> 0)"

definition ratio :: "int \<Rightarrow> rat \<Rightarrow> int \<Rightarrow> rat" where
  "ratio scale x n = (if n = 0 then 0 else round_to scale (x / of_int n))"

definition zero_if_none :: "int option \<Rightarrow> int" where
  "zero_if_none v = (case v of None \<Rightarrow> 0 | Some n \<Rightarrow> n)"

definition to_record :: "int \<Rightarrow> string option \<Rightarrow> active_flow \<Rightarrow> pydict" where
  "to_record wall client f =
     (let first = (if af_first_seen f = [] then format_timestamp wall else af_first_seen f);
          last_text = (if af_last_seen f = [] then first else af_last_seen f);
          who = (if given client = None then af_observer f else client);
          name = (case given who of None \<Rightarrow> ''unknown'' | Some s \<Rightarrow> s)
      in [(''flow_id'', PStr (name @ ''-'' @ int_str (iso_to_epoch_ms wall first))),
          (''observer_client_id'', opt_str who), (''first_seen'', PStr first), (''last_seen'', PStr last_text),
          (''src_mac'', opt_str (af_src_mac f)), (''src_ip'', opt_str (af_src_ip f)),
          (''dst_mac'', opt_str (af_dst_mac f)), (''dst_ip'', opt_str (af_dst_ip f)),
          (''src_port'', opt_int (af_src_port f)), (''dst_port'', opt_int (af_dst_port f)),
          (''protocol'', PStr (af_protocol f)), (''application_protocol'', opt_str (af_application f)),
          (''direction'', PStr (af_direction f)), (''packet_count'', PInt (af_packets f)), (''bytes'', PInt (af_bytes f)),
          (''duration'', PFloat (round_to 1000 (flow_duration first last_text))),
          (''avg_packet_size'', PFloat (ratio 100 (of_int (af_sizes f)) (af_packets f))),
          (''min_packet_size'', PInt (zero_if_none (af_min f))), (''max_packet_size'', PInt (zero_if_none (af_max f))),
          (''tcp_syn'', PInt (af_syn f)), (''tcp_fin'', PInt (af_fin f)), (''tcp_rst'', PInt (af_rst f)),
          (''inbound_packets'', PInt (af_in_packets f)), (''outbound_packets'', PInt (af_out_packets f)),
          (''inbound_bytes'', PInt (af_in_bytes f)), (''outbound_bytes'', PInt (af_out_bytes f)),
          (''avg_inter_arrival_time'', PFloat (ratio 1000 (af_gap_sum f) (af_gap_count f)))])"

section \<open>The aggregator\<close>

record clocks =
  k_wall :: int
  k_mono :: rat
  k_day :: string

text \<open>\<open>g_disk\<close>: the store of each day as the file system has it.\<close>

record aggregator =
  g_client :: "string option"
  g_timeout :: rat
  g_max_bytes :: int
  g_flows :: "(flow_key \<times> active_flow) list"
  g_disk :: "string disk"

definition record_flow_packet :: "clocks \<Rightarrow> packet_obs \<Rightarrow> (aggregator, unit) act" where
  "record_flow_packet k ob g =
     (case flow_key ob of
        Inl e \<Rightarrow> (Inl e, g)
      | Inr key \<Rightarrow>
          (let f = (case map_of (g_flows g) key of None \<Rightarrow> new_active_flow (k_mono k) (g_client g) ob | Some f \<Rightarrow> f)
           in (Inr (), g\<lparr>g_flows := dset key (update_flow (k_mono k) ob f) (g_flows g)\<rparr>)))"

text \<open>The flow leaves the table before it is written; a write that fails is logged.\<close>

definition finalize_flow :: "(rat \<Rightarrow> string) \<Rightarrow> clocks \<Rightarrow> flow_key \<Rightarrow> aggregator \<Rightarrow> aggregator" where
  "finalize_flow repr k key g =
     (case map_of (g_flows g) key of
        None \<Rightarrow> g
      | Some f \<Rightarrow>
          (let g = g\<lparr>g_flows := filter (\<lambda>(key', _). key' \<noteq> key) (g_flows g)\<rparr> in
           if af_packets f = 0 then g
           else g\<lparr>g_disk := snd (append_at repr (g_max_bytes g) (k_day k) [PDict (to_record (k_wall k) (g_client g) f)] (g_disk g))\<rparr>))"

definition expired_keys :: "clocks \<Rightarrow> aggregator \<Rightarrow> flow_key list" where
  "expired_keys k g = map fst (filter (\<lambda>(_, f). idle_seconds (k_mono k) f \<ge> g_timeout g) (g_flows g))"

definition finalize_all :: "(rat \<Rightarrow> string) \<Rightarrow> clocks \<Rightarrow> flow_key list \<Rightarrow> aggregator \<Rightarrow> int \<times> aggregator" where
  "finalize_all repr k keys g = (ilen keys, fold (finalize_flow repr k) keys g)"

definition sweep_idle_flows :: "(rat \<Rightarrow> string) \<Rightarrow> clocks \<Rightarrow> aggregator \<Rightarrow> int \<times> aggregator" where
  "sweep_idle_flows repr k g = finalize_all repr k (expired_keys k g) g"

definition flush_all :: "(rat \<Rightarrow> string) \<Rightarrow> clocks \<Rightarrow> aggregator \<Rightarrow> int \<times> aggregator" where
  "flush_all repr k g = finalize_all repr k (map fst (g_flows g)) g"

definition active_flow_count :: "aggregator \<Rightarrow> int" where
  "active_flow_count g = ilen (g_flows g)"

section \<open>Keys do not see the direction\<close>

text \<open>The observation of the answer to a packet: the same conversation, seen the other way round.\<close>

definition turned :: "packet_obs \<Rightarrow> packet_obs" where
  "turned ob =
     ob\<lparr>o_src_ip := o_dst_ip ob, o_dst_ip := o_src_ip ob, o_src_port := o_dst_port ob, o_dst_port := o_src_port ob\<rparr>"

definition addressed :: "packet_obs \<Rightarrow> bool" where
  "addressed ob \<longleftrightarrow> o_src_ip ob \<noteq> None \<and> o_dst_ip ob \<noteq> None \<and> ((o_src_port ob = None) = (o_dst_port ob = None))"

lemma given_le_total: "a \<noteq> None \<Longrightarrow> b \<noteq> None \<Longrightarrow> a \<noteq> b \<Longrightarrow> \<exists>r. given_le a b = Inr r \<and> given_le b a = Inr (\<not> r)"
  by (cases a; cases b) (auto simp: given_le_def)

lemma endpoint_le_total:
  assumes "fst a \<noteq> None" "fst b \<noteq> None" "(snd a = None) = (snd b = None)" "a \<noteq> b"
  shows "\<exists>r. endpoint_le a b = Inr r \<and> endpoint_le b a = Inr (\<not> r)"
proof (cases "fst a = fst b")
  case True
  then have "snd a \<noteq> snd b" using assms(4) by (simp add: prod_eq_iff)
  moreover from this have "snd a \<noteq> None" "snd b \<noteq> None" using assms(3) by auto
  ultimately show ?thesis using True given_le_total [of "snd a" "snd b"] by (simp add: endpoint_le_def)
next
  case False
  then show ?thesis using given_le_total [of "fst a" "fst b"] assms(1,2) by (simp add: endpoint_le_def)
qed

lemma endpoint_le_refl: "endpoint_le a a = Inr True"
  by (simp add: endpoint_le_def)

lemma flow_key_turned:
  assumes "addressed ob"
  shows "\<exists>key. flow_key ob = Inr key \<and> flow_key (turned ob) = Inr key"
proof (cases "(o_src_ip ob, o_src_port ob) = (o_dst_ip ob, o_dst_port ob)")
  case True
  then show ?thesis by (simp add: flow_key_def turned_def endpoint_le_refl Let_def)
next
  case False
  with endpoint_le_total [of "(o_src_ip ob, o_src_port ob)" "(o_dst_ip ob, o_dst_port ob)"] assms
  obtain r where "endpoint_le (o_src_ip ob, o_src_port ob) (o_dst_ip ob, o_dst_port ob) = Inr r"
    "endpoint_le (o_dst_ip ob, o_dst_port ob) (o_src_ip ob, o_src_port ob) = Inr (\<not> r)"
    by (auto simp: addressed_def)
  then show ?thesis by (simp add: flow_key_def turned_def Let_def)
qed

section \<open>Every packet is counted once\<close>

definition record_packets :: "pyval \<Rightarrow> int" where
  "record_packets v = (case v of PDict d \<Rightarrow> (case dget d ''packet_count'' of PInt n \<Rightarrow> n | _ \<Rightarrow> 0) | _ \<Rightarrow> 0)"

text \<open>All packets the aggregator accounts for, in memory and on disk.\<close>

definition counted_packets :: "aggregator \<Rightarrow> int" where
  "counted_packets g = dsum af_packets (g_flows g) + disk_sum record_packets (g_disk g)"

definition flow_table_ok :: "aggregator \<Rightarrow> bool" where
  "flow_table_ok g \<longleftrightarrow>
     distinct (map fst (g_flows g)) \<and> (\<forall>(_, f)\<in>set (g_flows g). af_packets f > 0) \<and> disk_ok (g_disk g)"

lemma record_packets_to_record: "record_packets (PDict (to_record wall client f)) = af_packets f"
  by (simp add: record_packets_def to_record_def Let_def)

lemma update_flow_packets: "af_packets (update_flow now ob f) = af_packets f + 1"
  by (simp add: update_flow_def count_direction_def count_time_def count_size_def count_gap_def Let_def)

lemma new_active_flow_packets: "af_packets (new_active_flow now client ob) = 0"
  by (simp add: new_active_flow_def)

text \<open>Finalising moves a flow from memory to disk, or loses it when the disk refuses.\<close>

lemma finalize_flow_eq:
  assumes "map_of (g_flows g) key = Some f" "af_packets f > 0"
    and "append_at repr (g_max_bytes g) (k_day k) [PDict (to_record (k_wall k) (g_client g) f)] (g_disk g) = (x, disk)"
  shows "finalize_flow repr k key g = g\<lparr>g_flows := filter (\<lambda>(key', _). key' \<noteq> key) (g_flows g), g_disk := disk\<rparr>"
  using assms by (simp add: finalize_flow_def Let_def)

lemma finalize_flow_counts:
  assumes ok: "flow_table_ok g"
  shows "flow_table_ok (finalize_flow repr k key g) \<and> counted_packets (finalize_flow repr k key g) \<le> counted_packets g
    \<and> (disk_ready (g_disk g) \<longrightarrow> disk_ready (g_disk (finalize_flow repr k key g))
         \<and> counted_packets (finalize_flow repr k key g) = counted_packets g)"
proof (cases "map_of (g_flows g) key")
  case None
  then show ?thesis using ok by (simp add: finalize_flow_def)
next
  case (Some f)
  obtain x disk where append:
    "append_at repr (g_max_bytes g) (k_day k) [PDict (to_record (k_wall k) (g_client g) f)] (g_disk g) = (x, disk)" by force
  from ok have dist: "distinct (map fst (g_flows g))" and f: "af_packets f > 0" and disk: "disk_ok (g_disk g)"
    using Some by (auto simp: flow_table_ok_def dest: map_of_SomeD)
  note eq = finalize_flow_eq [OF Some f append] and result = append_at_result [OF disk append]
  have "flow_table_ok (finalize_flow repr k key g)"
    using ok result unfolding eq flow_table_ok_def by (auto simp: distinct_map inj_on_def)
  moreover have "counted_packets (finalize_flow repr k key g) = counted_packets g - (if is_ok x then 0 else af_packets f)"
    using dsum_remove [OF dist Some, of af_packets] append_at_sum [OF disk append, of record_packets]
    by (simp add: eq counted_packets_def record_packets_to_record)
  ultimately show ?thesis using result f by (simp add: eq)
qed

lemma finalize_all_counts:
  "flow_table_ok g \<Longrightarrow> finalize_all repr k keys g = (n, g') \<Longrightarrow>
   flow_table_ok g' \<and> counted_packets g' \<le> counted_packets g \<and> (disk_ready (g_disk g) \<longrightarrow> disk_ready (g_disk g') \<and> counted_packets g' = counted_packets g)"
proof (induction keys arbitrary: g n)
  case (Cons key keys)
  from Cons.IH [of "finalize_flow repr k key g"] Cons.prems finalize_flow_counts [of g repr k key]
  show ?case by (fastforce simp: finalize_all_def)
qed (simp add: finalize_all_def)

lemma record_flow_packet_counts:
  assumes ok: "flow_table_ok g" and step: "record_flow_packet k ob g = (x, g')"
  shows "flow_table_ok g' \<and> counted_packets g' = counted_packets g + (if is_ok x then 1 else 0) \<and> (disk_ready (g_disk g) \<longrightarrow> disk_ready (g_disk g'))"
proof (cases "flow_key ob")
  case (Inl e)
  then show ?thesis using assms by (auto simp: record_flow_packet_def is_ok_def)
next
  case (Inr key)
  define f where "f = (case map_of (g_flows g) key of None \<Rightarrow> new_active_flow (k_mono k) (g_client g) ob | Some f \<Rightarrow> f)"
  have g': "g' = g\<lparr>g_flows := dset key (update_flow (k_mono k) ob f) (g_flows g)\<rparr>" "is_ok x"
    using step Inr by (auto simp: record_flow_packet_def f_def is_ok_def)
  have f0: "af_packets f = (case map_of (g_flows g) key of None \<Rightarrow> 0 | Some f \<Rightarrow> af_packets f)" "af_packets f \<ge> 0"
    using ok by (auto simp: f_def new_active_flow_packets flow_table_ok_def dest!: map_of_SomeD split: option.splits)
  have "flow_table_ok g'"
    using ok f0(2) set_dset [of key "update_flow (k_mono k) ob f" "g_flows g"]
    by (auto simp: g' flow_table_ok_def distinct_keys_dset update_flow_packets)
  then show ?thesis
    using g'(2) f0(1) by (simp add: g'(1) counted_packets_def dsum_dset update_flow_packets split: option.splits)
qed

datatype flow_event = Packet clocks packet_obs | Sweep clocks | Flush clocks

text \<open>Running the aggregator: the packets it accepted, and its state.\<close>

fun run_flows :: "(rat \<Rightarrow> string) \<Rightarrow> flow_event list \<Rightarrow> aggregator \<Rightarrow> int \<times> aggregator" where
  "run_flows repr [] g = (0, g)"
| "run_flows repr (Packet k ob # es) g =
     (let (x, g1) = record_flow_packet k ob g; (n, g2) = run_flows repr es g1 in ((if is_ok x then n + 1 else n), g2))"
| "run_flows repr (Sweep k # es) g = run_flows repr es (snd (sweep_idle_flows repr k g))"
| "run_flows repr (Flush k # es) g = run_flows repr es (snd (flush_all repr k g))"

lemma run_flows_counts:
  "flow_table_ok g \<Longrightarrow> run_flows repr es g = (n, g') \<Longrightarrow>
   flow_table_ok g' \<and> counted_packets g' \<le> counted_packets g + n \<and>
   (disk_ready (g_disk g) \<longrightarrow> counted_packets g' = counted_packets g + n)"
proof (induction repr es g arbitrary: n rule: run_flows.induct)
  case (2 repr k ob es g)
  obtain x g1 where step: "record_flow_packet k ob g = (x, g1)" by force
  obtain m g2 where run: "run_flows repr es g1 = (m, g2)" by force
  note g1 = record_flow_packet_counts [OF "2.prems"(1) step]
  have g': "g' = g2" "n = (if is_ok x then m + 1 else m)" using "2.prems"(2) step run by simp_all
  from "2.IH" [OF step [symmetric] refl _ run [folded g'(1)]] g1
  have "flow_table_ok g2 \<and> counted_packets g2 \<le> counted_packets g1 + m
      \<and> (disk_ready (g_disk g) \<longrightarrow> counted_packets g2 = counted_packets g1 + m)" unfolding g'(1) by blast
  with g1 g' show ?case by (cases "is_ok x") auto
next
  case (3 repr k es g)
  obtain m g1 where "sweep_idle_flows repr k g = (m, g1)" by force
  with 3 finalize_all_counts [of g repr k _ m g1] show ?case by (fastforce simp: sweep_idle_flows_def)
next
  case (4 repr k es g)
  obtain m g1 where "flush_all repr k g = (m, g1)" by force
  with 4 finalize_all_counts [of g repr k _ m g1] show ?case by (fastforce simp: flush_all_def)
qed simp

fun accepted :: "flow_event \<Rightarrow> int" where
  "accepted (Packet k ob) = (if is_ok (flow_key ob) then 1 else 0)"
| "accepted _ = 0"

lemma run_flows_accepted: "fst (run_flows repr es g) = sum_list (map accepted es)"
  by (induction repr es g rule: run_flows.induct) (auto simp: record_flow_packet_def is_ok_def split: prod.splits sum.splits)

text \<open>C26.  No packet is lost or counted twice between the capture and the disk: from any well-formed state, the packets
  the aggregator accepts are exactly the ones its open flows and its written records add up to, as long as
  the disk answers; whatever the disk does, they never add up to more.\<close>

theorem flow_packets_conserved:
  assumes "flow_table_ok g" and "run_flows repr es g = (n, g')"
  shows "counted_packets g' \<le> counted_packets g + n \<and> (disk_ready (g_disk g) \<longrightarrow> counted_packets g' = counted_packets g + n)"
  using run_flows_counts [OF assms] by blast

definition SAMPLE_OBS :: packet_obs where
  "SAMPLE_OBS =
     \<lparr>o_timestamp = ''2024-05-01T10:00:00.000Z'', o_length = 60, o_protocol = ''TCP'', o_direction = ''outbound'',
      o_observer = Some ''pc-1'', o_interface = None,
      o_src_mac = Some ''AA:BB:CC:00:00:01'', o_dst_mac = Some ''AA:BB:CC:00:00:02'',
      o_src_ip = Some ''10.0.0.5'', o_dst_ip = Some ''10.0.0.9'', o_src_port = Some 50000, o_dst_port = Some 443,
      o_flags = Some ''S'', o_meta = []\<rparr>"

definition SAMPLE_AGGREGATOR :: aggregator where
  "SAMPLE_AGGREGATOR = \<lparr>g_client = Some ''pc-1'', g_timeout = 45, g_max_bytes = 52428800, g_flows = [], g_disk = []\<rparr>"

definition clock_at :: "int \<Rightarrow> clocks" where
  "clock_at t = \<lparr>k_wall = 1714557600000000 + t * 1000000, k_mono = of_int t, k_day = ''2024-05-01''\<rparr>"

text \<open>A request and its answer, a sweep after the timeout, and a third packet that opens a new flow.\<close>

definition SAMPLE_RUN :: "flow_event list" where
  "SAMPLE_RUN =
     [Packet (clock_at 0) SAMPLE_OBS, Packet (clock_at 1) (turned SAMPLE_OBS), Sweep (clock_at 46), Packet (clock_at 47) SAMPLE_OBS]"

theorem flow_packets_conserved_witness:
  "let (n, g) = run_flows (\<lambda>_. []) SAMPLE_RUN SAMPLE_AGGREGATOR
   in n = 3 \<and> counted_packets g = 3"
proof -
  have run: "fst (run_flows (\<lambda>_. []) SAMPLE_RUN SAMPLE_AGGREGATOR) = 3"
    unfolding run_flows_accepted by code_simp
  have "flow_table_ok SAMPLE_AGGREGATOR" "disk_ready (g_disk SAMPLE_AGGREGATOR)" "counted_packets SAMPLE_AGGREGATOR = 0"
    by (simp_all add: SAMPLE_AGGREGATOR_def flow_table_ok_def disk_ok_def disk_ready_def counted_packets_def dsum_def disk_sum_def)
  with flow_packets_conserved [of SAMPLE_AGGREGATOR "\<lambda>_. []" SAMPLE_RUN 3] run show ?thesis
    by (auto simp: split_beta prod_eq_iff)
qed

text \<open>A finalised flow is out of memory before the disk is asked: a refused write loses all its packets.\<close>

lemma refused_flow_lost:
  "let g = SAMPLE_AGGREGATOR\<lparr>g_disk := [(''2024-05-01'', (new_store 100)\<lparr>s_answers := [False]\<rparr>)]\<rparr>;
       (n, g) = run_flows (\<lambda>_. []) [Packet (clock_at 0) SAMPLE_OBS, Flush (clock_at 1)] g
   in n = 1 \<and> counted_packets g = 0"
  by code_simp

section \<open>Which packets share a flow\<close>

lemma endpoint_le_cases:
  assumes "endpoint_le a b = Inr r" "(fst a = None) = (fst b = None)" "(snd a = None) = (snd b = None)"
  shows "endpoint_le b a = Inr (if a = b then r else \<not> r)"
  using assms by (cases a; cases b) (auto simp: endpoint_le_def given_le_def split: option.splits if_splits)

lemma flow_key_ends:
  "flow_key ob = Inr (p, lo, hi) \<Longrightarrow>
   p = or_unknown (o_protocol ob) \<and> {lo, hi} = {(o_src_ip ob, o_src_port ob), (o_dst_ip ob, o_dst_port ob)}"
  by (auto simp: flow_key_def Let_def then_do_eq_Inr split: if_splits)

lemma addressed_key: "addressed ob \<Longrightarrow> \<exists>p lo hi. flow_key ob = Inr (p, lo, hi)"
  using flow_key_turned by (metis prod_cases3)

text \<open>Two addressed packets are accumulated in one flow exactly when they have the same protocol label and run
  between the same two endpoints, in whichever direction.\<close>

theorem one_flow_per_conversation:
  assumes "addressed a" and "addressed b"
  shows "flow_key a = flow_key b \<longleftrightarrow>
    or_unknown (o_protocol a) = or_unknown (o_protocol b) \<and>
    {(o_src_ip a, o_src_port a), (o_dst_ip a, o_dst_port a)} = {(o_src_ip b, o_src_port b), (o_dst_ip b, o_dst_port b)}"
    (is "?same \<longleftrightarrow> ?label \<and> ?ends")
proof
  assume ?same
  with addressed_key [OF assms(1)] obtain p lo hi where "flow_key a = Inr (p, lo, hi)" "flow_key b = Inr (p, lo, hi)" by auto
  then show "?label \<and> ?ends" using flow_key_ends by metis
next
  assume both: "?label \<and> ?ends"
  then have "(o_src_ip b, o_src_port b) = (o_src_ip a, o_src_port a) \<and> (o_dst_ip b, o_dst_port b) = (o_dst_ip a, o_dst_port a)
      \<or> (o_src_ip b, o_src_port b) = (o_dst_ip a, o_dst_port a) \<and> (o_dst_ip b, o_dst_port b) = (o_src_ip a, o_src_port a)"
    unfolding doubleton_eq_iff by auto
  then show ?same
  proof
    assume "(o_src_ip b, o_src_port b) = (o_dst_ip a, o_dst_port a) \<and> (o_dst_ip b, o_dst_port b) = (o_src_ip a, o_src_port a)"
    then have "flow_key b = flow_key (turned a)" using both by (simp add: flow_key_def turned_def)
    with flow_key_turned [OF assms(1)] show ?same by auto
  qed (use both in \<open>simp add: flow_key_def\<close>)
qed

text \<open>The label is the packet's, not the connection's: the extractor calls the segment with the ClientHello ''TLS''
  and the others of the connection ''TCP'', and the two kinds are counted in two flows.\<close>

theorem one_flow_per_conversation_witness:
  "flow_key SAMPLE_OBS = flow_key (turned SAMPLE_OBS) \<and> flow_key SAMPLE_OBS \<noteq> flow_key (SAMPLE_OBS\<lparr>o_protocol := ''TLS''\<rparr>)"
proof -
  have "addressed SAMPLE_OBS" "addressed (turned SAMPLE_OBS)" "addressed (SAMPLE_OBS\<lparr>o_protocol := ''TLS''\<rparr>)"
    by (simp_all add: addressed_def turned_def SAMPLE_OBS_def)
  then show ?thesis
    using one_flow_per_conversation [of SAMPLE_OBS "turned SAMPLE_OBS"]
      one_flow_per_conversation [of SAMPLE_OBS "SAMPLE_OBS\<lparr>o_protocol := ''TLS''\<rparr>"]
    by (simp add: turned_def insert_commute or_unknown_def) (simp add: SAMPLE_OBS_def)
qed

text \<open>A packet with one address, or one port, and not the other raises.\<close>

lemma half_addressed_raises:
  "o_src_ip ob = o_dst_ip ob \<Longrightarrow> (o_src_port ob = None) \<noteq> (o_dst_port ob = None) \<Longrightarrow> \<not> is_ok (flow_key ob)"
  by (auto simp: flow_key_def endpoint_le_def given_le_def is_ok_def split: option.splits)

end
