(* ===== verification/Activity.thy ===== *)
theory Activity
  imports Flow Stamp "HOL-Library.Multiset"
begin

text \<open>
  What is computed from the flow records: the fifteen-minute activity windows of
  \<open>client/app/activity_window_aggregator.py\<close> and the flow queries of \<open>client/app/flow_query.py\<close>.  The fields of a
  flow record have the types \<open>to_record\<close> writes; a field of another type is read as absent.  Instants are
  microseconds; the private ranges are those of the IANA registries, as the current \<open>ipaddress\<close> has them.
\<close>

section \<open>Fields of a flow record\<close>

definition text_field :: "pydict \<Rightarrow> string \<Rightarrow> string option" where
  "text_field d k = (case dget d k of PStr s \<Rightarrow> Some s | _ \<Rightarrow> None)"

definition count_field :: "pydict \<Rightarrow> string \<Rightarrow> int" where
  "count_field d k = (case dget d k of PInt n \<Rightarrow> n | _ \<Rightarrow> 0)"

definition port_field :: "pydict \<Rightarrow> string \<Rightarrow> string option" where
  "port_field d k = (case dget d k of PInt n \<Rightarrow> Some (int_str n) | _ \<Rightarrow> None)"

definition text_or_empty :: "pydict \<Rightarrow> string \<Rightarrow> string" where
  "text_or_empty d k = (case text_field d k of None \<Rightarrow> [] | Some s \<Rightarrow> s)"

section \<open>Private addresses\<close>

definition net4 :: "int list \<Rightarrow> int \<Rightarrow> network" where
  "net4 bs n = network_of 4 (foldl (\<lambda>acc b. acc * 256 + b) 0 bs) n"

definition net6 :: "int list \<Rightarrow> int \<Rightarrow> network" where
  "net6 gs n = network_of 6 (group_value (gs @ zeros (8 - ilen gs))) n"

definition private_v4 :: "network list" where
  "private_v4 =
     [net4 [0, 0, 0, 0] 8, net4 [10, 0, 0, 0] 8, net4 [127, 0, 0, 0] 8, net4 [169, 254, 0, 0] 16, net4 [172, 16, 0, 0] 12,
      net4 [192, 0, 0, 0] 24, net4 [192, 0, 0, 170] 31, net4 [192, 0, 2, 0] 24, net4 [192, 168, 0, 0] 16,
      net4 [198, 18, 0, 0] 15, net4 [198, 51, 100, 0] 24, net4 [203, 0, 113, 0] 24, net4 [240, 0, 0, 0] 4,
      net4 [255, 255, 255, 255] 32]"

definition private_v6 :: "network list" where
  "private_v6 =
     [net6 [0, 0, 0, 0, 0, 0, 0, 1] 128, net6 [] 128, net6 [0, 0, 0, 0, 0, 0xFFFF] 96, net6 [0x64, 0xFF9B, 1] 48,
      net6 [0x100] 64, net6 [0x2001] 23, net6 [0x2001, 0xDB8] 32, net6 [0x2002] 16, net6 [0xFC00] 7, net6 [0xFE80] 10]"

definition public_v6 :: "network list" where
  "public_v6 =
     [net6 [0x2001, 1, 0, 0, 0, 0, 0, 1] 128, net6 [0x2001, 1, 0, 0, 0, 0, 0, 2] 128, net6 [0x2001, 3] 32,
      net6 [0x2001, 4, 0x112] 48, net6 [0x2001, 0x20] 28, net6 [0x2001, 0x30] 28]"

definition private4 :: "int \<Rightarrow> bool" where
  "private4 v \<longleftrightarrow>
     list_ex (in_network 4 v) private_v4 \<and> \<not> list_ex (in_network 4 v) [net4 [192, 0, 0, 9] 32, net4 [192, 0, 0, 10] 32]"

definition private6 :: "int \<Rightarrow> bool" where
  "private6 v \<longleftrightarrow>
     (if v div 2 ^ 32 = 0xFFFF then private4 (v mod 2 ^ 32)
      else list_ex (in_network 6 v) private_v6 \<and> \<not> list_ex (in_network 6 v) public_v6)"

definition is_private_ip :: "string option \<Rightarrow> bool option" where
  "is_private_ip ip =
     (case given ip of
        None \<Rightarrow> None
      | Some s \<Rightarrow> (case ipv4_of s of Some v \<Rightarrow> Some (private4 v) | None \<Rightarrow> map_option private6 (ipv6_of s)))"

section \<open>Accumulating the flows of one device\<close>

definition flow_participant_macs :: "pydict \<Rightarrow> string list \<Rightarrow> string list" where
  "flow_participant_macs f known =
     concat (map (\<lambda>k. case text_field f k of
                          Some m \<Rightarrow> if lower m \<in> set known then [lower m] else []
                        | None \<Rightarrow> [])
               [''src_mac'', ''dst_mac''])"

record device_totals =
  x_flows :: int
  x_packets :: int
  x_bytes :: int
  x_protocols :: "(string \<times> int) list"
  x_ports :: "(string \<times> int) list"
  x_internal :: int
  x_external :: int
  x_destinations :: "string list"

definition no_totals :: device_totals where
  "no_totals =
     \<lparr>x_flows = 0, x_packets = 0, x_bytes = 0, x_protocols = [], x_ports = [], x_internal = 0, x_external = 0,
      x_destinations = []\<rparr>"

text \<open>\<open>d[k] = d.get(k, 0) + n\<close>.\<close>

definition tally :: "string \<Rightarrow> int \<Rightarrow> (string \<times> int) list \<Rightarrow> (string \<times> int) list" where
  "tally k n d = dset k ((case map_of d k of None \<Rightarrow> 0 | Some m \<Rightarrow> m) + n) d"

definition add_member :: "string \<Rightarrow> string list \<Rightarrow> string list" where
  "add_member x xs = (if x \<in> set xs then xs else xs @ [x])"

text \<open>The side of the flow that is not the device: its port and its address.\<close>

definition other_side :: "pydict \<Rightarrow> string \<Rightarrow> string option \<times> string option" where
  "other_side f mac =
     (if lower (text_or_empty f ''src_mac'') = mac then (port_field f ''dst_port'', text_field f ''dst_ip'')
      else (port_field f ''src_port'', text_field f ''src_ip''))"

definition add_flow :: "pydict \<Rightarrow> string \<Rightarrow> device_totals \<Rightarrow> device_totals" where
  "add_flow f mac t =
     (let n = count_field f ''packet_count'';
          protocol = or_unknown (text_or_empty f ''protocol'');
          (port, ip) = other_side f mac;
          src_private = is_private_ip (text_field f ''src_ip'');
          dst_private = is_private_ip (text_field f ''dst_ip'');
          internal = src_private = Some True \<and> dst_private = Some True;
          external = \<not> internal \<and> (src_private = Some False \<or> dst_private = Some False)
      in t\<lparr>x_flows := x_flows t + 1, x_packets := x_packets t + n, x_bytes := x_bytes t + count_field f ''bytes'',
           x_protocols := tally protocol n (x_protocols t),
           x_ports := (case port of None \<Rightarrow> x_ports t | Some p \<Rightarrow> tally p 1 (x_ports t)),
           x_destinations := (case given ip of None \<Rightarrow> x_destinations t | Some a \<Rightarrow> add_member a (x_destinations t)),
           x_internal := bump internal (x_internal t), x_external := bump external (x_external t)\<rparr>)"

section \<open>The records of a window\<close>

definition tally_dict :: "(string \<times> int) list \<Rightarrow> pyval" where
  "tally_dict d = PDict (map (\<lambda>(k, n). (k, PInt n)) d)"

definition window_id :: "int \<Rightarrow> int \<Rightarrow> string" where
  "window_id start stop = format_iso start @ ''_'' @ format_iso stop"

definition totals_record :: "string \<Rightarrow> int \<Rightarrow> int \<Rightarrow> device_totals \<Rightarrow> pydict" where
  "totals_record mac start stop t =
     [(''device_mac'', PStr mac), (''window_id'', PStr (window_id start stop)), (''window_start'', PStr (format_iso start)),
      (''window_end'', PStr (format_iso stop)), (''active'', PBool (x_flows t > 0)), (''flow_count'', PInt (x_flows t)),
      (''packet_count'', PInt (x_packets t)), (''bytes'', PInt (x_bytes t)), (''protocols'', tally_dict (x_protocols t)),
      (''ports'', tally_dict (x_ports t)),
      (''connections'', PDict [(''internal'', PInt (x_internal t)), (''external'', PInt (x_external t))]),
      (''unique_destinations'', PInt (ilen (x_destinations t)))]"

definition inactive_record :: "string \<Rightarrow> int \<Rightarrow> int \<Rightarrow> pydict" where
  "inactive_record mac start stop =
     [(''device_mac'', PStr mac), (''window_id'', PStr (window_id start stop)), (''window_start'', PStr (format_iso start)),
      (''window_end'', PStr (format_iso stop)), (''active'', PBool False), (''flow_count'', PInt 0),
      (''packet_count'', PInt 0), (''bytes'', PInt 0), (''protocols'', PDict []), (''ports'', PDict []),
      (''connections'', PDict [(''internal'', PInt 0), (''external'', PInt 0)]), (''unique_destinations'', PInt 0)]"

definition known_macs :: "pyval list \<Rightarrow> string list" where
  "known_macs macs = sort (remdups (concat (map (\<lambda>v. case v of PStr s \<Rightarrow> [lower s] | _ \<Rightarrow> []) macs)))"

definition put_flow :: "pydict \<Rightarrow> string \<Rightarrow> (string \<times> device_totals) list \<Rightarrow> (string \<times> device_totals) list" where
  "put_flow f mac accs = map (\<lambda>(m, t). (m, if m = mac then add_flow f m t else t)) accs"

definition accumulate :: "string list \<Rightarrow> pyval \<Rightarrow> (string \<times> device_totals) list \<Rightarrow> (string \<times> device_totals) list" where
  "accumulate known f accs =
     (case f of PDict d \<Rightarrow> fold (put_flow d) (flow_participant_macs d known) accs | _ \<Rightarrow> accs)"

definition build_activity_window_records :: "pyval list \<Rightarrow> pyval list \<Rightarrow> int \<Rightarrow> int \<Rightarrow> pydict list" where
  "build_activity_window_records flows macs start stop =
     (let known = known_macs macs;
          accs = fold (accumulate known) flows (map (\<lambda>m. (m, no_totals)) known)
      in map (\<lambda>(m, t). if x_flows t > 0 then totals_record m start stop t else inactive_record m start stop) accs)"

section \<open>One cycle\<close>

definition parse_iso :: "pyval \<Rightarrow> int option" where
  "parse_iso v =
     (case v of
        PStr s \<Rightarrow> (case strptime True s of Some t \<Rightarrow> Some t | None \<Rightarrow> strptime False s)
      | _ \<Rightarrow> None)"

definition compute_window_bounds :: "int \<Rightarrow> int \<Rightarrow> int \<times> int" where
  "compute_window_bounds stop seconds = (stop - seconds * USEC, stop)"

definition flow_in_window :: "int \<Rightarrow> int \<Rightarrow> pydict \<Rightarrow> bool" where
  "flow_in_window start stop f =
     (case parse_iso (dget f ''last_seen'') of None \<Rightarrow> False | Some t \<Rightarrow> start \<le> t \<and> t < stop)"

fun windowed_flows :: "int \<Rightarrow> int \<Rightarrow> pyval list \<Rightarrow> pyval list result" where
  "windowed_flows start stop [] = Inr []"
| "windowed_flows start stop (f # fs) =
     (case f of
        PDict d \<Rightarrow>
          then_do (windowed_flows start stop fs) (\<lambda>rest. Inr (if flow_in_window start stop d then f # rest else rest))
      | _ \<Rightarrow> raise_exc AttributeError ''get'')"

text \<open>\<open>read_json(path, default=[]) or []\<close>, and the MAC addresses of what it lists.\<close>

definition load_known_device_macs :: "jfile option \<Rightarrow> pyval list result" where
  "load_known_device_macs f =
     (case py_or (read_json_file f (PList [])) (PList []) of
        PList ds \<Rightarrow>
          Inr (concat (map (\<lambda>d. case d of
                                   PDict e \<Rightarrow> if truthy (dget e ''mac'') then [dget e ''mac''] else []
                                 | _ \<Rightarrow> []) ds))
      | PDict _ \<Rightarrow> Inr []
      | PStr _ \<Rightarrow> Inr []
      | _ \<Rightarrow> raise_exc TypeError ''not iterable'')"

text \<open>\<open>v_windows\<close>: the window files by their paths; \<open>v_disk_ok\<close>: whether the next write succeeds.\<close>

record activity =
  v_seconds :: int
  v_devices :: "(string \<times> jfile) list"
  v_flows :: "string disk"
  v_windows :: "(string list \<times> pydict list) list"
  v_disk_ok :: bool

definition run_once :: "string \<Rightarrow> int \<Rightarrow> (activity, pydict list) act" where
  "run_once day now v =
     (let (start, stop) = compute_window_bounds now (v_seconds v);
          flows = (case map_of (v_flows v) day of None \<Rightarrow> [] | Some s \<Rightarrow> read_all s) in
      case load_known_device_macs (map_of (v_devices v) day) of
        Inl e \<Rightarrow> (Inl e, v)
      | Inr macs \<Rightarrow>
          (case windowed_flows start stop flows of
             Inl e \<Rightarrow> (Inl e, v)
           | Inr fs \<Rightarrow>
               (let records = build_activity_window_records fs macs start stop in
                if \<not> v_disk_ok v then (raise_exc OSError ''write failed'', v)
                else (Inr records,
                      v\<lparr>v_windows := dset (activity_window_path day (format_file_label start) (format_file_label stop))
                                       records (v_windows v)\<rparr>))))"

section \<open>Flow queries\<close>

definition MAX_FLOW_QUERY_RESULTS :: int where
  "MAX_FLOW_QUERY_RESULTS = 10000"

text \<open>A time stamp as the window pattern has it.\<close>

definition digit_groups :: "char list \<Rightarrow> string \<Rightarrow> bool" where
  "digit_groups shape s \<longleftrightarrow>
     length s = length shape \<and> list_all (\<lambda>(p, c). if p = CHR ''d'' then is_digit c else c = p) (zip shape s)"

definition window_stamp :: "string \<Rightarrow> bool" where
  "window_stamp s \<longleftrightarrow>
     digit_groups ''dddd-dd-ddTdd:dd:dd'' (itake 19 s) \<and>
     (let rest = idrop 19 s in
      rest = ''Z'' \<or>
      (rest \<noteq> [] \<and> hd rest = CHR ''.'' \<and> last rest = CHR ''Z'' \<and> tl rest \<noteq> ''Z'' \<and> list_all is_digit (butlast (tl rest))))"

definition parse_query_iso :: "string \<Rightarrow> int option" where
  "parse_query_iso s =
     (let norm = (if s \<noteq> [] \<and> last s = CHR ''Z'' then butlast s @ ''+00:00'' else s)
      in map_option utc_of (fromisoformat norm))"

definition parse_window_id :: "string \<Rightarrow> (int \<times> int) result" where
  "parse_window_id w =
     (case split_char (CHR 0x5F) w of
        [a, b] \<Rightarrow>
          if \<not> (window_stamp a \<and> window_stamp b) then raise_exc ValueError ''window must be start_end''
          else (case (parse_query_iso a, parse_query_iso b) of
                  (Some start, Some stop) \<Rightarrow>
                    if stop \<le> start then raise_exc ValueError ''window end must be later than window start''
                    else Inr (start, stop)
                | _ \<Rightarrow> raise_exc ValueError ''window end must be later than window start'')
      | _ \<Rightarrow> raise_exc ValueError ''window must be start_end'')"

definition query_mac :: "string \<Rightarrow> string result" where
  "query_mac mac =
     (let c = upper (mac_compact mac) in
      if ilen c \<noteq> 12 \<or> \<not> list_all is_hex_upper c then raise_exc ValueError ''device_mac must be a valid MAC address''
      else Inr (pairs_colon c))"

text \<open>The calendar days, in UTC, that the window touches.\<close>

definition date_range :: "int \<Rightarrow> int \<Rightarrow> string list" where
  "date_range start stop = map format_date [start div DAY..stop div DAY]"

definition flow_matches :: "string \<Rightarrow> int \<Rightarrow> int \<Rightarrow> pydict \<Rightarrow> bool" where
  "flow_matches mac start stop f \<longleftrightarrow>
     mac \<in> set (map (\<lambda>k. lower (replace_char (CHR ''-'') (CHR '':'') (text_or_empty f k))) [''src_mac'', ''dst_mac'']) \<and>
     (case text_field f ''last_seen'' of
        None \<Rightarrow> False
      | Some s \<Rightarrow> (case parse_query_iso s of None \<Rightarrow> False | Some t \<Rightarrow> start \<le> t \<and> t < stop))"

definition dicts :: "pyval list \<Rightarrow> pydict list" where
  "dicts xs = concat (map (\<lambda>v. case v of PDict d \<Rightarrow> [d] | _ \<Rightarrow> []) xs)"

text \<open>The loop over the records stops at the first match beyond the limit.\<close>

fun collect :: "int \<Rightarrow> (pydict \<Rightarrow> bool) \<Rightarrow> pydict list \<Rightarrow> pydict list \<Rightarrow> pydict list result" where
  "collect limit keep_it matched [] = Inr matched"
| "collect limit keep_it matched (f # fs) =
     (if \<not> keep_it f then collect limit keep_it matched fs
      else if ilen (matched @ [f]) > limit
      then raise_exc ValueError ''flow query result exceeds the configured result limit''
      else collect limit keep_it (matched @ [f]) fs)"

definition query_flows :: "string disk \<Rightarrow> string \<Rightarrow> string \<Rightarrow> int \<Rightarrow> pydict list result" where
  "query_flows disk device_mac window limit =
     then_do (query_mac device_mac) (\<lambda>mac.
     then_do (parse_window_id window) (\<lambda>(start, stop).
       if limit \<le> 0 then raise_exc ValueError ''max_results must be a positive integer''
       else then_do (collect limit (flow_matches (lower mac) start stop) []
                       (dicts (concat (map (disk_records disk) (date_range start stop)))))
              (\<lambda>matched. Inr (sort_key (\<lambda>f. (text_or_empty f ''first_seen'', text_or_empty f ''flow_id'')) matched))))"

definition get_requested_flows :: "string disk \<Rightarrow> pyval \<Rightarrow> pydict result" where
  "get_requested_flows disk message =
     (case (case message of PDict m \<Rightarrow> dget m ''args'' | _ \<Rightarrow> PNone) of
        PDict a \<Rightarrow>
          (case (py_or (dget a ''device_mac'') (dget a ''mac''), py_or (dget a ''window'') (dget a ''window_id'')) of
             (PStr mac, PStr window) \<Rightarrow>
               then_do (query_mac mac) (\<lambda>m.
               then_do (parse_window_id window) (\<lambda>_.
               then_do (query_flows disk mac window MAX_FLOW_QUERY_RESULTS) (\<lambda>fs.
                 Inr [(''status'', PStr ''ok''), (''device_mac'', PStr (lower m)), (''window_id'', PStr window),
                      (''flows'', PList (map PDict fs)), (''flow_count'', PInt (ilen fs))])))
           | _ \<Rightarrow> raise_exc ValueError ''device_mac and window are required'')
      | _ \<Rightarrow> raise_exc ValueError ''flow query arguments are required'')"

section \<open>Every device gets its own totals\<close>

text \<open>The flows in which a device takes part, one that it is both ends of twice.\<close>

definition appearances :: "string list \<Rightarrow> pyval list \<Rightarrow> string \<Rightarrow> pydict list" where
  "appearances known flows mac =
     concat (map (\<lambda>f. replicate (count_list (flow_participant_macs f known) mac) f) (dicts flows))"

definition totals_of :: "string \<Rightarrow> pydict list \<Rightarrow> device_totals" where
  "totals_of mac fs = fold (\<lambda>f. add_flow f mac) fs no_totals"

lemma dicts_simps [simp]:
  "dicts [] = []" "dicts (PDict d # xs) = d # dicts xs" "\<not> is_dict v \<Longrightarrow> dicts (v # xs) = dicts xs" "dicts (xs @ ys) = dicts xs @ dicts ys"
  by (auto simp: dicts_def split: pyval.splits)

lemma fold_put_flow:
  "fold (put_flow f) macs (map (\<lambda>m. (m, g m)) known) =
     map (\<lambda>m. (m, (add_flow f m ^^ count_list macs m) (g m))) known"
proof (induction macs arbitrary: g)
  case (Cons mac macs)
  have "put_flow f mac (map (\<lambda>m. (m, g m)) known) = map (\<lambda>m. (m, if m = mac then add_flow f m (g m) else g m)) known"
    by (simp add: put_flow_def)
  with Cons.IH [of "\<lambda>m. if m = mac then add_flow f m (g m) else g m"] show ?case
    by (auto simp: funpow_swap1)
qed simp

lemma fold_replicate: "fold h (replicate n x) t = (h x ^^ n) t"
  by (induction n arbitrary: t) (simp_all add: funpow_swap1)

lemma accumulated:
  "fold (accumulate known) flows (map (\<lambda>m. (m, g m)) known) =
     map (\<lambda>m. (m, fold (\<lambda>f. add_flow f m) (appearances known flows m) (g m))) known"
proof (induction flows arbitrary: g)
  case Nil
  then show ?case by (simp add: appearances_def)
next
  case (Cons f flows)
  show ?case
  proof (cases "is_dict f")
    case True
    then obtain d where "f = PDict d" by (auto simp: is_dict_iff)
    then show ?thesis
      using Cons.IH [of "\<lambda>m. (add_flow d m ^^ count_list (flow_participant_macs d known) m) (g m)"]
      by (simp add: accumulate_def fold_put_flow appearances_def fold_replicate)
  next
    case False
    then have "accumulate known f accs = accs" for accs by (cases f) (simp_all add: accumulate_def)
    with False Cons.IH [of g] show ?thesis by (simp add: appearances_def)
  qed
qed

lemma totals_of_Nil [simp]: "totals_of mac [] = no_totals"
  by (simp add: totals_of_def)

lemma totals_of_snoc [simp]: "totals_of mac (fs @ [f]) = add_flow f mac (totals_of mac fs)"
  by (simp add: totals_of_def)

lemma dsum_tally: "dsum (\<lambda>n. n) (tally k n d) = dsum (\<lambda>n. n) d + n"
  by (simp add: tally_def dsum_dset split: option.splits)

text \<open>What \<open>add_flow\<close> adds up.\<close>

lemma add_flow_sums:
  "x_flows (add_flow f mac t) = x_flows t + 1"
  "x_packets (add_flow f mac t) = x_packets t + count_field f ''packet_count''"
  "x_bytes (add_flow f mac t) = x_bytes t + count_field f ''bytes''"
  "dsum (\<lambda>n. n) (x_protocols (add_flow f mac t)) = dsum (\<lambda>n. n) (x_protocols t) + count_field f ''packet_count''"
  by (simp_all add: add_flow_def Let_def dsum_tally split: prod.splits)

lemma add_flow_bounds:
  "dsum (\<lambda>n. n) (x_ports (add_flow f mac t)) \<le> dsum (\<lambda>n. n) (x_ports t) + 1"
  "x_internal (add_flow f mac t) + x_external (add_flow f mac t) \<le> x_internal t + x_external t + 1"
  "length (x_destinations (add_flow f mac t)) \<le> length (x_destinations t) + 1"
  by (auto simp: add_flow_def Let_def dsum_tally bump_def add_member_def split: prod.splits option.splits)

lemma totals_of_sums:
  "x_flows (totals_of mac fs) = ilen fs \<and>
   x_packets (totals_of mac fs) = sum_list (map (\<lambda>f. count_field f ''packet_count'') fs) \<and>
   x_bytes (totals_of mac fs) = sum_list (map (\<lambda>f. count_field f ''bytes'') fs) \<and>
   dsum (\<lambda>n. n) (x_protocols (totals_of mac fs)) = x_packets (totals_of mac fs)"
proof (induction fs rule: rev_induct)
  case (snoc f fs)
  then show ?case by (simp add: add_flow_sums ilen_length)
qed (simp add: no_totals_def dsum_def)

lemma totals_of_bounds:
  "dsum (\<lambda>n. n) (x_ports (totals_of mac fs)) \<le> ilen fs \<and>
   x_internal (totals_of mac fs) + x_external (totals_of mac fs) \<le> ilen fs \<and>
   ilen (x_destinations (totals_of mac fs)) \<le> ilen fs"
proof (induction fs rule: rev_induct)
  case (snoc f fs)
  with add_flow_bounds [of f mac "totals_of mac fs"] show ?case by (simp add: ilen_length)
qed (simp add: no_totals_def dsum_def ilen_length)

text \<open>The figures of a record: device, whether it was active, flows, packets and bytes.\<close>

definition figures :: "pydict \<Rightarrow> pyval list" where
  "figures r = map (dget r) [''device_mac'', ''active'', ''flow_count'', ''packet_count'', ''bytes'']"

definition expected_figures :: "string \<Rightarrow> pydict list \<Rightarrow> pyval list" where
  "expected_figures mac fs =
     [PStr mac, PBool (fs \<noteq> []), PInt (ilen fs), PInt (sum_list (map (\<lambda>f. count_field f ''packet_count'') fs)),
      PInt (sum_list (map (\<lambda>f. count_field f ''bytes'') fs))]"

lemma record_figures:
  "figures (if x_flows (totals_of mac fs) > 0 then totals_record mac start stop (totals_of mac fs) else inactive_record mac start stop)
   = expected_figures mac fs"
  using totals_of_sums [of mac fs]
  by (cases "fs = []") (simp_all add: figures_def expected_figures_def totals_record_def inactive_record_def ilen_length)


text \<open>A device at both ends of a flow gets that flow, and all its packets, twice.\<close>

lemma own_flow_counted_twice:
  "lower m \<in> set known \<Longrightarrow> text_field f ''src_mac'' = Some m \<Longrightarrow> text_field f ''dst_mac'' = Some m \<Longrightarrow>
   appearances known [PDict f] (lower m) = [f, f]"
  by (simp add: appearances_def flow_participant_macs_def numeral_2_eq_2)

text \<open>A flow whose last packet came before the start of the window is in none from then on, so that one which is still
  open when the window of its last packet closes is never counted.\<close>

lemma late_flow_never_counted:
  "parse_iso (dget f ''last_seen'') = Some t \<Longrightarrow> t < closing \<Longrightarrow> closing \<le> start \<Longrightarrow> \<not> flow_in_window start stop f"
  by (simp add: flow_in_window_def)

section \<open>Queries\<close>

lemma collect_exact:
  "ilen matched \<le> limit \<Longrightarrow>
   collect limit P matched fs =
     (if ilen (matched @ filter P fs) \<le> limit then Inr (matched @ filter P fs)
      else raise_exc ValueError ''flow query result exceeds the configured result limit'')"
  by (induction limit P matched fs rule: collect.induct) (auto simp: ilen_length)

definition query_hits :: "string disk \<Rightarrow> string \<Rightarrow> int \<Rightarrow> int \<Rightarrow> pydict list" where
  "query_hits disk mac start stop =
     filter (flow_matches (lower mac) start stop) (dicts (concat (map (disk_records disk) (date_range start stop))))"

lemma query_flows_eq:
  assumes "query_mac device_mac = Inr mac" "parse_window_id window = Inr (start, stop)" "0 < limit"
  shows "query_flows disk device_mac window limit =
    (if ilen (query_hits disk mac start stop) \<le> limit
     then Inr (sort_key (\<lambda>f. (text_or_empty f ''first_seen'', text_or_empty f ''flow_id'')) (query_hits disk mac start stop))
     else raise_exc ValueError ''flow query result exceeds the configured result limit'')"
  using assms by (simp add: query_flows_def collect_exact query_hits_def ilen_length)


definition SAMPLE_WINDOW :: string where
  "SAMPLE_WINDOW = ''2024-05-01T09:45:00Z_2024-05-01T10:15:00Z''"

lemma sample_window: "parse_window_id SAMPLE_WINDOW = Inr (1714556700000000, 1714558500000000)"
  by code_simp

lemma sample_mac: "query_mac ''aa-bb-cc-00-00-01'' = Inr ''AA:BB:CC:00:00:01''"
  by code_simp


section \<open>From the aggregator to a query\<close>

lemma finalized_records:
  assumes "flow_table_ok g" "disk_ready (g_disk g)" "map_of (g_flows g) key = Some f"
  shows "disk_records (g_disk (finalize_flow repr k key g)) day =
    disk_records (g_disk g) day @ (if day = k_day k then [PDict (to_record (k_wall k) (g_client g) f)] else [])"
proof -
  obtain x disk where append:
    "append_at repr (g_max_bytes g) (k_day k) [PDict (to_record (k_wall k) (g_client g) f)] (g_disk g) = (x, disk)" by force
  have f: "af_packets f > 0" "disk_ok (g_disk g)" using assms(1,3) by (auto simp: flow_table_ok_def dest: map_of_SomeD)
  then show ?thesis
    using append_at_result [OF f(2) append, of day] assms(2) by (simp add: finalize_flow_eq [OF assms(3) f(1) append])
qed

lemma query_hits_member:
  "f \<in> set (query_hits disk mac start stop) \<longleftrightarrow>
   flow_matches (lower mac) start stop f \<and> (\<exists>day\<in>set (date_range start stop). PDict f \<in> set (disk_records disk day))"
proof -
  have "f \<in> set (dicts xs) \<longleftrightarrow> PDict f \<in> set xs" for xs
    by (auto simp: dicts_def split: pyval.splits)
  then show ?thesis by (auto simp: query_hits_def)
qed


definition SAMPLE_KEY :: flow_key where
  "SAMPLE_KEY = (''TCP'', (Some ''10.0.0.5'', Some 50000), (Some ''10.0.0.9'', Some 443))"

definition SAMPLE_FLOW :: active_flow where
  "SAMPLE_FLOW = update_flow 0 SAMPLE_OBS (new_active_flow 0 (Some ''pc-1'') SAMPLE_OBS)"

definition SAMPLE_OPEN :: aggregator where
  "SAMPLE_OPEN = SAMPLE_AGGREGATOR\<lparr>g_flows := [(SAMPLE_KEY, SAMPLE_FLOW)]\<rparr>"

lemma sample_answer:
  "is_ok (query_flows (g_disk (finalize_flow (\<lambda>_. []) (clock_at 46) SAMPLE_KEY SAMPLE_OPEN)) ''aa-bb-cc-00-00-01'' SAMPLE_WINDOW 10)"
  by code_simp

lemma sample_match:
  "flow_matches (lower ''AA:BB:CC:00:00:01'') 1714556700000000 1714558500000000 (to_record (k_wall (clock_at 46)) (Some ''pc-1'') SAMPLE_FLOW)
   \<and> k_day (clock_at 46) \<in> set (date_range 1714556700000000 1714558500000000)"
  by code_simp


end
