(* ===== verification/Packets.thy ===== *)
theory Packets
  imports Activity
begin

text \<open>
  The packet pipeline of the client: \<open>client/app/packet_storage.py\<close> (one JSON file a day),
  \<open>client/app/telemetry_packet_writer.py\<close> (one rotating store per day and protocol) and the handler of
  \<open>client/app/packet_observer.py\<close> that feeds them and the flow aggregator.
\<close>

section \<open>An observation as a dictionary\<close>

definition when_given :: "string \<Rightarrow> string option \<Rightarrow> pydict" where
  "when_given k v = (case v of None \<Rightarrow> [] | Some s \<Rightarrow> if s = [] then [] else [(k, PStr s)])"

definition when_int :: "string \<Rightarrow> int option \<Rightarrow> pydict" where
  "when_int k v = (case v of None \<Rightarrow> [] | Some n \<Rightarrow> [(k, PInt n)])"

definition obs_dict :: "packet_obs \<Rightarrow> pydict" where
  "obs_dict ob =
     [(''timestamp'', PStr (o_timestamp ob)), (''packet_length'', PInt (o_length ob)),
      (''protocol'', PStr (o_protocol ob)), (''direction'', PStr (o_direction ob))] @
     when_given ''observer_client_id'' (o_observer ob) @ when_given ''interface'' (o_interface ob) @
     when_given ''src_mac'' (o_src_mac ob) @ when_given ''dst_mac'' (o_dst_mac ob) @
     when_given ''src_ip'' (o_src_ip ob) @ when_given ''dst_ip'' (o_dst_ip ob) @
     when_int ''src_port'' (o_src_port ob) @ when_int ''dst_port'' (o_dst_port ob) @
     when_given ''tcp_flags'' (o_flags ob) @
     (if o_meta ob = [] then [] else [(''protocol_metadata'', PDict (o_meta ob))])"

section \<open>Daily packet files\<close>

text \<open>\<open>y_files\<close>: what \<open>json.load\<close> makes of each file, by date; \<open>y_answers\<close>: whether the next writes succeed.\<close>

record daily_storage =
  y_client :: "string option"
  y_interval :: int
  y_threshold :: int
  y_buffer :: "packet_obs list"
  y_date :: "string option"
  y_last_flush :: int
  y_stats :: "(string \<times> int) list"
  y_files :: "(string \<times> pyval option) list"
  y_answers :: "bool list"

definition COUNTED_PROTOCOLS :: "string list" where
  "COUNTED_PROTOCOLS =
     [''tcp'', ''udp'', ''icmp'', ''arp'', ''dhcp'', ''dns'', ''mdns'', ''llmnr'', ''nbns'', ''ssdp'', ''tls'']"

definition counter_of :: "string \<Rightarrow> string" where
  "counter_of protocol =
     (let p = lower (if protocol = [] then ''other'' else protocol)
      in if p \<in> set COUNTED_PROTOCOLS then p @ ''_count'' else ''other_count'')"

definition packet_date :: "int \<Rightarrow> packet_obs \<Rightarrow> string" where
  "packet_date now ob =
     (let ts = o_timestamp ob in
      if ilen ts \<ge> 10 \<and> iget 4 ts = Some (CHR ''-'') \<and> iget 7 ts = Some (CHR ''-'') then itake 10 ts
      else format_date (now div DAY))"

text \<open>What the file holds, or a fresh object, and the same with the buffer merged into it.\<close>

definition base_file :: "string option \<Rightarrow> string \<Rightarrow> pyval option option \<Rightarrow> pydict" where
  "base_file client date content =
     (let fresh = [(''date'', PStr date), (''observer_client_id'', opt_str client), (''packet_count'', PInt 0),
                   (''packets'', PList [])]
      in case content of
           Some (Some (PDict d)) \<Rightarrow> if has_key d ''packets'' then d else fresh
         | _ \<Rightarrow> fresh)"

definition merged_file :: "string option \<Rightarrow> string \<Rightarrow> pyval option option \<Rightarrow> pyval list \<Rightarrow> pydict" where
  "merged_file client date content items =
     (let data = base_file client date content;
          packets = as_list (dget data ''packets'') @ items;
          data = dset ''packet_count'' (PInt (ilen packets)) (dset ''packets'' (PList packets) data)
      in if \<not> truthy (dget data ''observer_client_id'') \<and> given client \<noteq> None
         then dset ''observer_client_id'' (opt_str client) data else data)"

definition flush_locked :: "int \<Rightarrow> (daily_storage, int) act" where
  "flush_locked now y =
     (if y_buffer y = [] then (Inr 0, y)
      else (let date = (case given (y_date y) of None \<Rightarrow> format_date (now div DAY) | Some d \<Rightarrow> d);
                items = map (\<lambda>ob. PDict (obs_dict ob)) (y_buffer y);
                (ok, rest) = (case y_answers y of [] \<Rightarrow> (True, []) | a # as \<Rightarrow> (a, as));
                y = y\<lparr>y_buffer := [], y_last_flush := now, y_answers := rest\<rparr>
            in if \<not> ok then (raise_exc OSError ''write failed'', y)
               else (Inr (ilen items),
                     y\<lparr>y_files := dset date (Some (PDict (merged_file (y_client y) date (map_of (y_files y) date) items))) (y_files y),
                       y_stats := tally ''total_stored'' (ilen items) (y_stats y)\<rparr>)))"

definition flush_when :: "bool \<Rightarrow> int \<Rightarrow> (daily_storage, unit) act" where
  "flush_when b now y = (if b then (case flush_locked now y of (Inl e, y) \<Rightarrow> (Inl e, y) | (Inr _, y) \<Rightarrow> (Inr (), y)) else (Inr (), y))"

definition count_observation :: "packet_obs \<Rightarrow> daily_storage \<Rightarrow> daily_storage" where
  "count_observation ob y =
     y\<lparr>y_stats := tally (counter_of (o_protocol ob)) 1 (tally ''total_observed'' 1 (y_stats y))\<rparr>"

definition due :: "int \<Rightarrow> daily_storage \<Rightarrow> bool" where
  "due now y \<longleftrightarrow> ilen (y_buffer y) \<ge> y_threshold y \<or> now - y_last_flush y \<ge> y_interval y"

definition buffer_observation :: "int \<Rightarrow> packet_obs \<Rightarrow> daily_storage \<Rightarrow> daily_storage" where
  "buffer_observation now ob y = y\<lparr>y_date := Some (packet_date now ob), y_buffer := y_buffer y @ [ob]\<rparr>"

definition record_observation :: "int \<Rightarrow> packet_obs \<Rightarrow> (daily_storage, unit) act" where
  "record_observation now ob y =
     (let y = count_observation ob y;
          turn = given (y_date y) \<noteq> None \<and> y_date y \<noteq> Some (packet_date now ob)
      in case flush_when turn now y of
           (Inl e, y) \<Rightarrow> (Inl e, y)
         | (Inr _, y) \<Rightarrow> (let y = buffer_observation now ob y in flush_when (due now y) now y))"

definition new_daily_storage :: "string option \<Rightarrow> int \<Rightarrow> int \<Rightarrow> int \<Rightarrow> daily_storage" where
  "new_daily_storage client interval threshold now =
     \<lparr>y_client = client, y_interval = interval, y_threshold = threshold, y_buffer = [], y_date = None, y_last_flush = now,
      y_stats = map (\<lambda>k. (k, 0)) ([''total_observed'', ''total_stored''] @ map (\<lambda>p. p @ ''_count'') COUNTED_PROTOCOLS @ [''other_count'']),
      y_files = [], y_answers = []\<rparr>"

section \<open>Packet files per protocol\<close>

record packet_writer =
  p_interval :: rat
  p_threshold :: int
  p_max_bytes :: int
  p_buffers :: "((string \<times> string) \<times> packet_obs list) list"
  p_last_flush :: rat
  p_disk :: "string list disk"

definition flush_one :: "(rat \<Rightarrow> string) \<Rightarrow> (string \<times> string) \<times> packet_obs list \<Rightarrow> int \<times> packet_writer \<Rightarrow> int \<times> packet_writer" where
  "flush_one repr item acc =
     (let ((date, protocol), obs) = item; (n, p) = acc in
      if obs = [] then (n, p)
      else (let (x, disk) = append_at repr (p_max_bytes p) (protocol_packet_path date protocol)
                              (map (\<lambda>ob. PDict (obs_dict ob)) obs) (p_disk p)
            in ((if is_ok x then n + ilen obs else n), p\<lparr>p_disk := disk\<rparr>)))"

definition flush_writer :: "(rat \<Rightarrow> string) \<Rightarrow> rat \<Rightarrow> packet_writer \<Rightarrow> int \<times> packet_writer" where
  "flush_writer repr tick p = fold (flush_one repr) (p_buffers p) (0, p\<lparr>p_buffers := [], p_last_flush := tick\<rparr>)"

definition writer_record :: "(rat \<Rightarrow> string) \<Rightarrow> clocks \<Rightarrow> packet_obs \<Rightarrow> packet_writer \<Rightarrow> packet_writer" where
  "writer_record repr k ob p =
     (let key = (k_day k, lower (if o_protocol ob = [] then ''unknown'' else o_protocol ob));
          obs = (case map_of (p_buffers p) key of None \<Rightarrow> [] | Some xs \<Rightarrow> xs) @ [ob];
          p = p\<lparr>p_buffers := dset key obs (p_buffers p)\<rparr>
      in if ilen obs \<ge> p_threshold p \<or> k_mono k - p_last_flush p \<ge> p_interval p
         then snd (flush_writer repr (k_mono k) p) else p)"

section \<open>The packet handler\<close>

record packet_observer =
  q_interface :: "string option"
  q_client :: "string option"
  q_local_mac :: "string option"
  q_local_ip :: "string option"
  q_log_interval :: rat
  q_last_log :: rat
  q_logged :: int
  q_storage :: daily_storage
  q_scope :: "network list option"
  q_flows :: "aggregator option"
  q_writer :: "packet_writer option"

text \<open>What the scoped consumers do with an observation; what they raise is ignored.\<close>

definition feed_consumers :: "(rat \<Rightarrow> string) \<Rightarrow> clocks \<Rightarrow> packet_obs \<Rightarrow> packet_observer \<Rightarrow> packet_observer" where
  "feed_consumers repr k ob q =
     (if (case q_scope q of None \<Rightarrow> True | Some ns \<Rightarrow> keep_observation ns ob)
      then q\<lparr>q_flows := map_option (\<lambda>g. snd (record_flow_packet k ob g)) (q_flows q),
             q_writer := map_option (writer_record repr k ob) (q_writer q)\<rparr>
      else q)"

definition maybe_log :: "rat \<Rightarrow> packet_observer \<Rightarrow> packet_observer" where
  "maybe_log tick q = (if tick - q_last_log q \<ge> q_log_interval q then q\<lparr>q_last_log := tick, q_logged := q_logged q + 1\<rparr> else q)"

text \<open>What follows the extraction: the daily storage first, and nothing else when it raises.\<close>

definition handle_observation :: "(rat \<Rightarrow> string) \<Rightarrow> clocks \<Rightarrow> packet_obs \<Rightarrow> packet_observer \<Rightarrow> packet_observer" where
  "handle_observation repr k ob q =
     (case record_observation (k_wall k) ob (q_storage q) of
        (Inl _, y) \<Rightarrow> q\<lparr>q_storage := y\<rparr>
      | (Inr _, y) \<Rightarrow> maybe_log (k_mono k) (feed_consumers repr k ob (q\<lparr>q_storage := y\<rparr>)))"

definition handle_packet ::
  "(string \<Rightarrow> string) \<Rightarrow> codec \<Rightarrow> (int \<Rightarrow> char) \<Rightarrow> (rat \<Rightarrow> string) \<Rightarrow> clocks \<Rightarrow> frame \<Rightarrow> packet_observer \<Rightarrow> packet_observer" where
  "handle_packet md5 cd wide repr k packet q =
     handle_observation repr k
       (extract_metadata md5 cd wide (q_interface q) (q_client q) (q_local_mac q) (q_local_ip q) (k_wall k) packet) q"

definition stop_observer :: "int \<Rightarrow> (packet_observer, int) act" where
  "stop_observer now q = (let (x, y) = flush_locked now (q_storage q) in (x, q\<lparr>q_storage := y\<rparr>))"

section \<open>The daily files are a log per day\<close>

definition dated :: "packet_obs \<Rightarrow> bool" where
  "dated ob \<longleftrightarrow>
     ilen (o_timestamp ob) \<ge> 10 \<and> iget 4 (o_timestamp ob) = Some (CHR ''-'') \<and> iget 7 (o_timestamp ob) = Some (CHR ''-'')"

definition day_of :: "packet_obs \<Rightarrow> string" where
  "day_of ob = itake 10 (o_timestamp ob)"

definition stored_list :: "pyval option option \<Rightarrow> pyval list" where
  "stored_list content = (case content of Some (Some (PDict d)) \<Rightarrow> as_list (dget d ''packets'') | _ \<Rightarrow> [])"

definition as_items :: "packet_obs list \<Rightarrow> pyval list" where
  "as_items obs = map (\<lambda>ob. PDict (obs_dict ob)) obs"

text \<open>The packets of a day, on disk and in the buffer.\<close>

definition day_log :: "daily_storage \<Rightarrow> string \<Rightarrow> pyval list" where
  "day_log y day = stored_list (map_of (y_files y) day) @ as_items (filter (\<lambda>ob. day_of ob = day) (y_buffer y))"

text \<open>The buffer holds packets of the current day only, and fewer than the threshold.\<close>

definition daily_ok :: "daily_storage \<Rightarrow> bool" where
  "daily_ok y \<longleftrightarrow>
     y_threshold y > 0 \<and> ilen (y_buffer y) < y_threshold y \<and> y_date y \<noteq> Some [] \<and>
     list_all (\<lambda>ob. y_date y = Some (day_of ob)) (y_buffer y)"

lemma as_items_append [simp]: "as_items (a @ b) = as_items a @ as_items b" "as_items [] = []"
  by (simp_all add: as_items_def)

lemma packet_date_dated: "dated ob \<Longrightarrow> packet_date now ob = day_of ob"
  by (simp add: packet_date_def dated_def day_of_def)

lemma day_of_not_empty: "dated ob \<Longrightarrow> day_of ob \<noteq> []"
  by (cases "o_timestamp ob") (auto simp: dated_def day_of_def iget_def)

lemma no_packets: "map_of d ''packets'' = None \<Longrightarrow> as_list (dget d ''packets'') = []"
  by (simp add: dget_def as_list_def)

lemma stored_base: "as_list (dget (base_file client date content) ''packets'') = stored_list content"
proof -
  have fresh: "as_list (PList []) = []" by (simp add: as_list_def)
  show ?thesis
  proof (cases content)
    case (Some v)
    then show ?thesis
    proof (cases v)
      case vSome: (Some w)
      with Some show ?thesis
        by (cases w) (simp_all add: base_file_def stored_list_def Let_def fresh no_packets)
    qed (simp add: base_file_def stored_list_def fresh)
  qed (simp add: base_file_def stored_list_def fresh)
qed

lemma stored_merged: "stored_list (Some (Some (PDict (merged_file client date content items)))) = stored_list content @ items"
  by (simp add: stored_list_def merged_file_def Let_def stored_base) (simp add: as_list_def)

lemma flush_locked_result:
  assumes "list_all (\<lambda>ob. y_date y = Some (day_of ob)) (y_buffer y)" "y_date y \<noteq> Some []" "flush_locked now y = (x, y')"
  shows "y_buffer y' = [] \<and> y_date y' = y_date y \<and> y_threshold y' = y_threshold y
    \<and> (y_answers y = [] \<longrightarrow> is_ok x \<and> y_answers y' = [] \<and> day_log y' day = day_log y day)"
proof (cases "y_buffer y = []")
  case True
  with assms(3) show ?thesis by (auto simp: flush_locked_def is_ok_def)
next
  case False
  then obtain d where d: "y_date y = Some d" "d \<noteq> []" using assms(1,2) by (cases "y_buffer y") auto
  then have "filter (\<lambda>ob. day_of ob = day) (y_buffer y) = (if day = d then y_buffer y else [])"
    using assms(1) by (auto simp: list_all_iff intro!: filter_True filter_False)
  with d False assms(3) show ?thesis
    by (auto simp: flush_locked_def Let_def given_def is_ok_def day_log_def as_items_def stored_merged split: list.splits if_splits)
qed

lemma count_observation_keeps [simp]:
  "daily_ok (count_observation ob y) = daily_ok y" "day_log (count_observation ob y) day = day_log y day"
  "y_answers (count_observation ob y) = y_answers y" "y_date (count_observation ob y) = y_date y"
  by (simp_all add: count_observation_def daily_ok_def day_log_def)

lemma flush_when_result:
  assumes "list_all (\<lambda>ob. y_date y = Some (day_of ob)) (y_buffer y)" "y_date y \<noteq> Some []" "flush_when b now y = (x, y')"
  shows "y_date y' = y_date y \<and> y_threshold y' = y_threshold y \<and> y_buffer y' = (if b then [] else y_buffer y)
    \<and> (y_answers y = [] \<longrightarrow> is_ok x \<and> y_answers y' = [] \<and> day_log y' day = day_log y day)"
proof (cases b)
  case True
  obtain z y1 where f: "flush_locked now y = (z, y1)" by force
  with flush_locked_result [OF assms(1,2) f] True assms(3) show ?thesis
    by (auto simp: flush_when_def is_ok_def split: sum.splits)
next
  case False
  with assms(3) show ?thesis by (auto simp: flush_when_def is_ok_def)
qed

lemma daily_okD:
  "daily_ok y \<Longrightarrow> list_all (\<lambda>ob. y_date y = Some (day_of ob)) (y_buffer y)"
  "daily_ok y \<Longrightarrow> y_date y \<noteq> Some []"
  by (simp_all add: daily_ok_def)

lemma record_observation_result:
  assumes "daily_ok y" "dated ob" "record_observation now ob y = (x, y')"
  shows "daily_ok y' \<and> (y_answers y = [] \<longrightarrow>
    is_ok x \<and> y_answers y' = [] \<and> day_log y' day = day_log y day @ (if day = day_of ob then as_items [ob] else []))"
proof -
  define y0 where "y0 = count_observation ob y"
  have y0: "daily_ok y0" "y_answers y0 = y_answers y" "day_log y0 day = day_log y day" "y_date y0 = y_date y"
    using assms(1) by (simp_all add: y0_def)
  define turn where "turn \<longleftrightarrow> given (y_date y0) \<noteq> None \<and> y_date y0 \<noteq> Some (day_of ob)"
  obtain z y1 where f: "flush_when turn now y0 = (z, y1)" by force
  note y1 = flush_when_result [OF daily_okD [OF y0(1)] f]
  show ?thesis
  proof (cases z)
    case (Inl e)
    then have "x = Inl e" "y' = y1"
      using assms(3) f packet_date_dated [OF assms(2)] by (simp_all add: record_observation_def y0_def [symmetric] turn_def Let_def)
    with Inl y1 y0 show ?thesis by (auto simp: is_ok_def daily_ok_def list_all_iff)
  next
    case (Inr u)
    define y2 where "y2 = buffer_observation now ob y1"
    have step: "flush_when (due now y2) now y2 = (x, y')"
      using assms(3) f Inr packet_date_dated [OF assms(2)]
      by (simp add: record_observation_def y0_def [symmetric] turn_def y2_def Let_def)
    have date: "y_date y2 = Some (day_of ob)" "day_of ob \<noteq> []"
      using packet_date_dated [OF assms(2)] day_of_not_empty [OF assms(2)] by (simp_all add: y2_def buffer_observation_def)
    have buffered: "list_all (\<lambda>ob'. y_date y2 = Some (day_of ob')) (y_buffer y2)"
      using y1 y0(1) date unfolding daily_ok_def
      by (auto simp: y2_def buffer_observation_def turn_def list_all_iff given_def split: option.splits if_splits)
    note r = flush_when_result [OF buffered _ step]
    have "day_log y2 day = day_log y1 day @ (if day = day_of ob then as_items [ob] else [])"
      by (auto simp: day_log_def y2_def buffer_observation_def)
    moreover have "daily_ok y'"
      using r buffered date y1 y0(1) by (auto simp: daily_ok_def due_def y2_def buffer_observation_def)
    ultimately show ?thesis
      using r date y0 y1 by (simp add: y2_def buffer_observation_def)
  qed
qed

definition record_packets_daily :: "(int \<times> packet_obs) list \<Rightarrow> daily_storage \<Rightarrow> daily_storage" where
  "record_packets_daily items y = fold (\<lambda>(now, ob) y. snd (record_observation now ob y)) items y"

lemma record_packets_daily_result:
  "daily_ok y \<Longrightarrow> list_all (\<lambda>(now, ob). dated ob) items \<Longrightarrow>
   daily_ok (record_packets_daily items y) \<and>
   (y_answers y = [] \<longrightarrow>
      day_log (record_packets_daily items y) day = day_log y day @ as_items (filter (\<lambda>ob. day_of ob = day) (map snd items)))"
proof (induction items arbitrary: y)
  case (Cons item items)
  obtain now ob where item: "item = (now, ob)" by force
  obtain x y1 where step: "record_observation now ob y = (x, y1)" by force
  note r = record_observation_result [OF Cons.prems(1) _ step]
  have run: "record_packets_daily (item # items) y = record_packets_daily items y1"
    by (simp add: record_packets_daily_def item step)
  have "as_items (ob # filter P obs) = as_items [ob] @ as_items (filter P obs)" for P obs
    by (simp add: as_items_def)
  with Cons.IH [of y1] Cons.prems r [of day] item show ?case unfolding run by simp
qed (simp add: record_packets_daily_def)

text \<open>C30.  The daily storage is a log per day: as long as its writes succeed, the packets of every day, on disk and in
  the buffer, are those that were there and those recorded since, in the order of their arrival; and whatever
  fails, fewer packets than the flush threshold wait in memory, all of the current day.\<close>

theorem daily_storage_refines_log:
  assumes "daily_ok y" and "list_all (\<lambda>(now, ob). dated ob) items"
  shows "daily_ok (record_packets_daily items y) \<and>
    (y_answers y = [] \<longrightarrow>
      day_log (record_packets_daily items y) day = day_log y day @ as_items (filter (\<lambda>ob. day_of ob = day) (map snd items)))"
  using record_packets_daily_result [OF assms] .

theorem daily_storage_refines_log_witness:
  "let y = record_packets_daily [(0, SAMPLE_OBS), (1, SAMPLE_OBS)] (new_daily_storage None 5000000 2 0)
   in daily_ok y \<and> day_log y ''2024-05-01'' = as_items [SAMPLE_OBS, SAMPLE_OBS]"
proof -
  have "daily_ok (new_daily_storage None 5000000 2 0)" by (simp add: daily_ok_def new_daily_storage_def ilen_length)
  moreover have "list_all (\<lambda>(now, ob). dated ob) [(0, SAMPLE_OBS), (1, SAMPLE_OBS)]" "day_of SAMPLE_OBS = ''2024-05-01''"
    by code_simp+
  ultimately show ?thesis
    using daily_storage_refines_log [of "new_daily_storage None 5000000 2 0" "[(0, SAMPLE_OBS), (1, SAMPLE_OBS)]" "''2024-05-01''"]
    by (simp add: new_daily_storage_def day_log_def stored_list_def)
qed

text \<open>The buffer is emptied before the file is written: what a failed write held is gone, and so is the packet that
  caused it at a change of date.\<close>

lemma refused_daily_write_loses:
  "y_buffer y \<noteq> [] \<Longrightarrow> y_answers y = False # rest \<Longrightarrow>
   flush_locked now y = (raise_exc OSError ''write failed'', y\<lparr>y_buffer := [], y_last_flush := now, y_answers := rest\<rparr>)"
  by (simp add: flush_locked_def Let_def)

section \<open>The packet writer loses nothing either\<close>

definition writer_packets :: "packet_writer \<Rightarrow> int" where
  "writer_packets p = disk_sum (\<lambda>_. 1) (p_disk p) + dsum ilen (p_buffers p)"

lemma ones: "sum_list (map ((\<lambda>_. 1) \<circ> f) xs) = ilen xs"
  by (induction xs) (simp_all add: ilen_length)

lemma flush_one_result:
  assumes "disk_ok (p_disk p)" "disk_ready (p_disk p)"
  shows "case flush_one repr (key, obs) (n, p) of (n', p') \<Rightarrow>
    p_buffers p' = p_buffers p \<and> n' = n + ilen obs \<and> disk_ok (p_disk p') \<and> disk_ready (p_disk p')
    \<and> disk_sum (\<lambda>_. 1) (p_disk p') = disk_sum (\<lambda>_. 1) (p_disk p) + ilen obs"
proof (cases "obs = []")
  case True
  with assms show ?thesis by (simp add: flush_one_def split: prod.splits)
next
  case False
  obtain date protocol where key: "key = (date, protocol)" by force
  obtain x disk where a: "append_at repr (p_max_bytes p) (protocol_packet_path date protocol)
      (map (\<lambda>ob. PDict (obs_dict ob)) obs) (p_disk p) = (x, disk)" by force
  with False assms append_at_result [OF assms(1) a] append_at_sum [OF assms(1) a, of "\<lambda>_. 1"] show ?thesis
    by (simp add: flush_one_def key ones ilen_length)
qed

lemma flush_entries_result:
  "disk_ok (p_disk p) \<Longrightarrow> disk_ready (p_disk p) \<Longrightarrow> fold (flush_one repr) entries (n, p) = (n', p') \<Longrightarrow>
   p_buffers p' = p_buffers p \<and> n' = n + dsum ilen entries \<and> disk_ok (p_disk p') \<and> disk_ready (p_disk p')
   \<and> disk_sum (\<lambda>_. 1) (p_disk p') = disk_sum (\<lambda>_. 1) (p_disk p) + dsum ilen entries"
proof (induction entries arbitrary: n p)
  case (Cons e entries)
  obtain key obs where e: "e = (key, obs)" by (cases e)
  obtain n1 p1 where step: "flush_one repr (key, obs) (n, p) = (n1, p1)" by force
  note r = flush_one_result [OF Cons.prems(1,2), where repr = repr and key = key and obs = obs and n = n, unfolded step prod.case]
  from Cons.prems(3) have rest: "fold (flush_one repr) entries (n1, p1) = (n', p')" by (simp add: e step)
  from r Cons.IH [OF _ _ rest] show ?case by (simp add: e dsum_def)
qed (simp add: dsum_def)

lemma flush_writer_result:
  assumes "disk_ok (p_disk p)" "disk_ready (p_disk p)" "flush_writer repr tick p = (n, p')"
  shows "p_buffers p' = [] \<and> n = dsum ilen (p_buffers p) \<and> disk_ok (p_disk p') \<and> disk_ready (p_disk p')
    \<and> writer_packets p' = writer_packets p"
  using assms flush_entries_result [of "p\<lparr>p_buffers := [], p_last_flush := tick\<rparr>" repr "p_buffers p" 0 n p']
  by (simp add: flush_writer_def writer_packets_def) (simp add: dsum_def)

lemma writer_record_result:
  assumes "disk_ok (p_disk p)" "disk_ready (p_disk p)"
  shows "disk_ok (p_disk (writer_record repr k ob p)) \<and> disk_ready (p_disk (writer_record repr k ob p))
    \<and> writer_packets (writer_record repr k ob p) = writer_packets p + 1"
proof -
  define key where "key = (k_day k, lower (if o_protocol ob = [] then ''unknown'' else o_protocol ob))"
  define obs where "obs = (case map_of (p_buffers p) key of None \<Rightarrow> [] | Some xs \<Rightarrow> xs) @ [ob]"
  define p1 where "p1 = p\<lparr>p_buffers := dset key obs (p_buffers p)\<rparr>"
  have p1: "disk_ok (p_disk p1)" "disk_ready (p_disk p1)" "writer_packets p1 = writer_packets p + 1"
    using assms by (simp_all add: p1_def writer_packets_def dsum_dset obs_def ilen_length split: option.splits)
  obtain n p2 where "flush_writer repr (k_mono k) p1 = (n, p2)" by force
  with flush_writer_result [OF p1(1,2)] p1 show ?thesis
    by (simp add: writer_record_def key_def [symmetric] obs_def [symmetric] p1_def [symmetric] Let_def)
qed

section \<open>The pipeline\<close>

lemma network_interval:
  "in_network version a n \<longleftrightarrow>
   version = n_version n \<and> n_prefix n * 2 ^ nat (width version - n_length n) \<le> a
   \<and> a < (n_prefix n + 1) * 2 ^ nat (width version - n_length n)"
proof -
  define h where "h = (2 ^ nat (width version - n_length n) :: int)"
  have "0 < h" by (simp add: h_def)
  have "a div h = n_prefix n \<longleftrightarrow> n_prefix n * h \<le> a \<and> a < (n_prefix n + 1) * h"
  proof
    assume "a div h = n_prefix n"
    then have "a = n_prefix n * h + a mod h" using div_mult_mod_eq [of a h] by simp
    moreover have "0 \<le> a mod h" "a mod h < h" using \<open>0 < h\<close> by simp_all
    ultimately show "n_prefix n * h \<le> a \<and> a < (n_prefix n + 1) * h" unfolding distrib_right by linarith
  next
    assume "n_prefix n * h \<le> a \<and> a < (n_prefix n + 1) * h"
    then have "0 \<le> a - h * n_prefix n" "a - h * n_prefix n < h" by (simp_all add: algebra_simps)
    then show "a div h = n_prefix n" using \<open>0 < h\<close> int_div_pos_eq [of a h "n_prefix n" "a - h * n_prefix n"] by simp
  qed
  then show ?thesis by (simp add: in_network_def h_def)
qed

text \<open>What the handler keeps of its parts, when the daily storage takes the packet.\<close>

lemma handle_observation_parts:
  assumes "record_observation (k_wall k) ob (q_storage q) = (Inr u, y)"
  shows "q_storage (handle_observation repr k ob q) = y \<and>
    q_flows (handle_observation repr k ob q) =
      (if case q_scope q of None \<Rightarrow> True | Some ns \<Rightarrow> keep_observation ns ob
       then map_option (\<lambda>g. snd (record_flow_packet k ob g)) (q_flows q) else q_flows q) \<and>
    q_writer (handle_observation repr k ob q) =
      (if case q_scope q of None \<Rightarrow> True | Some ns \<Rightarrow> keep_observation ns ob
       then map_option (writer_record repr k ob) (q_writer q) else q_writer q)"
  using assms by (simp add: handle_observation_def feed_consumers_def maybe_log_def split: option.splits)

text \<open>A packet whose addresses are in none of the networks reaches the daily file and nothing else.\<close>

lemma out_of_scope_not_observed:
  "q_scope q = Some ns \<Longrightarrow> \<not> keep_observation ns ob \<Longrightarrow>
   q_storage (handle_observation repr k ob q) = snd (record_observation (k_wall k) ob (q_storage q)) \<and>
   q_flows (handle_observation repr k ob q) = q_flows q \<and> q_writer (handle_observation repr k ob q) = q_writer q"
  by (simp add: handle_observation_def feed_consumers_def maybe_log_def split: sum.splits prod.splits)

text \<open>A packet that the daily file refuses reaches neither the flows nor the packet files.\<close>

lemma refused_packet_not_observed:
  "record_observation (k_wall k) ob (q_storage q) = (Inl e, y) \<Longrightarrow>
   q_flows (handle_observation repr k ob q) = q_flows q \<and> q_writer (handle_observation repr k ob q) = q_writer q"
  by (simp add: handle_observation_def)

definition observer_ok :: "packet_observer \<Rightarrow> bool" where
  "observer_ok q \<longleftrightarrow>
     daily_ok (q_storage q) \<and> y_answers (q_storage q) = [] \<and>
     (\<forall>g. q_flows q = Some g \<longrightarrow> flow_table_ok g \<and> disk_ready (g_disk g)) \<and>
     (\<forall>p. q_writer q = Some p \<longrightarrow> disk_ok (p_disk p) \<and> disk_ready (p_disk p))"

definition in_scope :: "packet_observer \<Rightarrow> packet_obs \<Rightarrow> bool" where
  "in_scope q ob \<longleftrightarrow> (case q_scope q of None \<Rightarrow> True | Some ns \<Rightarrow> keep_observation ns ob)"

definition flow_total :: "packet_observer \<Rightarrow> int" where
  "flow_total q = (case q_flows q of None \<Rightarrow> 0 | Some g \<Rightarrow> counted_packets g)"

definition writer_total :: "packet_observer \<Rightarrow> int" where
  "writer_total q = (case q_writer q of None \<Rightarrow> 0 | Some p \<Rightarrow> writer_packets p)"

lemma handle_observation_counts:
  assumes "observer_ok q" "dated ob"
  shows "observer_ok (handle_observation repr k ob q) \<and> q_scope (handle_observation repr k ob q) = q_scope q \<and>
    (q_flows (handle_observation repr k ob q) = None) = (q_flows q = None) \<and>
    (q_writer (handle_observation repr k ob q) = None) = (q_writer q = None) \<and>
    day_log (q_storage (handle_observation repr k ob q)) day =
      day_log (q_storage q) day @ (if day = day_of ob then as_items [ob] else []) \<and>
    flow_total (handle_observation repr k ob q) =
      flow_total q + (if q_flows q \<noteq> None \<and> in_scope q ob \<and> is_ok (flow_key ob) then 1 else 0) \<and>
    writer_total (handle_observation repr k ob q) =
      writer_total q + (if q_writer q \<noteq> None \<and> in_scope q ob then 1 else 0)"
proof -
  let ?q = "handle_observation repr k ob q"
  obtain x y where step: "record_observation (k_wall k) ob (q_storage q) = (x, y)" by force
  note y = record_observation_result [OF _ assms(2) step, of day]
  from assms(1) have q: "daily_ok (q_storage q)" "y_answers (q_storage q) = []"
    "\<And>g. q_flows q = Some g \<Longrightarrow> flow_table_ok g \<and> disk_ready (g_disk g)"
    "\<And>p. q_writer q = Some p \<Longrightarrow> disk_ok (p_disk p) \<and> disk_ready (p_disk p)"
    by (auto simp: observer_ok_def)
  then obtain u where "x = Inr u" using y by (cases x) (auto simp: is_ok_def)
  note parts = handle_observation_parts [OF step [unfolded this], of repr, folded in_scope_def]
  have scope: "q_scope ?q = q_scope q"
    using step \<open>x = Inr u\<close> by (simp add: handle_observation_def feed_consumers_def maybe_log_def)
  have flows: "(\<forall>g. q_flows ?q = Some g \<longrightarrow> flow_table_ok g \<and> disk_ready (g_disk g)) \<and>
      (q_flows ?q = None) = (q_flows q = None) \<and>
      flow_total ?q = flow_total q + (if q_flows q \<noteq> None \<and> in_scope q ob \<and> is_ok (flow_key ob) then 1 else 0)"
  proof (cases "q_flows q")
    case (Some g)
    obtain r g1 where g1: "record_flow_packet k ob g = (r, g1)" by force
    have "is_ok r = is_ok (flow_key ob)"
      using g1 by (auto simp: record_flow_packet_def is_ok_def split: sum.splits)
    with record_flow_packet_counts [OF _ g1] q(3) [OF Some] Some parts g1 show ?thesis by (simp add: flow_total_def)
  qed (use parts in \<open>simp add: flow_total_def\<close>)
  have writer: "(\<forall>p. q_writer ?q = Some p \<longrightarrow> disk_ok (p_disk p) \<and> disk_ready (p_disk p)) \<and>
      (q_writer ?q = None) = (q_writer q = None) \<and>
      writer_total ?q = writer_total q + (if q_writer q \<noteq> None \<and> in_scope q ob then 1 else 0)"
  proof (cases "q_writer q")
    case (Some p)
    with writer_record_result [of p repr k ob] q(4) [OF Some] parts show ?thesis by (simp add: writer_total_def)
  qed (use parts in \<open>simp add: writer_total_def\<close>)
  from flows writer scope parts y q(1,2) show ?thesis by (simp add: observer_ok_def)
qed

definition settings where
  "settings q = (q_interface q, q_client q, q_local_mac q, q_local_ip q, q_scope q)"

lemma settings_kept: "settings (handle_observation repr k ob q) = settings q"
  by (simp add: settings_def handle_observation_def feed_consumers_def maybe_log_def split: sum.splits prod.splits)

definition observation_of ::
  "(string \<Rightarrow> string) \<Rightarrow> codec \<Rightarrow> (int \<Rightarrow> char) \<Rightarrow> packet_observer \<Rightarrow> clocks \<times> frame \<Rightarrow> packet_obs" where
  "observation_of md5 cd wide q item =
     extract_metadata md5 cd wide (q_interface q) (q_client q) (q_local_mac q) (q_local_ip q) (k_wall (fst item)) (snd item)"

lemma observation_of_settings: "settings q' = settings q \<Longrightarrow> observation_of md5 cd wide q' = observation_of md5 cd wide q"
  by (rule ext) (simp add: observation_of_def settings_def)

lemma in_scope_settings: "settings q' = settings q \<Longrightarrow> in_scope q' = in_scope q"
  by (rule ext) (simp add: in_scope_def settings_def)

lemma format_timestamp_dated:
  assumes "representable t"
  shows "ilen (format_timestamp t) \<ge> 10 \<and> iget 4 (format_timestamp t) = Some (CHR ''-'')
    \<and> iget 7 (format_timestamp t) = Some (CHR ''-'')"
proof -
  define d where "d = format_date (t div DAY)"
  have d: "length d = 10" "parse_date d = Some (t div DAY)"
    using parse_format_date [of "t div DAY"] assms by (auto simp: d_def representable_days)
  then obtain y1 y2 y3 y4 s1 m1 m2 s2 d1 d2 where c: "d = [y1, y2, y3, y4, s1, m1, m2, s2, d1, d2]"
    by (auto simp: parse_date_def split: list.splits)
  with d(2) have "s1 = CHR ''-''" "s2 = CHR ''-''" by (auto simp: parse_date_def split: option.splits if_splits)
  then show ?thesis by (simp add: format_timestamp_def d_def [symmetric] c ilen_length iget_def)
qed

lemma observation_dated: "representable (k_wall (fst item)) \<Longrightarrow> dated (observation_of md5 cd wide q item)"
  using format_timestamp_dated by (simp add: dated_def observation_of_def extract_metadata_def Let_def)

definition capture_run where
  "capture_run md5 cd wide repr items q = fold (\<lambda>(k, packet). handle_packet md5 cd wide repr k packet) items q"

text \<open>What a captured packet adds to each consumer.\<close>

definition flow_share :: "packet_observer \<Rightarrow> packet_obs \<Rightarrow> int" where
  "flow_share q ob = (if q_flows q \<noteq> None \<and> in_scope q ob \<and> is_ok (flow_key ob) then 1 else 0)"

definition writer_share :: "packet_observer \<Rightarrow> packet_obs \<Rightarrow> int" where
  "writer_share q ob = (if q_writer q \<noteq> None \<and> in_scope q ob then 1 else 0)"

lemma capture_run_result:
  assumes "observer_ok q" "list_all (\<lambda>(k, packet). representable (k_wall k)) items"
  shows "observer_ok (capture_run md5 cd wide repr items q) \<and>
    day_log (q_storage (capture_run md5 cd wide repr items q)) day =
      day_log (q_storage q) day @ as_items (filter (\<lambda>ob. day_of ob = day) (map (observation_of md5 cd wide q) items)) \<and>
    flow_total (capture_run md5 cd wide repr items q) =
      flow_total q + sum_list (map (flow_share q) (map (observation_of md5 cd wide q) items)) \<and>
    writer_total (capture_run md5 cd wide repr items q) =
      writer_total q + sum_list (map (writer_share q) (map (observation_of md5 cd wide q) items))"
  using assms
proof (induction items arbitrary: q)
  case Nil
  then show ?case by (simp add: capture_run_def)
next
  case (Cons item items)
  define ob where "ob = observation_of md5 cd wide q item"
  define q1 where "q1 = handle_observation repr (fst item) ob q"
  have run: "capture_run md5 cd wide repr (item # items) q = capture_run md5 cd wide repr items q1"
    by (simp add: capture_run_def q1_def ob_def handle_packet_def observation_of_def split_beta)
  have dated: "dated ob" using Cons.prems(2) observation_dated by (auto simp: ob_def split_beta)
  note one = handle_observation_counts [OF Cons.prems(1) dated, of repr "fst item", folded q1_def]
  have same: "settings q1 = settings q" by (simp add: q1_def settings_kept)
  have shares: "flow_share q1 = flow_share q" "writer_share q1 = writer_share q"
    using one [of day] in_scope_settings [OF same] by (auto simp: flow_share_def writer_share_def fun_eq_iff)
  have IH: "observer_ok (capture_run md5 cd wide repr items q1) \<and>
      day_log (q_storage (capture_run md5 cd wide repr items q1)) day =
        day_log (q_storage q1) day @ as_items (filter (\<lambda>ob. day_of ob = day) (map (observation_of md5 cd wide q) items)) \<and>
      flow_total (capture_run md5 cd wide repr items q1) =
        flow_total q1 + sum_list (map (flow_share q) (map (observation_of md5 cd wide q) items)) \<and>
      writer_total (capture_run md5 cd wide repr items q1) =
        writer_total q1 + sum_list (map (writer_share q) (map (observation_of md5 cd wide q) items))"
    using Cons.IH [of q1] Cons.prems(2) one [of day] unfolding shares observation_of_settings [OF same] by simp
  have mapped: "map (observation_of md5 cd wide q) (item # items) = ob # map (observation_of md5 cd wide q) items"
    by (simp add: ob_def)
  have filtered: "as_items (filter (\<lambda>ob. day_of ob = day) (ob # obs)) =
      (if day = day_of ob then as_items [ob] else []) @ as_items (filter (\<lambda>ob. day_of ob = day) obs)" for obs
    by (simp add: as_items_def)
  show ?case
    using IH one [of day] unfolding run mapped filtered
    by (simp add: flow_share_def [of q ob] writer_share_def [of q ob])
qed


definition SAMPLE_FRAME :: frame where
  "SAMPLE_FRAME =
     \<lparr>cap_ether = Some (''aa:bb:cc:00:00:01'', ''aa:bb:cc:00:00:02''), cap_ip = Some (''10.0.0.5'', ''10.0.0.9''),
      cap_ip6 = None, cap_tcp = None, cap_udp = None, cap_length = 60, fr_proto = 1, fr_flags = 0, fr_arp = None, fr_icmp = Some (8, 0), fr_dns = None\<rparr>"

definition SAMPLE_OBSERVER :: packet_observer where
  "SAMPLE_OBSERVER =
     \<lparr>q_interface = None, q_client = Some ''pc-1'', q_local_mac = None, q_local_ip = None, q_log_interval = 60, q_last_log = 0,
      q_logged = 0, q_storage = new_daily_storage (Some ''pc-1'') 5000000 50 0,
      q_scope = Some (new_scope (PList [PStr ''10.0.0.0/24''])), q_flows = Some SAMPLE_AGGREGATOR, q_writer = None\<rparr>"

lemma sample_share:
  "flow_share SAMPLE_OBSERVER (observation_of (\<lambda>_. []) ASCII (\<lambda>_. CHR ''?'') SAMPLE_OBSERVER (clock_at 0, SAMPLE_FRAME)) = 1"
  by code_simp


end
