(* ===== verification/Base64.thy ===== *)
theory Base64
  imports Bytes
begin

text \<open>
  Base64 as the package transfer uses it: \<open>base64.b64encode\<close> and \<open>base64.b64decode(..., validate=True)\<close> on byte
  strings, one character per byte.
\<close>

definition symbol :: "int \<Rightarrow> char" where
  "symbol n =
     (if n < 26 then char_of (65 + n) else if n < 52 then char_of (71 + n) else if n < 62 then char_of (n - 4)
      else if n = 62 then CHR ''+'' else CHR ''/'')"

definition symbol_value :: "char \<Rightarrow> int option" where
  "symbol_value c =
     (let n = of_char c :: int in
      if 65 \<le> n \<and> n \<le> 90 then Some (n - 65) else if 97 \<le> n \<and> n \<le> 122 then Some (n - 71)
      else if 48 \<le> n \<and> n \<le> 57 then Some (n + 4) else if n = 43 then Some 62 else if n = 47 then Some 63 else None)"

definition byte_of :: "char \<Rightarrow> int" where
  "byte_of c = of_char c"

fun b64_encode :: "string \<Rightarrow> string" where
  "b64_encode [] = []"
| "b64_encode [a] = [symbol (byte_of a div 4), symbol (byte_of a mod 4 * 16), CHR ''='', CHR ''='']"
| "b64_encode [a, b] =
     [symbol (byte_of a div 4), symbol (byte_of a mod 4 * 16 + byte_of b div 16), symbol (byte_of b mod 16 * 4), CHR ''='']"
| "b64_encode (a # b # c # rest) =
     symbol (byte_of a div 4) # symbol (byte_of a mod 4 * 16 + byte_of b div 16) #
     symbol (byte_of b mod 16 * 4 + byte_of c div 64) # symbol (byte_of c mod 64) # b64_encode rest"

fun b64_decode :: "string \<Rightarrow> string option" where
  "b64_decode [] = Some []"
| "b64_decode (a # b # c # d # rest) =
     (case (symbol_value a, symbol_value b) of
        (Some x, Some y) \<Rightarrow>
          if c = CHR ''='' \<and> d = CHR ''='' \<and> rest = [] then Some [char_of (x * 4 + y div 16)]
          else (case symbol_value c of
                  None \<Rightarrow> None
                | Some z \<Rightarrow>
                    if d = CHR ''='' \<and> rest = [] then Some [char_of (x * 4 + y div 16), char_of (y mod 16 * 16 + z div 4)]
                    else (case (symbol_value d, b64_decode rest) of
                            (Some w, Some bs) \<Rightarrow>
                              Some (char_of (x * 4 + y div 16) # char_of (y mod 16 * 16 + z div 4) # char_of (z mod 4 * 64 + w) # bs)
                          | _ \<Rightarrow> None))
      | _ \<Rightarrow> None)"
| "b64_decode _ = None"

lemma symbols: "list_all (\<lambda>n. symbol_value (symbol n) = Some n \<and> symbol n \<noteq> CHR ''='') [0..63]"
  by code_simp

lemma symbol_value_symbol:
  assumes "0 \<le> n" "n < 64"
  shows "symbol_value (symbol n) = Some n" "symbol n \<noteq> CHR ''=''"
  using symbols assms by (auto simp: list_all_iff)

lemma byte_bounds: "0 \<le> byte_of c" "byte_of c < 256"
proof -
  have m: "byte_of c = byte_of c mod 256" by (simp add: byte_of_def of_char_mod_256)
  show "0 \<le> byte_of c" by (subst m) (rule pos_mod_sign, simp)
  show "byte_of c < 256" by (subst m) (rule pos_mod_bound, simp)
qed

lemma char_of_byte: "char_of (byte_of c) = c"
  by (simp add: byte_of_def)

lemma pack:
  fixes x y k :: int
  assumes "0 \<le> y" "y < k"
  shows "(x * k + y) div k = x" "(x * k + y) mod k = y"
  using assms by simp_all

lemma join_bounds:
  fixes x y k n :: int
  assumes "0 \<le> x" "x < n" "0 \<le> y" "y < k"
  shows "0 \<le> x * k + y \<and> x * k + y < n * k"
proof -
  have "(x + 1) * k \<le> n * k" using assms by (intro mult_right_mono) auto
  moreover have "0 \<le> x * k" using assms by simp
  ultimately show ?thesis using assms by (simp add: distrib_right)
qed

lemma byte_div:
  "0 \<le> byte_of x div 4 \<and> byte_of x div 4 < 64"
  "0 \<le> byte_of x div 16 \<and> byte_of x div 16 < 16"
  "0 \<le> byte_of x div 64 \<and> byte_of x div 64 < 4"
  using byte_bounds [of x] by auto

lemma sextet_bounds:
  "0 \<le> byte_of a div 4 \<and> byte_of a div 4 < 64"
  "0 \<le> byte_of a mod 4 * 16 + byte_of b div 16 \<and> byte_of a mod 4 * 16 + byte_of b div 16 < 64"
  "0 \<le> byte_of b mod 16 * 4 + byte_of c div 64 \<and> byte_of b mod 16 * 4 + byte_of c div 64 < 64"
  "0 \<le> byte_of c mod 64 \<and> byte_of c mod 64 < 64"
  "0 \<le> byte_of a mod 4 * 16 \<and> byte_of a mod 4 * 16 < 64"
  "0 \<le> byte_of b mod 16 * 4 \<and> byte_of b mod 16 * 4 < 64"
  "0 \<le> byte_of b div 16 \<and> byte_of b div 16 < 16"
  "0 \<le> byte_of c div 64 \<and> byte_of c div 64 < 4"
proof -
  have m4: "0 \<le> byte_of a mod 4" "byte_of a mod 4 < 4" by (rule pos_mod_sign pos_mod_bound, simp)+
  have m16: "0 \<le> byte_of b mod 16" "byte_of b mod 16 < 16" by (rule pos_mod_sign pos_mod_bound, simp)+
  have k: "(4 :: int) * 16 = 64" "(16 :: int) * 4 = 64" by simp_all
  note j = join_bounds [where k = 16 and n = 4, OF m4, unfolded k] join_bounds [where k = 4 and n = 16, OF m16, unfolded k]
  show "0 \<le> byte_of a mod 4 * 16 + byte_of b div 16 \<and> byte_of a mod 4 * 16 + byte_of b div 16 < 64"
    by (rule j(1)) (use byte_div(2) [of b] in blast)+
  show "0 \<le> byte_of b mod 16 * 4 + byte_of c div 64 \<and> byte_of b mod 16 * 4 + byte_of c div 64 < 64"
    by (rule j(2)) (use byte_div(3) [of c] in blast)+
  show "0 \<le> byte_of a mod 4 * 16 \<and> byte_of a mod 4 * 16 < 64" using j(1) [of 0] by simp
  show "0 \<le> byte_of b mod 16 * 4 \<and> byte_of b mod 16 * 4 < 64" using j(2) [of 0] by simp
  show "0 \<le> byte_of c mod 64 \<and> byte_of c mod 64 < 64" by (intro conjI pos_mod_sign pos_mod_bound) simp_all
qed (rule byte_div)+

text \<open>The bytes that the sextets are put together to.\<close>

lemma regroup:
  "byte_of a div 4 * 4 + (byte_of a mod 4 * 16 + byte_of b div 16) div 16 = byte_of a"
  "(byte_of a mod 4 * 16 + byte_of b div 16) mod 16 * 16 + (byte_of b mod 16 * 4 + byte_of c div 64) div 4 = byte_of b"
  "(byte_of b mod 16 * 4 + byte_of c div 64) mod 4 * 64 + byte_of c mod 64 = byte_of c"
  "(byte_of a mod 4 * 16 + byte_of b div 16) mod 16 * 16 + byte_of b mod 16 * 4 div 4 = byte_of b"
proof -
  have bounds: "0 \<le> byte_of b div 16" "byte_of b div 16 < 16" "0 \<le> byte_of c div 64" "byte_of c div 64 < 4"
    using sextet_bounds(7) [of b] sextet_bounds(8) [of c] by blast+
  note p = pack [OF bounds(1,2), of "byte_of a mod 4"] pack [OF bounds(3,4), of "byte_of b mod 16"]
  show "byte_of a div 4 * 4 + (byte_of a mod 4 * 16 + byte_of b div 16) div 16 = byte_of a"
    by (simp only: p div_mult_mod_eq)
  show "(byte_of a mod 4 * 16 + byte_of b div 16) mod 16 * 16 + (byte_of b mod 16 * 4 + byte_of c div 64) div 4 = byte_of b"
    by (simp only: p div_mult_mod_eq)
  show "(byte_of b mod 16 * 4 + byte_of c div 64) mod 4 * 64 + byte_of c mod 64 = byte_of c"
    by (simp only: p div_mult_mod_eq)
  have "byte_of b mod 16 * 4 div 4 = byte_of b mod 16" by (rule nonzero_mult_div_cancel_right) simp
  then show "(byte_of a mod 4 * 16 + byte_of b div 16) mod 16 * 16 + byte_of b mod 16 * 4 div 4 = byte_of b"
    by (simp only: p div_mult_mod_eq)
qed

lemma regroup_one: "byte_of a div 4 * 4 + byte_of a mod 4 * 16 div 16 = byte_of a"
proof -
  have "byte_of a mod 4 * 16 div 16 = byte_of a mod 4" by (rule nonzero_mult_div_cancel_right) simp
  then show ?thesis by (simp only: div_mult_mod_eq)
qed

lemmas sextet_symbols =
  symbol_value_symbol [OF conjunct1 [OF sextet_bounds(1)] conjunct2 [OF sextet_bounds(1)]]
  symbol_value_symbol [OF conjunct1 [OF sextet_bounds(2)] conjunct2 [OF sextet_bounds(2)]]
  symbol_value_symbol [OF conjunct1 [OF sextet_bounds(3)] conjunct2 [OF sextet_bounds(3)]]
  symbol_value_symbol [OF conjunct1 [OF sextet_bounds(4)] conjunct2 [OF sextet_bounds(4)]]
  symbol_value_symbol [OF conjunct1 [OF sextet_bounds(5)] conjunct2 [OF sextet_bounds(5)]]
  symbol_value_symbol [OF conjunct1 [OF sextet_bounds(6)] conjunct2 [OF sextet_bounds(6)]]

lemma b64_decode_encode: "b64_decode (b64_encode s) = Some s"
  by (induction s rule: b64_encode.induct)
    (simp_all only: b64_encode.simps b64_decode.simps sextet_symbols option.case prod.case regroup regroup_one char_of_byte
      if_True if_False simp_thms list.distinct)

end
