(* ===== verification/Deploy.thy ===== *)
theory Deploy
  imports Updater Base64
begin

text \<open>
  The transfer of packages and files to a client: the chunk sender of
  \<open>server/server_components/action_service.py\<close> and the receiver of \<open>client/app/client_lib.py\<close>, down to the
  launch of the updater.  The environment (SHA-256, the zip parser) is the updater's.  A file that is open while
  it is renamed, replaced or deleted keeps its contents: \<open>e_at\<close> is the name the open part file has now.
  \<open>z_answers\<close> says whether the next file operations succeed, \<open>z_posix\<close> whether an open file can be deleted.
\<close>

section \<open>The receiver\<close>

record session =
  e_package :: string
  e_operation :: string
  e_sha :: string
  e_chunks :: int
  e_part :: path
  e_final :: path
  e_at :: "path option"
  e_content :: string

record receiver =
  z_files :: fs
  z_sessions :: "(string \<times> session) list"
  z_posix :: bool
  z_answers :: "bool list"
  z_incoming :: path
  z_sent :: path
  z_staging :: path
  z_current :: path

definition permit :: "receiver \<Rightarrow> bool \<times> receiver" where
  "permit z = (case z_answers z of [] \<Rightarrow> (True, z) | a # as \<Rightarrow> (a, z\<lparr>z_answers := as\<rparr>))"

text \<open>The open part files: renamed, unlinked, written.\<close>

definition moved :: "path \<Rightarrow> path option \<Rightarrow> (string \<times> session) list \<Rightarrow> (string \<times> session) list" where
  "moved p q ss = map (\<lambda>(k, e). (k, if e_at e = Some p then e\<lparr>e_at := q\<rparr> else e)) ss"

definition unlink_path :: "path \<Rightarrow> receiver \<Rightarrow> receiver" where
  "unlink_path p z = z\<lparr>z_files := unlink p (z_files z), z_sessions := moved p None (z_sessions z)\<rparr>"

definition rename_path :: "path \<Rightarrow> path \<Rightarrow> receiver \<Rightarrow> unit result \<times> receiver" where
  "rename_path p q z =
     (case z_files z p of
        Some (FFile c) \<Rightarrow>
          if p = q then (Inr (), z)
          else if is_dir (z_files z) q then (raise_exc OSError ''Is a directory'', z)
          else (Inr (), z\<lparr>z_files := unlink p (write_file q c (z_files z)),
                          z_sessions := moved p (Some q) (moved q None (z_sessions z))\<rparr>)
      | Some FDir \<Rightarrow> (raise_exc OSError ''Is a directory'', z)
      | None \<Rightarrow> (raise_exc FileNotFoundError ''No such file'', z))"

text \<open>\<open>_safe_file_name\<close>; a colon in second place is a drive where paths have one.\<close>

definition safe_file_name :: "bool \<Rightarrow> string option \<Rightarrow> string \<Rightarrow> string result" where
  "safe_file_name posix value fallback =
     (let raw = strip (case given value of None \<Rightarrow> fallback | Some s \<Rightarrow> s) in
      if raw = [] \<or> raw = ''.'' \<or> raw = ''..'' \<or> CHR ''/'' \<in> set raw \<or> CHR 0x5C \<in> set raw
        \<or> (\<not> posix \<and> ilen raw \<ge> 2 \<and> hd (tl raw) = CHR '':'')
      then raise_exc ValueError ''destination name must be a single relative filename''
      else Inr raw)"

record init_frame =
  i_action :: "string option"
  i_package :: "string option"
  i_operation :: "string option"
  i_sha :: "string option"
  i_filename :: "string option"
  i_chunks :: int

datatype init_reply = InitReady string string string | InitError string

definition in_use :: "receiver \<Rightarrow> path \<Rightarrow> bool" where
  "in_use z p \<longleftrightarrow> list_ex (\<lambda>(_, e). e_at e = Some p) (z_sessions z)"

text \<open>Removing a stale part file.\<close>

definition clear_part :: "path \<Rightarrow> receiver \<Rightarrow> unit result \<times> receiver" where
  "clear_part p z =
     (if \<not> path_exists (z_files z) p then (Inr (), z)
      else if is_dir (z_files z) p \<or> (\<not> z_posix z \<and> in_use z p) then (raise_exc OSError ''in use'', z)
      else (case permit z of (False, z) \<Rightarrow> (raise_exc OSError ''denied'', z) | (True, z) \<Rightarrow> (Inr (), unlink_path p z)))"

text \<open>The directories are made, then the part file is created.\<close>

definition make_dirs :: "path list \<Rightarrow> receiver \<Rightarrow> unit result \<times> receiver" where
  "make_dirs ps z =
     (case permit z of
        (False, z) \<Rightarrow> (raise_exc OSError ''denied'', z)
      | (True, z) \<Rightarrow>
          (case fold (\<lambda>p r. then_do r (mkdirs p)) ps (Inr (z_files z)) of
             Inl e \<Rightarrow> (Inl e, z)
           | Inr f \<Rightarrow> (Inr (), z\<lparr>z_files := f\<rparr>)))"

definition open_part :: "string \<Rightarrow> session \<Rightarrow> receiver \<Rightarrow> init_reply option \<times> receiver" where
  "open_part action e z =
     (case clear_part (e_part e) z of
        (Inl err, z) \<Rightarrow> (Some (InitError (''Could not clear stale partial package file: '' @ exc_msg err)), z)
      | (Inr _, z) \<Rightarrow>
          (case permit z of
             (False, z) \<Rightarrow> (Some (InitError ''Failed to initialize package staging: denied''), z)
           | (True, z) \<Rightarrow>
               (None, z\<lparr>z_files := write_file (e_part e) [] (z_files z), z_sessions := dset action e (z_sessions z)\<rparr>)))"

definition new_session :: "receiver \<Rightarrow> string \<Rightarrow> string \<Rightarrow> string \<Rightarrow> string \<Rightarrow> int \<Rightarrow> session" where
  "new_session z package operation sha final_name chunks =
     (let part = z_incoming z @ [package @ ''.part''];
          final = (if operation = ''SEND_FILE'' then z_sent z @ [final_name] else z_incoming z @ [package @ ''.zip''])
      in \<lparr>e_package = package, e_operation = operation, e_sha = lower (strip sha), e_chunks = chunks, e_part = part,
          e_final = final, e_at = Some part, e_content = []\<rparr>)"

definition handle_init :: "init_frame \<Rightarrow> (receiver, init_reply) act" where
  "handle_init i z =
     (let fallback = (case given (i_action i) of None \<Rightarrow> ''package'' | Some a \<Rightarrow> a);
          requested = (case given (i_package i) of None \<Rightarrow> i_action i | Some p \<Rightarrow> Some p)
      in case safe_file_name (z_posix z) requested fallback of
           Inl e \<Rightarrow> (Inl e, z)
         | Inr package \<Rightarrow>
             (let operation = upper (strip (case given (i_operation i) of None \<Rightarrow> ''DEPLOY_PACKAGE'' | Some s \<Rightarrow> s)) in
              if operation \<notin> set [''DEPLOY_PACKAGE'', ''SEND_FILE'', ''UPDATE_CLIENT'']
              then (Inr (InitError (''Unsupported package operation: '' @ operation)), z)
              else (case (given (i_action i), given (i_sha i)) of
                      (Some action, Some sha) \<Rightarrow>
                        (case safe_file_name (z_posix z) (i_filename i) (package @ ''.zip'') of
                           Inl e \<Rightarrow> (Inl e, z)
                         | Inr final_name \<Rightarrow>
                             (let e = new_session z package operation sha final_name (i_chunks i);
                                  dest = (if operation = ''SEND_FILE'' then z_sent z else z_incoming z)
                              in case make_dirs [z_incoming z, dest] z of
                                   (Inl err, z) \<Rightarrow> (Inr (InitError (''Failed to initialize package staging: '' @ exc_msg err)), z)
                                 | (Inr _, z) \<Rightarrow>
                                     (case open_part action e z of
                                        (Some reply, z) \<Rightarrow> (Inr reply, z)
                                      | (None, z) \<Rightarrow> (Inr (InitReady action package final_name), z))))
                    | _ \<Rightarrow> (Inr (InitError ''Missing required package parameters (action_id, package_id, sha256).''), z))))"

section \<open>Putting a package in place\<close>

definition MAX_EXTRACTED :: int where
  "MAX_EXTRACTED = 500 * 1024 * 1024"

text \<open>\<open>safe_extract\<close> of the client: the sizes are checked before the paths.\<close>

definition client_extract :: "env \<Rightarrow> path \<Rightarrow> path \<Rightarrow> int \<Rightarrow> fs \<Rightarrow> unit result \<times> fs" where
  "client_extract e zip_path dest max_bytes f =
     (case then_do (read_text f zip_path) (open_zip e) of
        Inl err \<Rightarrow> (Inl err, f)
      | Inr infos \<Rightarrow>
          if sum_list (map file_size infos) > max_bytes then (raise_exc ValueError ''archive too large'', f)
          else (case find (unsafe_entry dest) infos of
                  Some i \<Rightarrow> (raise_exc ValueError (''unsafe path in archive: '' @ filename i), f)
                | None \<Rightarrow>
                    (case mkdirs dest f of
                       Inl err \<Rightarrow> (Inl err, f)
                     | Inr f1 \<Rightarrow> extractall dest infos f1)))"

definition move_dir :: "path \<Rightarrow> path \<Rightarrow> fs \<Rightarrow> fs" where
  "move_dir src dst f = rmtree src (graft (subtree f src) dst f)"

text \<open>\<open>atomic_swap_directory\<close>; \<open>first\<close> and \<open>second\<close> say whether the two renames succeed.\<close>

definition swap_directory :: "string \<Rightarrow> bool \<Rightarrow> bool \<Rightarrow> path \<Rightarrow> path \<Rightarrow> fs \<Rightarrow> unit result \<times> fs" where
  "swap_directory tag first second src dst f =
     (case mkdirs (butlast dst) f of
        Inl e \<Rightarrow> (Inl e, f)
      | Inr f \<Rightarrow>
          if \<not> first then (raise_exc OSError ''rename failed'', f)
          else if \<not> path_exists f dst then (Inr (), move_dir src dst f)
          else (let backup = butlast dst @ [last dst @ ''_old_'' @ tag];
                    f1 = move_dir dst backup f
                in if second then (Inr (), rmtree backup (move_dir src dst f1))
                   else (raise_exc OSError ''rename failed'', move_dir backup dst f1)))"

section \<open>Chunks\<close>

record chunk_frame =
  c_action :: string
  c_seq :: int
  c_data :: string

record package_result =
  r_action :: string
  r_status :: string
  r_sha :: "string option"
  r_path :: "path option"
  r_error :: "string option"

definition failed :: "string \<Rightarrow> string option \<Rightarrow> string \<Rightarrow> package_result" where
  "failed action sha msg = \<lparr>r_action = action, r_status = ''FAILED'', r_sha = sha, r_path = None, r_error = Some msg\<rparr>"

definition finished :: "string \<Rightarrow> string \<Rightarrow> string \<Rightarrow> path \<Rightarrow> package_result" where
  "finished action status sha p = \<lparr>r_action = action, r_status = status, r_sha = Some sha, r_path = Some p, r_error = None\<rparr>"

text \<open>The handler around the processing of a chunk.\<close>

definition abort :: "string \<Rightarrow> session \<Rightarrow> string \<Rightarrow> receiver \<Rightarrow> package_result option \<times> receiver" where
  "abort action e msg z =
     (let z = unlink_path (e_part e) z
      in (Some (failed action None (''chunk write failed: '' @ msg)), z\<lparr>z_sessions := AList.delete action (z_sessions z)\<rparr>))"

text \<open>
  Pre-installing the updater that a package brings, with the only test of the path the source has; what goes wrong
  is ignored.
\<close>

fun preinstall :: "path \<Rightarrow> zip_entry list \<Rightarrow> fs \<Rightarrow> fs" where
  "preinstall target [] f = f"
| "preinstall target (i # is) f =
     (case updater_relative i of
        None \<Rightarrow> preinstall target is f
      | Some rel \<Rightarrow>
          if rel = [] \<or> ''..'' \<in> set (split_char (CHR ''/'') rel) then preinstall target is f
          else (let dest = resolve_join target rel in
                case mkdirs (butlast dest) f of
                  Inl e \<Rightarrow> f
                | Inr f1 \<Rightarrow>
                    if is_dir f1 dest then f1
                    else (case entry_fault i of
                            Some e \<Rightarrow> write_file dest (entry_data i) f1
                          | None \<Rightarrow> preinstall target is (write_file dest (entry_data i) f1))))"

definition preinstall_updater :: "env \<Rightarrow> path \<Rightarrow> path \<Rightarrow> fs \<Rightarrow> fs" where
  "preinstall_updater e package home f =
     (case then_do (read_text f package) (open_zip e) of
        Inl err \<Rightarrow> f
      | Inr infos \<Rightarrow>
          if \<not> list_ex (\<lambda>i. updater_relative i \<noteq> None) infos then f
          else (let target = home @ [''updater''] in
                case mkdirs target f of Inl err \<Rightarrow> f | Inr f1 \<Rightarrow> preinstall target infos f1))"

text \<open>\<open>_spawn_updater_subprocess\<close>: the command that is launched, when it is.\<close>

definition spawn_updater :: "env \<Rightarrow> path \<Rightarrow> path \<Rightarrow> string \<Rightarrow> fs \<Rightarrow> string list option \<times> fs" where
  "spawn_updater e package home action f =
     (if \<not> is_file f package then (None, f)
      else (let f = preinstall_updater e package home f; script = home @ [''updater'', ''updater.py''] in
            if \<not> is_file f script then (None, f)
            else (Some ([path_str (sys_executable e), path_str script, path_str package, path_str home] @ (if action = [] then [] else [action])), f)))"

text \<open>The package is complete and its hash is right.\<close>

definition install_package :: "env \<Rightarrow> string \<Rightarrow> string \<Rightarrow> session \<Rightarrow> receiver \<Rightarrow> package_result option \<times> receiver" where
  "install_package env tag action e z =
     (let sha = e_sha e; final = e_final e in
      if e_operation e = ''UPDATE_CLIENT''
      then (Some (finished action ''STAGED'' sha final),
            z\<lparr>z_files := snd (spawn_updater env final (take (length final - 4) final) action (z_files z))\<rparr>)
      else if e_operation e = ''SEND_FILE'' then (Some (finished action ''SUCCESS'' sha final), z)
      else (let dir = z_staging z @ [e_package e @ ''_'' @ tag] in
            case mkdirs dir (rmtree dir (z_files z)) of
              Inl err \<Rightarrow> abort action e (exc_msg err) (z\<lparr>z_files := rmtree dir (z_files z)\<rparr>)
            | Inr f \<Rightarrow>
                (let (b1, z) = permit z; (b2, z) = permit z in
                 case (case client_extract env final dir MAX_EXTRACTED f of
                         (Inl err, f) \<Rightarrow> (Inl err, f)
                       | (Inr _, f) \<Rightarrow> swap_directory tag b1 b2 dir (z_current z) f) of
                   (Inr _, f) \<Rightarrow> (Some (finished action ''SUCCESS'' sha final), z\<lparr>z_files := f\<rparr>)
                 | (Inl err, f) \<Rightarrow>
                     (Some (failed action (Some sha) (''safe extraction failed: '' @ exc_msg err)), z\<lparr>z_files := rmtree dir f\<rparr>))))"

definition finish_package :: "env \<Rightarrow> string \<Rightarrow> string \<Rightarrow> session \<Rightarrow> receiver \<Rightarrow> package_result option \<times> receiver" where
  "finish_package env tag action e z =
     (let z = z\<lparr>z_sessions := AList.delete action (z_sessions z)\<rparr>; computed = sha256 env (e_content e) in
      if computed \<noteq> e_sha e
      then (Some (failed action (Some computed) (''hash mismatch: expected '' @ e_sha e @ '', got '' @ computed)),
            unlink_path (e_part e) z)
      else (case permit z of
              (False, z) \<Rightarrow> abort action e ''denied'' z
            | (True, z) \<Rightarrow>
                (case rename_path (e_part e) (e_final e) z of
                   (Inl err, z) \<Rightarrow> abort action e (exc_msg err) z
                 | (Inr _, z) \<Rightarrow> install_package env tag action e z)))"

text \<open>Writing to the open file: its name, if it still has one, shows the new contents.\<close>

definition write_chunk :: "string \<Rightarrow> string \<Rightarrow> session \<Rightarrow> receiver \<Rightarrow> session \<times> receiver" where
  "write_chunk action bytes e z =
     (let e = e\<lparr>e_content := e_content e @ bytes\<rparr>
      in (e, z\<lparr>z_sessions := dset action e (z_sessions z),
               z_files := (case e_at e of None \<Rightarrow> z_files z | Some p \<Rightarrow> write_file p (e_content e) (z_files z))\<rparr>))"

definition process_chunk :: "env \<Rightarrow> string \<Rightarrow> chunk_frame \<Rightarrow> receiver \<Rightarrow> package_result option \<times> receiver" where
  "process_chunk env tag c z =
     (case map_of (z_sessions z) (c_action c) of
        None \<Rightarrow> (Some (failed (c_action c) None (''No active package session found for action_id='' @ c_action c)), z)
      | Some e \<Rightarrow>
          (case b64_decode (c_data c) of
             None \<Rightarrow> abort (c_action c) e ''invalid base64'' z
           | Some bytes \<Rightarrow>
               (case permit z of
                  (False, z) \<Rightarrow> abort (c_action c) e ''denied'' z
                | (True, z) \<Rightarrow>
                    (let (e, z) = write_chunk (c_action c) bytes e z
                     in if c_seq c = e_chunks e then finish_package env tag (c_action c) e z else (None, z)))))"

section \<open>The sender\<close>

definition total_chunks :: "int \<Rightarrow> int \<Rightarrow> int" where
  "total_chunks len n = (if len > 0 then max 1 ((len + n - 1) div n) else 1)"

definition chunk_of :: "string \<Rightarrow> int \<Rightarrow> string \<Rightarrow> chunk_frame" where
  "chunk_of action k bytes = \<lparr>c_action = action, c_seq = k, c_data = b64_encode bytes\<rparr>"

text \<open>Reading a file chunk by chunk stops at its end; bytes in memory are cut at multiples of the chunk size.\<close>

function file_frames :: "string \<Rightarrow> int \<Rightarrow> int \<Rightarrow> int \<Rightarrow> string \<Rightarrow> chunk_frame list" where
  "file_frames action k chunks n rest =
     (if k > chunks then []
      else let piece = itake n rest in
           if piece = [] then [] else chunk_of action k piece # file_frames action (k + 1) chunks n (idrop n rest))"
  by pat_completeness auto
termination
  by (relation "measure (\<lambda>(_, k, chunks, _). nat (chunks + 1 - k))") auto

declare file_frames.simps [simp del]

definition bytes_frames :: "string \<Rightarrow> int \<Rightarrow> int \<Rightarrow> string \<Rightarrow> chunk_frame list" where
  "bytes_frames action chunks n data =
     map (\<lambda>k. chunk_of action k (slice ((k - 1) * n) (min (ilen data) (k * n)) data)) [1..chunks]"

text \<open>What the client answers to a sequence of frames.\<close>

fun receive_all :: "env \<Rightarrow> string \<Rightarrow> chunk_frame list \<Rightarrow> receiver \<Rightarrow> package_result list \<times> receiver" where
  "receive_all env tag [] z = ([], z)"
| "receive_all env tag (c # cs) z =
     (let (r, z1) = process_chunk env tag c z; (rs, z2) = receive_all env tag cs z1
      in ((case r of None \<Rightarrow> [] | Some x \<Rightarrow> [x]) @ rs, z2))"

definition reply_error :: "string \<Rightarrow> pydict" where
  "reply_error msg = [(''status'', PStr ''error''), (''message'', PStr msg)]"

text \<open>What the sender makes of the first result that arrives, or of none.\<close>

definition deploy_outcome :: "string \<Rightarrow> int \<Rightarrow> package_result list \<Rightarrow> pydict" where
  "deploy_outcome package len rs =
     (case rs of
        [] \<Rightarrow> reply_error ''Package deployment timed out waiting for verification result.''
      | r # _ \<Rightarrow>
          if r_status r = ''SUCCESS''
          then [(''status'', PStr ''ok''), (''package_id'', PStr package), (''sha256'', opt_str (r_sha r)),
                (''file_path'', opt_str (map_option path_str (r_path r))), (''total_bytes'', PInt len),
                (''message'', PStr ''Package deployed and verified successfully.'')]
          else [(''status'', PStr ''error''), (''package_id'', PStr package), (''sha256'', opt_str (r_sha r)),
                (''message'', PStr (case r_error r of None \<Rightarrow> ''Package deployment failed on client.'' | Some m \<Rightarrow> m))])"

record package_source =
  k_package :: string
  k_sha :: string
  k_data :: string
  k_from_file :: bool

definition DEPLOY_PACKAGE_MAX_BYTES :: int where
  "DEPLOY_PACKAGE_MAX_BYTES = 200 * 1024 * 1024"

definition source_frames :: "string \<Rightarrow> int \<Rightarrow> package_source \<Rightarrow> chunk_frame list" where
  "source_frames action n src =
     (let chunks = total_chunks (ilen (k_data src)) n
      in if k_from_file src then file_frames action 1 chunks n (k_data src) else bytes_frames action chunks n (k_data src))"

definition deploy_init_frame :: "string \<Rightarrow> string \<Rightarrow> string option \<Rightarrow> int \<Rightarrow> package_source \<Rightarrow> init_frame" where
  "deploy_init_frame action operation name n src =
     \<lparr>i_action = Some action, i_package = Some (k_package src), i_operation = Some operation, i_sha = Some (k_sha src),
      i_filename = Some (case given name of None \<Rightarrow> k_package src @ ''.zip'' | Some s \<Rightarrow> s),
      i_chunks = total_chunks (ilen (k_data src)) n\<rparr>"

text \<open>
  \<open>deploy_package_to_client\<close> with a resolved source, talking to the receiver \<open>z\<close> (\<open>None\<close>: not connected).  An exception
  of the client's handler ends its connection.
\<close>

definition deploy_package ::
  "env \<Rightarrow> string \<Rightarrow> string \<Rightarrow> string \<Rightarrow> string option \<Rightarrow> int \<Rightarrow> package_source \<Rightarrow> receiver option \<Rightarrow> pydict \<times> receiver option" where
  "deploy_package env tag action operation name chunk_size src client =
     (let n = max 1 chunk_size in
      if ilen (k_data src) > DEPLOY_PACKAGE_MAX_BYTES then (reply_error ''Package too large'', client)
      else case client of
        None \<Rightarrow> (reply_error ''Client is not connected.'', None)
      | Some z \<Rightarrow>
          (case handle_init (deploy_init_frame action operation name n src) z of
             (Inl e, z) \<Rightarrow> (reply_error ''Client init failed: Client disconnected while waiting for command response.'', None)
           | (Inr (InitError m), z) \<Rightarrow> (reply_error (''Client not ready: '' @ m), Some z)
           | (Inr (InitReady _ _ _), z) \<Rightarrow>
               (let (rs, z) = receive_all env tag (source_frames action n src) z
                in (deploy_outcome (k_package src) (ilen (k_data src)) rs, Some z))))"

section \<open>A file arrives as it was sent\<close>

definition whole :: "int \<Rightarrow> int \<Rightarrow> int" where
  "whole len n = (len - 1) div n"

lemma total_chunks_whole: "len > 0 \<Longrightarrow> n > 0 \<Longrightarrow> total_chunks len n = 1 + whole len n"
proof -
  assume "len > 0" "n > 0"
  then have "(len + n - 1) div n = (len - 1) div n + 1"
    using div_add_self2 [of n "len - 1"] by (simp add: algebra_simps)
  moreover have "0 \<le> (len - 1) div n" using \<open>len > 0\<close> \<open>n > 0\<close> by (simp add: pos_imp_zdiv_nonneg_iff)
  ultimately show ?thesis using \<open>len > 0\<close> by (simp add: total_chunks_def whole_def)
qed

lemma whole_small: "0 < len \<Longrightarrow> len \<le> n \<Longrightarrow> whole len n = 0"
  by (simp add: whole_def)

lemma whole_step: "0 < n \<Longrightarrow> n < len \<Longrightarrow> whole len n = 1 + whole (len - n) n \<and> 0 \<le> whole (len - n) n"
proof -
  assume n: "0 < n" "n < len"
  have "(len - 1) div n = (len - n - 1) div n + 1"
    using div_add_self2 [of n "len - n - 1"] n by (simp add: algebra_simps)
  moreover have "0 \<le> (len - n - 1) div n" using n by (simp add: pos_imp_zdiv_nonneg_iff)
  ultimately show ?thesis by (simp add: whole_def)
qed

lemma ilen_idrop: "0 \<le> n \<Longrightarrow> n \<le> ilen xs \<Longrightarrow> ilen (idrop n xs) = ilen xs - n"
  by (simp add: idrop_drop ilen_length)

lemma whole_nonneg: "0 < n \<Longrightarrow> 0 < len \<Longrightarrow> 0 \<le> whole len n"
  by (simp add: whole_def pos_imp_zdiv_nonneg_iff)

lemma ilen_pos_iff: "0 < ilen xs \<longleftrightarrow> xs \<noteq> []"
  by (simp add: ilen_length)

text \<open>Both kinds of source send the same frames.\<close>

lemma bytes_frames_from:
  assumes "0 < n" "1 \<le> k" "chunks = 1 + whole (ilen data) n" "data \<noteq> []"
  shows "map (\<lambda>k. chunk_of action k (slice ((k - 1) * n) (min (ilen data) (k * n)) data)) [k..chunks] =
    file_frames action k chunks n (idrop ((k - 1) * n) data)"
  using assms(2)
proof (induction "nat (chunks + 1 - k)" arbitrary: k)
  case 0
  then show ?case by (simp add: file_frames.simps)
next
  case (Suc m)
  then have k: "k \<le> chunks" "m = nat (chunks + 1 - (k + 1))" by auto
  have "(k - 1) * n \<le> whole (ilen data) n * n"
    using k(1) assms(1,3) by (intro mult_right_mono) auto
  also have "\<dots> \<le> ilen data - 1"
    unfolding whole_def using assms(1) by (metis add_le_same_cancel1 div_mult_mod_eq diff_add_cancel le_add_same_cancel1 pos_mod_sign)
  finally have inside: "(k - 1) * n < ilen data" by simp
  have at_k: "0 \<le> (k - 1) * n" using Suc.prems assms(1) by simp
  have to_k: "k * n = (k - 1) * n + n" by (simp add: algebra_simps)
  have piece: "slice ((k - 1) * n) (min (ilen data) (k * n)) data = itake n (idrop ((k - 1) * n) data)"
    unfolding to_k using inside at_k assms(1)
    by (simp add: slice_def itake_take idrop_drop ilen_length min_def nat_diff_distrib nat_add_distrib)
  have "itake n (idrop ((k - 1) * n) data) \<noteq> []"
    using inside at_k assms(1) by (simp add: itake_take idrop_drop ilen_length)
  moreover have "idrop n (idrop ((k - 1) * n) data) = idrop ((k + 1 - 1) * n) data"
    using at_k assms(1) by (simp add: idrop_drop nat_add_distrib [symmetric] algebra_simps)
  ultimately show ?case
    using Suc.hyps(1) [OF k(2)] Suc.prems k(1) piece
    by (simp add: upto.simps [of k chunks] file_frames.simps [of action k chunks n])
qed

lemma source_frames_eq:
  assumes "0 < n" "k_data src \<noteq> []"
  shows "source_frames action n src = file_frames action 1 (1 + whole (ilen (k_data src)) n) n (k_data src)"
  using bytes_frames_from [OF assms(1), of 1 "1 + whole (ilen (k_data src)) n" "k_data src" action] assms
  by (simp add: source_frames_def bytes_frames_def total_chunks_whole ilen_pos_iff idrop_drop Let_def)

lemma update_twice: "AList.update k v (AList.update k v' d) = AList.update k v d"
  by (induction d) auto

lemma write_chunk_twice:
  "write_chunk action b (fst (write_chunk action a e z)) (snd (write_chunk action a e z)) = write_chunk action (a @ b) e z"
  by (simp add: write_chunk_def Let_def update_twice write_file_def split: option.splits)

lemma receive_frames:
  assumes "0 < n"
  shows "rest \<noteq> [] \<Longrightarrow> chunks = k + whole (ilen rest) n \<Longrightarrow> map_of (z_sessions z) action = Some e \<Longrightarrow>
    e_chunks e = chunks \<Longrightarrow> z_answers z = [] \<Longrightarrow>
    receive_all env tag (file_frames action k chunks n rest) z =
      (case write_chunk action rest e z of (e1, z1) \<Rightarrow>
         case finish_package env tag action e1 z1 of (r, z2) \<Rightarrow> ((case r of None \<Rightarrow> [] | Some x \<Rightarrow> [x]), z2))"
proof (induction "nat (ilen rest)" arbitrary: k rest e z rule: less_induct)
  case less
  have len: "0 < ilen rest" using less.prems(1) by (simp add: ilen_pos_iff)
  have k: "k \<le> chunks" using whole_nonneg [OF assms len] less.prems(2) by simp
  have piece: "itake n rest \<noteq> []" using less.prems(1) assms by (simp add: itake_take)
  have permit: "permit z = (True, z)" using less.prems(5) by (simp add: permit_def)
  obtain e1 z1 where w: "write_chunk action (itake n rest) e z = (e1, z1)" by force
  then have z1: "map_of (z_sessions z1) action = Some e1" "z_answers z1 = []" "e_chunks e1 = chunks"
    using less.prems(4,5) by (auto simp: write_chunk_def Let_def)
  have one: "process_chunk env tag (chunk_of action k (itake n rest)) z =
      (if k = chunks then finish_package env tag action e1 z1 else (None, z1))"
    unfolding process_chunk_def using less.prems(3) by (simp add: chunk_of_def b64_decode_encode permit w z1(3))
  show ?case
  proof (cases "ilen rest \<le> n")
    case True
    then have last: "k = chunks" "itake n rest = rest" "idrop n rest = []"
      using less.prems(2) whole_small [OF len] by (simp_all add: itake_take idrop_drop ilen_length)
    then have "file_frames action k chunks n rest = [chunk_of action k rest]"
      using piece by (simp add: file_frames.simps [of action chunks chunks n] file_frames.simps [of action "chunks + 1"])
    then show ?thesis using one last w by (simp split: prod.splits)
  next
    case False
    then have n: "n < ilen rest" by simp
    note step = whole_step [OF assms n]
    have drop: "ilen (idrop n rest) = ilen rest - n" using n assms by (simp add: ilen_idrop)
    have frames: "file_frames action k chunks n rest = chunk_of action k (itake n rest) # file_frames action (k + 1) chunks n (idrop n rest)"
      using piece k by (simp add: file_frames.simps [of action k chunks n])
    have "k \<noteq> chunks" using step less.prems(2) by simp
    moreover have "receive_all env tag (file_frames action (k + 1) chunks n (idrop n rest)) z1 =
        (case write_chunk action (idrop n rest) e1 z1 of (e1, z1) \<Rightarrow>
           case finish_package env tag action e1 z1 of (r, z2) \<Rightarrow> ((case r of None \<Rightarrow> [] | Some x \<Rightarrow> [x]), z2))"
      using less.hyps [of "idrop n rest" "k + 1" z1 e1] z1 less.prems(2) step drop n assms by (simp add: ilen_pos_iff [symmetric])
    moreover have "write_chunk action (idrop n rest) e1 z1 = write_chunk action rest e z"
      using write_chunk_twice [of action "idrop n rest" "itake n rest" e z] w by (simp add: itake_idrop)
    ultimately show ?thesis unfolding frames using one by simp
  qed
qed

section \<open>What a transfer ends in\<close>

lemma clear_part_keeps:
  assumes "clear_part p z = (Inr u, z1)" "z_answers z = []"
  shows "z_answers z1 = []" "z_incoming z1 = z_incoming z" "z_sent z1 = z_sent z"
  using assms by (auto simp: clear_part_def permit_def unlink_path_def split: if_splits)

lemma make_dirs_keeps:
  assumes "make_dirs ps z = (Inr u, z1)" "z_answers z = []"
  shows "z_answers z1 = []" "z_incoming z1 = z_incoming z" "z_sent z1 = z_sent z"
  using assms by (auto simp: make_dirs_def permit_def split: sum.splits)

lemma open_part_ready:
  assumes "open_part action e z = (None, z1)" "z_answers z = []"
  shows "z_answers z1 = []" "z_incoming z1 = z_incoming z" "z_sent z1 = z_sent z"
    "map_of (z_sessions z1) action = Some e"
proof -
  obtain z' where c: "clear_part (e_part e) z = (Inr (), z')"
    using assms(1) by (auto simp: open_part_def split: prod.splits sum.splits)
  note k = clear_part_keeps [OF c assms(2)]
  have "z1 = z'\<lparr>z_files := write_file (e_part e) [] (z_files z'), z_sessions := dset action e (z_sessions z')\<rparr>"
    using assms(1) k(1) by (simp add: open_part_def c permit_def)
  then show "z_answers z1 = []" "z_incoming z1 = z_incoming z" "z_sent z1 = z_sent z"
    "map_of (z_sessions z1) action = Some e" using k by (simp_all add: update_conv')
qed

lemma open_part_error: "open_part action e z \<noteq> (Some (InitReady a p fn), z1)"
  by (auto simp: open_part_def split: prod.splits sum.splits bool.splits)

lemma handle_init_ready:
  assumes "handle_init i z = (Inr (InitReady a p fn), z1)" "z_answers z = []"
  shows "\<exists>sha. given (i_action i) = Some a \<and> given (i_sha i) = Some sha \<and> z_answers z1 = [] \<and>
    map_of (z_sessions z1) a = Some (new_session z p
      (upper (strip (case given (i_operation i) of None \<Rightarrow> ''DEPLOY_PACKAGE'' | Some s \<Rightarrow> s))) sha fn (i_chunks i))"
proof -
  let ?op = "upper (strip (case given (i_operation i) of None \<Rightarrow> ''DEPLOY_PACKAGE'' | Some s \<Rightarrow> s))"
  obtain sha where given: "given (i_action i) = Some a" "given (i_sha i) = Some sha"
    and rest: "\<exists>z' u. make_dirs [z_incoming z, if ?op = ''SEND_FILE'' then z_sent z else z_incoming z] z = (Inr u, z') \<and>
      open_part a (new_session z p ?op sha fn (i_chunks i)) z' = (None, z1)"
    using assms(1) unfolding handle_init_def Let_def
    by (auto simp: open_part_error split: option.splits sum.splits if_splits prod.splits)
  then obtain z' u where "make_dirs [z_incoming z, if ?op = ''SEND_FILE'' then z_sent z else z_incoming z] z = (Inr u, z')"
    "open_part a (new_session z p ?op sha fn (i_chunks i)) z' = (None, z1)" by blast
  note open_part_ready [OF this(2) make_dirs_keeps(1) [OF this(1) assms(2)]]
  then show ?thesis using given by simp
qed

lemma upper_send: "upper (strip ''SEND_FILE'') = ''SEND_FILE''"
  and upper_update: "upper (strip ''UPDATE_CLIENT'') = ''UPDATE_CLIENT''"
  by code_simp+

lemma deploy_package_run:
  assumes "handle_init (deploy_init_frame action operation name (max 1 chunk_size) src) z = (Inr (InitReady a p fn), z1)"
    and "z_answers z = []" "k_data src \<noteq> []" "ilen (k_data src) \<le> DEPLOY_PACKAGE_MAX_BYTES" "operation \<noteq> []"
  shows "a = action \<and> (\<exists>e2 z2. z_answers z2 = [] \<and> z_incoming z2 = z_incoming z1 \<and>
    e2 = (new_session z p (upper (strip operation)) (k_sha src) fn (total_chunks (ilen (k_data src)) (max 1 chunk_size)))
      \<lparr>e_content := k_data src\<rparr> \<and>
    z_files z2 (e_part e2) = Some (FFile (k_data src)) \<and>
    is_dir (z_files z2) (e_final e2) = (e_final e2 \<noteq> e_part e2 \<and> is_dir (z_files z1) (e_final e2)) \<and>
    deploy_package env tag action operation name chunk_size src (Some z) =
      (case finish_package env tag action e2 z2 of
         (r, z3) \<Rightarrow> (deploy_outcome (k_package src) (ilen (k_data src)) (case r of None \<Rightarrow> [] | Some x \<Rightarrow> [x]), Some z3)))"
proof -
  let ?n = "max 1 chunk_size"
  let ?s = "new_session z p (upper (strip operation)) (k_sha src) fn (total_chunks (ilen (k_data src)) ?n)"
  have ready: "a = action \<and> z_answers z1 = [] \<and> map_of (z_sessions z1) action = Some ?s"
    using handle_init_ready [OF assms(1,2)] assms(5) by (auto simp: deploy_init_frame_def given_def split: if_splits)
  let ?w = "write_chunk action (k_data src) ?s z1"
  have "receive_all env tag (source_frames action ?n src) z1 =
      (case ?w of (e2, z2) \<Rightarrow>
         case finish_package env tag action e2 z2 of (r, z3) \<Rightarrow> ((case r of None \<Rightarrow> [] | Some x \<Rightarrow> [x]), z3))"
    unfolding source_frames_eq [OF less_le_trans [OF zero_less_one max.cobounded1] assms(3)]
    by (rule receive_frames) (use ready assms(3) in \<open>simp_all add: new_session_def Let_def total_chunks_whole ilen_pos_iff\<close>)
  then have "deploy_package env tag action operation name chunk_size src (Some z) =
      (case finish_package env tag action (fst ?w) (snd ?w) of
         (r, z3) \<Rightarrow> (deploy_outcome (k_package src) (ilen (k_data src)) (case r of None \<Rightarrow> [] | Some x \<Rightarrow> [x]), Some z3))"
    using assms(4) by (simp add: deploy_package_def Let_def assms(1) split: prod.splits)
  moreover have "fst ?w = ?s\<lparr>e_content := k_data src\<rparr>" by (simp add: write_chunk_def new_session_def Let_def)
  ultimately show ?thesis using ready
    by (intro conjI exI [of _ "fst ?w"] exI [of _ "snd ?w"])
      (simp_all add: write_chunk_def new_session_def Let_def write_file_def is_dir_def)
qed

lemma moved_absent [simp]: "map_of (moved p q ss) k = None \<longleftrightarrow> map_of ss k = None"
  by (induction ss) (auto simp: moved_def)

lemma update_never_success:
  assumes "e_operation e = ''UPDATE_CLIENT''" "finish_package env tag action e z = (Some r, z')"
  shows "r_status r \<noteq> ''SUCCESS''"
  using assms(2)
  by (auto simp: finish_package_def Let_def install_package_def assms(1) abort_def failed_def finished_def
      split: if_splits prod.splits sum.splits bool.splits)

lemma sent_file_placed:
  assumes "z_answers z = []" "sha256 env (e_content e) = e_sha e" "e_operation e = ''SEND_FILE''"
    and "z_files z (e_part e) = Some (FFile (e_content e))" "\<not> is_dir (z_files z) (e_final e)"
  shows "\<exists>z'. finish_package env tag action e z = (Some (finished action ''SUCCESS'' (e_sha e) (e_final e)), z') \<and>
    z_files z' (e_final e) = Some (FFile (e_content e)) \<and>
    (e_part e \<noteq> e_final e \<longrightarrow> z_files z' (e_part e) = None) \<and> map_of (z_sessions z') action = None"
  using assms
  by (auto simp: finish_package_def Let_def permit_def rename_path_def install_package_def unlink_def write_file_def delete_conv')


text \<open>The updater's result, reported after the restart, and the status the server stores for a report.\<close>

definition update_message :: "string \<Rightarrow> pydict \<Rightarrow> pydict" where
  "update_message stem result =
     fold (\<lambda>(k, v). dset k v) result
       [(''type'', PStr ''PACKAGE_RESULT''), (''action_id'', if truthy (dget result ''action_id'') then dget result ''action_id'' else PStr stem),
        (''status'', PStr (if dget result ''status'' = PStr ''COMPLETED'' then ''SUCCESS'' else ''FAILED'')),
        (''update_status'', dget result ''status'')]"

definition target_status :: "pydict \<Rightarrow> string" where
  "target_status message = (if dget message ''status'' = PStr ''SUCCESS'' then ''SUCCESS'' else ''FAILED'')"

lemma dget_fold_dset:
  "distinct (map fst new) \<Longrightarrow> dget (fold (\<lambda>(k, v). dset k v) new d) k = (case map_of new k of None \<Rightarrow> dget d k | Some v \<Rightarrow> v)"
  by (induction new arbitrary: d) (auto simp: dget_dset map_of_eq_None_iff rev_image_eqI split: option.splits)

lemma completed_update_stored_failed:
  assumes "distinct (map fst result)" "dget result ''status'' = PStr ''COMPLETED''"
  shows "target_status (update_message stem result) = ''FAILED''"
proof -
  have "map_of result ''status'' = Some (PStr ''COMPLETED'')"
    using assms(2) by (simp add: dget_def split: option.splits)
  then show ?thesis using assms(1) by (simp add: target_status_def update_message_def dget_fold_dset)
qed

text \<open>
  C32.  A client update is never reported as a success: the client answers \<open>STAGED\<close> when the updater is launched, and the
  server takes every status but \<open>SUCCESS\<close> for a failure; the report of a completed update is stored as \<open>FAILED\<close> as well, since
  the updater's own status replaces the one the message is built with.
\<close>

theorem client_update_reported_failed:
  assumes "handle_init (deploy_init_frame action ''UPDATE_CLIENT'' name (max 1 chunk_size) src) z = (Inr (InitReady a p fn), z1)"
    and "z_answers z = []" "k_data src \<noteq> []" "ilen (k_data src) \<le> DEPLOY_PACKAGE_MAX_BYTES"
    and "distinct (map fst result)" "dget result ''status'' = PStr ''COMPLETED''"
  shows "dget (fst (deploy_package env tag action ''UPDATE_CLIENT'' name chunk_size src (Some z))) ''status'' = PStr ''error'' \<and>
    target_status (update_message stem result) = ''FAILED''"
proof -
  obtain e2 z2 where run:
    "e2 = (new_session z p ''UPDATE_CLIENT'' (k_sha src) fn (total_chunks (ilen (k_data src)) (max 1 chunk_size)))\<lparr>e_content := k_data src\<rparr>"
    "deploy_package env tag action ''UPDATE_CLIENT'' name chunk_size src (Some z) =
      (case finish_package env tag action e2 z2 of
         (r, z3) \<Rightarrow> (deploy_outcome (k_package src) (ilen (k_data src)) (case r of None \<Rightarrow> [] | Some x \<Rightarrow> [x]), Some z3))"
    using deploy_package_run [OF assms(1-4), of env tag] upper_update by auto
  have op: "e_operation e2 = ''UPDATE_CLIENT''" unfolding run(1) by (simp add: new_session_def Let_def)
  obtain r z3 where f: "finish_package env tag action e2 z2 = (r, z3)" by force
  note late = completed_update_stored_failed [OF assms(5,6)]
  show ?thesis
  proof (cases r)
    case None
    then show ?thesis using late by (simp add: run(2) f deploy_outcome_def reply_error_def)
  next
    case (Some x)
    then show ?thesis using late update_never_success [OF op] f by (simp add: run(2) deploy_outcome_def)
  qed
qed

section \<open>Runs\<close>

definition demo_receiver :: receiver where
  "demo_receiver = \<lparr>z_files = map_of [([], FDir)], z_sessions = [], z_posix = True, z_answers = [], z_incoming = [''in''],
     z_sent = [''sent''], z_staging = [''staging''], z_current = [''current'']\<rparr>"

definition demo_file :: "string \<Rightarrow> package_source" where
  "demo_file data = \<lparr>k_package = ''p'', k_sha = data, k_data = data, k_from_file = True\<rparr>"


lemma client_update_reported_failed_witness:
  "\<exists>z1. handle_init (deploy_init_frame ''a'' ''UPDATE_CLIENT'' None (max 1 2) (demo_file ''hello'')) demo_receiver =
       (Inr (InitReady ''a'' ''p'' ''p.zip''), z1) \<and>
     dget (fst (deploy_package (demo_env [] NoPoll (\<lambda>_. None)) [] ''a'' ''UPDATE_CLIENT'' None 2 (demo_file ''hello'') (Some demo_receiver)))
       ''status'' = PStr ''error'' \<and>
     target_status (update_message ''a'' [(''status'', PStr ''COMPLETED'')]) = ''FAILED''"
proof -
  let ?init = "handle_init (deploy_init_frame ''a'' ''UPDATE_CLIENT'' None (max 1 2) (demo_file ''hello'')) demo_receiver"
  have "fst ?init = Inr (InitReady ''a'' ''p'' ''p.zip'')" by code_simp
  then have init: "?init = (Inr (InitReady ''a'' ''p'' ''p.zip''), snd ?init)" by (metis prod.collapse)
  have h: "z_answers demo_receiver = []" "k_data (demo_file ''hello'') \<noteq> []" "ilen (k_data (demo_file ''hello'')) \<le> DEPLOY_PACKAGE_MAX_BYTES"
    "distinct (map fst [(''status'', PStr ''COMPLETED'')])" "dget [(''status'', PStr ''COMPLETED'')] ''status'' = PStr ''COMPLETED''"
    by code_simp+
  show ?thesis
    using client_update_reported_failed [OF init h] init by blast
qed

text \<open>
  Two transfers of one package: the second request deletes the part file of the first, whose last chunk then moves the part
  file of the second in place and reports success for it.
\<close>

lemma shared_part_file:
  "let env = demo_env [] NoPoll (\<lambda>_. None);
       z1 = snd (handle_init (deploy_init_frame ''a'' ''SEND_FILE'' (Some ''f.txt'') 2 (demo_file ''hello'')) demo_receiver);
       z2 = snd (handle_init (deploy_init_frame ''b'' ''SEND_FILE'' (Some ''f.txt'') 2 (demo_file ''other'')) z1);
       (rs, z3) = receive_all env [] (source_frames ''a'' 2 (demo_file ''hello'')) z2
   in map r_status rs = [''SUCCESS''] \<and> z_files z3 [''sent'', ''f.txt''] = Some (FFile [])"
  by code_simp

text \<open>A member with an absolute name below \<open>updater\<close> is written where its name says, before any check of the package.\<close>

lemma preinstall_escapes:
  "preinstall [''home'', ''updater''] [demo_entry ''updater//etc/x'' ''evil''] (map_of [([], FDir)]) [''etc'', ''x''] = Some (FFile ''evil'')"
  by code_simp

end
