(* ===== verification/Retention.thy ===== *)
theory Retention
  imports FileSystem Stamp
begin

text \<open>
  Which raw packet captures a client deletes: \<open>client/app/retention_manager.py\<close>, the state tracker and the
  pruning pass.  Paths are relative to the storage root, whose name is \<open>q_root\<close>; a pass reads the clock once;
  ages are exact.  The reason of a decision is its \<open>verdict\<close>, one constructor per branch.
\<close>

section \<open>The states of captures\<close>

datatype state_file = NoStateFile | BadStateFile | States "(string \<times> pydict) list"

datatype save_answer = Saved | SaveFails | NoDirectory

record capture =
  g_size :: int
  g_mtime :: int
  g_removable :: bool

record retention =
  q_root :: string
  q_files :: "(path \<times> capture) list"
  q_dirs :: "(path \<times> bool) list"
  q_states :: "(string \<times> pydict) list"
  q_saved :: state_file
  q_answers :: "save_answer list"
  q_hours :: rat
  q_grace :: rat
  q_dry :: bool

definition PENDING :: string where "PENDING = ''PENDING''"
definition PROCESSING :: string where "PROCESSING = ''PROCESSING''"
definition SUCCESS :: string where "SUCCESS = ''SUCCESS''"
definition FAILED :: string where "FAILED = ''FAILED''"
definition DELETED :: string where "DELETED = ''DELETED''"

text \<open>\<open>_load\<close>: a missing or unreadable file leaves the tracker empty.\<close>

definition load_states :: "state_file \<Rightarrow> (string \<times> pydict) list" where
  "load_states f = (case f of States d \<Rightarrow> d | _ \<Rightarrow> [])"

definition save_states :: "(retention, unit) act" where
  "save_states r =
     (let r' = r\<lparr>q_answers := tl (q_answers r)\<rparr> in
      case (case q_answers r of [] \<Rightarrow> Saved | a # _ \<Rightarrow> a) of
        NoDirectory \<Rightarrow> (raise_exc OSError ''mkdir'', r')
      | SaveFails \<Rightarrow> (Inr (), r')
      | Saved \<Rightarrow> (Inr (), r'\<lparr>q_saved := States (q_states r)\<rparr>))"

text \<open>The entry of a key after a change of state; metadata that is not a dictionary cannot be updated.\<close>

definition new_entry :: "int \<Rightarrow> string \<Rightarrow> string option \<Rightarrow> pydict \<Rightarrow> pydict \<Rightarrow> unit result \<times> pydict" where
  "new_entry now st message meta e0 =
     (let e1 = dset ''updated_at'' (PStr (isoformat_utc now)) (dset ''state'' (PStr st) e0);
          e2 = (case given message of
                  Some m \<Rightarrow> dset ''error_message'' (PStr m) e1
                | None \<Rightarrow> if has_key e1 ''error_message'' \<and> st = SUCCESS then AList.delete ''error_message'' e1 else e1)
      in if meta = [] then (Inr (), e2)
         else (case dget_or e2 ''metadata'' (PDict []) of
                 PDict d \<Rightarrow> (Inr (), dset ''metadata'' (PDict (fold (\<lambda>(k, v). dset k v) meta d)) e2)
               | _ \<Rightarrow> (raise_exc AttributeError ''update'', e2)))"

definition set_state :: "int \<Rightarrow> string \<Rightarrow> string \<Rightarrow> string option \<Rightarrow> pydict \<Rightarrow> (retention, unit) act" where
  "set_state now key st message meta r =
     (let old = (case map_of (q_states r) key of None \<Rightarrow> [] | Some e \<Rightarrow> e);
          (ok, e) = new_entry now st message meta old;
          r1 = r\<lparr>q_states := dset key e (q_states r)\<rparr>
      in case ok of Inl err \<Rightarrow> (Inl err, r1) | Inr _ \<Rightarrow> save_states r1)"

definition mark_pending :: "int \<Rightarrow> string \<Rightarrow> (retention, unit) act" where
  "mark_pending now key = set_state now key PENDING None []"

definition mark_processing :: "int \<Rightarrow> string \<Rightarrow> (retention, unit) act" where
  "mark_processing now key = set_state now key PROCESSING None []"

definition mark_success :: "int \<Rightarrow> string \<Rightarrow> pydict \<Rightarrow> (retention, unit) act" where
  "mark_success now key meta = set_state now key SUCCESS None meta"

definition mark_failed :: "int \<Rightarrow> string \<Rightarrow> string \<Rightarrow> (retention, unit) act" where
  "mark_failed now key message = set_state now key FAILED (Some message) []"

definition mark_deleted :: "int \<Rightarrow> string \<Rightarrow> (retention, unit) act" where
  "mark_deleted now key = set_state now key DELETED None []"

text \<open>The state of a key that has a tracked, not empty, entry.\<close>

definition tracked_state :: "retention \<Rightarrow> string \<Rightarrow> pyval option" where
  "tracked_state r key =
     (case map_of (q_states r) key of None \<Rightarrow> None | Some e \<Rightarrow> if e = [] then None else Some (dget e ''state''))"

section \<open>Whether a capture may be deleted\<close>

definition rel_key :: "path \<Rightarrow> string" where
  "rel_key p = join ''/'' p"

definition date_like :: "string \<Rightarrow> bool" where
  "date_like s = (case s of [_, _, _, _, c, _, _, d, _, _] \<Rightarrow> c = CHR ''-'' \<and> d = CHR ''-'' | _ \<Rightarrow> False)"

definition name_stem :: "string \<Rightarrow> string" where
  "name_stem n = take (length n - length (name_suffix n)) n"

text \<open>The name of the directory two levels up, the stem, or the name itself, whichever has the shape of a date.\<close>

definition extract_date :: "string \<Rightarrow> path \<Rightarrow> string option" where
  "extract_date base p =
     (let grandparent = (case rev (base # p) of _ # _ # g # _ \<Rightarrow> g | _ \<Rightarrow> []); name = last (base # p) in
      if date_like grandparent then Some grandparent
      else if date_like (name_stem name) then Some (name_stem name)
      else if date_like name then Some name
      else None)"

text \<open>\<open>_is_flow_processing_successful\<close>; a state other than the three falls through to the next test.\<close>

definition by_state :: "pyval option \<Rightarrow> bool option" where
  "by_state st =
     (case st of
        None \<Rightarrow> None
      | Some v \<Rightarrow>
          if v = PStr FAILED \<or> v = PStr PROCESSING then Some False else if v = PStr SUCCESS then Some True else None)"

definition flows_processed :: "retention \<Rightarrow> int \<Rightarrow> string \<Rightarrow> path \<Rightarrow> bool" where
  "flows_processed r now date p =
     (case by_state (tracked_state r (rel_key p)) of
        Some b \<Rightarrow> b
      | None \<Rightarrow>
          (case by_state (tracked_state r date) of
             Some b \<Rightarrow> b
           | None \<Rightarrow>
               (case map_of (q_files r) [''network_telemetry'', date, ''flows.json''] of
                  Some c \<Rightarrow> g_size c > 0 \<or> date < format_date (now div DAY)
                | None \<Rightarrow> date < format_date (now div DAY))))"

text \<open>The age in hours: from the end of the day of the partition, or from the last write where the date is none.\<close>

definition partition_day :: "string \<Rightarrow> int option" where
  "partition_day date = (case split_char (CHR ''-'') date of [y, m, d] \<Rightarrow> strp_date y m d | _ \<Rightarrow> None)"

definition capture_age :: "int \<Rightarrow> string \<Rightarrow> capture \<Rightarrow> rat result" where
  "capture_age now date c =
     (case partition_day date of
        Some d \<Rightarrow>
          if DAY * (d + 1) > MAX_INSTANT then raise_exc OtherException ''date value out of range''
          else Inr (of_int (now - DAY * (d + 1)) / of_int HOUR)
      | None \<Rightarrow> Inr (of_int (now - g_mtime c) / of_int HOUR))"

datatype verdict =
  NoFile | NoPartition | MarkedFailed | MarkedProcessing | PendingToday | WrittenRecently | WithinWindow | NotProcessed
  | Eligible

definition check_capture :: "retention \<Rightarrow> int \<Rightarrow> path \<Rightarrow> verdict result" where
  "check_capture r now p =
     (case map_of (q_files r) p of
        None \<Rightarrow> Inr NoFile
      | Some c \<Rightarrow>
          (case extract_date (q_root r) p of
             None \<Rightarrow> Inr NoPartition
           | Some date \<Rightarrow>
               (let today = format_date (now div DAY);
                    st = (case tracked_state r (rel_key p) of None \<Rightarrow> tracked_state r date | Some s \<Rightarrow> Some s)
                in if st = Some (PStr FAILED) then Inr MarkedFailed
                   else if st = Some (PStr PROCESSING) then Inr MarkedProcessing
                   else if st = Some (PStr PENDING) \<and> date = today then Inr PendingToday
                   else if of_int (now - g_mtime c) / of_int USEC < q_grace r \<and> date = today then Inr WrittenRecently
                   else then_do (capture_age now date c)
                          (\<lambda>age. if age < q_hours r then Inr WithinWindow
                                 else if \<not> flows_processed r now date p then Inr NotProcessed
                                 else Inr Eligible))))"

section \<open>A pruning pass\<close>

text \<open>The captures: \<open>passive_packets/*.json\<close> and \<open>network_telemetry/<date>/packets/*.json\<close>.\<close>

definition is_candidate :: "path \<Rightarrow> bool" where
  "is_candidate p =
     (case p of
        [a, n] \<Rightarrow> a = ''passive_packets'' \<and> ends_with n ''.json''
      | [a, d, b, n] \<Rightarrow> a = ''network_telemetry'' \<and> b = ''packets'' \<and> ends_with n ''.json''
      | _ \<Rightarrow> False)"

definition collect_candidates :: "retention \<Rightarrow> path list" where
  "collect_candidates r = sort (filter is_candidate (map fst (q_files r)))"

record cleanup_detail =
  d_path :: path
  d_size :: int
  d_verdict :: verdict
  d_action :: string

record cleanup =
  s_evaluated :: int
  s_eligible :: int
  s_deleted :: int
  s_deleted_bytes :: int
  s_failed :: int
  s_preserved :: int
  s_details :: "cleanup_detail list"

definition no_cleanup :: cleanup where
  "no_cleanup = \<lparr>s_evaluated = 0, s_eligible = 0, s_deleted = 0, s_deleted_bytes = 0, s_failed = 0, s_preserved = 0, s_details = []\<rparr>"

definition note_detail :: "path \<Rightarrow> int \<Rightarrow> verdict \<Rightarrow> string \<Rightarrow> cleanup \<Rightarrow> cleanup" where
  "note_detail p n v action s =
     s\<lparr>s_details := s_details s @ [\<lparr>d_path = p, d_size = n, d_verdict = v, d_action = action\<rparr>]\<rparr>"

definition count_deleted :: "int \<Rightarrow> cleanup \<Rightarrow> cleanup" where
  "count_deleted n s = s\<lparr>s_deleted := s_deleted s + 1, s_deleted_bytes := s_deleted_bytes s + n\<rparr>"

definition count_failed :: "cleanup \<Rightarrow> cleanup" where
  "count_failed s = s\<lparr>s_failed := s_failed s + 1\<rparr>"

text \<open>Deleting one eligible capture: a state file whose directory cannot be made counts it as failed too.\<close>

definition delete_capture :: "int \<Rightarrow> path \<Rightarrow> int \<Rightarrow> (retention \<times> cleanup, unit) act" where
  "delete_capture now p n rs =
     (let (r, s) = rs in
      if (case map_of (q_files r) p of Some c \<Rightarrow> \<not> g_removable c | None \<Rightarrow> False)
      then (Inr (), r, note_detail p n Eligible ''DELETE_FAILED'' (count_failed s))
      else (let r1 = r\<lparr>q_files := AList.delete p (q_files r)\<rparr>; s1 = count_deleted n s in
            case mark_deleted now (rel_key p) r1 of
              (Inr _, r2) \<Rightarrow> (Inr (), r2, note_detail p n Eligible ''DELETED'' s1)
            | (Inl e, r2) \<Rightarrow>
                if exc_kind e = OSError then (Inr (), r2, note_detail p n Eligible ''DELETE_FAILED'' (count_failed s1))
                else (Inl e, r2, s1)))"

definition prune_file :: "int \<Rightarrow> bool \<Rightarrow> path \<Rightarrow> (retention \<times> cleanup, unit) act" where
  "prune_file now dry p rs =
     (let (r, s) = rs; n = (case map_of (q_files r) p of Some c \<Rightarrow> g_size c | None \<Rightarrow> 0) in
      case check_capture r now p of
        Inl e \<Rightarrow> (Inl e, rs)
      | Inr v \<Rightarrow>
          if v \<noteq> Eligible then (Inr (), r, note_detail p n v ''PRESERVED'' (s\<lparr>s_preserved := s_preserved s + 1\<rparr>))
          else (let s = s\<lparr>s_eligible := s_eligible s + 1\<rparr> in
                if dry then (Inr (), r, note_detail p n v ''DRY_RUN_DELETE'' (count_deleted n s))
                else delete_capture now p n (r, s)))"

fun prune_files :: "int \<Rightarrow> bool \<Rightarrow> path list \<Rightarrow> (retention \<times> cleanup, unit) act" where
  "prune_files now dry [] = return_act ()"
| "prune_files now dry (p # ps) = bind_act (prune_file now dry p) (\<lambda>_. prune_files now dry ps)"

text \<open>Empty \<open>packets\<close> directories are removed, where they can be.\<close>

definition is_packets_dir :: "path \<Rightarrow> bool" where
  "is_packets_dir p = (case p of [a, d, b] \<Rightarrow> a = ''network_telemetry'' \<and> b = ''packets'' | _ \<Rightarrow> False)"

definition cleanup_empty_dirs :: "bool \<Rightarrow> retention \<Rightarrow> retention" where
  "cleanup_empty_dirs dry r =
     r\<lparr>q_dirs := filter (\<lambda>(d, removable).
          \<not> (is_packets_dir d \<and> \<not> list_ex (strict_prefix d) (map fst (q_files r) @ map fst (q_dirs r)) \<and> \<not> dry \<and> removable))
        (q_dirs r)\<rparr>"

definition prune_expired_files :: "bool option \<Rightarrow> int \<Rightarrow> retention \<Rightarrow> cleanup result \<times> retention" where
  "prune_expired_files dry_run now r =
     (let dry = (case dry_run of None \<Rightarrow> q_dry r | Some b \<Rightarrow> b); ps = collect_candidates r in
      case prune_files now dry ps (r, no_cleanup\<lparr>s_evaluated := ilen ps\<rparr>) of
        (Inl e, r, s) \<Rightarrow> (Inl e, r)
      | (Inr _, r, s) \<Rightarrow> (Inr s, cleanup_empty_dirs dry r))"

definition run_retention :: "int \<Rightarrow> retention \<Rightarrow> cleanup result \<times> retention" where
  "run_retention now r = prune_expired_files None now r"

section \<open>The tracker survives a restart\<close>

lemma saved_states_loaded:
  assumes "q_answers r = []" "set_state now key st message meta r = (Inr u, r')"
  shows "load_states (q_saved r') = q_states r'"
    and "map_of (q_states r') key = Some (snd (new_entry now st message meta
           (case map_of (q_states r) key of None \<Rightarrow> [] | Some e \<Rightarrow> e)))"
  using assms by (auto simp: set_state_def save_states_def load_states_def Let_def split: prod.splits sum.splits)

section \<open>What a pass deletes\<close>

lemma set_state_frame:
  assumes "set_state now key st message meta r = (x, r')"
  shows "q_files r' = q_files r" "q_root r' = q_root r" "q_hours r' = q_hours r" "q_grace r' = q_grace r"
    "k \<noteq> key \<Longrightarrow> map_of (q_states r') k = map_of (q_states r) k"
  using assms by (auto simp: set_state_def save_states_def Let_def split: prod.splits sum.splits save_answer.splits list.splits)

definition capture_item :: "path \<Rightarrow> bool" where
  "capture_item p \<longleftrightarrow> is_candidate p \<and> list_all (\<lambda>n. CHR ''/'' \<notin> set n) p"

definition capture_due :: "int \<Rightarrow> retention \<Rightarrow> path \<Rightarrow> bool" where
  "capture_due now r p \<longleftrightarrow>
     check_capture r now p = Inr Eligible \<and> (case map_of (q_files r) p of None \<Rightarrow> False | Some c \<Rightarrow> g_removable c)"

definition prune_step :: "int \<Rightarrow> path \<Rightarrow> retention \<times> cleanup \<Rightarrow> retention \<times> cleanup" where
  "prune_step now p rs = snd (prune_file now False p rs)"

lemma check_missing: "map_of (q_files r) p = None \<Longrightarrow> check_capture r now p = Inr NoFile"
  by (simp add: check_capture_def)

lemma prune_step_states:
  "map_of (q_files (fst (prune_step now p (r, s)))) q =
     (if q = p \<and> capture_due now r p then None else map_of (q_files r) q)"
  "q_root (fst (prune_step now p (r, s))) = q_root r" "q_hours (fst (prune_step now p (r, s))) = q_hours r"
  "q_grace (fst (prune_step now p (r, s))) = q_grace r"
  "k \<noteq> rel_key p \<Longrightarrow> map_of (q_states (fst (prune_step now p (r, s)))) k = map_of (q_states r) k"
proof -
  obtain x r2 where m: "mark_deleted now (rel_key p) (r\<lparr>q_files := AList.delete p (q_files r)\<rparr>) = (x, r2)" by force
  note frame = set_state_frame [OF m [unfolded mark_deleted_def]]
  show "map_of (q_files (fst (prune_step now p (r, s)))) q =
     (if q = p \<and> capture_due now r p then None else map_of (q_files r) q)"
  "q_root (fst (prune_step now p (r, s))) = q_root r" "q_hours (fst (prune_step now p (r, s))) = q_hours r"
  "q_grace (fst (prune_step now p (r, s))) = q_grace r"
  "k \<noteq> rel_key p \<Longrightarrow> map_of (q_states (fst (prune_step now p (r, s)))) k = map_of (q_states r) k"
    using frame check_missing [of r p now]
    by (auto simp: prune_step_def prune_file_def delete_capture_def capture_due_def m Let_def delete_conv'
        split: sum.splits option.splits)
qed

lemma is_candidate_cases:
  assumes "is_candidate p"
  obtains (flat) n where "p = [''passive_packets'', n]"
    | (dated) d n where "p = [''network_telemetry'', d, ''packets'', n]"
  using assms by (auto simp: is_candidate_def split: list.splits)

lemma slash_free_split: "CHR ''/'' \<notin> set d \<Longrightarrow> CHR ''/'' \<notin> set d' \<Longrightarrow> d @ CHR ''/'' # x = d' @ CHR ''/'' # y \<Longrightarrow> d = d' \<and> x = y"
  by (induction d d' rule: list_induct2') auto

lemma rel_key_inj:
  assumes "capture_item p" "capture_item q" "rel_key p = rel_key q"
  shows "p = q"
proof -
  have c: "is_candidate p" "is_candidate q" using assms(1,2) by (simp_all add: capture_item_def)
  show ?thesis
  proof (cases rule: is_candidate_cases [OF c(1)])
    case (1 n)
    then show ?thesis using assms by (cases rule: is_candidate_cases [OF c(2)]) (auto simp: rel_key_def)
  next
    case p: (2 d n)
    then show ?thesis
    proof (cases rule: is_candidate_cases [OF c(2)])
      case (1 m)
      then show ?thesis using assms(3) p by (simp add: rel_key_def)
    next
      case (2 d' m)
      then have "d @ CHR ''/'' # ''packets/'' @ n = d' @ CHR ''/'' # ''packets/'' @ m" "CHR ''/'' \<notin> set d" "CHR ''/'' \<notin> set d'"
        using assms p by (simp_all add: rel_key_def capture_item_def)
      from slash_free_split [OF this(2,3,1)] show ?thesis using p 2 by simp
    qed
  qed
qed

lemma date_like_length: "date_like s \<Longrightarrow> length s = 10"
  by (auto simp: date_like_def split: list.splits)

lemma rel_key_no_date: "capture_item p \<Longrightarrow> extract_date base q = Some date \<Longrightarrow> date \<noteq> rel_key p"
proof -
  assume p: "capture_item p" and "extract_date base q = Some date"
  then have "length date = 10" by (auto simp: extract_date_def Let_def date_like_length split: if_splits)
  moreover have "is_candidate p" using p by (simp add: capture_item_def)
  then have "length (rel_key p) > 10" by (cases rule: is_candidate_cases) (simp_all add: rel_key_def)
  ultimately show "date \<noteq> rel_key p" by auto
qed

lemma check_after_step:
  assumes "capture_item p" "capture_item q" "q \<noteq> p"
  shows "check_capture (fst (prune_step now p (r, s))) now q = check_capture r now q"
proof -
  let ?r = "fst (prune_step now p (r, s))"
  note st = prune_step_states [where now = now and p = p and r = r and s = s]
  have same: "map_of (q_files ?r) q = map_of (q_files r) q" using assms(3) by (simp add: st)
  have flows: "map_of (q_files ?r) [''network_telemetry'', date, ''flows.json''] = map_of (q_files r) [''network_telemetry'', date, ''flows.json'']" for date
    using assms(1) by (auto simp: st capture_item_def is_candidate_def)
  have key: "tracked_state ?r (rel_key q) = tracked_state r (rel_key q)"
  proof -
    have "rel_key q \<noteq> rel_key p" using rel_key_inj [OF assms(1,2)] assms(3) by metis
    then show ?thesis by (simp add: tracked_state_def st)
  qed
  have date: "tracked_state ?r date = tracked_state r date" if "extract_date (q_root r) q = Some date" for date
    using rel_key_no_date [OF assms(1) that] by (simp add: tracked_state_def st)
  show ?thesis
  proof (cases "extract_date (q_root r) q")
    case None
    show ?thesis unfolding check_capture_def same st(2) None option.case ..
  next
    case (Some d)
    have processed: "flows_processed ?r now d q = flows_processed r now d q"
      unfolding flows_processed_def key date [OF Some] flows ..
    show ?thesis unfolding check_capture_def same st(2,3,4) key Some option.case date [OF Some] processed ..
  qed
qed

interpretation cp: pruning "prune_step now" "\<lambda>rs p. has_key (q_files (fst rs)) p" "\<lambda>rs. capture_due now (fst rs)" capture_item
proof (unfold_locales, goal_cases)
  case (1 p rs q)
  then show ?case by (cases rs) (simp add: prune_step_states)
next
  case (2 p q rs)
  then show ?case by (cases rs) (simp add: capture_due_def check_after_step prune_step_states)
qed

lemma prune_files_fold: "prune_files now False ps rs = (Inr (), rs') \<Longrightarrow> rs' = fold (prune_step now) ps rs"
  by (induction ps arbitrary: rs) (auto simp: return_act_def bind_act_Inr prune_step_def)

lemma cleanup_empty_dirs_files [simp]: "q_files (cleanup_empty_dirs dry r) = q_files r"
  by (simp add: cleanup_empty_dirs_def)

lemma prune_file_dry: "fst (snd (prune_file now True p rs)) = fst rs"
  by (cases rs) (auto simp: prune_file_def Let_def split: sum.splits)

lemma prune_files_dry: "fst (snd (prune_files now True ps rs)) = fst rs"
proof (induction ps arbitrary: rs)
  case (Cons p ps)
  obtain x rs1 where "prune_file now True p rs = (x, rs1)" by (cases "prune_file now True p rs")
  then show ?case using Cons.IH [of rs1] prune_file_dry [of now p rs] by (cases x) (simp_all add: bind_act_def)
qed (simp add: return_act_def)

lemma check_eligible:
  assumes "check_capture r now p = Inr Eligible"
  shows "\<exists>c date age. map_of (q_files r) p = Some c \<and> extract_date (q_root r) p = Some date \<and>
    capture_age now date c = Inr age \<and> q_hours r \<le> age \<and> flows_processed r now date p \<and>
    (case tracked_state r (rel_key p) of None \<Rightarrow> tracked_state r date | Some st \<Rightarrow> Some st)
       \<notin> {Some (PStr FAILED), Some (PStr PROCESSING)}"
proof -
  obtain c date where c: "map_of (q_files r) p = Some c" "extract_date (q_root r) p = Some date"
    using assms by (auto simp: check_capture_def split: option.splits)
  then show ?thesis using assms
    by (auto simp: check_capture_def Let_def then_do_eq_Inr split: if_splits)
qed


text \<open>A pending capture of a past day is deleted like one that was processed; a date at the end of the calendar stops every pass.\<close>

lemma pending_capture_deleted:
  assumes "map_of (q_files r) p = Some c" "extract_date (q_root r) p = Some date" "date < format_date (now div DAY)"
    and "capture_age now date c = Inr age" "q_hours r \<le> age"
    and "tracked_state r (rel_key p) = Some (PStr PENDING)" "tracked_state r date = None"
  shows "check_capture r now p = Inr Eligible"
proof -
  have st: "PENDING \<noteq> FAILED" "PENDING \<noteq> PROCESSING" "PENDING \<noteq> SUCCESS"
    by (simp_all add: FAILED_def PROCESSING_def PENDING_def SUCCESS_def)
  have "date \<noteq> format_date (now div DAY)" using assms(3) by simp
  moreover have "flows_processed r now date p"
    using assms(3) st by (simp add: flows_processed_def by_state_def assms(6,7) split: option.split)
  ultimately show ?thesis using assms(5) st by (simp add: check_capture_def Let_def assms(1,2,4,6))
qed

definition demo_retention :: "string \<Rightarrow> retention" where
  "demo_retention day =
     \<lparr>q_root = ''storage'', q_files = [([''passive_packets'', day @ ''.json''], \<lparr>g_size = 10, g_mtime = 0, g_removable = True\<rparr>)],
      q_dirs = [], q_states = [], q_saved = NoStateFile, q_answers = [], q_hours = 48, q_grace = 300, q_dry = False\<rparr>"

lemma calendar_end_stops_pass:
  "\<exists>e r. prune_expired_files (Some False) 1700000000000000 (demo_retention ''9999-12-31'') = (Inl e, r)"
proof -
  have "case prune_expired_files (Some False) 1700000000000000 (demo_retention ''9999-12-31'') of (Inl e, r) \<Rightarrow> True | _ \<Rightarrow> False"
    by code_simp
  then show ?thesis by (auto split: prod.splits sum.splits)
qed


end
