(* ===== verification/Captures.thy ===== *)
theory Captures
  imports Formats "HOL-Library.Multiset"
begin

text \<open>
  Which capture databases the server deletes: \<open>server/server_components/kismet_retention.py\<close> (age and disk space)
  and \<open>kismet_rotator.py\<close> (rotation through Kismet's interface, deletion of processed captures).  A directory is
  the association list of its files; times are exact, in microseconds since the epoch.
\<close>

section \<open>Retention\<close>

record kfile =
  k_size :: int
  k_mtime :: int
  k_removable :: bool

record kdir =
  kd_present :: bool
  kd_files :: "(string \<times> kfile) list"
  kd_free :: int
  kd_hours :: rat
  kd_min_free :: int
  kd_grace :: rat
  kd_dry :: bool

record kdetail =
  kx_file :: string
  kx_size :: int
  kx_reason :: string
  kx_names :: "string list"
  kx_action :: string

record ksummary =
  ks_total :: int
  ks_bytes :: int
  ks_eligible :: int
  ks_deleted :: int
  ks_deleted_bytes :: int
  ks_preserved :: int
  ks_free :: int
  ks_dry :: bool
  ks_details :: "kdetail list"

definition sidecars_for :: "string \<Rightarrow> string list" where
  "sidecars_for name = map (\<lambda>s. name @ s) [''-wal'', ''-shm'', ''-journal'', ''.wal'', ''.shm'', ''.journal'']"

definition hold_markers_for :: "string \<Rightarrow> string list" where
  "hold_markers_for name = map (\<lambda>s. name @ s) [''.hold'', ''.investigation-hold'']"

definition kismet_files :: "kdir \<Rightarrow> (string \<times> kfile) list" where
  "kismet_files d = filter (\<lambda>(n, _). ends_with n ''.kismet'') (kd_files d)"

definition by_age :: "(string \<times> kfile) list \<Rightarrow> (string \<times> kfile) list" where
  "by_age fs = sort_key (\<lambda>(_, f). k_mtime f) fs"

text \<open>What is decided for a capture: kept for a reason, with the files that are the reason, or deleted for one.\<close>

datatype decision = Keep string "string list" | Remove string

definition decide :: "int \<Rightarrow> string \<Rightarrow> kdir \<Rightarrow> string \<Rightarrow> kfile \<Rightarrow> decision" where
  "decide now active d n f =
     (let sidecars = filter (has_key (kd_files d)) (sidecars_for n);
          holds = filter (has_key (kd_files d)) (hold_markers_for n);
          expired = (of_int (k_mtime f) < of_int now - kd_hours d * 3600 * 1000000);
          pressure = (kd_free d < kd_min_free d)
      in if n = active then Keep ''ACTIVE_TARGET'' []
         else if of_int (k_mtime f) > of_int now - kd_grace d * 1000000 then Keep ''RECENT_WRITE_GRACE'' []
         else if sidecars \<noteq> [] then Keep ''ACTIVE_SIDECAR'' sidecars
         else if holds \<noteq> [] then Keep ''INVESTIGATION_HOLD'' holds
         else if expired then Remove ''EXPIRED''
         else if pressure then Remove ''DISK_PRESSURE_RESERVE''
         else Keep ''WITHIN_RETENTION_WINDOW'' [])"

definition kdetail_of :: "string \<Rightarrow> kfile \<Rightarrow> string \<Rightarrow> string list \<Rightarrow> string \<Rightarrow> kdetail" where
  "kdetail_of n f reason names action =
     \<lparr>kx_file = n, kx_size = k_size f, kx_reason = reason, kx_names = names, kx_action = action\<rparr>"

definition keep_capture :: "kdetail \<Rightarrow> ksummary \<Rightarrow> ksummary" where
  "keep_capture x s = s\<lparr>ks_preserved := ks_preserved s + 1, ks_details := ks_details s @ [x]\<rparr>"

definition drop_capture :: "kdetail \<Rightarrow> ksummary \<Rightarrow> ksummary" where
  "drop_capture x s =
     s\<lparr>ks_deleted := ks_deleted s + 1, ks_deleted_bytes := ks_deleted_bytes s + kx_size x, ks_details := ks_details s @ [x]\<rparr>"

definition prune_capture :: "int \<Rightarrow> bool \<Rightarrow> string \<Rightarrow> string \<times> kfile \<Rightarrow> kdir \<times> ksummary \<Rightarrow> kdir \<times> ksummary" where
  "prune_capture now dry active nf ds =
     (let (n, f) = nf; (d, s) = ds in
      case decide now active d n f of
        Keep reason names \<Rightarrow> (d, keep_capture (kdetail_of n f reason names ''PRESERVED'') s)
      | Remove reason \<Rightarrow>
          (let s = s\<lparr>ks_eligible := ks_eligible s + 1\<rparr> in
           if dry then (d, drop_capture (kdetail_of n f reason [] ''WOULD_DELETE'') s)
           else if \<not> k_removable f then (d, keep_capture (kdetail_of n f ''DELETE_FAILED'' [] ''PRESERVED'') s)
           else (d\<lparr>kd_files := AList.delete n (kd_files d)\<rparr>, drop_capture (kdetail_of n f reason [] ''DELETED'') s)))"

definition prune_expired_captures :: "bool option \<Rightarrow> int \<Rightarrow> kdir \<Rightarrow> ksummary \<times> kdir" where
  "prune_expired_captures dry_run now d =
     (let dry = (case dry_run of None \<Rightarrow> kd_dry d | Some b \<Rightarrow> b);
          s0 = \<lparr>ks_total = 0, ks_bytes = 0, ks_eligible = 0, ks_deleted = 0, ks_deleted_bytes = 0, ks_preserved = 0, ks_free = 0,
                ks_dry = dry, ks_details = []\<rparr>
      in if \<not> kd_present d then (s0, d)
         else (let fs = kismet_files d;
                   s = s0\<lparr>ks_free := kd_free d, ks_total := ilen fs, ks_bytes := sum_list (map (k_size \<circ> snd) fs)\<rparr>
               in if fs = [] then (s, d)
                  else (let (d', s') = fold (prune_capture now dry (fst (last (by_age fs)))) (by_age fs) (d, s) in (s', d'))))"

section \<open>Rotation\<close>

text \<open>
  \<open>api\<close> answers a request to Kismet with status and body or a connection error, \<open>json\<close> parses a body, \<open>show\<close> writes a
  value into a text.  The requests made are returned with the result.
\<close>

record rotation =
  rot_success :: bool
  rot_closed_uuid :: pyval
  rot_closed_path :: pyval
  rot_new_uuid :: pyval
  rot_new_path :: pyval
  rot_error :: string

definition rotation_failed :: "pyval \<Rightarrow> pyval \<Rightarrow> string \<Rightarrow> rotation" where
  "rotation_failed uuid path msg =
     \<lparr>rot_success = False, rot_closed_uuid = uuid, rot_closed_path = path, rot_new_uuid = PNone, rot_new_path = PNone, rot_error = msg\<rparr>"

definition get_active_logs :: "(string \<Rightarrow> (int \<times> string) result) \<Rightarrow> (string \<Rightarrow> pyval option) \<Rightarrow> pyval result" where
  "get_active_logs api json =
     then_do (api ''logging/active.json'')
       (\<lambda>(status, body). if status \<noteq> 200 then raise_exc RuntimeError (''Kismet API returned HTTP '' @ int_str status)
          else (case json body of None \<Rightarrow> raise_exc RuntimeError ''Invalid JSON from Kismet active logging API'' | Some v \<Rightarrow> Inr v))"

definition get_field :: "pyval \<Rightarrow> string \<Rightarrow> pyval result" where
  "get_field v k = (case v of PDict d \<Rightarrow> Inr (dget d k) | _ \<Rightarrow> raise_exc AttributeError ''get'')"

definition equals_one :: "pyval \<Rightarrow> bool" where
  "equals_one v \<longleftrightarrow> v = PInt 1 \<or> v = PBool True \<or> v = PFloat 1"

definition log_matches :: "string \<Rightarrow> pyval \<Rightarrow> bool result" where
  "log_matches log_class l =
     (case l of
        PDict d \<Rightarrow>
          then_do (get_field (dget_or d ''kismet.log.type_driver'' (PDict [])) ''kismet.logfile.type.class'')
            (\<lambda>c. Inr (c = PStr log_class \<or> equals_one (dget d ''kismet.logfile.open'')))
      | _ \<Rightarrow> raise_exc AttributeError ''get'')"

fun find_log :: "string \<Rightarrow> pyval list \<Rightarrow> pyval option result" where
  "find_log log_class [] = Inr None"
| "find_log log_class (x # xs) =
     then_do (log_matches log_class x) (\<lambda>b. if b then Inr (Some x) else find_log log_class xs)"

text \<open>The log to close: the first that matches, or else the first.\<close>

definition target_log :: "string \<Rightarrow> pyval list \<Rightarrow> pyval result" where
  "target_log log_class logs =
     then_do (find_log log_class logs)
       (\<lambda>t. Inr (case t of Some l \<Rightarrow> if truthy l then l else hd logs | None \<Rightarrow> hd logs))"

definition start_log ::
  "(string \<Rightarrow> (int \<times> string) result) \<Rightarrow> (string \<Rightarrow> pyval option) \<Rightarrow> string \<Rightarrow> pyval \<Rightarrow> pyval \<Rightarrow> rotation result" where
  "start_log api json log_class uuid path =
     then_do (api (''logging/by-class/'' @ log_class @ ''/start.cmd''))
       (\<lambda>(status, body).
          if status \<noteq> 200 then Inr (rotation_failed uuid path (''start new log failed HTTP '' @ int_str status))
          else (let new = (case json body of None \<Rightarrow> PDict [] | Some v \<Rightarrow> v) in
                then_do (get_field new ''kismet.logfile.uuid'')
                  (\<lambda>u. then_do (get_field new ''kismet.logfile.path'')
                     (\<lambda>p. Inr \<lparr>rot_success = True, rot_closed_uuid = uuid, rot_closed_path = path, rot_new_uuid = u, rot_new_path = p,
                              rot_error = []\<rparr>))))"

definition rotate_log ::
  "(string \<Rightarrow> (int \<times> string) result) \<Rightarrow> (string \<Rightarrow> pyval option) \<Rightarrow> (pyval \<Rightarrow> string) \<Rightarrow> string \<Rightarrow> rotation result \<times> string list" where
  "rotate_log api json show log_class =
     (let asked = [''logging/active.json''] in
      case get_active_logs api json of
        Inl e \<Rightarrow> (Inr (rotation_failed PNone PNone (''failed to query active logs: '' @ exc_msg e)), asked)
      | Inr v \<Rightarrow>
          if \<not> truthy v then (Inr (rotation_failed PNone PNone ''no active logs found in Kismet''), asked)
          else (case (case v of PList logs \<Rightarrow> target_log log_class logs | _ \<Rightarrow> raise_exc AttributeError ''get'') of
                  Inl e \<Rightarrow> (Inl e, asked)
                | Inr l \<Rightarrow>
                    (case (get_field l ''kismet.logfile.uuid'', get_field l ''kismet.logfile.path'') of
                       (Inr uuid, Inr path) \<Rightarrow>
                         if \<not> truthy uuid then (Inr (rotation_failed PNone PNone ''active log has no UUID''), asked)
                         else (let stop = ''logging/by-uuid/'' @ show uuid @ ''/stop.cmd'' in
                               case api stop of
                                 Inl e \<Rightarrow> (Inl e, asked @ [stop])
                               | Inr (status, body) \<Rightarrow>
                                   if status \<noteq> 200
                                   then (Inr (rotation_failed uuid path (''stop log failed HTTP '' @ int_str status)), asked @ [stop])
                                   else (start_log api json log_class uuid path,
                                         asked @ [stop, ''logging/by-class/'' @ log_class @ ''/start.cmd'']))
                     | (Inl e, _) \<Rightarrow> (Inl e, asked)
                     | (_, Inl e) \<Rightarrow> (Inl e, asked))))"

section \<open>Deleting processed captures\<close>

text \<open>
  \<open>resolve\<close> is the resolution of a path (\<open>None\<close>: an error); the captures are files of one directory, under their
  resolved paths.  \<open>active\<close> is the answer of Kismet.
\<close>

fun lists_path :: "(string \<Rightarrow> string option) \<Rightarrow> string \<Rightarrow> pyval list \<Rightarrow> bool" where
  "lists_path resolve p [] = False"
| "lists_path resolve p (x # xs) =
     (case x of
        PDict d \<Rightarrow>
          (case dget_or d ''kismet.logfile.path'' (PStr []) of
             PStr s \<Rightarrow>
               if s = [] then lists_path resolve p xs
               else (case resolve s of None \<Rightarrow> False | Some q \<Rightarrow> q = p \<or> lists_path resolve p xs)
           | v \<Rightarrow> if truthy v then False else lists_path resolve p xs)
      | _ \<Rightarrow> False)"

definition is_file_active :: "(string \<Rightarrow> string option) \<Rightarrow> pyval result \<Rightarrow> int \<Rightarrow> (string \<times> kfile) list \<Rightarrow> string \<Rightarrow> bool" where
  "is_file_active resolve active now fs p \<longleftrightarrow>
     (case active of Inr (PList xs) \<Rightarrow> lists_path resolve p xs | _ \<Rightarrow> False)
     \<or> list_ex (\<lambda>s. has_key fs (p @ s)) [''-wal'', ''-journal'', ''-shm'']
     \<or> (case map_of fs p of None \<Rightarrow> True | Some f \<Rightarrow> now - k_mtime f < 120 * 1000000)"

text \<open>The index of the interval manifests; reading one stops at its first odd source.\<close>

type_synonym manifest_index = "(string \<times> (pyval \<times> bool) list) list"

fun add_sources :: "(string \<Rightarrow> string option) \<Rightarrow> pyval \<times> bool \<Rightarrow> pyval list \<Rightarrow> manifest_index \<Rightarrow> manifest_index" where
  "add_sources resolve st [] ix = ix"
| "add_sources resolve st (x # xs) ix =
     (case x of
        PDict d \<Rightarrow>
          (case dget d ''path'' of
             PStr s \<Rightarrow>
               if s = [] then add_sources resolve st xs ix
               else (case resolve s of
                       None \<Rightarrow> add_sources resolve st xs ix
                     | Some q \<Rightarrow> add_sources resolve st xs (dset q ((case map_of ix q of None \<Rightarrow> [] | Some es \<Rightarrow> es) @ [st]) ix))
           | v \<Rightarrow> if truthy v then ix else add_sources resolve st xs ix)
      | _ \<Rightarrow> ix)"

definition add_manifest :: "(string \<Rightarrow> string option) \<Rightarrow> pyval option \<Rightarrow> manifest_index \<Rightarrow> manifest_index" where
  "add_manifest resolve m ix =
     (case m of
        Some (PDict d) \<Rightarrow>
          (case dget_or d ''source_captures'' (PList []) of
             PList xs \<Rightarrow> add_sources resolve (dget_or d ''status'' (PStr []), truthy (dget_or d ''safe_for_raw_cleanup'' (PBool False))) xs ix
           | _ \<Rightarrow> ix)
      | _ \<Rightarrow> ix)"

definition manifest_map :: "(string \<Rightarrow> string option) \<Rightarrow> pyval option list \<Rightarrow> manifest_index" where
  "manifest_map resolve ms = fold (add_manifest resolve) ms []"

record raw_cleanup =
  rc_evaluated :: int
  rc_deleted :: "string list"
  rc_freed :: int
  rc_active :: "string list"
  rc_unprocessed :: "string list"
  rc_errors :: "string list"

text \<open>\<open>last_packet\<close> is the time of the last packet in a capture, in seconds; \<open>None\<close> when the database cannot be read.\<close>

definition clean_capture ::
  "(string \<Rightarrow> string option) \<Rightarrow> pyval result \<Rightarrow> (string \<Rightarrow> rat option) \<Rightarrow> int \<Rightarrow> bool \<Rightarrow> manifest_index \<Rightarrow> string \<Rightarrow>
   (string \<times> kfile) list \<times> raw_cleanup \<Rightarrow> (string \<times> kfile) list \<times> raw_cleanup" where
  "clean_capture resolve active last_packet now dry ix p fr =
     (let (fs, r) = fr; entries = (case map_of ix p of None \<Rightarrow> [] | Some es \<Rightarrow> es) in
      if is_file_active resolve active now fs p then (fs, r\<lparr>rc_active := rc_active r @ [p]\<rparr>)
      else if entries = [] \<or> \<not> list_all (\<lambda>(st, _). st = PStr ''COMPLETED'') entries
      then (fs, r\<lparr>rc_unprocessed := rc_unprocessed r @ [p]\<rparr>)
      else if (case last_packet p of None \<Rightarrow> False | Some t \<Rightarrow> of_int now / 1000000 - t < 120)
      then (fs, r\<lparr>rc_active := rc_active r @ [p]\<rparr>)
      else (case map_of fs p of
              None \<Rightarrow> (fs, r\<lparr>rc_errors := rc_errors r @ [p]\<rparr>)
            | Some f \<Rightarrow>
                if dry then (fs, r\<lparr>rc_deleted := rc_deleted r @ [p], rc_freed := rc_freed r + k_size f\<rparr>)
                else if \<not> k_removable f then (fs, r\<lparr>rc_errors := rc_errors r @ [p]\<rparr>)
                else (AList.delete p fs, r\<lparr>rc_deleted := rc_deleted r @ [p], rc_freed := rc_freed r + k_size f\<rparr>)))"

definition cleanup_verified_captures ::
  "(string \<Rightarrow> string option) \<Rightarrow> pyval result \<Rightarrow> (string \<Rightarrow> rat option) \<Rightarrow> int \<Rightarrow> bool \<Rightarrow> pyval option list \<Rightarrow>
   (string \<times> kfile) list \<Rightarrow> raw_cleanup \<times> (string \<times> kfile) list" where
  "cleanup_verified_captures resolve active last_packet now dry manifests fs =
     (let captures = map fst (by_age (filter (\<lambda>(n, _). ends_with n ''.kismet'') fs));
          (fs', r) = fold (clean_capture resolve active last_packet now dry (manifest_map resolve manifests)) captures
            (fs, \<lparr>rc_evaluated = ilen captures, rc_deleted = [], rc_freed = 0, rc_active = [], rc_unprocessed = [], rc_errors = []\<rparr>)
      in (r, fs'))"

section \<open>What the pruning pass deletes\<close>

lemma sidecar_no_capture: "x \<in> set (sidecars_for q @ hold_markers_for q) \<Longrightarrow> \<not> ends_with x ''.kismet''"
  by (auto simp: sidecars_for_def hold_markers_for_def ends_with_def suffix_to_prefix)

definition file_of :: "(string \<times> kfile) list \<Rightarrow> string \<Rightarrow> kfile" where
  "file_of fs n = (case map_of fs n of Some f \<Rightarrow> f | None \<Rightarrow> \<lparr>k_size = 0, k_mtime = 0, k_removable = False\<rparr>)"

definition prune_name :: "int \<Rightarrow> string \<Rightarrow> (string \<times> kfile) list \<Rightarrow> string \<Rightarrow> kdir \<times> ksummary \<Rightarrow> kdir \<times> ksummary" where
  "prune_name now active fs n = prune_capture now False active (n, file_of fs n)"

definition capture_doomed :: "int \<Rightarrow> string \<Rightarrow> (string \<times> kfile) list \<Rightarrow> kdir \<Rightarrow> string \<Rightarrow> bool" where
  "capture_doomed now active fs d n \<longleftrightarrow>
     (case decide now active d n (file_of fs n) of Keep _ _ \<Rightarrow> False | Remove _ \<Rightarrow> k_removable (file_of fs n))"

lemma prune_name_dir:
  "fst (prune_name now active fs n ds) =
     (if capture_doomed now active fs (fst ds) n then (fst ds)\<lparr>kd_files := AList.delete n (kd_files (fst ds))\<rparr> else fst ds)"
  by (auto simp: prune_name_def prune_capture_def capture_doomed_def Let_def split: decision.splits prod.splits)

lemma decide_delete:
  assumes "ends_with p ''.kismet''"
  shows "decide now active (d\<lparr>kd_files := AList.delete p (kd_files d)\<rparr>) q f = decide now active d q f"
proof -
  have "filter (has_key (AList.delete p (kd_files d))) xs = filter (has_key (kd_files d)) xs"
    if "set xs \<subseteq> set (sidecars_for q @ hold_markers_for q)" for xs
    using that sidecar_no_capture [of _ q] assms by (intro filter_cong) (auto simp: delete_conv')
  from this [of "sidecars_for q"] this [of "hold_markers_for q"] show ?thesis by (simp add: decide_def Let_def)
qed

interpretation kp: pruning "prune_name now active fs" "\<lambda>ds n. has_key (kd_files (fst ds)) n"
  "\<lambda>ds. capture_doomed now active fs (fst ds)" "\<lambda>n. ends_with n ''.kismet''"
  by unfold_locales (auto simp: prune_name_dir delete_conv' capture_doomed_def decide_delete)

lemma by_age_simps: "set (by_age fs) = set fs" "map fst (by_age fs) = [] \<longleftrightarrow> fs = []" "distinct (map fst (by_age fs)) = distinct (map fst fs)"
proof -
  show set: "set (by_age fs) = set fs" by (simp add: by_age_def)
  show "map fst (by_age fs) = [] \<longleftrightarrow> fs = []" using set by (metis map_is_Nil_conv set_empty)
  have "mset (by_age fs) = mset fs" by (simp add: by_age_def)
  then show "distinct (map fst (by_age fs)) = distinct (map fst fs)"
    by (metis mset_eq_imp_distinct_iff mset_map)
qed

lemma by_age_last: "(n, f) \<in> set fs \<Longrightarrow> k_mtime f \<le> k_mtime (snd (last (by_age fs)))"
  using sorted_key_last [of "\<lambda>(_, f). k_mtime f" "by_age fs" "(n, f)"] by_age_simps(1) [of fs]
  by (simp add: by_age_def split_beta)

lemma fold_prune_names:
  assumes "distinct (map fst fs)" "set xs \<subseteq> set fs"
  shows "fold (prune_capture now False active) xs = fold (prune_name now active fs) (map fst xs)"
proof -
  have "prune_capture now False active x = prune_name now active fs (fst x)" if x: "x \<in> set xs" for x
  proof -
    have "map_of fs (fst x) = Some (snd x)" using x assms by (intro map_of_is_SomeI) auto
    then show ?thesis by (simp add: prune_name_def file_of_def)
  qed
  then have "fold (prune_capture now False active) xs = fold (\<lambda>x. prune_name now active fs (fst x)) xs" by (intro ext fold_cong) simp_all
  then show ?thesis by (simp add: fold_map comp_def)
qed

text \<open>The conditions under which the pass deletes a capture, as the module states them.\<close>

definition expired_capture :: "int \<Rightarrow> string \<Rightarrow> kdir \<Rightarrow> string \<Rightarrow> kfile \<Rightarrow> bool" where
  "expired_capture now active d n f \<longleftrightarrow>
     n \<noteq> active \<and> of_int (k_mtime f) \<le> of_int now - kd_grace d * 1000000
     \<and> list_all (\<lambda>x. \<not> has_key (kd_files d) x) (sidecars_for n @ hold_markers_for n)
     \<and> (of_int (k_mtime f) < of_int now - kd_hours d * 3600 * 1000000 \<or> kd_free d < kd_min_free d)"

lemma doomed_iff:
  assumes "map_of fs n = Some f"
  shows "capture_doomed now active fs d n \<longleftrightarrow> expired_capture now active d n f \<and> k_removable f"
  by (auto simp: capture_doomed_def decide_def expired_capture_def file_of_def assms Let_def list_all_iff filter_empty_conv
      split: if_splits)

lemma dry_run_step: "fst (prune_capture now True active x (d, s)) = d"
  by (cases x; cases "decide now active d (fst x) (snd x)") (simp_all add: prune_capture_def Let_def)

lemma dry_run_fold: "fst (fold (prune_capture now True active) xs ds) = fst ds"
proof (induction xs arbitrary: ds)
  case (Cons x xs)
  then show ?case using dry_run_step [of now active x "fst ds" "snd ds"] by simp
qed simp

lemma prune_pass:
  "kd_present d \<Longrightarrow> \<exists>s. snd (prune_expired_captures (Some dry) now d) =
     fst (fold (prune_capture now dry (fst (last (by_age (kismet_files d))))) (by_age (kismet_files d)) (d, s))"
  by (cases "kismet_files d = []")
    (auto simp: prune_expired_captures_def Let_def by_age_def split: prod.splits intro!: exI dest: arg_cong [of _ _ fst])

text \<open>
  C13.  A pass of the server's retention deletes exactly the captures that are not the newest, not written within the grace
  period, have no sidecar and no hold marker, are expired (or disk space is short), and can be removed; every other file
  stays, in particular the capture with the latest write; a dry run changes nothing.
\<close>

theorem captures_pruned_exactly:
  assumes "kd_present d" "distinct (map fst (kd_files d))"
  shows "(has_key (kd_files (snd (prune_expired_captures (Some False) now d))) n \<longleftrightarrow>
      has_key (kd_files d) n \<and>
      \<not> (\<exists>f. map_of (kd_files d) n = Some f \<and> ends_with n ''.kismet'' \<and>
          expired_capture now (fst (last (by_age (kismet_files d)))) d n f \<and> k_removable f)) \<and>
    snd (prune_expired_captures (Some True) now d) = d \<and>
    (ends_with n ''.kismet'' \<longrightarrow> map_of (kd_files d) n = Some f \<longrightarrow>
      k_mtime f \<le> k_mtime (snd (last (by_age (kismet_files d)))))"
proof -
  let ?fs = "kismet_files d" and ?active = "fst (last (by_age (kismet_files d)))"
  have names: "n \<in> set (map fst (by_age ?fs)) \<longleftrightarrow> has_key (kd_files d) n \<and> ends_with n ''.kismet''" for n
    by (auto simp: by_age_simps kismet_files_def map_of_eq_None_iff intro: rev_image_eqI)
  have each: "distinct (map fst (by_age ?fs))" "\<forall>p\<in>set (map fst (by_age ?fs)). ends_with p ''.kismet''"
    using assms(2) names by (auto simp: by_age_simps kismet_files_def distinct_map_filter)
  obtain s where pass: "snd (prune_expired_captures (Some False) now d) =
      fst (fold (prune_name now ?active (kd_files d)) (map fst (by_age ?fs)) (d, s))"
    using prune_pass [OF assms(1), of False now] fold_prune_names [OF assms(2), of "by_age ?fs" now ?active]
    by (auto simp: by_age_simps kismet_files_def)
  have removed: "has_key (kd_files (snd (prune_expired_captures (Some False) now d))) n \<longleftrightarrow>
      has_key (kd_files d) n \<and> \<not> (ends_with n ''.kismet'' \<and> capture_doomed now ?active (kd_files d) d n)"
    using kp.fold_present [OF each, of now ?active "kd_files d" "(d, s)" n] names [of n] unfolding pass by auto
  have dry: "snd (prune_expired_captures (Some True) now d) = d"
    using prune_pass [OF assms(1), of True now] dry_run_fold by (metis fst_conv)
  have latest: "ends_with n ''.kismet'' \<longrightarrow> map_of (kd_files d) n = Some f \<longrightarrow> k_mtime f \<le> k_mtime (snd (last (by_age ?fs)))"
    using by_age_last [of n f ?fs] by (auto simp: kismet_files_def dest: map_of_SomeD)
  show ?thesis
  proof (cases "map_of (kd_files d) n")
    case None
    then show ?thesis using removed dry by simp
  next
    case (Some g)
    then show ?thesis using removed dry latest by (simp add: doomed_iff [OF Some])
  qed
qed

section \<open>What the rotator deletes\<close>

text \<open>A closed capture, all of whose interval manifests are completed and whose last packet is old.\<close>

definition processed_capture ::
  "(string \<Rightarrow> string option) \<Rightarrow> pyval result \<Rightarrow> (string \<Rightarrow> rat option) \<Rightarrow> int \<Rightarrow> manifest_index \<Rightarrow> (string \<times> kfile) list \<Rightarrow>
   string \<Rightarrow> bool" where
  "processed_capture resolve active last_packet now ix fs p \<longleftrightarrow>
     \<not> is_file_active resolve active now fs p
     \<and> (case map_of ix p of None \<Rightarrow> False | Some es \<Rightarrow> es \<noteq> [] \<and> list_all (\<lambda>(st, _). st = PStr ''COMPLETED'') es)
     \<and> (case last_packet p of None \<Rightarrow> True | Some t \<Rightarrow> of_int now / 1000000 - t \<ge> 120)"

definition raw_doomed where
  "raw_doomed resolve active last_packet now ix fs p \<longleftrightarrow>
     processed_capture resolve active last_packet now ix fs p \<and> (case map_of fs p of None \<Rightarrow> False | Some f \<Rightarrow> k_removable f)"

lemma clean_capture_files:
  "fst (clean_capture resolve active last_packet now dry ix p fr) =
     (if raw_doomed resolve active last_packet now ix (fst fr) p \<and> \<not> dry then AList.delete p (fst fr) else fst fr)"
  by (auto simp: clean_capture_def raw_doomed_def processed_capture_def Let_def split: prod.splits option.splits)

lemma sidecar_of_capture: "\<not> ends_with (q @ ''-wal'') ''.kismet''" "\<not> ends_with (q @ ''-journal'') ''.kismet''" "\<not> ends_with (q @ ''-shm'') ''.kismet''"
  using sidecar_no_capture [of _ q] by (auto simp: sidecars_for_def)

lemma processed_delete:
  assumes "ends_with p ''.kismet''" "q \<noteq> p"
  shows "processed_capture resolve active last_packet now ix (AList.delete p fs) q = processed_capture resolve active last_packet now ix fs q"
proof -
  have "q @ ''-wal'' \<noteq> p" "q @ ''-journal'' \<noteq> p" "q @ ''-shm'' \<noteq> p" using sidecar_of_capture [of q] assms(1) by auto
  then show ?thesis using assms(2) by (simp add: processed_capture_def is_file_active_def delete_conv')
qed

interpretation rp: pruning "clean_capture resolve active last_packet now False ix" "\<lambda>fr p. has_key (fst fr) p"
  "\<lambda>fr. raw_doomed resolve active last_packet now ix (fst fr)" "\<lambda>n. ends_with n ''.kismet''"
  by unfold_locales (auto simp: clean_capture_files delete_conv' raw_doomed_def processed_delete split: option.splits)

lemma cleanup_pass:
  "\<exists>r. snd (cleanup_verified_captures resolve active last_packet now dry manifests fs) =
     fst (fold (clean_capture resolve active last_packet now dry (manifest_map resolve manifests))
            (map fst (by_age (filter (\<lambda>(n, _). ends_with n ''.kismet'') fs))) (fs, r))"
  by (auto simp: cleanup_verified_captures_def Let_def split: prod.splits intro!: exI dest: arg_cong [of _ _ fst])


section \<open>Runs\<close>

definition demo_captures :: "(string \<times> kfile) list" where
  "demo_captures =
     [(''new.kismet'', \<lparr>k_size = 5, k_mtime = 900000000000, k_removable = True\<rparr>),
      (''held.kismet'', \<lparr>k_size = 5, k_mtime = 1000000, k_removable = True\<rparr>), (''held.kismet.hold'', \<lparr>k_size = 0, k_mtime = 1, k_removable = True\<rparr>),
      (''old.kismet'', \<lparr>k_size = 7, k_mtime = 2000000, k_removable = True\<rparr>)]"

definition demo_kdir :: kdir where
  "demo_kdir = \<lparr>kd_present = True, kd_files = demo_captures, kd_free = 10, kd_hours = 48, kd_min_free = 5, kd_grace = 900, kd_dry = True\<rparr>"

lemma captures_pruned_exactly_witness:
  "\<not> has_key (kd_files (snd (prune_expired_captures (Some False) 1000000000000 demo_kdir))) ''old.kismet'' \<and>
   has_key (kd_files (snd (prune_expired_captures (Some False) 1000000000000 demo_kdir))) ''held.kismet''"
proof -
  have h: "kd_present demo_kdir" "distinct (map fst (kd_files demo_kdir))" by code_simp+
  have "expired_capture 1000000000000 (fst (last (by_age (kismet_files demo_kdir)))) demo_kdir ''old.kismet''
      \<lparr>k_size = 7, k_mtime = 2000000, k_removable = True\<rparr>"
    "\<not> expired_capture 1000000000000 (fst (last (by_age (kismet_files demo_kdir)))) demo_kdir ''held.kismet''
      \<lparr>k_size = 5, k_mtime = 1000000, k_removable = True\<rparr>"
    "map_of (kd_files demo_kdir) ''old.kismet'' = Some \<lparr>k_size = 7, k_mtime = 2000000, k_removable = True\<rparr>"
    "map_of (kd_files demo_kdir) ''held.kismet'' = Some \<lparr>k_size = 5, k_mtime = 1000000, k_removable = True\<rparr>"
    "ends_with ''old.kismet'' ''.kismet''"
    by code_simp+
  then show ?thesis
    using captures_pruned_exactly [OF h, of 1000000000000 "''old.kismet''"] captures_pruned_exactly [OF h, of 1000000000000 "''held.kismet''"]
    by simp
qed

text \<open>Two captures: one is processed, but its manifest says that its raw data is not to be cleaned up; it is deleted.\<close>

definition demo_manifest_of :: "string \<Rightarrow> bool \<Rightarrow> pyval option" where
  "demo_manifest_of p safe =
     Some (PDict [(''status'', PStr ''COMPLETED''), (''safe_for_raw_cleanup'', PBool safe),
                  (''source_captures'', PList [PDict [(''path'', PStr p)]])])"


text \<open>A database that cannot be read counts as old; a log that Kismet could not start again is never started later.\<close>

lemma unreadable_capture_deleted:
  "\<not> has_key (snd (cleanup_verified_captures Some (Inr (PList [])) (\<lambda>_. None) 1000000000 False
       [demo_manifest_of ''old.kismet'' False] demo_captures)) ''old.kismet''"
  by code_simp

lemma rotation_without_log:
  assumes "get_active_logs api json = Inr (PList [])"
  shows "\<exists>r. rotate_log api json show log_class = (Inr r, [''logging/active.json'']) \<and> \<not> rot_success r"
  by (simp add: rotate_log_def assms rotation_failed_def)

end
