(* ===== verification/Processes.thy ===== *)
theory Processes
  imports Iso
begin

text \<open>
  The process monitors of the client, \<open>client/app/process_monitor.py\<close>: forbidden processes with their escalation, and
  the protection against processes that use up CPU or memory.  The operating system (the processes it lists, what it
  answers to a signal, the usage it measures) is a parameter; a scan reads the clock once, in microseconds.  The file
  name of a program is what follows its last slash.
\<close>

section \<open>Which processes may be terminated\<close>

definition PROTECTED_PROCESS_NAMES :: "string list" where
  "PROTECTED_PROCESS_NAMES =
     [''system'', ''system idle process'', ''idle'', ''registry'', ''smss'', ''csrss'', ''wininit'', ''services'', ''lsass'',
      ''winlogon'', ''svchost'', ''explorer'', ''spoolsv'', ''dwm'', ''fontdrvhost'', ''sihost'', ''taskhostw'', ''runtimebroker'',
      ''shellexperiencehost'', ''startmenuexperiencehost'', ''searchhost'', ''searchindexer'', ''audiodg'', ''conhost'',
      ''ctfmon'', ''werfault'', ''systemd'', ''init'', ''kthreadd'', ''systemd-journald'', ''systemd-udevd'', ''systemd-logind'',
      ''systemd-resolved'', ''systemd-timesyncd'', ''systemd-networkd'', ''sshd'', ''dbus-daemon'', ''dbus-broker'', ''polkitd'',
      ''cron'', ''crond'', ''rsyslogd'', ''syslogd'', ''networkmanager'', ''wpa_supplicant'', ''bash'', ''sh'', ''login'', ''agetty'',
      ''dockerd'', ''containerd'']"

text \<open>\<open>s.rsplit(c, 1)[-1]\<close>.\<close>

definition after_last :: "char \<Rightarrow> string \<Rightarrow> string" where
  "after_last c s = last (split_char c s)"

definition normalize_process_name :: "string \<Rightarrow> string" where
  "normalize_process_name name =
     (let clean = after_last (CHR ''/'') (replace_char (CHR 0x5C) (CHR ''/'') (lower (strip name)));
          clean = (if ends_with clean ''.exe'' then take (length clean - 4) clean else clean)
      in strip clean)"

text \<open>
  \<open>o_children\<close> are the processes below the client (\<open>None\<close>: unknown), \<open>o_cmdline\<close> the command line of a process.
\<close>

datatype open_answer = Opened | NotRunning | OpenDenied
datatype stop_answer = Stopped | StillRunning | AlreadyGone | StopDenied

record os =
  o_self :: int
  o_children :: "int list option"
  o_cmdline :: "int \<Rightarrow> string list option"
  o_open :: "int \<Rightarrow> open_answer"
  o_terminate :: "int \<Rightarrow> stop_answer"
  o_kill :: "int \<Rightarrow> stop_answer"

definition is_client_process :: "os \<Rightarrow> int \<Rightarrow> string \<Rightarrow> string \<Rightarrow> bool" where
  "is_client_process os pid name exe \<longleftrightarrow>
     pid = o_self os
     \<or> (case o_children os of None \<Rightarrow> False | Some ps \<Rightarrow> pid \<in> set ps)
     \<or> ((normalize_process_name name \<in> set [''networkscannerclient'', ''client'', ''agent'']
          \<or> normalize_process_name exe \<in> set [''networkscannerclient'', ''client'', ''agent''])
        \<and> (case o_cmdline os pid of
              None \<Rightarrow> False
            | Some args \<Rightarrow>
                contains ''client.py'' (lower (join '' '' args)) \<or> contains ''networkscannerclient'' (lower (join '' '' args))))"

definition is_protected_system_process :: "int \<Rightarrow> string \<Rightarrow> string \<Rightarrow> bool" where
  "is_protected_system_process pid name exe \<longleftrightarrow>
     pid \<in> set [0, 1, 2] \<or> normalize_process_name name \<in> set PROTECTED_PROCESS_NAMES
     \<or> normalize_process_name exe \<in> set PROTECTED_PROCESS_NAMES"

definition is_safe_to_terminate :: "os \<Rightarrow> int \<Rightarrow> string \<Rightarrow> string \<Rightarrow> bool \<times> string" where
  "is_safe_to_terminate os pid name exe =
     (if is_client_process os pid name exe then (False, ''client_process'')
      else if is_protected_system_process pid name exe then (False, ''protected_process'')
      else (True, ''safe''))"

section \<open>Termination in two phases\<close>

datatype signal = Term int | Kill int

record stop_result =
  sr_action :: string
  sr_status :: string
  sr_message :: string

definition stop_result_of :: "string \<Rightarrow> string \<Rightarrow> string \<Rightarrow> stop_result" where
  "stop_result_of action status message = \<lparr>sr_action = action, sr_status = status, sr_message = message\<rparr>"

definition process_text :: "string \<Rightarrow> int \<Rightarrow> string" where
  "process_text name pid = name @ '' (PID '' @ int_str pid @ '')''"

definition force_kill :: "os \<Rightarrow> int \<Rightarrow> string \<Rightarrow> stop_result" where
  "force_kill os pid name =
     (case o_kill os pid of
        Stopped \<Rightarrow> stop_result_of ''FORCE_KILLED'' ''SUCCESS'' (''Force-killed process '' @ process_text name pid @ ''.'')
      | StillRunning \<Rightarrow>
          stop_result_of ''FORCE_KILL_TIMEOUT'' ''FAILED'' (''Process '' @ process_text name pid @ '' did not exit after force kill.'')
      | AlreadyGone \<Rightarrow>
          stop_result_of ''FORCE_KILLED'' ''SUCCESS'' (''Force-killed process '' @ process_text name pid @ '' successfully.'')
      | StopDenied \<Rightarrow>
          stop_result_of ''TERMINATE_ATTEMPTED'' ''ACCESS_DENIED'' (''Access denied on force-kill for '' @ process_text name pid))"

text \<open>The result, without the text of a system error, and the signals sent.\<close>

definition terminate_process :: "os \<Rightarrow> int \<Rightarrow> string \<Rightarrow> stop_result \<times> signal list" where
  "terminate_process os pid name =
     (case is_safe_to_terminate os pid name [] of
        (False, why) \<Rightarrow>
          (stop_result_of ''TERMINATE_ATTEMPTED'' ''REJECTED_PROTECTED''
             (''Termination of process '' @ process_text name pid @ '' rejected: '' @ why @ ''.''), [])
      | (True, _) \<Rightarrow>
          (case o_open os pid of
             NotRunning \<Rightarrow>
               (stop_result_of ''TERMINATE_ATTEMPTED'' ''ALREADY_EXITED'' (''Process '' @ process_text name pid @ '' is no longer running.''), [])
           | OpenDenied \<Rightarrow>
               (stop_result_of ''TERMINATE_ATTEMPTED'' ''ACCESS_DENIED'' (''Access denied terminating '' @ process_text name pid), [])
           | Opened \<Rightarrow>
               (case o_terminate os pid of
                  Stopped \<Rightarrow>
                    (stop_result_of ''TERMINATED'' ''SUCCESS'' (''Gracefully terminated process '' @ process_text name pid @ ''.''), [Term pid])
                | AlreadyGone \<Rightarrow>
                    (stop_result_of ''TERMINATED'' ''SUCCESS'' (''Process '' @ process_text name pid @ '' exited.''), [Term pid])
                | StopDenied \<Rightarrow>
                    (stop_result_of ''TERMINATE_ATTEMPTED'' ''ACCESS_DENIED'' (''Access denied on terminate for '' @ process_text name pid), [Term pid])
                | StillRunning \<Rightarrow> (force_kill os pid name, [Term pid, Kill pid]))))"

section \<open>Violations and their escalation\<close>

record violation =
  v_name :: string
  v_pid :: int
  v_action :: string
  v_result :: string
  v_time :: int

record tracker =
  t_threshold :: int
  t_window :: int
  t_history :: int
  t_violations :: "violation list"

definition new_tracker :: "int \<Rightarrow> int \<Rightarrow> int \<Rightarrow> tracker" where
  "new_tracker threshold window history =
     \<lparr>t_threshold = max 1 threshold, t_window = max 1 window, t_history = history, t_violations = []\<rparr>"

text \<open>A \<open>deque\<close> of bounded length drops its oldest elements.\<close>

definition deque_append :: "int \<Rightarrow> 'a \<Rightarrow> 'a list \<Rightarrow> 'a list" where
  "deque_append n x xs = drop (length (xs @ [x]) - nat n) (xs @ [x])"

definition matching_violations :: "string \<Rightarrow> int \<Rightarrow> violation list \<Rightarrow> violation list" where
  "matching_violations name cutoff vs = filter (\<lambda>v. normalize_process_name (v_name v) = name \<and> v_time v \<ge> cutoff) vs"

definition record_violation :: "string \<Rightarrow> int \<Rightarrow> string \<Rightarrow> string \<Rightarrow> int \<Rightarrow> tracker \<Rightarrow> (int \<times> violation list \<times> bool) \<times> tracker" where
  "record_violation name pid action res ts t =
     (let vs = deque_append (t_history t) \<lparr>v_name = name, v_pid = pid, v_action = action, v_result = res, v_time = ts\<rparr> (t_violations t);
          hits = matching_violations (normalize_process_name name) (ts - t_window t * USEC) vs
      in ((ilen hits, hits, ilen hits \<ge> t_threshold t), t\<lparr>t_violations := vs\<rparr>))"

definition clear_violations :: "tracker \<Rightarrow> tracker" where
  "clear_violations t = t\<lparr>t_violations := []\<rparr>"

section \<open>The forbidden processes\<close>

text \<open>
  A rule as the server sends it, its names and its severity being texts or absent.
\<close>

record rule =
  u_enabled :: "pyval option"
  u_process_name :: "string option"
  u_name :: "string option"
  u_severity :: "string option"
  u_terminate :: "pyval option"
  u_eligible :: "pyval option"

definition default_true :: "pyval option \<Rightarrow> bool" where
  "default_true v = (case v of None \<Rightarrow> True | Some x \<Rightarrow> truthy x)"

definition rule_name :: "rule \<Rightarrow> string" where
  "rule_name u =
     (case given (u_process_name u) of Some n \<Rightarrow> n | None \<Rightarrow> (case given (u_name u) of Some n \<Rightarrow> n | None \<Rightarrow> []))"

definition active_rules :: "rule list \<Rightarrow> rule list" where
  "active_rules rules = filter (\<lambda>u. default_true (u_enabled u) \<and> rule_name u \<noteq> []) rules"

record process_info =
  p_pid :: "int option"
  p_name :: string
  p_exe :: string
  p_cpu :: rat
  p_memory :: rat

definition exe_name :: "string \<Rightarrow> string" where
  "exe_name exe = (if exe = [] then [] else normalize_process_name (after_last (CHR ''/'') exe))"

definition rule_matches :: "rule \<Rightarrow> process_info \<Rightarrow> bool" where
  "rule_matches u p \<longleftrightarrow>
     (let norm = normalize_process_name (rule_name u); name = normalize_process_name (p_name p) in
      norm \<noteq> [] \<and> (norm = name \<or> norm = exe_name (p_exe p) \<or> contains norm name))"

record monitor =
  m_rules :: "rule list"
  m_auto :: bool
  m_tracker :: tracker

definition set_rules :: "rule list option \<Rightarrow> monitor \<Rightarrow> monitor" where
  "set_rules rules m = m\<lparr>m_rules := (case rules of None \<Rightarrow> [] | Some us \<Rightarrow> us)\<rparr>"

text \<open>A process number that is given and not zero.\<close>

definition real_pid :: "process_info \<Rightarrow> int option" where
  "real_pid p = (case p_pid p of None \<Rightarrow> None | Some n \<Rightarrow> if n = 0 then None else Some n)"

definition safe_process :: "os \<Rightarrow> process_info \<Rightarrow> bool" where
  "safe_process os p \<longleftrightarrow> (case real_pid p of None \<Rightarrow> True | Some n \<Rightarrow> fst (is_safe_to_terminate os n (p_name p) (p_exe p)))"

definition value_or_none :: "int option \<Rightarrow> string" where
  "value_or_none v = (case v of None \<Rightarrow> ''None'' | Some n \<Rightarrow> int_str n)"

definition quoted :: "string \<Rightarrow> string" where
  "quoted s = CHR 0x27 # s @ [CHR 0x27]"

text \<open>The alert of one violation, and that of its escalation.\<close>

definition base_alert :: "rule \<Rightarrow> process_info \<Rightarrow> string \<Rightarrow> string \<Rightarrow> int \<Rightarrow> pydict" where
  "base_alert u p action message now =
     [(''alert_type'', PStr ''FORBIDDEN_PROCESS''), (''event_type'', PStr ''FORBIDDEN_PROCESS_DETECTED''),
      (''severity'', PStr (upper (case given (u_severity u) of None \<Rightarrow> ''HIGH'' | Some s \<Rightarrow> s))), (''process_name'', PStr (rule_name u)),
      (''pid'', opt_int (p_pid p)), (''action'', PStr action), (''detected_at'', PStr (isoformat_utc now)),
      (''activity_time'', PStr (isoformat_utc now)), (''title'', PStr (''Forbidden process '' @ lower action @ '': '' @ rule_name u)),
      (''description'', PStr (''Forbidden process '' @ quoted (p_name p) @ '' (PID '' @ value_or_none (p_pid p)
         @ '') was detected. Enforcement action: '' @ message @ ''.''))]"

definition critical_alert :: "rule \<Rightarrow> tracker \<Rightarrow> violation list \<Rightarrow> int \<Rightarrow> pydict" where
  "critical_alert u t hits now =
     [(''alert_type'', PStr ''FORBIDDEN_PROCESS''), (''event_type'', PStr ''CRITICAL_FORBIDDEN_PROCESS_REPEATED''),
      (''severity'', PStr ''CRITICAL''), (''process_name'', PStr (rule_name u)), (''violation_count'', PInt (ilen hits)),
      (''window_seconds'', PInt (t_window t)), (''first_violation'', PStr (isoformat_utc (v_time (hd hits)))),
      (''last_violation'', PStr (isoformat_utc (v_time (last hits)))), (''detected_at'', PStr (isoformat_utc now)),
      (''activity_time'', PStr (isoformat_utc now)),
      (''title'', PStr (''Critical: Repeated Forbidden Process Violations ('' @ rule_name u @ '')'')),
      (''description'', PStr (''Repeated launch attempts detected: process '' @ quoted (rule_name u) @ '' violated policy '' @ int_str (ilen hits)
         @ '' times in the last '' @ int_str (t_window t) @ ''s (threshold: '' @ int_str (t_threshold t) @ '').''))]"

text \<open>What a scan gathers: the alerts, those handed to the isolation callback, and the signals sent.\<close>

record scan_log =
  l_alerts :: "pydict list"
  l_isolations :: "pydict list"
  l_signals :: "signal list"

definition enforce_rule :: "os \<Rightarrow> int \<Rightarrow> rule \<Rightarrow> process_info \<Rightarrow> monitor \<times> scan_log \<Rightarrow> monitor \<times> scan_log" where
  "enforce_rule os now u p ml =
     (let (m, l) = ml;
          target = (if m_auto m \<and> default_true (u_terminate u) then real_pid p else None);
          (st, message, signals) =
            (case target of
               None \<Rightarrow> (''SKIPPED'', ''DETECTED_ONLY'', [])
             | Some n \<Rightarrow> (case terminate_process os n (p_name p) of (r, sigs) \<Rightarrow> (sr_status r, sr_message r, sigs)));
          action = (if target = None then ''DETECTED_ONLY'' else if st = ''SUCCESS'' then ''TERMINATED'' else ''TERMINATION_FAILED'');
          ((count, hits, escalated), t) =
            record_violation (rule_name u) (case real_pid p of None \<Rightarrow> 0 | Some n \<Rightarrow> n) action st now (m_tracker m);
          critical = (if escalated \<and> hits \<noteq> [] then [critical_alert u t hits now] else [])
      in (m\<lparr>m_tracker := t\<rparr>,
          l\<lparr>l_alerts := l_alerts l @ base_alert u p action message now # critical,
            l_isolations := l_isolations l @ critical, l_signals := l_signals l @ signals\<rparr>))"

text \<open>The rules are tried in order; a match with a process that must not be terminated does not count.\<close>

definition scan_process :: "os \<Rightarrow> int \<Rightarrow> rule list \<Rightarrow> process_info \<Rightarrow> monitor \<times> scan_log \<Rightarrow> monitor \<times> scan_log" where
  "scan_process os now rules p ml =
     (case find (\<lambda>u. rule_matches u p \<and> safe_process os p) rules of None \<Rightarrow> ml | Some u \<Rightarrow> enforce_rule os now u p ml)"

definition scan_and_enforce :: "os \<Rightarrow> int \<Rightarrow> process_info list \<Rightarrow> monitor \<Rightarrow> scan_log \<times> monitor" where
  "scan_and_enforce os now ps m =
     (let rules = active_rules (m_rules m);
          (m', l) = (if rules = [] then (m, \<lparr>l_alerts = [], l_isolations = [], l_signals = []\<rparr>)
                     else fold (scan_process os now rules) ps (m, \<lparr>l_alerts = [], l_isolations = [], l_signals = []\<rparr>))
      in (l, m'))"

section \<open>Resource protection\<close>

record limits =
  c_enabled :: bool
  c_threshold :: rat
  c_sustained :: int

record protection_config =
  f_enabled :: bool
  f_cpu :: limits
  f_memory :: limits
  f_cooldown :: int
  f_hourly :: int

definition DEFAULT_CONFIG :: protection_config where
  "DEFAULT_CONFIG =
     \<lparr>f_enabled = True, f_cpu = \<lparr>c_enabled = True, c_threshold = 85, c_sustained = 30\<rparr>,
      f_memory = \<lparr>c_enabled = True, c_threshold = 90, c_sustained = 30\<rparr>, f_cooldown = 300, f_hourly = 3\<rparr>"

text \<open>A configuration from the server, with numbers where the code converts to numbers.\<close>

record limits_update =
  w_enabled :: "pyval option"
  w_threshold :: "rat option"
  w_sustained :: "rat option"

record config_update =
  y_enabled :: "pyval option"
  y_cpu :: limits_update
  y_memory :: limits_update
  y_cooldown :: "rat option"
  y_hourly :: "rat option"

definition int_or :: "int \<Rightarrow> rat option \<Rightarrow> int" where
  "int_or n v = (case v of None \<Rightarrow> n | Some x \<Rightarrow> int_of_float x)"

definition merge_limits :: "rat \<Rightarrow> limits_update \<Rightarrow> limits" where
  "merge_limits threshold w =
     \<lparr>c_enabled = default_true (w_enabled w), c_threshold = (case w_threshold w of None \<Rightarrow> threshold | Some x \<Rightarrow> x),
      c_sustained = int_or 30 (w_sustained w)\<rparr>"

definition merge_config :: "config_update \<Rightarrow> protection_config \<Rightarrow> protection_config" where
  "merge_config y f =
     \<lparr>f_enabled = (case y_enabled y of None \<Rightarrow> f_enabled f | Some v \<Rightarrow> truthy v), f_cpu = merge_limits 85 (y_cpu y),
      f_memory = merge_limits 90 (y_memory y), f_cooldown = int_or 300 (y_cooldown y), f_hourly = int_or 3 (y_hourly y)\<rparr>"

record protector =
  b_config :: protection_config
  b_rules :: "rule list"
  b_provider :: bool
  b_auto :: bool
  b_cpu_high :: "int option"
  b_memory_high :: "int option"
  b_last :: "int option"
  b_interventions :: "int list"

definition set_config :: "config_update option \<Rightarrow> protector \<Rightarrow> protector" where
  "set_config y b = (case y of None \<Rightarrow> b | Some u \<Rightarrow> b\<lparr>b_config := merge_config u (b_config b)\<rparr>)"

text \<open>\<open>provided\<close> is what the rules provider returns: \<open>None\<close> when it fails or returns none.\<close>

definition current_rules :: "rule list option \<Rightarrow> protector \<Rightarrow> rule list" where
  "current_rules provided b = (case (b_provider b, provided) of (True, Some us) \<Rightarrow> us | _ \<Rightarrow> b_rules b)"

definition is_process_eligible :: "process_info \<Rightarrow> rule list \<Rightarrow> bool" where
  "is_process_eligible p rules \<longleftrightarrow>
     list_ex (\<lambda>u. default_true (u_enabled u) \<and> rule_matches u p \<and> default_true (u_eligible u)) rules"

datatype resource = Cpu | Memory

definition usage_of :: "resource \<Rightarrow> process_info \<Rightarrow> rat" where
  "usage_of res p = (case res of Cpu \<Rightarrow> p_cpu p | Memory \<Rightarrow> p_memory p)"

definition candidates_of :: "resource \<Rightarrow> process_info list \<Rightarrow> process_info list" where
  "candidates_of res ps = sort_key (\<lambda>p. - usage_of res p) (filter (\<lambda>p. real_pid p \<noteq> None) ps)"

definition terminable :: "os \<Rightarrow> rule list \<Rightarrow> process_info \<Rightarrow> bool" where
  "terminable os rules p \<longleftrightarrow> safe_process os p \<and> is_process_eligible p rules"

text \<open>An event of the protection, by what its dictionary is made from: the resource, the process, the reason or the action.\<close>

datatype protection_event = Skip resource process_info string | Action resource process_info string

text \<open>The first candidate that was passed over is reported, unless a candidate before it was.\<close>

definition skip_events :: "os \<Rightarrow> resource \<Rightarrow> rule list \<Rightarrow> process_info list \<Rightarrow> protection_event list" where
  "skip_events os res rules ps =
     (case takeWhile (\<lambda>p. \<not> terminable os rules p) ps of
        [] \<Rightarrow> []
      | p # _ \<Rightarrow>
          [Skip res p (if safe_process os p then ''process not eligible for automatic termination''
             else snd (is_safe_to_terminate os (case real_pid p of None \<Rightarrow> 0 | Some n \<Rightarrow> n) (p_name p) (p_exe p)))])"

definition evaluate_candidates ::
  "os \<Rightarrow> int \<Rightarrow> rule list option \<Rightarrow> process_info list \<Rightarrow> resource \<Rightarrow> protector \<Rightarrow> (protection_event list \<times> signal list) \<times> protector" where
  "evaluate_candidates os now provided ps res b =
     (let cs = candidates_of res ps; rules = current_rules provided b; skipped = skip_events os res rules cs in
      case find (terminable os rules) cs of
        None \<Rightarrow> ((skipped, []), b)
      | Some p \<Rightarrow>
          if (case b_last b of None \<Rightarrow> False | Some t \<Rightarrow> t \<noteq> 0 \<and> now - t < f_cooldown (b_config b) * USEC)
          then ((skipped @ [Skip res p ''cooldown_active''], []), b)
          else if ilen (filter (\<lambda>t. t \<ge> now - 3600 * USEC) (b_interventions b)) \<ge> f_hourly (b_config b)
          then ((skipped @ [Skip res p ''max_interventions_per_hour_reached''], []), b)
          else if b_auto b
          then (let (r, signals) = terminate_process os (case real_pid p of None \<Rightarrow> 0 | Some n \<Rightarrow> n) (p_name p);
                    action = (if sr_status r = ''SUCCESS'' then ''TERMINATED'' else ''TERMINATION_FAILED'')
                in ((skipped @ [Action res p action], signals),
                    b\<lparr>b_last := Some now, b_interventions := deque_append 100 now (b_interventions b)\<rparr>))
          else ((skipped @ [Action res p ''DETECTED_ONLY''], []), b))"

text \<open>One resource: the time since when its usage is high, and the evaluation when that is long enough.\<close>

definition high_since :: "resource \<Rightarrow> protector \<Rightarrow> int option" where
  "high_since res b = (case res of Cpu \<Rightarrow> b_cpu_high b | Memory \<Rightarrow> b_memory_high b)"

definition set_high_since :: "resource \<Rightarrow> int option \<Rightarrow> protector \<Rightarrow> protector" where
  "set_high_since res v b = (case res of Cpu \<Rightarrow> b\<lparr>b_cpu_high := v\<rparr> | Memory \<Rightarrow> b\<lparr>b_memory_high := v\<rparr>)"

definition limits_of :: "resource \<Rightarrow> protection_config \<Rightarrow> limits" where
  "limits_of res f = (case res of Cpu \<Rightarrow> f_cpu f | Memory \<Rightarrow> f_memory f)"

definition check_resource ::
  "os \<Rightarrow> int \<Rightarrow> rule list option \<Rightarrow> process_info list \<Rightarrow> protection_config \<Rightarrow> resource \<Rightarrow> rat \<Rightarrow> protector \<Rightarrow>
   (protection_event list \<times> signal list) \<times> protector" where
  "check_resource os now provided ps f res usage b =
     (let c = limits_of res f in
      if \<not> c_enabled c then (([], []), b)
      else if usage < c_threshold c then (([], []), set_high_since res None b)
      else (let since = (case high_since res b of None \<Rightarrow> now | Some t \<Rightarrow> t); b = set_high_since res (Some since) b in
            if now - since \<ge> c_sustained c * USEC
            then (let (out, b) = evaluate_candidates os now provided ps res b in (out, set_high_since res None b))
            else (([], []), b)))"

text \<open>\<open>measured\<close> are the CPU and memory usage (\<open>None\<close>: not measurable).\<close>

definition evaluate_and_enforce ::
  "os \<Rightarrow> int \<Rightarrow> (rat \<times> rat) option \<Rightarrow> rule list option \<Rightarrow> process_info list \<Rightarrow> protector \<Rightarrow>
   (protection_event list \<times> signal list) \<times> protector" where
  "evaluate_and_enforce os now measured provided ps b =
     (let f = b_config b in
      if \<not> f_enabled f then (([], []), b\<lparr>b_cpu_high := None, b_memory_high := None\<rparr>)
      else (case measured of
              None \<Rightarrow> (([], []), b)
            | Some (cpu, memory) \<Rightarrow>
                (let ((es1, s1), b) = check_resource os now provided ps f Cpu cpu b;
                     ((es2, s2), b) = check_resource os now provided ps f Memory memory b
                 in ((es1 @ es2, s1 @ s2), b))))"

text \<open>
  The dictionary of an event: \<open>fmt\<close> writes a number with one decimal, \<open>after\<close> is the usage measured again after a termination.
\<close>

definition resource_name :: "resource \<Rightarrow> string" where
  "resource_name res = (case res of Cpu \<Rightarrow> ''cpu'' | Memory \<Rightarrow> ''memory'')"

definition event_head :: "string \<Rightarrow> string \<Rightarrow> resource \<Rightarrow> rat \<Rightarrow> process_info \<Rightarrow> pydict" where
  "event_head kind severity res usage p =
     [(''alert_type'', PStr ''RESOURCE_PROTECTION''), (''event_type'', PStr kind), (''severity'', PStr severity),
      (''resource'', PStr (resource_name res)), (''system_usage'', PFloat usage), (''process_name'', PStr (p_name p)), (''pid'', opt_int (p_pid p))]"

definition event_text :: "string \<Rightarrow> string \<Rightarrow> string \<Rightarrow> string \<Rightarrow> pydict" where
  "event_text why stamp title description =
     [(''reason'', PStr why), (''detected_at'', PStr stamp), (''title'', PStr title), (''description'', PStr description)]"

definition reached_text :: "(rat \<Rightarrow> string) \<Rightarrow> resource \<Rightarrow> rat \<Rightarrow> rat \<Rightarrow> string" where
  "reached_text fmt res usage threshold =
     ''System '' @ upper (resource_name res) @ '' reached '' @ fmt usage @ ''% (threshold '' @ fmt threshold @ ''%). ''"

definition event_dict :: "(rat \<Rightarrow> string) \<Rightarrow> string \<Rightarrow> rat \<Rightarrow> rat \<Rightarrow> rat \<Rightarrow> protection_config \<Rightarrow> protection_event \<Rightarrow> pydict" where
  "event_dict fmt stamp usage after threshold f e =
     (case e of
        Skip res p why \<Rightarrow>
          if why = ''cooldown_active''
          then event_head ''RESOURCE_PROTECTION_SKIP'' ''MEDIUM'' res usage p
            @ event_text why stamp (''Resource protection on '' @ p_name p @ '' skipped: cooldown active'')
                (''Intervention on '' @ quoted (p_name p) @ '' skipped because cooldown period ('' @ int_str (f_cooldown f) @ ''s) is active.'')
          else if why = ''max_interventions_per_hour_reached''
          then event_head ''RESOURCE_PROTECTION_SKIP'' ''HIGH'' res usage p
            @ event_text why stamp (''Resource protection limit reached ('' @ int_str (f_hourly f) @ ''/hr)'')
                (''Cannot terminate '' @ quoted (p_name p) @ '' because max interventions per hour ('' @ int_str (f_hourly f) @ '') was reached.'')
          else event_head ''RESOURCE_PROTECTION_SKIP'' ''MEDIUM'' res usage p
            @ [(''threshold'', PFloat threshold), (''process_usage'', PFloat (usage_of res p))]
            @ (if why = ''process not eligible for automatic termination''
               then event_text why stamp (''Resource protection skipped '' @ p_name p @ '': not eligible'')
                 (reached_text fmt res usage threshold @ ''High consumer '' @ quoted (p_name p) @ '' (PID '' @ value_or_none (p_pid p)
                    @ '') was not terminated because it is not eligible for automatic termination.'')
               else event_text why stamp (''Resource protection skipped '' @ p_name p @ '': '' @ why)
                 (reached_text fmt res usage threshold @ ''Top consumer '' @ quoted (p_name p) @ '' (PID '' @ value_or_none (p_pid p)
                    @ '') was skipped because it is '' @ why @ ''.''))
      | Action res p action \<Rightarrow>
          event_head ''RESOURCE_PROTECTION_ACTION'' ''HIGH'' res usage p
          @ [(''threshold'', PFloat threshold), (''post_action_usage'', PFloat after), (''process_usage'', PFloat (usage_of res p)),
             (''action'', PStr action), (''activity_time'', PStr stamp)]
          @ event_text ''sustained_resource_pressure'' stamp (''Resource protection action: '' @ lower action @ '' '' @ p_name p)
              (''Sustained '' @ upper (resource_name res) @ '' pressure ('' @ fmt usage @ ''% >= '' @ fmt threshold
               @ ''%). Offending process '' @ quoted (p_name p) @ '' (PID '' @ value_or_none (p_pid p) @ '', '' @ upper (resource_name res)
               @ '': '' @ fmt (usage_of res p) @ ''%) was '' @ lower action @ ''. New system usage: '' @ fmt after @ ''%.''))"

section \<open>Only safe processes are terminated\<close>

lemma terminate_signals:
  "terminate_process os pid name = (r, sigs) \<Longrightarrow> s \<in> set sigs \<Longrightarrow> s = Term pid \<or> s = Kill pid \<and> o_terminate os pid = StillRunning"
  by (auto simp: terminate_process_def split: prod.splits bool.splits open_answer.splits stop_answer.splits)

lemma find_SomeD: "find P xs = Some x \<Longrightarrow> P x \<and> x \<in> set xs"
  by (auto simp: find_Some_iff)

definition may_signal :: "os \<Rightarrow> rule list \<Rightarrow> process_info list \<Rightarrow> signal \<Rightarrow> bool" where
  "may_signal os rules ps s \<longleftrightarrow>
     (\<exists>p\<in>set ps. \<exists>u\<in>set rules. \<exists>n. real_pid p = Some n \<and> (s = Term n \<or> s = Kill n \<and> o_terminate os n = StillRunning) \<and>
        \<not> is_client_process os n (p_name p) (p_exe p) \<and> \<not> is_protected_system_process n (p_name p) (p_exe p) \<and>
        rule_matches u p \<and> default_true (u_terminate u))"

lemma scan_process_signals:
  assumes "s \<in> set (l_signals (snd (scan_process os now rules p ml)))"
  shows "s \<in> set (l_signals (snd ml)) \<or> m_auto (fst ml) \<and> may_signal os rules [p] s"
proof (cases "find (\<lambda>u. rule_matches u p \<and> safe_process os p) rules")
  case None
  then show ?thesis using assms by (simp add: scan_process_def)
next
  case (Some u)
  note u = find_SomeD [OF Some]
  obtain m l where ml: "ml = (m, l)" by (cases ml)
  show ?thesis
  proof (cases "m_auto m \<and> default_true (u_terminate u) \<and> real_pid p \<noteq> None")
    case False
    then show ?thesis using assms
      by (auto simp: scan_process_def Some ml enforce_rule_def Let_def split: prod.splits if_splits)
  next
    case True
    then obtain n where n: "real_pid p = Some n" by auto
    obtain r sigs where t: "terminate_process os n (p_name p) = (r, sigs)" by (cases "terminate_process os n (p_name p)")
    have "fst (is_safe_to_terminate os n (p_name p) (p_exe p))" using u n by (simp add: safe_process_def)
    then have safe: "\<not> is_client_process os n (p_name p) (p_exe p)" "\<not> is_protected_system_process n (p_name p) (p_exe p)"
      by (auto simp: is_safe_to_terminate_def split: if_splits)
    have "s \<in> set (l_signals l) \<or> s \<in> set sigs"
      using assms True by (auto simp: scan_process_def Some ml enforce_rule_def Let_def n t split: prod.splits)
    then show ?thesis using terminate_signals [OF t] u n safe True ml by (auto simp: may_signal_def)
  qed
qed

lemma scan_process_auto [simp]: "m_auto (fst (scan_process os now rules p ml)) = m_auto (fst ml)"
  by (cases ml) (auto simp: scan_process_def enforce_rule_def Let_def split: option.splits prod.splits)

lemma may_signal_more: "may_signal os rules ps s \<Longrightarrow> set ps \<subseteq> set qs \<Longrightarrow> may_signal os rules qs s"
  by (force simp: may_signal_def)

lemma scan_signals:
  "s \<in> set (l_signals (snd (fold (scan_process os now rules) ps ml))) \<Longrightarrow>
     s \<in> set (l_signals (snd ml)) \<or> m_auto (fst ml) \<and> may_signal os rules ps s"
proof (induction ps arbitrary: ml)
  case (Cons p ps)
  have "s \<in> set (l_signals (snd (scan_process os now rules p ml))) \<or> m_auto (fst ml) \<and> may_signal os rules ps s"
    using Cons by fastforce
  then show ?case
    using scan_process_signals [of s os now rules p ml] may_signal_more [of os rules _ s "p # ps"] by auto
qed simp

text \<open>
  C11.  A scan sends signals only to processes that it listed, that an active rule with termination matches, and that are
  neither the client and its children nor protected by number or name; a process is killed only after it outlived the
  request to terminate, and nothing is signalled when termination is off.
\<close>

theorem scan_signals_only_safe:
  assumes "scan_and_enforce os now ps m = (l, m')" "s \<in> set (l_signals l)"
  shows "m_auto m \<and>
    (\<exists>p\<in>set ps. \<exists>u\<in>set (active_rules (m_rules m)). \<exists>n. real_pid p = Some n \<and>
       (s = Term n \<or> s = Kill n \<and> o_terminate os n = StillRunning) \<and>
       \<not> is_client_process os n (p_name p) (p_exe p) \<and> \<not> is_protected_system_process n (p_name p) (p_exe p) \<and>
       rule_matches u p \<and> default_true (u_terminate u))"
  using assms scan_signals [of s os now "active_rules (m_rules m)" ps "(m, \<lparr>l_alerts = [], l_isolations = [], l_signals = []\<rparr>)"]
  by (auto simp: scan_and_enforce_def Let_def may_signal_def split: if_splits prod.splits)

section \<open>Interventions are rare\<close>

text \<open>The inputs of one cycle of the monitor, and the times at which a run of cycles terminated a process.\<close>

record cycle =
  y_os :: os
  y_now :: int
  y_measured :: "(rat \<times> rat) option"
  y_provided :: "rule list option"
  y_processes :: "process_info list"

fun is_action :: "protection_event \<Rightarrow> bool" where
  "is_action (Skip _ _ _) = False"
| "is_action (Action _ _ _) = True"

definition intervention_times :: "int \<Rightarrow> protector \<Rightarrow> protection_event list \<Rightarrow> int list" where
  "intervention_times now b es = (if b_auto b then map (\<lambda>_. now) (filter is_action es) else [])"

fun protection_run :: "cycle list \<Rightarrow> protector \<Rightarrow> int list" where
  "protection_run [] b = []"
| "protection_run (y # ys) b =
     (let ((es, _), b') = evaluate_and_enforce (y_os y) (y_now y) (y_measured y) (y_provided y) (y_processes y) b
      in intervention_times (y_now y) b es @ protection_run ys b')"

text \<open>What holds of the guard and the times of the interventions so far; they are at least the cooldown apart, and no hour has too many.\<close>

definition hour_count :: "int list \<Rightarrow> int" where
  "hour_count ts = ilen (filter (\<lambda>t. t \<ge> last ts - 3600 * USEC) ts)"

definition spaced :: "int \<Rightarrow> int list \<Rightarrow> bool" where
  "spaced gap ts \<longleftrightarrow> sorted_wrt (\<lambda>s t. t - s \<ge> gap) ts"

definition within_limits :: "protection_config \<Rightarrow> int list \<Rightarrow> bool" where
  "within_limits f ts \<longleftrightarrow>
     spaced (f_cooldown f * USEC) ts \<and> (\<forall>pre. prefix pre ts \<longrightarrow> pre \<noteq> [] \<longrightarrow> hour_count pre \<le> f_hourly f)"

definition guard_tracks :: "protection_config \<Rightarrow> int \<Rightarrow> int list \<Rightarrow> protector \<Rightarrow> bool" where
  "guard_tracks f now ts b \<longleftrightarrow>
     b_config b = f \<and> (\<forall>t\<in>set ts. 0 < t \<and> t \<le> now) \<and> sorted ts
     \<and> b_last b = (if ts = [] then None else Some (last ts)) \<and> b_interventions b = drop (length ts - 100) ts
     \<and> within_limits f ts"

lemma deque_append_tail: "deque_append 100 x (drop (length xs - 100) xs) = drop (length (xs @ [x]) - 100) (xs @ [x])"
proof (cases "length xs \<ge> 100")
  case True
  then have "Suc (length xs - 100) = length xs - 99" by simp
  then show ?thesis using True by (simp add: deque_append_def)
qed (simp add: deque_append_def)

lemma sorted_recent_tail:
  assumes "sorted ts" "length (filter (\<lambda>t. t \<ge> c) (drop (length ts - n) ts)) < n"
  shows "filter (\<lambda>t. t \<ge> c) ts = filter (\<lambda>t. t \<ge> c) (drop (length ts - n) ts)"
proof (cases "length ts \<le> n")
  case False
  let ?k = "length ts - n"
  have "length (drop ?k ts) = n" using False by simp
  then obtain x where x: "x \<in> set (drop ?k ts)" "x < c"
    using assms(2) by (metis filter_id_conv less_irrefl linorder_not_le)
  have "sorted (take ?k ts @ drop ?k ts)" using assms(1) by simp
  then have "\<forall>y\<in>set (take ?k ts). y \<le> x" using x(1) by (auto simp del: append_take_drop_id simp: sorted_append)
  then have "filter (\<lambda>t. t \<ge> c) (take ?k ts) = []" using x(2) by (auto simp: filter_empty_conv)
  then show ?thesis by (metis append_take_drop_id filter_append append_Nil)
qed simp

lemma within_limits_snoc:
  assumes "within_limits f ts" "\<forall>t\<in>set ts. now - t \<ge> f_cooldown f * USEC" "hour_count (ts @ [now]) \<le> f_hourly f"
  shows "within_limits f (ts @ [now])"
  using assms by (auto simp: within_limits_def spaced_def sorted_wrt_append prefix_snoc)

lemma skip_events_no_action [simp]: "filter is_action (skip_events os res rules ps) = []"
  by (auto simp: skip_events_def split: list.splits)

lemma evaluate_candidates_cases:
  assumes "evaluate_candidates os now provided ps res b = ((es, sigs), b')"
  obtains (none) "b' = b" "intervention_times now b es = []"
    | (one) "b' = b\<lparr>b_last := Some now, b_interventions := deque_append 100 now (b_interventions b)\<rparr>"
        "intervention_times now b es = [now]" "\<And>t. b_last b = Some t \<Longrightarrow> t \<noteq> 0 \<Longrightarrow> now - t \<ge> f_cooldown (b_config b) * USEC"
        "ilen (filter (\<lambda>t. t \<ge> now - 3600 * USEC) (b_interventions b)) < f_hourly (b_config b)"
proof (cases "find (terminable os (current_rules provided b)) (candidates_of res ps)")
  case None
  then show thesis using assms that(1) by (auto simp: evaluate_candidates_def Let_def intervention_times_def)
next
  case (Some p)
  let ?late = "case b_last b of None \<Rightarrow> False | Some t \<Rightarrow> t \<noteq> 0 \<and> now - t < f_cooldown (b_config b) * USEC"
  let ?full = "ilen (filter (\<lambda>t. t \<ge> now - 3600 * USEC) (b_interventions b)) \<ge> f_hourly (b_config b)"
  show thesis
  proof (cases "?late \<or> ?full \<or> \<not> b_auto b")
    case True
    then show thesis using assms Some that(1)
      by (auto simp: evaluate_candidates_def Let_def intervention_times_def split: if_splits)
  next
    case False
    show thesis
    proof (rule that(2))
      show "b' = b\<lparr>b_last := Some now, b_interventions := deque_append 100 now (b_interventions b)\<rparr>"
        "intervention_times now b es = [now]"
        using assms Some False by (auto simp: evaluate_candidates_def Let_def intervention_times_def split: prod.splits)
      show "ilen (filter (\<lambda>t. t \<ge> now - 3600 * USEC) (b_interventions b)) < f_hourly (b_config b)" using False by simp
      show "now - t \<ge> f_cooldown (b_config b) * USEC" if "b_last b = Some t" "t \<noteq> 0" for t using False that by auto
    qed
  qed
qed

lemma evaluate_candidates_tracks:
  assumes "guard_tracks f now ts b" "0 < now" "f_hourly f \<le> 100"
    and "evaluate_candidates os now provided ps res b = ((es, sigs), b')"
  shows "guard_tracks f now (ts @ intervention_times now b es) b' \<and> b_auto b' = b_auto b"
  using assms(4)
proof (cases rule: evaluate_candidates_cases)
  case none
  then show ?thesis using assms(1) by simp
next
  case one
  note tracks = assms(1) [unfolded guard_tracks_def]
  have gap: "\<forall>t\<in>set ts. now - t \<ge> f_cooldown f * USEC"
  proof
    fix t assume t: "t \<in> set ts"
    then have "t \<le> last ts" using tracks by (metis sorted_key_last [of id, simplified] list.map_id)
    moreover have "now - last ts \<ge> f_cooldown f * USEC"
      using one(3) [of "last ts"] tracks t by (metis empty_iff last_in_set less_irrefl list.set(1))
    ultimately show "now - t \<ge> f_cooldown f * USEC" by simp
  qed
  have count: "ilen (filter (\<lambda>t. t \<ge> now - 3600 * USEC) (drop (length ts - 100) ts)) < f_hourly f" using one(4) tracks by simp
  then have "length (filter (\<lambda>t. t \<ge> now - 3600 * USEC) (drop (length ts - 100) ts)) < 100"
    using assms(3) by (simp add: ilen_length)
  then have "filter (\<lambda>t. t \<ge> now - 3600 * USEC) ts = filter (\<lambda>t. t \<ge> now - 3600 * USEC) (drop (length ts - 100) ts)"
    using sorted_recent_tail tracks by blast
  then have "hour_count (ts @ [now]) \<le> f_hourly f"
    using count by (simp add: hour_count_def ilen_length USEC_def)
  then have limits: "within_limits f (ts @ [now])" using within_limits_snoc gap tracks by blast
  show ?thesis
    using tracks assms(2) limits one(1) deque_append_tail [of now ts]
    by (auto simp: guard_tracks_def one(2) sorted_append)
qed

lemma check_resource_tracks:
  assumes "guard_tracks f now ts b" "0 < now" "f_hourly f \<le> 100"
    and "check_resource os now provided ps f res usage b = ((es, sigs), b')"
  shows "guard_tracks f now (ts @ intervention_times now b es) b' \<and> b_auto b' = b_auto b"
proof -
  have frame: "guard_tracks f now ts (set_high_since res v b) = guard_tracks f now ts b" "b_auto (set_high_since res v b) = b_auto b" for v b ts
    by (cases res; simp add: set_high_since_def guard_tracks_def)+
  have times: "intervention_times now (set_high_since res v b) es = intervention_times now b es" for v es
    by (simp add: intervention_times_def frame)
  let ?c = "limits_of res f" and ?b = "set_high_since res (Some (case high_since res b of None \<Rightarrow> now | Some t \<Rightarrow> t)) b"
  show ?thesis
  proof (cases "c_enabled ?c \<and> usage \<ge> c_threshold ?c \<and> now - (case high_since res b of None \<Rightarrow> now | Some t \<Rightarrow> t) \<ge> c_sustained ?c * USEC")
    case False
    then show ?thesis using assms(1,4) by (auto simp: check_resource_def Let_def frame intervention_times_def split: if_splits)
  next
    case True
    obtain out b1 where e: "evaluate_candidates os now provided ps res ?b = (out, b1)"
      by (cases "evaluate_candidates os now provided ps res ?b")
    then have "out = (es, sigs)" "b' = set_high_since res None b1"
      using True assms(4) by (auto simp: check_resource_def Let_def)
    then show ?thesis
      using evaluate_candidates_tracks [of f now ts ?b os provided ps res es sigs b1] e assms(1-3) by (simp add: frame times)
  qed
qed

lemma evaluate_tracks:
  assumes "guard_tracks f now ts b" "0 < now" "f_hourly f \<le> 100"
    and "evaluate_and_enforce os now measured provided ps b = ((es, sigs), b')"
  shows "guard_tracks f now (ts @ intervention_times now b es) b' \<and> b_auto b' = b_auto b"
proof (cases "f_enabled f \<and> measured \<noteq> None")
  case False
  then show ?thesis using assms(1,4)
    by (auto simp: evaluate_and_enforce_def Let_def guard_tracks_def intervention_times_def split: if_splits option.splits)
next
  case True
  then obtain cpu memory where m: "measured = Some (cpu, memory)" by auto
  have conf: "b_config b = f" using assms(1) by (simp add: guard_tracks_def)
  obtain es1 s1 b1 where c1: "check_resource os now provided ps f Cpu cpu b = ((es1, s1), b1)" by (metis surj_pair)
  obtain es2 s2 b2 where c2: "check_resource os now provided ps f Memory memory b1 = ((es2, s2), b2)" by (metis surj_pair)
  have "es = es1 @ es2" "b' = b2" using assms(4) True by (auto simp: evaluate_and_enforce_def Let_def conf m c1 c2)
  moreover note t1 = check_resource_tracks [OF assms(1-3) c1]
  moreover note check_resource_tracks [OF conjunct1 [OF t1] assms(2,3) c2]
  ultimately show ?thesis by (auto simp: intervention_times_def split: if_splits)
qed

lemma protection_run_within:
  "guard_tracks f now ts b \<Longrightarrow> f_hourly f \<le> 100 \<Longrightarrow> sorted (map y_now ys) \<Longrightarrow> \<forall>y\<in>set ys. now \<le> y_now y \<and> 0 < y_now y \<Longrightarrow>
     within_limits f (ts @ protection_run ys b)"
proof (induction ys arbitrary: ts b now)
  case Nil
  then show ?case by (simp add: guard_tracks_def)
next
  case (Cons y ys)
  obtain es sigs b' where e: "evaluate_and_enforce (y_os y) (y_now y) (y_measured y) (y_provided y) (y_processes y) b = ((es, sigs), b')"
    by (metis surj_pair)
  have "guard_tracks f (y_now y) ts b" using Cons.prems(1,4) by (fastforce simp: guard_tracks_def)
  then have "guard_tracks f (y_now y) (ts @ intervention_times (y_now y) b es) b'"
    using evaluate_tracks [OF _ _ Cons.prems(2) e] Cons.prems(4) by simp
  from Cons.IH [OF this Cons.prems(2)] Cons.prems(3,4) show ?case by (simp add: e)
qed

text \<open>
  C23.  However long the resource protection runs, with whatever processes, usages and rules, its interventions (the calls of
  the two-phase termination) are at least the cooldown apart, and up to each of them there were at most
  \<open>max_interventions_per_hour\<close> in the hour, if that limit is at most 100 and the clock does not go back.
\<close>

theorem interventions_within_limits:
  assumes "b_config b = f" "b_last b = None" "b_interventions b = []" "f_hourly f \<le> 100"
    and "sorted (map y_now ys)" "\<forall>y\<in>set ys. 0 < y_now y"
  shows "sorted_wrt (\<lambda>s t. t - s \<ge> f_cooldown f * USEC) (protection_run ys b) \<and>
    (\<forall>pre. prefix pre (protection_run ys b) \<longrightarrow> pre \<noteq> [] \<longrightarrow>
       ilen (filter (\<lambda>t. t \<ge> last pre - 3600 * USEC) pre) \<le> f_hourly f)"
proof -
  have "guard_tracks f 0 [] b" using assms(1-3) by (simp add: guard_tracks_def within_limits_def spaced_def)
  then have "within_limits f (protection_run ys b)"
    using protection_run_within [of f 0 "[]" b ys] assms(4-6) by (simp add: order_less_imp_le)
  then show ?thesis by (simp add: within_limits_def spaced_def hour_count_def)
qed

section \<open>Runs\<close>

definition demo_os :: os where
  "demo_os = \<lparr>o_self = 100, o_children = Some [101], o_cmdline = (\<lambda>_. None), o_open = (\<lambda>_. Opened), o_terminate = (\<lambda>_. Stopped),
     o_kill = (\<lambda>_. Stopped)\<rparr>"

definition demo_rule :: "bool \<Rightarrow> rule" where
  "demo_rule terminate = \<lparr>u_enabled = None, u_process_name = Some ''Miner.exe'', u_name = None, u_severity = None,
     u_terminate = Some (PBool terminate), u_eligible = None\<rparr>"

definition demo_processes :: "process_info list" where
  "demo_processes =
     [\<lparr>p_pid = Some 4, p_name = ''sshd'', p_exe = [], p_cpu = 99, p_memory = 1\<rparr>,
      \<lparr>p_pid = Some 7, p_name = ''miner'', p_exe = [], p_cpu = 90, p_memory = 1\<rparr>]"

definition demo_monitor :: "bool \<Rightarrow> monitor" where
  "demo_monitor terminate = \<lparr>m_rules = [demo_rule terminate], m_auto = True, m_tracker = new_tracker 3 120 500\<rparr>"

lemma scan_signals_only_safe_witness:
  "\<exists>l m'. scan_and_enforce demo_os 1000000 demo_processes (demo_monitor True) = (l, m') \<and> Term 7 \<in> set (l_signals l) \<and>
     \<not> is_protected_system_process 7 ''miner'' []"
proof -
  obtain l m' where run: "scan_and_enforce demo_os 1000000 demo_processes (demo_monitor True) = (l, m')" by force
  have "l_signals (fst (scan_and_enforce demo_os 1000000 demo_processes (demo_monitor True))) = [Term 7]" by code_simp
  then have s: "Term 7 \<in> set (l_signals l)" by (simp add: run)
  have "\<forall>p\<in>set demo_processes. real_pid p = Some 7 \<longrightarrow> p_name p = ''miner'' \<and> p_exe p = []"
    by (simp add: demo_processes_def real_pid_def)
  then show ?thesis using scan_signals_only_safe [OF run s] run s by fastforce
qed

definition demo_guard :: protector where
  "demo_guard = \<lparr>b_config = DEFAULT_CONFIG, b_rules = [demo_rule True], b_provider = False, b_auto = True, b_cpu_high = None,
     b_memory_high = None, b_last = None, b_interventions = []\<rparr>"

definition demo_cycles :: "cycle list" where
  "demo_cycles = map (\<lambda>t. \<lparr>y_os = demo_os, y_now = t * USEC, y_measured = Some (95, 10), y_provided = None, y_processes = demo_processes\<rparr>)
     [1000, 1030, 1060, 1090]"

lemma interventions_within_limits_witness:
  "protection_run demo_cycles demo_guard = [1030 * USEC] \<and>
   sorted_wrt (\<lambda>s t. t - s \<ge> f_cooldown DEFAULT_CONFIG * USEC) (protection_run demo_cycles demo_guard)"
proof -
  have h: "b_config demo_guard = DEFAULT_CONFIG" "b_last demo_guard = None" "b_interventions demo_guard = []" "f_hourly DEFAULT_CONFIG \<le> 100"
    "sorted (map y_now demo_cycles)" "\<forall>y\<in>set demo_cycles. 0 < y_now y"
    by (simp_all add: demo_guard_def DEFAULT_CONFIG_def demo_cycles_def USEC_def)
  have "protection_run demo_cycles demo_guard = [1030 * USEC]" by code_simp
  then show ?thesis using interventions_within_limits [OF h] by simp
qed

text \<open>
  One process that is not to be terminated, seen by three scans ten seconds apart, counts as three launch attempts and
  reaches the isolation callback; a configuration that names one setting resets the others.
\<close>

lemma running_process_escalates:
  "let (l1, m1) = scan_and_enforce demo_os 10000000 demo_processes (demo_monitor False);
       (l2, m2) = scan_and_enforce demo_os 20000000 demo_processes m1;
       (l3, m3) = scan_and_enforce demo_os 30000000 demo_processes m2
   in l_isolations l1 = [] \<and> l_isolations l2 = [] \<and> length (l_isolations l3) = 1"
  by code_simp

lemma partial_config_resets:
  "y_cpu y = \<lparr>w_enabled = None, w_threshold = None, w_sustained = None\<rparr> \<Longrightarrow>
     f_cpu (merge_config y f) = \<lparr>c_enabled = True, c_threshold = 85, c_sustained = 30\<rparr>"
  by (simp add: merge_config_def merge_limits_def default_true_def int_or_def)

end
