(* ===== verification/Isolation.thy ===== *)
theory Isolation
  imports Device
begin

text \<open>
  Isolating a Windows device and restoring its network, \<open>client/app/network_state_manager.py\<close>.  The system is a
  parameter: \<open>run\<close> answers a script from those it ran before, with exit code and output, and \<open>json\<close> parses an output.
  A state file holds the value written to it last; whether the next writes succeed is part of the state.
\<close>

section \<open>The state of an interface\<close>

definition STATIC_ISOLATION_ADDRESS :: string where "STATIC_ISOLATION_ADDRESS = ''192.0.2.2''"
definition STATIC_ISOLATION_PREFIX_LENGTH :: int where "STATIC_ISOLATION_PREFIX_LENGTH = 32"

definition address_entry :: "pyval \<Rightarrow> pyval list" where
  "address_entry entry =
     (case entry of
        PDict d \<Rightarrow>
          (case (dget d ''address'', dget d ''prefix_length'') of
             (PStr s, len) \<Rightarrow>
               (case ipv4_of s of
                  None \<Rightarrow> []
                | Some v \<Rightarrow>
                    if is_int len \<and> 0 \<le> int_value len \<and> int_value len \<le> 32
                    then [PDict [(''address'', PStr (ipv4_str v)), (''prefix_length'', len)]] else [])
           | _ \<Rightarrow> [])
      | _ \<Rightarrow> [])"

text \<open>\<open>str(ipaddress.ip_address(s))\<close>.\<close>

definition canonical_ip :: "string \<Rightarrow> string option" where
  "canonical_ip s =
     (case ipv4_of s of
        Some v \<Rightarrow> Some (ipv4_str v)
      | None \<Rightarrow> (case ipv6_of s of None \<Rightarrow> None | Some v \<Rightarrow> Some (ipv6_str v @ scope_of s)))"

definition dns_entry :: "pyval \<Rightarrow> pyval list" where
  "dns_entry v =
     (case v of PStr s \<Rightarrow> (case canonical_ip s of None \<Rightarrow> [] | Some t \<Rightarrow> [PStr t]) | _ \<Rightarrow> [])"

text \<open>What a \<open>for\<close> loop over a value runs through; no text of one character is an address.\<close>

definition iterate :: "pyval \<Rightarrow> pyval list result" where
  "iterate v =
     (case v of
        PList xs \<Rightarrow> Inr xs
      | PStr s \<Rightarrow> Inr (map (\<lambda>c. PStr [c]) s)
      | PDict d \<Rightarrow> Inr (map (PStr \<circ> fst) d)
      | _ \<Rightarrow> raise_exc TypeError ''not iterable'')"

definition gateway_of :: "pyval \<Rightarrow> pyval" where
  "gateway_of v = (case v of PStr s \<Rightarrow> opt_str (map_option ipv4_str (ipv4_of s)) | _ \<Rightarrow> PNone)"

definition mac_of :: "pyval \<Rightarrow> pyval" where
  "mac_of v = (case v of PStr s \<Rightarrow> PStr (upper (replace_char (CHR ''-'') (CHR '':'') s)) | _ \<Rightarrow> PNone)"

definition or_none :: "pyval \<Rightarrow> pyval" where
  "or_none v = (if truthy v then v else PNone)"

definition interface_dict :: "pydict \<Rightarrow> string \<Rightarrow> pyval list \<Rightarrow> pyval list \<Rightarrow> pydict" where
  "interface_dict d name addresses dns =
     [(''interface_index'', dget d ''interface_index''), (''interface_name'', PStr (strip name)),
      (''interface_alias'', dget d ''interface_alias''), (''mac_address'', mac_of (dget d ''mac_address'')),
      (''dhcp_enabled'', PBool (truthy (dget d ''dhcp_enabled''))), (''dhcp_server'', or_none (dget d ''dhcp_server'')),
      (''ipv4_addresses'', PList addresses), (''default_gateway'', gateway_of (dget d ''default_gateway'')),
      (''dns_servers'', PList dns), (''ipv4_connection_state'', or_none (dget d ''ipv4_connection_state'')),
      (''ipv6_enabled'', PBool (truthy (dget d ''ipv6_enabled'')))]"

definition normalise_state :: "pyval \<Rightarrow> pydict result" where
  "normalise_state payload =
     (case payload of
        PDict d \<Rightarrow>
          if \<not> (is_int (dget d ''interface_index'') \<and> int_value (dget d ''interface_index'') \<ge> 1)
          then raise_exc ValueError ''Network state is missing a valid interface index.''
          else (case py_or (dget d ''interface_name'') (dget d ''interface_alias'') of
                  PStr name \<Rightarrow>
                    if strip name = [] then raise_exc ValueError ''Network state is missing an interface name.''
                    else (case dget d ''ipv4_addresses'' of
                            PList entries \<Rightarrow>
                              (let addresses = concat (map address_entry entries) in
                               if entries = [] then raise_exc ValueError ''Network state is missing an IPv4 address.''
                               else if addresses = [] then raise_exc ValueError ''Network state has no valid IPv4 addresses.''
                               else then_do (iterate (dget_or d ''dns_servers'' (PList [])))
                                      (\<lambda>servers. Inr (interface_dict d name addresses (concat (map dns_entry servers)))))
                          | _ \<Rightarrow> raise_exc ValueError ''Network state is missing an IPv4 address.'')
                | _ \<Rightarrow> raise_exc ValueError ''Network state is missing an interface name.'')
      | _ \<Rightarrow> raise_exc ValueError ''Network state query did not return an object.'')"

section \<open>The scripts\<close>

text \<open>The lines of a script, with a tilde for every single quote of the fixed text.\<close>

definition script_text :: "string list \<Rightarrow> string" where
  "script_text ls = join [CHR 0x0A] ls"

definition ticks :: "string \<Rightarrow> string" where
  "ticks s = replace_char (CHR ''~'') (CHR 0x27) s"

definition state_query :: string where
  "state_query = ticks (script_text
     [''$route = Get-NetRoute -AddressFamily IPv4 -DestinationPrefix ~0.0.0.0/0~ |'',
      ''    Sort-Object RouteMetric, InterfaceMetric |'',
      ''    Select-Object -First 1'',
      ''if (-not $route) { throw ~No active IPv4 default route was found.~ }'',
      ''$configuration = Get-NetIPConfiguration -InterfaceIndex $route.InterfaceIndex'',
      ''$interface = Get-NetIPInterface -InterfaceIndex $route.InterfaceIndex -AddressFamily IPv4'',
      ''$adapter = Get-NetAdapter -InterfaceIndex $route.InterfaceIndex'',
      ''$dhcp = Get-CimInstance Win32_NetworkAdapterConfiguration |'',
      ''    Where-Object { $_.InterfaceIndex -eq $route.InterfaceIndex } |'',
      ''    Select-Object -First 1'',
      ''[pscustomobject]@'' @ ''{'',
      ''    interface_index = [int]$route.InterfaceIndex'',
      ''    interface_name = [string]$adapter.Name'',
      ''    interface_alias = [string]$configuration.InterfaceAlias'',
      ''    mac_address = [string]$adapter.MacAddress'',
      ''    dhcp_enabled = [bool]$dhcp.DHCPEnabled'',
      ''    dhcp_server = [string]$dhcp.DHCPServer'',
      ''    ipv4_addresses = @($configuration.IPv4Address | ForEach-Object {'',
      ''        [pscustomobject]@'' @ ''{ address = [string]$_.IPAddress; prefix_length = [int]$_.PrefixLength }'',
      ''    })'',
      ''    default_gateway = [string]$route.NextHop'',
      ''    dns_servers = @($configuration.DNSServer.ServerAddresses)'',
      ''    ipv4_connection_state = [string]$interface.ConnectionState'',
      ''    ipv6_enabled = [bool](($adapter | Get-NetAdapterBinding -ComponentID ms_tcpip6).Enabled)'',
      ''} | ConvertTo-Json -Compress -Depth 4''])"

definition isolation_script :: "string \<Rightarrow> string" where
  "isolation_script index = ticks (script_text
     [''$principal = New-Object Security.Principal.WindowsPrincipal([Security.Principal.WindowsIdentity]::GetCurrent())'',
      ''if (-not $principal.IsInRole([Security.Principal.WindowsBuiltInRole]::Administrator)) {'',
      ''    throw ~Device isolation requires local Administrator privileges.~'',
      ''}'',
      ''$index = '' @ index,
      ''Get-NetAdapter -InterfaceIndex $index | Disable-NetAdapterBinding -ComponentID ms_tcpip6 -Confirm:$false'',
      ''Set-NetIPInterface -InterfaceIndex $index -AddressFamily IPv4 -Dhcp Disabled'',
      ''$alias = (Get-NetAdapter -InterfaceIndex $index).Name'',
      ''& netsh interface ipv4 set dnsservers \"name=$alias\" source=static address=none validate=no'',
      ''if ($LASTEXITCODE -ne 0) { throw ~Could not clear DNS servers for static isolation.~ }'',
      ''Get-NetIPAddress -InterfaceIndex $index -AddressFamily IPv4 -ErrorAction SilentlyContinue |'',
      ''    Remove-NetIPAddress -Confirm:$false -ErrorAction Stop'',
      ''Get-NetRoute -InterfaceIndex $index -AddressFamily IPv4 -DestinationPrefix ~0.0.0.0/0~ -ErrorAction SilentlyContinue |'',
      ''    Remove-NetRoute -Confirm:$false -ErrorAction SilentlyContinue'',
      ''New-NetIPAddress -InterfaceIndex $index -IPAddress '' @ STATIC_ISOLATION_ADDRESS @ '' -PrefixLength '' @ int_str STATIC_ISOLATION_PREFIX_LENGTH])"

definition value_text :: "pyval \<Rightarrow> string" where
  "value_text v = py_str (\<lambda>_. []) v"

definition ipv4_command :: "pyval \<Rightarrow> string" where
  "ipv4_command entry =
     (case entry of
        PDict d \<Rightarrow> ''New-NetIPAddress -InterfaceIndex $index -IPAddress '' @ value_text (dget d ''address'') @ '' -PrefixLength ''
          @ value_text (dget d ''prefix_length'')
      | _ \<Rightarrow> [])"

definition list_of :: "pyval \<Rightarrow> pyval list" where
  "list_of v = (case v of PList xs \<Rightarrow> xs | _ \<Rightarrow> [])"

definition gateway_command :: "pydict \<Rightarrow> string" where
  "gateway_command st =
     (if truthy (dget st ''default_gateway'')
      then ticks ''New-NetRoute -InterfaceIndex $index -AddressFamily IPv4 -DestinationPrefix ~0.0.0.0/0~ -NextHop ''
        @ value_text (dget st ''default_gateway'')
      else [])"

text \<open>The servers between quotes, as they are.\<close>

definition dns_command :: "pydict \<Rightarrow> string" where
  "dns_command st =
     (let servers = join '', '' (map (\<lambda>v. CHR 0x27 # value_text v @ [CHR 0x27]) (list_of (dget st ''dns_servers''))) in
      if servers \<noteq> [] then ''Set-DnsClientServerAddress -InterfaceIndex $index -ServerAddresses @('' @ servers @ '')''
      else ''Set-DnsClientServerAddress -InterfaceIndex $index -ResetServerAddresses'')"

definition dhcp_command :: "pydict \<Rightarrow> string" where
  "dhcp_command st =
     (if truthy (dget st ''dhcp_enabled'')
      then ''Set-NetIPInterface -InterfaceIndex $index -AddressFamily IPv4 -Dhcp Enabled; Set-DnsClientServerAddress -InterfaceIndex $index -ResetServerAddresses; ipconfig /renew''
      else ''Set-NetIPInterface -InterfaceIndex $index -AddressFamily IPv4 -Dhcp Disabled; ''
        @ script_text (map ipv4_command (list_of (dget st ''ipv4_addresses'')))
        @ (if gateway_command st = [] then [] else ''; '' @ gateway_command st) @ ''; '' @ dns_command st)"

definition ipv6_command :: "pydict \<Rightarrow> string" where
  "ipv6_command st =
     (if truthy (dget st ''ipv6_enabled'')
      then ''Get-NetAdapter -InterfaceIndex $index | Enable-NetAdapterBinding -ComponentID ms_tcpip6 -Confirm:$false''
      else ''Get-NetAdapter -InterfaceIndex $index | Disable-NetAdapterBinding -ComponentID ms_tcpip6 -Confirm:$false'')"

definition restore_script :: "pydict \<Rightarrow> string" where
  "restore_script st = (let index = value_text (dget st ''interface_index'') in script_text
     [''$principal = New-Object Security.Principal.WindowsPrincipal([Security.Principal.WindowsIdentity]::GetCurrent())'',
      ''if (-not $principal.IsInRole([Security.Principal.WindowsBuiltInRole]::Administrator)) {'',
      ticks ''    throw ~Network restoration requires local Administrator privileges.~'',
      ''}'',
      ''$index = '' @ index,
      ''Get-NetIPAddress -InterfaceIndex $index -AddressFamily IPv4 -ErrorAction SilentlyContinue |'',
      ''    Remove-NetIPAddress -Confirm:$false -ErrorAction SilentlyContinue'',
      ticks ''Get-NetRoute -InterfaceIndex $index -AddressFamily IPv4 -DestinationPrefix ~0.0.0.0/0~ -ErrorAction SilentlyContinue |'',
      ''    Remove-NetRoute -Confirm:$false -ErrorAction SilentlyContinue'',
      ipv6_command st,
      dhcp_command st])"

record netenv =
  ne_windows :: bool
  ne_run :: "string list \<Rightarrow> string \<Rightarrow> int \<times> string"
  ne_json :: "string \<Rightarrow> pyval option"

section \<open>The manager\<close>

datatype json_file = NoFile | BrokenFile | JsonFile pyval

record netstate =
  n_config :: json_file
  n_status :: json_file
  n_audit :: "pydict list"
  n_scripts :: "string list"
  n_answers :: "bool list"

definition net_permit :: "(netstate, unit) act" where
  "net_permit s =
     (case n_answers s of
        [] \<Rightarrow> (Inr (), s)
      | a # as \<Rightarrow> (if a then Inr () else raise_exc OSError ''write'', s\<lparr>n_answers := as\<rparr>))"

definition run_script :: "netenv \<Rightarrow> string \<Rightarrow> (netstate, int \<times> string) act" where
  "run_script e sc s = (Inr (ne_run e (n_scripts s) sc), s\<lparr>n_scripts := n_scripts s @ [sc]\<rparr>)"

definition update_act :: "(netstate \<Rightarrow> netstate) \<Rightarrow> (netstate, unit) act" where
  "update_act f s = (Inr (), f s)"

definition lifecycle_states :: "string list" where
  "lifecycle_states = [''NORMAL'', ''ISOLATING'', ''ISOLATED'', ''RESTORING'', ''RESTORED'', ''ISOLATION_FAILED'']"

text \<open>The status file is written first, the audit line after it.\<close>

definition record_lifecycle_state :: "int \<Rightarrow> string \<Rightarrow> pyval \<Rightarrow> pydict \<Rightarrow> (netstate, pydict) act" where
  "record_lifecycle_state now st why details =
     (if st \<notin> set lifecycle_states then raise_act ValueError ''Unsupported device-isolation state''
      else (let event = [(''timestamp'', PStr (isoformat_utc now)), (''state'', PStr st), (''reason'', why), (''details'', PDict details)] in
            seq_act net_permit (seq_act (update_act (\<lambda>s. s\<lparr>n_status := JsonFile (PDict event)\<rparr>))
              (seq_act net_permit (seq_act (update_act (\<lambda>s. s\<lparr>n_audit := n_audit s @ [event]\<rparr>)) (return_act event))))))"

definition get_lifecycle_state :: "netstate \<Rightarrow> pydict option result" where
  "get_lifecycle_state s =
     (case n_status s of
        NoFile \<Rightarrow> Inr None
      | BrokenFile \<Rightarrow> raise_exc JSONDecodeError ''status''
      | JsonFile (PDict d) \<Rightarrow>
          (case dget d ''state'' of
             PStr st \<Rightarrow>
               if st \<in> set lifecycle_states then Inr (Some d)
               else raise_exc ValueError ''Saved device-isolation lifecycle state has an invalid format.''
           | v \<Rightarrow>
               if unhashable v then raise_exc TypeError ''unhashable type''
               else raise_exc ValueError ''Saved device-isolation lifecycle state has an invalid format.'')
      | JsonFile _ \<Rightarrow> raise_exc ValueError ''Saved device-isolation lifecycle state has an invalid format.'')"

definition lift_result :: "'a result \<Rightarrow> ('s, 'a) act" where
  "lift_result r s = (r, s)"

definition get_interface_state :: "netenv \<Rightarrow> (netstate, pydict) act" where
  "get_interface_state e =
     (if \<not> ne_windows e then raise_act RuntimeError ''Device isolation state capture is supported on Windows only.''
      else bind_act (run_script e state_query)
             (\<lambda>(code, out).
                if code \<noteq> 0 then raise_act RuntimeError (''Could not inspect Windows network state: '' @ out)
                else (case ne_json e out of
                        None \<Rightarrow> raise_act RuntimeError ''Windows network state was not valid JSON''
                      | Some v \<Rightarrow> lift_result (normalise_state v))))"

definition saved_record :: "int \<Rightarrow> pyval \<Rightarrow> pydict \<Rightarrow> pydict" where
  "saved_record now why st =
     [(''version'', PInt 1), (''captured_at'', PStr (isoformat_utc now)), (''reason'', why), (''state'', PDict st)]"

definition save_current_configuration :: "netenv \<Rightarrow> int \<Rightarrow> pyval \<Rightarrow> (netstate, pydict) act" where
  "save_current_configuration e now why =
     bind_act (get_interface_state e)
       (\<lambda>st. seq_act net_permit
          (seq_act (update_act (\<lambda>s. s\<lparr>n_config := JsonFile (PDict (saved_record now why st))\<rparr>))
            (seq_act (record_lifecycle_state now ''NORMAL'' why
                [(''interface'', dget st ''interface_name''), (''ipv4_addresses'', dget st ''ipv4_addresses''),
                 (''default_gateway'', dget st ''default_gateway''), (''dhcp_enabled'', dget st ''dhcp_enabled'')])
              (return_act (saved_record now why st)))))"

definition ok_result :: "string \<Rightarrow> pydict" where
  "ok_result st = [(''status'', PStr ''ok''), (''state'', PStr st)]"

definition error_result :: "string \<Rightarrow> pydict" where
  "error_result message = [(''status'', PStr ''error''), (''message'', PStr message)]"

definition isolation_details :: pydict where
  "isolation_details = [(''method'', PStr ''STATIC_IP_NO_GATEWAY''), (''address'', PStr STATIC_ISOLATION_ADDRESS)]"

definition state_of_record :: "pydict \<Rightarrow> pydict" where
  "state_of_record r = (case dget r ''state'' of PDict d \<Rightarrow> d | _ \<Rightarrow> [])"

definition isolate_static_ip :: "netenv \<Rightarrow> int \<Rightarrow> pyval \<Rightarrow> bool \<Rightarrow> (netstate, pydict) act" where
  "isolate_static_ip e now why enabled =
     (if \<not> enabled then raise_act RuntimeError ''Static device isolation requires explicit enabled=True opt-in.''
      else if \<not> ne_windows e then raise_act RuntimeError ''Device isolation is supported on Windows only.''
      else bind_act (save_current_configuration e now why)
        (\<lambda>r. seq_act (record_lifecycle_state now ''ISOLATING'' why isolation_details)
          (bind_act (run_script e (isolation_script (value_text (dget (state_of_record r) ''interface_index''))))
            (\<lambda>(code, out).
               if code \<noteq> 0
               then seq_act (record_lifecycle_state now ''ISOLATION_FAILED'' why
                        [(''error'', PStr out), (''recovery_state_saved'', PBool True)])
                      (return_act (error_result out @ [(''recovery_state_saved'', PBool True)]))
               else seq_act (record_lifecycle_state now ''ISOLATED'' why isolation_details) (return_act (ok_result ''ISOLATED''))))))"

definition is_version_one :: "pyval \<Rightarrow> bool" where
  "is_version_one v \<longleftrightarrow> v = PInt 1 \<or> v = PBool True \<or> v = PFloat 1"

definition load_saved_configuration :: "netstate \<Rightarrow> pydict option result" where
  "load_saved_configuration s =
     (case n_config s of
        NoFile \<Rightarrow> Inr None
      | BrokenFile \<Rightarrow> raise_exc JSONDecodeError ''state''
      | JsonFile (PDict d) \<Rightarrow>
          if \<not> is_version_one (dget d ''version'') then raise_exc ValueError ''Saved device-isolation state has an invalid format.''
          else then_do (normalise_state (dget d ''state'')) (\<lambda>st. Inr (Some (dset ''state'' (PDict st) d)))
      | JsonFile _ \<Rightarrow> raise_exc ValueError ''Saved device-isolation state has an invalid format.'')"

definition restore_network :: "netenv \<Rightarrow> int \<Rightarrow> pyval \<Rightarrow> (netstate, pydict) act" where
  "restore_network e now why s =
     (if \<not> ne_windows e then (raise_exc RuntimeError ''Device isolation is supported on Windows only.'', s)
      else (case load_saved_configuration s of
              Inl err \<Rightarrow> (Inl err, s)
            | Inr None \<Rightarrow> (Inr (error_result ''No saved device-isolation state exists.''), s)
            | Inr (Some r) \<Rightarrow>
                seq_act (record_lifecycle_state now ''RESTORING'' why [])
                  (bind_act (run_script e (restore_script (state_of_record r)))
                    (\<lambda>(code, out).
                       if code \<noteq> 0
                       then seq_act (record_lifecycle_state now ''ISOLATED'' why [(''restore_error'', PStr out)]) (return_act (error_result out))
                       else seq_act (record_lifecycle_state now ''RESTORED'' why []) (return_act (ok_result ''RESTORED''))))
                  s))"

section \<open>What is saved is what is restored\<close>

lemma strip_strip [simp]: "strip (strip s) = strip s"
proof -
  have l: "lstrip (lstrip s) = lstrip s" for s by (simp add: lstrip_def)
  have r: "lstrip (rstrip (lstrip s)) = rstrip (lstrip s)" for s
  proof (cases "rstrip (lstrip s)")
    case (Cons c cs)
    then have "hd (lstrip s) = c"
      by (metis append_Cons append_Nil2 hd_append2 list.sel(1) list.simps(3) rev_rev_ident rstrip_def suffix_dropWhile suffix_def rev_append append_eq_Cons_conv)
    moreover have "lstrip s \<noteq> []" using Cons by (auto simp: rstrip_def)
    ultimately have "\<not> is_space c" using hd_dropWhile [of is_space s] by (simp add: lstrip_def)
    then show ?thesis unfolding Cons by (simp add: lstrip_def)
  qed (simp add: lstrip_def)
  have "rstrip (rstrip t) = rstrip t" for t by (simp add: rstrip_def)
  then show ?thesis by (simp add: strip_def r)
qed

lemma octet_bounds: "octet s = Some n \<Longrightarrow> 0 \<le> n \<and> n \<le> 255"
proof -
  assume o: "octet s = Some n"
  have "0 \<le> a \<Longrightarrow> list_all is_digit t \<Longrightarrow> 0 \<le> digits_val a t" for a t
    by (induction t arbitrary: a) (auto simp: digit_val_def is_digit_def)
  then show ?thesis using o by (auto simp: octet_def split: if_splits)
qed

lemma ipv4_of_bounds: "ipv4_of s = Some v \<Longrightarrow> 0 \<le> v \<and> v < 4294967296"
  by (auto simp: ipv4_of_def dest!: octet_bounds split: list.splits option.splits)

lemma ipv4_of_str [simp]: "ipv4_of s = Some v \<Longrightarrow> ipv4_of (ipv4_str v) = Some v"
  using ipv4_of_bounds ipv4_roundtrip by blast

lemma upper_upper [simp]: "upper (upper s) = upper s"
proof -
  have "upper_char (upper_char c) = upper_char c" for c
    by (simp add: upper_char_def Let_def)
  then show ?thesis by (simp add: upper_def)
qed

lemma mac_of_idem [simp]: "mac_of (mac_of v) = mac_of v"
proof (cases v)
  case (PStr s)
  let ?f = "replace_char (CHR ''-'') (CHR '':'')"
  have "?f (upper t) = upper t" if "CHR ''-'' \<notin> set t" for t
  proof -
    have "upper_char c \<noteq> CHR ''-''" if "c \<noteq> CHR ''-''" for c
    proof (cases "97 \<le> (of_char c :: int) \<and> (of_char c :: int) \<le> 122")
      case True
      then have "of_char (upper_char c) = (of_char c - 32 :: int)"
        by (simp add: upper_char_def Let_def take_bit_eq_mod)
      then show ?thesis using True by auto
    qed (use that in \<open>auto simp: upper_char_def Let_def\<close>)
    then have "\<forall>c\<in>set (upper t). c \<noteq> CHR ''-''" using that by (force simp: upper_def)
    then show ?thesis unfolding replace_char_def by (intro map_idI) simp
  qed
  moreover have "CHR ''-'' \<notin> set (?f s)" by (auto simp: replace_char_def)
  ultimately show ?thesis by (simp add: mac_of_def PStr)
qed (simp_all add: mac_of_def)

lemma gateway_of_idem [simp]: "gateway_of (gateway_of v) = gateway_of v"
  by (auto simp: gateway_of_def opt_str_def split: pyval.splits option.splits)

lemma or_none_idem [simp]: "or_none (or_none v) = or_none v"
  by (simp add: or_none_def)

lemma address_entry_idem: "x \<in> set (address_entry v) \<Longrightarrow> address_entry x = [x]"
  by (auto simp: address_entry_def split: pyval.splits option.splits if_splits)

definition ipv4_server :: "pyval \<Rightarrow> bool" where
  "ipv4_server v \<longleftrightarrow> (case v of PStr s \<Rightarrow> ipv4_of s \<noteq> None \<or> canonical_ip s = None | _ \<Rightarrow> True)"

lemma dns_entry_idem: "ipv4_server v \<Longrightarrow> x \<in> set (dns_entry v) \<Longrightarrow> dns_entry x = [x]"
  by (auto simp: ipv4_server_def dns_entry_def canonical_ip_def split: pyval.splits option.splits)

lemma concat_map_fixed: "(\<And>x. x \<in> set xs \<Longrightarrow> f x = [x]) \<Longrightarrow> concat (map f xs) = xs"
  by (induction xs) auto

text \<open>The DNS servers a system reports are IPv4 addresses; the text of those is canonical.\<close>

definition ipv4_servers :: "pyval \<Rightarrow> bool" where
  "ipv4_servers payload \<longleftrightarrow>
     (case payload of
        PDict d \<Rightarrow> (case iterate (dget_or d ''dns_servers'' (PList [])) of Inr xs \<Rightarrow> list_all ipv4_server xs | Inl _ \<Rightarrow> True)
      | _ \<Rightarrow> True)"

lemma normalise_state_cases:
  assumes "normalise_state payload = Inr st"
  obtains d name entries servers where "payload = PDict d" "st = interface_dict d name (concat (map address_entry entries)) (concat (map dns_entry servers))"
    "is_int (dget d ''interface_index'')" "int_value (dget d ''interface_index'') \<ge> 1" "strip name \<noteq> []"
    "concat (map address_entry entries) \<noteq> []" "iterate (dget_or d ''dns_servers'' (PList [])) = Inr servers"
proof -
  obtain d where d: "payload = PDict d" using assms by (cases payload) (simp_all add: normalise_state_def)
  have ix: "is_int (dget d ''interface_index'')" "int_value (dget d ''interface_index'') \<ge> 1"
    using assms by (auto simp: normalise_state_def d split: if_splits)
  obtain name where n: "py_or (dget d ''interface_name'') (dget d ''interface_alias'') = PStr name" "strip name \<noteq> []"
    using assms by (auto simp: normalise_state_def d split: pyval.splits if_splits)
  obtain entries where e: "dget d ''ipv4_addresses'' = PList entries"
    using assms n ix by (auto simp: normalise_state_def d split: pyval.splits if_splits)
  show thesis
    using assms that [OF d, of name entries] ix n(2)
    by (auto simp: normalise_state_def d n(1) e Let_def then_do_eq_Inr split: if_splits)
qed

text \<open>Normalising a state again changes nothing.\<close>

lemma normalise_state_stable:
  assumes "normalise_state payload = Inr st" "ipv4_servers payload"
  shows "normalise_state (PDict st) = Inr st"
  using assms(1)
proof (cases rule: normalise_state_cases)
  case (1 d name entries servers)
  let ?as = "concat (map address_entry entries)" and ?ds = "concat (map dns_entry servers)"
  have as: "concat (map address_entry ?as) = ?as" by (rule concat_map_fixed) (auto dest: address_entry_idem)
  have ds: "concat (map dns_entry ?ds) = ?ds"
    using assms(2) 1(1,7) by (intro concat_map_fixed) (auto simp: ipv4_servers_def list_all_iff dest: dns_entry_idem)
  have look: "dget st ''interface_index'' = dget d ''interface_index''" "dget st ''interface_name'' = PStr (strip name)"
    "dget st ''ipv4_addresses'' = PList ?as" "dget_or st ''dns_servers'' (PList []) = PList ?ds"
    by (simp_all add: 1(2) interface_dict_def dget_or_def)
  have "interface_dict st (strip name) ?as ?ds = st"
    by (simp add: 1(2) interface_dict_def)
  then show ?thesis
    using 1(3-6) as ds
    by (auto simp: normalise_state_def look py_or_def iterate_def Let_def)
qed

section \<open>The recovery state\<close>

text \<open>What an isolation leaves: the scripts it ran, and the recovery state whenever the interface was touched.\<close>

lemma net_permit_frame: "net_permit s = (x, s') \<Longrightarrow> n_config s' = n_config s \<and> n_scripts s' = n_scripts s"
  by (auto simp: net_permit_def split: list.splits)

lemma record_frame: "record_lifecycle_state now st why details s = (x, s') \<Longrightarrow> n_config s' = n_config s \<and> n_scripts s' = n_scripts s"
proof -
  obtain y s1 where p1: "net_permit s = (y, s1)" by force
  assume "record_lifecycle_state now st why details s = (x, s')"
  then show ?thesis
    using net_permit_frame [OF p1] net_permit_frame
    by (auto simp: record_lifecycle_state_def raise_act_def return_act_def seq_act_def bind_act_def update_act_def p1 Let_def
        split: if_splits prod.splits sum.splits dest: net_permit_frame)
qed

lemma interface_state_frame:
  assumes "get_interface_state e s = (x, s')"
  shows "n_config s' = n_config s" "n_scripts s' = n_scripts s \<or> n_scripts s' = n_scripts s @ [state_query]"
    "x = Inr st \<Longrightarrow> n_scripts s' = n_scripts s @ [state_query] \<and>
       (\<exists>v. ne_json e (snd (ne_run e (n_scripts s) state_query)) = Some v \<and> normalise_state v = Inr st)"
  using assms
  by (auto simp: get_interface_state_def raise_act_def bind_act_def run_script_def lift_result_def
      split: if_splits prod.splits option.splits)

lemma save_frame:
  assumes "save_current_configuration e now why s = (x, s')"
  shows "n_scripts s' = n_scripts s \<or> n_scripts s' = n_scripts s @ [state_query]"
    "x = Inr r \<Longrightarrow> \<exists>st v. r = saved_record now why st \<and> n_config s' = JsonFile (PDict r) \<and> n_scripts s' = n_scripts s @ [state_query] \<and>
       ne_json e (snd (ne_run e (n_scripts s) state_query)) = Some v \<and> normalise_state v = Inr st"
proof -
  obtain y s1 where q: "get_interface_state e s = (y, s1)" by force
  note frame = interface_state_frame [OF q]
  show "n_scripts s' = n_scripts s \<or> n_scripts s' = n_scripts s @ [state_query]"
    using assms frame(2)
    by (auto simp: save_current_configuration_def bind_act_def seq_act_def q return_act_def update_act_def
        split: sum.splits prod.splits dest!: net_permit_frame record_frame)
  assume "x = Inr r"
  then obtain st where st: "y = Inr st" using assms by (cases y) (auto simp: save_current_configuration_def bind_act_def q)
  show "\<exists>st v. r = saved_record now why st \<and> n_config s' = JsonFile (PDict r) \<and> n_scripts s' = n_scripts s @ [state_query] \<and>
       ne_json e (snd (ne_run e (n_scripts s) state_query)) = Some v \<and> normalise_state v = Inr st"
    using assms frame(3) [OF st] \<open>x = Inr r\<close>
    by (auto simp: save_current_configuration_def bind_act_def seq_act_def q st return_act_def update_act_def
        split: sum.splits prod.splits dest!: net_permit_frame record_frame)
qed

lemma state_of_saved [simp]: "state_of_record (saved_record now why st) = st"
  by (simp add: state_of_record_def saved_record_def)

lemma isolate_frame:
  assumes "isolate_static_ip e now why True s = (x, s')"
  shows "n_scripts s' = n_scripts s \<or> n_scripts s' = n_scripts s @ [state_query] \<or>
    (\<exists>st v. n_config s' = JsonFile (PDict (saved_record now why st)) \<and>
       n_scripts s' = n_scripts s @ [state_query, isolation_script (value_text (dget st ''interface_index''))] \<and>
       ne_json e (snd (ne_run e (n_scripts s) state_query)) = Some v \<and> normalise_state v = Inr st)"
    and "x = Inr d \<Longrightarrow> ne_windows e \<and> n_scripts s' \<noteq> n_scripts s \<and> n_scripts s' \<noteq> n_scripts s @ [state_query]"
proof -
  obtain y s1 where q: "save_current_configuration e now why s = (y, s1)" by force
  note frame = save_frame [OF q]
  have ran: "ne_windows e \<and> (\<exists>r. y = Inr r \<and> (n_scripts s' = n_scripts s1 \<or>
      n_scripts s' = n_scripts s1 @ [isolation_script (value_text (dget (state_of_record r) ''interface_index''))]) \<and>
      n_config s' = n_config s1 \<and> (x = Inr d \<longrightarrow> n_scripts s' \<noteq> n_scripts s1))"
    if "\<exists>r. y = Inr r" "ne_windows e" for d
    using assms that
    by (auto simp: isolate_static_ip_def bind_act_def seq_act_def q return_act_def run_script_def
        split: sum.splits prod.splits if_splits dest!: record_frame)
  show "n_scripts s' = n_scripts s \<or> n_scripts s' = n_scripts s @ [state_query] \<or>
    (\<exists>st v. n_config s' = JsonFile (PDict (saved_record now why st)) \<and>
       n_scripts s' = n_scripts s @ [state_query, isolation_script (value_text (dget st ''interface_index''))] \<and>
       ne_json e (snd (ne_run e (n_scripts s) state_query)) = Some v \<and> normalise_state v = Inr st)"
  proof (cases "ne_windows e \<and> (\<exists>r. y = Inr r)")
    case True
    then obtain r where r: "y = Inr r" "n_scripts s' = n_scripts s1 \<or>
        n_scripts s' = n_scripts s1 @ [isolation_script (value_text (dget (state_of_record r) ''interface_index''))]" "n_config s' = n_config s1"
      using ran by blast
    from frame(2) [OF r(1)] r(2,3) show ?thesis by auto
  next
    case False
    then have "n_scripts s' = n_scripts s \<or> s' = s1 \<and> n_scripts s' = n_scripts s1"
      using assms by (cases y) (auto simp: isolate_static_ip_def bind_act_def q raise_act_def split: if_splits)
    then show ?thesis using frame(1) by auto
  qed
  show "x = Inr d \<Longrightarrow> ne_windows e \<and> n_scripts s' \<noteq> n_scripts s \<and> n_scripts s' \<noteq> n_scripts s @ [state_query]"
  proof -
    assume x: "x = Inr d"
    then have "ne_windows e \<and> (\<exists>r. y = Inr r)"
      using assms by (cases y) (auto simp: isolate_static_ip_def bind_act_def q raise_act_def split: if_splits)
    then obtain r where "y = Inr r" "n_scripts s' = n_scripts s1 @ [isolation_script (value_text (dget (state_of_record r) ''interface_index''))]" "ne_windows e"
      using ran [of d] x by blast
    then show ?thesis using frame(2) by auto
  qed
qed

lemma restore_runs_saved:
  assumes "n_config s = JsonFile (PDict (saved_record now why st))" "normalise_state (PDict st) = Inr st" "ne_windows e"
    and "restore_network e now' why' s = (Inr d, s')"
  shows "n_scripts s' = n_scripts s @ [restore_script st]"
proof -
  have "load_saved_configuration s = Inr (Some (saved_record now why st))"
    by (simp add: load_saved_configuration_def assms(1,2) saved_record_def is_version_one_def)
  then show ?thesis
    using assms(3,4)
    by (auto simp: restore_network_def bind_act_def seq_act_def return_act_def run_script_def
        split: sum.splits prod.splits if_splits dest!: record_frame)
qed


section \<open>Runs\<close>

definition demo_interface :: pydict where
  "demo_interface =
     [(''interface_index'', PInt 7), (''interface_name'', PStr ''Ethernet''),
      (''ipv4_addresses'', PList [PDict [(''address'', PStr ''10.0.0.5''), (''prefix_length'', PInt 24)]]),
      (''default_gateway'', PStr ''10.0.0.1''), (''dns_servers'', PList [PStr ''10.0.0.2''])]"

definition demo_netenv :: "pydict \<Rightarrow> netenv" where
  "demo_netenv d = \<lparr>ne_windows = True, ne_run = (\<lambda>_ _. (0, [])), ne_json = (\<lambda>_. Some (PDict d))\<rparr>"

definition demo_netstate :: netstate where
  "demo_netstate = \<lparr>n_config = NoFile, n_status = NoFile, n_audit = [], n_scripts = [], n_answers = []\<rparr>"


text \<open>
  A second isolation that can still query an interface replaces the recovery state of the first; and the scope of an IPv6
  server, which may be any text, closes the quote it stands in.
\<close>

lemma second_isolation_overwrites:
  "let (_, s1) = isolate_static_ip (demo_netenv demo_interface) 0 PNone True demo_netstate;
       (_, s2) = isolate_static_ip (demo_netenv (dset ''interface_index'' (PInt 8) demo_interface)) 0 PNone True s1
   in n_config s1 \<noteq> n_config s2 \<and> (case n_config s2 of JsonFile (PDict r) \<Rightarrow> dget (state_of_record r) ''interface_index'' = PInt 8 | _ \<Rightarrow> False)"
  by code_simp

lemma scope_breaks_quote:
  "canonical_ip (''fe80::1%'' @ [CHR 0x27] @ ''); calc; ('' @ [CHR 0x27]) = Some (''fe80::1%'' @ [CHR 0x27] @ ''); calc; ('' @ [CHR 0x27])"
  by code_simp

end
