(* ===== verification/Wire.thy ===== *)
theory Wire
  imports Bytes
begin

text \<open>
  The frames between server and clients: \<open>send_message\<close> and \<open>receive_message\<close> of
  \<open>server/server_components/server_lib.py\<close> and \<open>client/app/client_lib.py\<close>.  The JSON text of a message is a parameter:
  \<open>dumps\<close> gives its bytes, \<open>loads\<close> reads them and may raise.  A socket holds the bytes the peer still sends before it
  closes; \<open>k_sizes\<close> says how many bytes the next \<open>recv\<close> calls return at most, \<open>k_polls\<close> what \<open>select\<close> and the stop event say.
\<close>

section \<open>Sockets\<close>

datatype poll = Readable | NotYet | Stopped | SelectError

record socket =
  k_in :: bytes
  k_sizes :: "int list"
  k_polls :: "poll list"
  k_out :: bytes

text \<open>\<open>recv(n)\<close>: between one and \<open>n\<close> bytes, none only when the peer has closed.\<close>

definition recv :: "int \<Rightarrow> socket \<Rightarrow> bytes \<times> socket" where
  "recv n s =
     (let k = min n (max 1 (case k_sizes s of [] \<Rightarrow> n | c # _ \<Rightarrow> c))
      in (itake k (k_in s), s\<lparr>k_in := idrop k (k_in s), k_sizes := tl (k_sizes s)\<rparr>))"

text \<open>\<open>wait_for_readable\<close> of the client; when nothing more is recorded the socket is readable.\<close>

fun wait_for_readable :: "poll list \<Rightarrow> bool \<times> poll list" where
  "wait_for_readable [] = (True, [])"
| "wait_for_readable (Readable # ps) = (True, ps)"
| "wait_for_readable (NotYet # ps) = wait_for_readable ps"
| "wait_for_readable (Stopped # ps) = (False, ps)"
| "wait_for_readable (SelectError # ps) = (False, ps)"

definition wait_socket :: "socket \<Rightarrow> bool \<times> socket" where
  "wait_socket s = (case wait_for_readable (k_polls s) of (b, ps) \<Rightarrow> (b, s\<lparr>k_polls := ps\<rparr>))"

text \<open>The server does not poll.\<close>

definition no_wait :: "socket \<Rightarrow> bool \<times> socket" where
  "no_wait s = (True, s)"

section \<open>Sending\<close>

text \<open>\<open>n.to_bytes(4, "big")\<close>.\<close>

definition to_bytes4 :: "int \<Rightarrow> bytes result" where
  "to_bytes4 n =
     (if 0 \<le> n \<and> n < 4294967296
      then Inr [n div 16777216, n div 65536 mod 256, n div 256 mod 256, n mod 256]
      else raise_exc OtherException ''int too big to convert'')"

definition frame_of :: "bytes \<Rightarrow> bytes result" where
  "frame_of data = (case to_bytes4 (ilen data) of Inl e \<Rightarrow> Inl e | Inr header \<Rightarrow> Inr (header @ data))"

text \<open>\<open>up\<close> says whether \<open>sendall\<close> gets through.\<close>

definition send_message :: "('m \<Rightarrow> bytes) \<Rightarrow> bool \<Rightarrow> 'm \<Rightarrow> socket \<Rightarrow> unit result \<times> socket" where
  "send_message dumps up m s =
     (case frame_of (dumps m) of
        Inl e \<Rightarrow> (Inl e, s)
      | Inr f \<Rightarrow> if up then (Inr (), s\<lparr>k_out := k_out s @ f\<rparr>) else (raise_exc OSError ''connection lost'', s))"

section \<open>Receiving\<close>

text \<open>The loops that read until \<open>size\<close> bytes are there, at most \<open>cap\<close> at a time; \<open>None\<close> when the peer has closed.\<close>

function read_until :: "(socket \<Rightarrow> bool \<times> socket) \<Rightarrow> int \<Rightarrow> int \<Rightarrow> bytes \<Rightarrow> socket \<Rightarrow> bytes option \<times> socket" where
  "read_until wait cap n acc s =
     (if n \<le> ilen acc then (Some acc, s)
      else (case wait s of
              (False, s1) \<Rightarrow> (None, s1)
            | (True, s1) \<Rightarrow>
                (case recv (min cap (n - ilen acc)) s1 of
                   ([], s2) \<Rightarrow> (None, s2)
                 | (b # bs, s2) \<Rightarrow> read_until wait cap n (acc @ b # bs) s2)))"
  by pat_completeness auto
termination
  by (relation "measure (\<lambda>(wait, cap, n, acc, s). nat (n - ilen acc))") (auto simp: ilen_length)

declare read_until.simps [simp del]

definition receive_frame ::
  "(socket \<Rightarrow> bool \<times> socket) \<Rightarrow> (bytes \<Rightarrow> 'm result) \<Rightarrow> socket \<Rightarrow> 'm option result \<times> socket" where
  "receive_frame wait loads s =
     (case read_until wait 4 4 [] s of
        (None, s1) \<Rightarrow> (Inr None, s1)
      | (Some header, s1) \<Rightarrow>
          (case read_until wait 65536 (be header) [] s1 of
             (None, s2) \<Rightarrow> (Inr None, s2)
           | (Some data, s2) \<Rightarrow> (case loads data of Inl e \<Rightarrow> (Inl e, s2) | Inr m \<Rightarrow> (Inr (Some m), s2))))"

definition receive_message :: "(bytes \<Rightarrow> 'm result) \<Rightarrow> socket \<Rightarrow> 'm option result \<times> socket" where
  "receive_message = receive_frame no_wait"

definition client_receive_message :: "(bytes \<Rightarrow> 'm result) \<Rightarrow> socket \<Rightarrow> 'm option result \<times> socket" where
  "client_receive_message = receive_frame wait_socket"

text \<open>Receiving until the end of the stream or an exception.\<close>

fun receive_many :: "(socket \<Rightarrow> 'm option result \<times> socket) \<Rightarrow> nat \<Rightarrow> socket \<Rightarrow> 'm list \<times> socket" where
  "receive_many r 0 s = ([], s)"
| "receive_many r (Suc n) s =
     (case r s of
        (Inr (Some m), s1) \<Rightarrow> (case receive_many r n s1 of (ms, s2) \<Rightarrow> (m # ms, s2))
      | (_, s1) \<Rightarrow> ([], s1))"

fun send_all :: "('m \<Rightarrow> bytes) \<Rightarrow> 'm list \<Rightarrow> socket \<Rightarrow> unit result \<times> socket" where
  "send_all dumps [] s = (Inr (), s)"
| "send_all dumps (m # ms) s =
     (case send_message dumps True m s of (Inl e, s1) \<Rightarrow> (Inl e, s1) | (Inr _, s1) \<Rightarrow> send_all dumps ms s1)"

section \<open>Frames survive every split of the stream\<close>

text \<open>A way to wait that never gives up and leaves the stream alone.\<close>

definition patient :: "(socket \<Rightarrow> bool \<times> socket) \<Rightarrow> (socket \<Rightarrow> bool) \<Rightarrow> bool" where
  "patient wait calm \<longleftrightarrow>
     (\<forall>s. calm s \<longrightarrow> fst (wait s) \<and> calm (snd (wait s)) \<and> k_in (snd (wait s)) = k_in s) \<and>
     (\<forall>s bs ks. calm s \<longrightarrow> calm (s\<lparr>k_in := bs, k_sizes := ks\<rparr>))"

definition calm_polls :: "socket \<Rightarrow> bool" where
  "calm_polls s \<longleftrightarrow> Stopped \<notin> set (k_polls s) \<and> SelectError \<notin> set (k_polls s)"

lemma wait_for_readable_calm:
  "Stopped \<notin> set ps \<Longrightarrow> SelectError \<notin> set ps \<Longrightarrow>
   fst (wait_for_readable ps) \<and> set (snd (wait_for_readable ps)) \<subseteq> set ps"
  by (induction ps rule: wait_for_readable.induct) auto

lemma patient_wait_socket: "patient wait_socket calm_polls"
  using wait_for_readable_calm
  by (fastforce simp: patient_def wait_socket_def calm_polls_def split: prod.splits)

lemma patient_no_wait: "patient no_wait (\<lambda>s. True)"
  by (simp add: patient_def no_wait_def)

lemma read_until_exact:
  assumes "patient wait calm" "0 < cap"
  shows "calm s \<Longrightarrow> n = ilen acc + ilen xs \<Longrightarrow> k_in s = xs @ rest \<Longrightarrow>
    \<exists>s'. read_until wait cap n acc s = (Some (acc @ xs), s') \<and> k_in s' = rest \<and> calm s'"
proof (induction xs arbitrary: acc s rule: length_induct)
  case (1 xs)
  show ?case
  proof (cases "xs = []")
    case True
    with "1.prems" show ?thesis by (auto simp: read_until.simps)
  next
    case False
    define s1 where "s1 = snd (wait s)"
    have w: "wait s = (True, s1)" "calm s1" "k_in s1 = xs @ rest"
      using assms(1) "1.prems" by (auto simp: patient_def s1_def prod_eq_iff)
    define k where "k = min (min cap (n - ilen acc)) (max 1 (case k_sizes s1 of [] \<Rightarrow> min cap (n - ilen acc) | c # _ \<Rightarrow> c))"
    have k: "0 < k" "k \<le> ilen xs"
      using "1.prems"(2) False assms(2) by (auto simp: k_def ilen_length min_def max_def split: list.splits)
    define s2 where "s2 = s1\<lparr>k_in := drop (nat k) xs @ rest, k_sizes := tl (k_sizes s1)\<rparr>"
    have r: "recv (min cap (n - ilen acc)) s1 = (take (nat k) xs, s2)"
      unfolding recv_def k_def [symmetric] s2_def w(3) using k
      by (simp add: itake_take idrop_drop ilen_length Let_def)
    have c2: "calm s2" using assms(1) w(2) by (simp add: patient_def s2_def)
    from False k(1) obtain b bs where t: "take (nat k) xs = b # bs" by (cases xs; cases "nat k") auto
    have "\<exists>s'. read_until wait cap n (acc @ take (nat k) xs) s2 = (Some ((acc @ take (nat k) xs) @ drop (nat k) xs), s') \<and>
        k_in s' = rest \<and> calm s'"
      by (rule "1.IH" [rule_format]) (use False k "1.prems"(2) c2 in \<open>auto simp: s2_def ilen_length\<close>)
    moreover have "\<not> n \<le> ilen acc" using "1.prems"(2) False by (simp add: ilen_length)
    moreover have "b # bs @ drop (nat k) xs = xs" using t append_take_drop_id [of "nat k" xs] by simp
    ultimately show ?thesis
      using t by (subst read_until.simps) (simp add: w(1) r)
  qed
qed

lemma be_to_bytes4: "to_bytes4 n = Inr header \<Longrightarrow> be header = n \<and> ilen header = 4"
proof -
  assume h: "to_bytes4 n = Inr header"
  have "n div 16777216 = n div 256 div 256 div 256" "n div 65536 = n div 256 div 256"
    by (simp_all flip: zdiv_zmult2_eq)
  then have "((n div 16777216 * 256 + n div 65536 mod 256) * 256 + n div 256 mod 256) * 256 + n mod 256 = n"
    by (simp only: div_mult_mod_eq)
  note pieces = this
  have header: "header = [n div 16777216, n div 65536 mod 256, n div 256 mod 256, n mod 256]"
    using h by (simp only: to_bytes4_def split: if_splits) simp_all
  show ?thesis
    unfolding header be_def foldl_Cons foldl_Nil mult_zero_left add_0 pieces by simp
qed

lemma frame_of_ok: "ilen data < 4294967296 \<Longrightarrow> \<exists>header. to_bytes4 (ilen data) = Inr header \<and> frame_of data = Inr (header @ data)"
  by (simp add: frame_of_def to_bytes4_def ilen_length)

lemma receive_frame_one:
  assumes "patient wait calm" "calm s" "frame_of data = Inr f" "k_in s = f @ rest"
  shows "\<exists>s'. receive_frame wait loads s = (case loads data of Inl e \<Rightarrow> (Inl e, s') | Inr m \<Rightarrow> (Inr (Some m), s')) \<and>
    k_in s' = rest \<and> calm s'"
proof -
  obtain header where h: "to_bytes4 (ilen data) = Inr header" "f = header @ data"
    using assms(3) by (auto simp: frame_of_def split: sum.splits)
  note b = be_to_bytes4 [OF h(1)]
  have n: "4 = ilen [] + ilen header" "be header = ilen [] + ilen data" using b by (simp_all add: ilen_length)
  obtain s1 where r1: "read_until wait 4 4 [] s = (Some header, s1)" "k_in s1 = data @ rest" "calm s1"
    using read_until_exact [OF assms(1) _ assms(2) n(1), of 4 "data @ rest"] assms(4) h(2) by auto
  obtain s2 where r2: "read_until wait 65536 (be header) [] s1 = (Some data, s2)" "k_in s2 = rest" "calm s2"
    using read_until_exact [OF assms(1) _ r1(3) n(2) r1(2), of 65536] by auto
  show ?thesis by (intro exI [of _ s2]) (simp add: receive_frame_def r1(1) r2)
qed

lemma send_all_stream:
  "\<forall>m\<in>set ms. ilen (dumps m) < 4294967296 \<Longrightarrow>
   \<exists>fs. send_all dumps ms s = (Inr (), s\<lparr>k_out := k_out s @ concat fs\<rparr>) \<and> list_all2 (\<lambda>m f. frame_of (dumps m) = Inr f) ms fs"
proof (induction ms arbitrary: s)
  case Nil
  then show ?case by simp
next
  case (Cons m ms)
  obtain f where f: "frame_of (dumps m) = Inr f" using frame_of_ok [of "dumps m"] Cons.prems by auto
  obtain fs where fs: "send_all dumps ms (s\<lparr>k_out := k_out s @ f\<rparr>) = (Inr (), s\<lparr>k_out := (k_out s @ f) @ concat fs\<rparr>)"
    "list_all2 (\<lambda>m f. frame_of (dumps m) = Inr f) ms fs"
    using Cons.IH [of "s\<lparr>k_out := k_out s @ f\<rparr>"] Cons.prems by auto
  show ?case by (rule exI [of _ "f # fs"]) (simp add: send_message_def f fs)
qed

lemma receive_many_frames:
  assumes "patient wait calm"
  shows "list_all2 (\<lambda>m f. frame_of (dumps m) = Inr f) ms fs \<Longrightarrow> \<forall>m\<in>set ms. loads (dumps m) = Inr m \<Longrightarrow>
    calm s \<Longrightarrow> k_in s = concat fs @ rest \<Longrightarrow>
    \<exists>s'. receive_many (receive_frame wait loads) (length ms) s = (ms, s') \<and> k_in s' = rest"
proof (induction ms fs arbitrary: s rule: list_all2_induct)
  case Nil
  then show ?case by simp
next
  case (Cons m ms f fs)
  obtain s1 where s1: "receive_frame wait loads s = (Inr (Some m), s1)" "k_in s1 = concat fs @ rest" "calm s1"
    using receive_frame_one [OF assms Cons.prems(2) Cons.hyps(1), of "concat fs @ rest" loads] Cons.prems by auto
  obtain s2 where "receive_many (receive_frame wait loads) (length ms) s1 = (ms, s2)" "k_in s2 = rest"
    using Cons.IH [OF _ s1(3,2)] Cons.prems by auto
  then show ?case by (simp add: s1(1))
qed

text \<open>
  C3.  Messages arrive as they were sent, whatever the pieces the network delivers them in: if every message is shorter than
  four gigabytes and its text reads back as itself, the stream that the sender writes gives a receiver, on the server as on a
  client that is not told to stop, exactly these messages in their order, and what follows them stays in the stream.
\<close>

theorem messages_arrive:
  assumes "\<forall>m\<in>set ms. ilen (dumps m) < 4294967296 \<and> loads (dumps m) = Inr m"
    and "send_all dumps ms a = (r, a')" "k_out a = []" "k_in s = k_out a' @ rest"
  shows "r = Inr () \<and>
    (\<exists>s'. receive_many (receive_message loads) (length ms) s = (ms, s') \<and> k_in s' = rest) \<and>
    (calm_polls s \<longrightarrow> (\<exists>s'. receive_many (client_receive_message loads) (length ms) s = (ms, s') \<and> k_in s' = rest))"
proof -
  have small: "\<forall>m\<in>set ms. ilen (dumps m) < 4294967296" and loaded: "\<forall>m\<in>set ms. loads (dumps m) = Inr m"
    using assms(1) by auto
  obtain fs where fs: "send_all dumps ms a = (Inr (), a\<lparr>k_out := concat fs\<rparr>)"
    "list_all2 (\<lambda>m f. frame_of (dumps m) = Inr f) ms fs"
    using send_all_stream [OF small, of a] assms(3) by auto
  then have k: "k_in s = concat fs @ rest" using assms(2,4) by auto
  show ?thesis
    using receive_many_frames [OF patient_no_wait fs(2) loaded _ k] receive_many_frames [OF patient_wait_socket fs(2) loaded _ k]
      fs(1) assms(2) by (auto simp: receive_message_def client_receive_message_def)
qed

text \<open>Messages of bytes, sent in one piece and received in pieces of one, three and two bytes.\<close>

definition demo_socket :: "bytes \<Rightarrow> socket" where
  "demo_socket bs = \<lparr>k_in = bs, k_sizes = [1, 3, 2, 0, 1, 1], k_polls = [NotYet, Readable], k_out = []\<rparr>"

lemma messages_arrive_witness:
  "\<exists>a' s'. send_all (\<lambda>m. m) [[1, 2, 3], [], [255]] (demo_socket []) = (Inr (), a') \<and>
     receive_many (receive_message Inr) 3 (demo_socket (k_out a' @ [9])) = ([[1, 2, 3], [], [255]], s') \<and> k_in s' = [9]"
proof -
  let ?a = "snd (send_all (\<lambda>m. m) [[1, 2, 3], [], [255]] (demo_socket []))"
  have h: "\<forall>m\<in>set [[1, 2, 3], [], [255]]. ilen m < 4294967296 \<and> Inr m = (Inr m :: bytes result)" by code_simp
  have s: "send_all (\<lambda>m. m) [[1, 2, 3], [], [255]] (demo_socket []) =
      (fst (send_all (\<lambda>m. m) [[1, 2, 3], [], [255]] (demo_socket [])), ?a)" by simp
  have r: "fst (send_all (\<lambda>m. m) [[1, 2, 3], [], [255]] (demo_socket [])) = Inr ()" by code_simp
  have sockets: "k_out (demo_socket []) = []" "k_in (demo_socket (k_out ?a @ [9])) = k_out ?a @ [9]" by (simp_all add: demo_socket_def)
  obtain s' where "receive_many (receive_message Inr) (length [[1, 2, 3], [], [255 :: int]]) (demo_socket (k_out ?a @ [9])) =
      ([[1, 2, 3], [], [255]], s')" "k_in s' = [9]"
    using messages_arrive [OF h s sockets] by blast
  moreover have "length [[1, 2, 3], [], [255 :: int]] = 3" by simp
  ultimately show ?thesis using s unfolding r by metis
qed

text \<open>A frame that is cut off delivers nothing.\<close>

lemma read_until_short:
  assumes "patient wait calm" "0 < cap"
  shows "calm s \<Longrightarrow> ilen acc + ilen (k_in s) < n \<Longrightarrow> fst (read_until wait cap n acc s) = None"
proof (induction "length (k_in s)" arbitrary: acc s rule: less_induct)
  case less
  define s1 where "s1 = snd (wait s)"
  have w: "wait s = (True, s1)" "calm s1" "k_in s1 = k_in s"
    using assms(1) less.prems by (auto simp: patient_def s1_def prod_eq_iff)
  define k where "k = min (min cap (n - ilen acc)) (max 1 (case k_sizes s1 of [] \<Rightarrow> min cap (n - ilen acc) | c # _ \<Rightarrow> c))"
  have k: "0 < k" "recv (min cap (n - ilen acc)) s1 =
      (itake k (k_in s), s1\<lparr>k_in := idrop k (k_in s), k_sizes := tl (k_sizes s1)\<rparr>)"
    using assms(2) less.prems(2) by (simp add: k_def ilen_length) (simp add: recv_def w(3) Let_def k_def)
  have more_wanted: "\<not> n \<le> ilen acc" using less.prems(2) by (simp add: ilen_length)
  let ?s2 = "s1\<lparr>k_in := idrop k (k_in s), k_sizes := tl (k_sizes s1)\<rparr>"
  show ?case
  proof (cases "itake k (k_in s)")
    case Nil
    then show ?thesis using more_wanted by (subst read_until.simps) (simp add: w k)
  next
    case (Cons b bs)
    then have "length (k_in ?s2) < length (k_in s)" using k(1) by (cases "k_in s") (auto simp: idrop_drop)
    moreover have "calm ?s2" using assms(1) w(2) by (simp add: patient_def)
    moreover have "ilen (acc @ b # bs) + ilen (k_in ?s2) < n"
      using less.prems(2) itake_idrop [of k "k_in s"] Cons by (metis (no_types, lifting) append_assoc ilen_length length_append
          of_nat_add select_convs(1) surjective update_convs(1) update_convs(2))
    ultimately show ?thesis using less.hyps [of ?s2 "acc @ b # bs"] less.prems
      by (subst read_until.simps) (simp add: w k Cons more_wanted)
  qed
qed

lemma truncated_frame_dropped:
  assumes "frame_of data = Inr f" "strict_prefix (k_in s) f"
  shows "fst (receive_message loads s) = Inr None"
proof -
  obtain header where h: "to_bytes4 (ilen data) = Inr header" "f = header @ data"
    using assms(1) by (auto simp: frame_of_def split: sum.splits)
  note b = be_to_bytes4 [OF h(1)]
  show ?thesis
  proof (cases "ilen (k_in s) < 4")
    case True
    then have "fst (read_until no_wait 4 4 [] s) = None" by (intro read_until_short [OF patient_no_wait]) (auto simp: ilen_length)
    then show ?thesis by (auto simp: receive_message_def receive_frame_def split: prod.splits)
  next
    case False
    from assms(2) obtain tail where tail: "header @ data = k_in s @ tail" "tail \<noteq> []"
      unfolding h(2) by (auto simp: strict_prefix_def prefix_def)
    define part where "part = drop 4 (k_in s)"
    have "take 4 (k_in s @ tail) = header" using b by (simp add: tail(1) [symmetric] ilen_length)
    then have "take 4 (k_in s) = header" using False by (simp add: ilen_length)
    then have part: "k_in s = header @ part" unfolding part_def by (metis append_take_drop_id)
    with tail(1) have "data = part @ tail" by simp
    with part have p: "k_in s = header @ part" "strict_prefix part data" using tail(2) by (auto simp: strict_prefix_def)
    have n: "4 = ilen [] + ilen header" using b by (simp add: ilen_length)
    obtain s1 where r1: "read_until no_wait 4 4 [] s = (Some header, s1)" "k_in s1 = part"
      using read_until_exact [OF patient_no_wait _ _ n p(1), of 4] by auto
    have "fst (read_until no_wait 65536 (be header) [] s1) = None"
      using p(2) b r1(2) by (intro read_until_short [OF patient_no_wait]) (auto simp: ilen_length prefix_length_less)
    then show ?thesis by (auto simp: receive_message_def receive_frame_def r1(1) split: prod.splits)
  qed
qed

end
