(* ===== verification/Alerts.thy ===== *)
theory Alerts
  imports Processes Stamp TelemetryMerge
begin

text \<open>
  The alerts of the server and the tables behind them: \<open>create_alert\<close>, \<open>handle_client_alert\<close>, the connection and
  disconnection alerts, the working hours and the client table of \<open>server/server_components/server_lib.py\<close>, and the queues
  of \<open>event_broadcaster.py\<close>.  A table is the list of its rows in the order of their keys, and texts are compared exactly.
  \<open>db_answers\<close> says whether the next sessions with the database succeed; one that fails has no effect.  MySQL runs in strict
  mode, so a text that is longer than its column fails.  Local time is UTC, and \<open>repr\<close> gives the text of floats, lists and
  dictionaries.
\<close>

section \<open>Subscribers of the event stream\<close>

definition SUBSCRIBER_QUEUE_SIZE :: int where "SUBSCRIBER_QUEUE_SIZE = 256"

type_synonym event = "string \<times> pydict"

definition subscribe :: "nat \<Rightarrow> (nat \<times> event list) list \<Rightarrow> (nat \<times> event list) list" where
  "subscribe q subs = subs @ [(q, [])]"

definition unsubscribe :: "nat \<Rightarrow> (nat \<times> event list) list \<Rightarrow> (nat \<times> event list) list" where
  "unsubscribe q subs = filter (\<lambda>s. fst s \<noteq> q) subs"

text \<open>A subscriber whose queue is full is dropped.\<close>

definition broadcast :: "event \<Rightarrow> (nat \<times> event list) list \<Rightarrow> (nat \<times> event list) list" where
  "broadcast e subs = map (\<lambda>(q, es). (q, es @ [e])) (filter (\<lambda>(q, es). ilen es < SUBSCRIBER_QUEUE_SIZE) subs)"

section \<open>Tables\<close>

record client_row =
  cl_key :: int
  cl_id :: string
  cl_mac :: string
  cl_hostname :: pyval
  cl_ip :: pyval
  cl_os :: "pyval list"
  cl_version :: pyval

record alert_row =
  al_client :: int
  al_type :: string
  al_severity :: string
  al_detected :: int
  al_activity :: "int option"
  al_title :: pyval
  al_description :: pyval

record connection_row =
  cn_client :: int
  cn_from :: int
  cn_to :: "int option"

record hours_row =
  wh_day :: int
  wh_start :: int
  wh_end :: int
  wh_enabled :: bool

record forbidden_row =
  fp_name :: string
  fp_severity :: string
  fp_description :: "string option"
  fp_enabled :: bool
  fp_terminate :: bool
  fp_eligible :: bool

record action_row =
  ac_key :: int
  ac_id :: string
  ac_type :: string
  ac_by :: "string option"
  ac_status :: string
  ac_parameters :: pyval
  ac_result :: pyval
  ac_started :: "int option"
  ac_completed :: "int option"

record target_row =
  tg_action :: int
  tg_client :: int
  tg_order :: int
  tg_status :: string
  tg_result :: pyval
  tg_error :: pyval
  tg_started :: "int option"
  tg_completed :: "int option"

record database =
  db_clients :: "client_row list"
  db_alerts :: "alert_row list"
  db_connections :: "connection_row list"
  db_hours :: "hours_row list"
  db_forbidden :: "forbidden_row list"
  db_actions :: "action_row list"
  db_targets :: "target_row list"
  db_answers :: "bool list"

text \<open>The database and the subscribers of the events.\<close>

record center =
  ce_db :: database
  ce_subs :: "(nat \<times> event list) list"

definition announce :: "event \<Rightarrow> center \<Rightarrow> center" where
  "announce e c = c\<lparr>ce_subs := broadcast e (ce_subs c)\<rparr>"

definition session_ok :: "center \<Rightarrow> bool \<times> center" where
  "session_ok c =
     (case db_answers (ce_db c) of
        [] \<Rightarrow> (True, c)
      | b # bs \<Rightarrow> (b, c\<lparr>ce_db := (ce_db c)\<lparr>db_answers := bs\<rparr>\<rparr>))"

text \<open>A text column of a given width takes texts that are not longer, and numbers.\<close>

definition fits :: "int \<Rightarrow> pyval \<Rightarrow> bool" where
  "fits n v \<longleftrightarrow> sql_ok v \<and> (case v of PStr s \<Rightarrow> ilen s \<le> n | _ \<Rightarrow> True)"

definition row_by_mac :: "string \<Rightarrow> database \<Rightarrow> client_row option" where
  "row_by_mac mac d = find (\<lambda>r. cl_mac r = mac) (db_clients d)"

definition row_by_id :: "string \<Rightarrow> database \<Rightarrow> client_row option" where
  "row_by_id cid d = find (\<lambda>r. cl_id r = cid) (db_clients d)"

section \<open>Working hours\<close>

datatype hours_status = Disabled | Within | Outside | Unknown

text \<open>\<open>datetime.weekday()\<close>: Monday is 0; the epoch was a Thursday.\<close>

definition weekday :: "int \<Rightarrow> int" where
  "weekday t = (t div DAY + 3) mod 7"

definition day_seconds :: "int \<Rightarrow> int" where
  "day_seconds t = t mod DAY div USEC"

definition get_working_hours_status :: "int \<Rightarrow> center \<Rightarrow> hours_status \<times> center" where
  "get_working_hours_status now c =
     (case session_ok c of
        (False, c) \<Rightarrow> (Unknown, c)
      | (True, c) \<Rightarrow>
          (case find (\<lambda>r. wh_day r = weekday now \<and> wh_enabled r) (db_hours (ce_db c)) of
             None \<Rightarrow> (if list_ex wh_enabled (db_hours (ce_db c)) then Outside else Disabled, c)
           | Some r \<Rightarrow>
               (let s = day_seconds now;
                    inside = (if wh_start r \<le> wh_end r then wh_start r \<le> s \<and> s < wh_end r else wh_start r \<le> s \<or> s < wh_end r)
                in (if inside then Within else Outside, c))))"

section \<open>Storing alerts\<close>

definition ALERT_SEVERITIES :: "string list" where
  "ALERT_SEVERITIES = [''LOW'', ''MEDIUM'', ''HIGH'', ''CRITICAL'']"

record alert_request =
  rq_mac :: "string option"
  rq_client :: "string option"
  rq_type :: string
  rq_severity :: string
  rq_title :: pyval
  rq_description :: pyval
  rq_detected :: "int option"
  rq_activity :: "int option"
  rq_extra :: pydict
  rq_display :: "string option"

text \<open>\<open>isoformat\<close> of a time without zone.\<close>

definition naive_iso :: "int \<Rightarrow> string" where
  "naive_iso t = format_date (t div DAY) @ ''T'' @ format_time (t mod DAY)"

definition optional_entry :: "string \<Rightarrow> string option \<Rightarrow> pydict" where
  "optional_entry k v = (case given v of None \<Rightarrow> [] | Some s \<Rightarrow> [(k, PStr s)])"

definition alert_payload :: "alert_request \<Rightarrow> string \<Rightarrow> int \<Rightarrow> int \<Rightarrow> pydict" where
  "alert_payload r severity detected key =
     (let client = optional_entry ''id'' (rq_client r) @ optional_entry ''mac'' (rq_mac r) @ optional_entry ''hostname'' (rq_display r);
          base = [(''id'', PInt key), (''client'', PDict (if client = [] then [(''mac'', opt_str (rq_mac r))] else client)),
             (''type'', PStr (rq_type r)), (''severity'', PStr severity), (''status'', PStr ''NEW''), (''title'', rq_title r),
             (''description'', rq_description r), (''detected_at'', PStr (naive_iso detected))];
          timed = (case rq_activity r of None \<Rightarrow> base | Some t \<Rightarrow> base @ [(''activity_time'', PStr (naive_iso t))])
      in fold (\<lambda>(k, v). dset k v) (rq_extra r) timed)"

definition alert_client :: "alert_request \<Rightarrow> database \<Rightarrow> client_row option" where
  "alert_client r d =
     (case given (rq_mac r) of
        Some mac \<Rightarrow> row_by_mac mac d
      | None \<Rightarrow> (case given (rq_client r) of Some cid \<Rightarrow> row_by_id cid d | None \<Rightarrow> None))"

definition create_alert :: "int \<Rightarrow> alert_request \<Rightarrow> center \<Rightarrow> bool \<times> center" where
  "create_alert now r c =
     (let severity = (if rq_severity r \<in> set ALERT_SEVERITIES then rq_severity r else ''LOW'');
          detected = (case rq_detected r of None \<Rightarrow> now | Some t \<Rightarrow> t)
      in case session_ok c of
           (False, c) \<Rightarrow> (False, c)
         | (True, c) \<Rightarrow>
             (case alert_client r (ce_db c) of
                None \<Rightarrow> (False, c)
              | Some row \<Rightarrow>
                  if fits 255 (rq_title r) \<and> rq_title r \<noteq> PNone \<and> fits 65535 (rq_description r)
                  then (let alert = \<lparr>al_client = cl_key row, al_type = rq_type r, al_severity = severity, al_detected = detected,
                              al_activity = rq_activity r, al_title = rq_title r, al_description = rq_description r\<rparr>;
                            d = (ce_db c)\<lparr>db_alerts := db_alerts (ce_db c) @ [alert]\<rparr>
                        in (True, announce (''alert'', alert_payload r severity detected (ilen (db_alerts d))) (c\<lparr>ce_db := d\<rparr>)))
                  else (False, c)))"

definition create_server_alert :: "int \<Rightarrow> string \<Rightarrow> string \<Rightarrow> string \<Rightarrow> string \<Rightarrow> string \<Rightarrow> center \<Rightarrow> bool \<times> center" where
  "create_server_alert now mac kind severity title description =
     create_alert now \<lparr>rq_mac = Some mac, rq_client = None, rq_type = kind, rq_severity = severity, rq_title = PStr title,
       rq_description = PStr description, rq_detected = None, rq_activity = None, rq_extra = [], rq_display = None\<rparr>"

text \<open>\<open>strftime("%Y-%m-%d %H:%M:%S")\<close>.\<close>

definition plain_time :: "int \<Rightarrow> string" where
  "plain_time t = format_date (t div DAY) @ '' '' @ hms (t mod DAY)"

definition hours_alert :: "hours_status \<Rightarrow> string \<times> string \<times> string \<times> string" where
  "hours_alert st =
     (case st of
        Outside \<Rightarrow> (''CONNECTION_OUTSIDE_WORKING_HOURS'', ''MEDIUM'', ''Client connected outside working hours'',
                    ''outside configured working hours'')
      | Disabled \<Rightarrow> (''CLIENT_CONNECTED'', ''LOW'', ''Client connected'', ''working-hours monitoring is disabled'')
      | Unknown \<Rightarrow> (''CLIENT_CONNECTED'', ''LOW'', ''Client connected'', ''working-hours status could not be checked'')
      | Within \<Rightarrow> (''CLIENT_CONNECTED'', ''LOW'', ''Client connected'', ''during configured working hours''))"

definition status_event :: "int \<Rightarrow> string \<Rightarrow> string \<Rightarrow> pyval \<Rightarrow> pyval \<Rightarrow> event" where
  "status_event now cid mac hostname ip =
     (''client_status'', [(''client_id'', PStr cid), (''mac_address'', PStr mac), (''hostname'', hostname), (''state'', PStr ''ONLINE''),
        (''ip_address'', ip), (''timestamp'', PStr (isoformat_utc now))])"

definition text_entry :: "pydict \<Rightarrow> string \<Rightarrow> string option" where
  "text_entry d k = (case dget d k of PStr s \<Rightarrow> Some s | _ \<Rightarrow> None)"

text \<open>The information has the host name and the address; the client usually sends no id.\<close>

definition create_connection_alert :: "(pyval \<Rightarrow> string) \<Rightarrow> int \<Rightarrow> string \<Rightarrow> pydict \<Rightarrow> center \<Rightarrow> bool \<times> center" where
  "create_connection_alert repr now mac info c =
     (let (st, c) = get_working_hours_status now c;
          (kind, severity, title, policy) = hours_alert st;
          hostname = py_str repr (dget info ''hostname'');
          cid = text_entry info ''client_id'';
          description = hostname @ '' ('' @ mac @ '', '' @ py_str repr (dget info ''ip'') @ '') registered at '' @ plain_time now
            @ '' '' @ policy @ ''.'';
          (created, c) = create_alert now \<lparr>rq_mac = Some mac, rq_client = cid, rq_type = kind, rq_severity = severity,
              rq_title = PStr title, rq_description = PStr description, rq_detected = Some now, rq_activity = None, rq_extra = [],
              rq_display = Some (hostname @ '' ('' @ mac @ '')'')\<rparr> c
      in (created,
          if created
          then announce (status_event now (case cid of None \<Rightarrow> [] | Some s \<Rightarrow> s) mac (dget info ''hostname'') (dget info ''ip'')) c
          else c))"

definition create_disconnect_alert :: "(pyval \<Rightarrow> string) \<Rightarrow> int \<Rightarrow> string \<Rightarrow> pyval \<Rightarrow> pyval \<Rightarrow> bool \<Rightarrow> center \<Rightarrow> bool \<times> center" where
  "create_disconnect_alert repr now mac hostname ip expected =
     create_server_alert now mac ''CLIENT_DISCONNECTED'' ''LOW'' ''Client disconnected''
       (py_str repr hostname @ '' ('' @ mac @ '', '' @ py_str repr ip @ '') disconnected ''
        @ (if expected then ''at the server's request'' else ''unexpectedly'') @ ''.'')"

definition create_agent_stopped_alert :: "(pyval \<Rightarrow> string) \<Rightarrow> int \<Rightarrow> string \<Rightarrow> pyval \<Rightarrow> pyval \<Rightarrow> center \<Rightarrow> bool \<times> center" where
  "create_agent_stopped_alert repr now mac hostname ip =
     create_server_alert now mac ''CLIENT_AGENT_STOPPED'' ''HIGH'' ''Client agent stopped''
       (py_str repr hostname @ '' ('' @ mac @ '', '' @ py_str repr ip
        @ '') remains reachable after its monitoring-client connection was lost.'')"

section \<open>Alerts of the clients\<close>

text \<open>\<open>strptime(s, "%Y-%m-%d %H:%M:%S")\<close>; any white space stands for the space of the format.\<close>

definition strp_plain :: "string \<Rightarrow> int option" where
  "strp_plain s =
     (case split_char (CHR ''-'') s of
        [ys, ms, rest] \<Rightarrow>
          (let lead = (case rest of c # _ \<Rightarrow> if is_space c then [c] else [] | [] \<Rightarrow> []);
               tail = drop (length lead) rest;
               day = lead @ takeWhile (\<lambda>c. \<not> is_space c) tail;
               after = dropWhile (\<lambda>c. \<not> is_space c) tail
           in case (strp_date ys ms day, after, split_char (CHR '':'') (dropWhile is_space after)) of
                (Some d, _ # _, [hs, mins, ss]) \<Rightarrow>
                  (case (strp_field 0 23 hs, strp_field 0 59 mins, strp_field 0 59 ss) of
                     (Some h, Some m, Some sec) \<Rightarrow> Some (DAY * d + HOUR * h + 60 * USEC * m + USEC * sec)
                   | _ \<Rightarrow> None)
              | _ \<Rightarrow> None)
      | _ \<Rightarrow> None)"

text \<open>A time that is out of the range of a \<open>datetime\<close> in UTC raises an exception of its own.\<close>

definition parse_alert_time :: "int \<Rightarrow> pyval \<Rightarrow> string \<Rightarrow> bool \<Rightarrow> int option result" where
  "parse_alert_time now v field required =
     (case v of
        PNone \<Rightarrow> Inr (if required then Some now else None)
      | PStr s \<Rightarrow>
          (case strp_plain s of
             Some t \<Rightarrow> Inr (Some t)
           | None \<Rightarrow>
               (case fromisoformat (z_to_offset s) of
                  None \<Rightarrow> raise_exc ValueError (field @ '' must use YYYY-MM-DD HH:MM:SS or ISO-8601'')
                | Some p \<Rightarrow>
                    if representable (utc_of p) then Inr (Some (utc_of p)) else raise_exc OtherException ''date value out of range''))
      | _ \<Rightarrow> raise_exc ValueError (field @ '' must be a timestamp string''))"

definition normalize_alert_process_name :: "string \<Rightarrow> string" where
  "normalize_alert_process_name value =
     (let n = after_last (CHR ''/'') (replace_char (CHR 0x5C) (CHR ''/'') (lower (strip value)))
      in if ends_with n ''.exe'' then take (length n - 4) n else n)"

text \<open>\<open>v in {...}\<close> for a set of texts.\<close>

definition in_texts :: "pyval \<Rightarrow> string list \<Rightarrow> bool result" where
  "in_texts v names =
     (if unhashable v then raise_exc TypeError ''unhashable type'' else Inr (is_str v \<and> v \<in> PStr ` set names))"

definition FILE_EVENTS :: "string list" where
  "FILE_EVENTS = [''FILE_CREATED'', ''FILE_MODIFIED'', ''FILE_DELETED'', ''FILE_RENAMED'']"

text \<open>The checks before the database is asked: \<open>None\<close> rejects the alert.\<close>

definition alert_head :: "pydict \<Rightarrow> (string \<times> string) option result" where
  "alert_head a =
     then_do (in_texts (dget a ''alert_type'') [''FORBIDDEN_PROCESS'', ''SECURITY_EVENT'', ''RESOURCE_PROTECTION'']) (\<lambda>known.
     if \<not> known then Inr None
     else then_do (in_texts (dget a ''event_type'') FILE_EVENTS) (\<lambda>file_event.
       if file_event then Inr None
       else if dget a ''alert_type'' = PStr ''FORBIDDEN_PROCESS''
         \<and> (case dget a ''process_name'' of PStr s \<Rightarrow> strip s = [] | _ \<Rightarrow> True) then Inr None
       else (let claimed = (if dget a ''severity'' = PStr ''INFO'' then PStr ''LOW'' else dget a ''severity'') in
             then_do (in_texts claimed ALERT_SEVERITIES) (\<lambda>valid.
               if valid then (case (dget a ''alert_type'', claimed) of (PStr t, PStr s) \<Rightarrow> Inr (Some (t, s)) | _ \<Rightarrow> Inr None)
               else Inr None))))"

definition alert_times :: "int \<Rightarrow> pydict \<Rightarrow> (int option \<times> int option) result" where
  "alert_times now a =
     then_do (parse_alert_time now (dget a ''detected_at'') ''detected_at'' True) (\<lambda>detected.
     then_do (parse_alert_time now (dget a ''activity_time'') ''activity_time'' False) (\<lambda>activity. Inr (detected, activity)))"

definition or_text :: "pyval \<Rightarrow> string \<Rightarrow> pyval" where
  "or_text v s = py_or v (PStr s)"

text \<open>Severity, title and description; \<open>None\<close> when the policy does not know the process.\<close>

definition alert_parts :: "(pyval \<Rightarrow> string) \<Rightarrow> string \<Rightarrow> string \<Rightarrow> pydict \<Rightarrow> database \<Rightarrow> (string \<times> pyval \<times> pyval) option" where
  "alert_parts repr kind claimed a d =
     (if kind = ''FORBIDDEN_PROCESS'' then
        (case find (\<lambda>r. fp_enabled r \<and> normalize_alert_process_name (fp_name r) =
                 normalize_alert_process_name (py_str repr (dget a ''process_name''))) (db_forbidden d) of
           None \<Rightarrow> None
         | Some r \<Rightarrow>
             if fp_severity r \<notin> set ALERT_SEVERITIES then None
             else Some (fp_severity r, or_text (dget a ''title'') (''Forbidden process detected: '' @ fp_name r),
                 py_or (dget a ''description'') (py_or (opt_str (fp_description r))
                   (PStr (''Forbidden process '' @ quoted (fp_name r) @ '' was detected on the client.'')))))
      else if kind = ''RESOURCE_PROTECTION'' then
        (let title = or_text (dget a ''title'') ''Resource protection event'' in Some (claimed, title, py_or (dget a ''description'') title))
      else (let event_type = or_text (dget a ''event_type'') ''SECURITY_EVENT'' in
            Some (claimed, or_text (dget a ''title'') (''Security event: '' @ py_str repr event_type), py_or (dget a ''description'') event_type)))"

definition handle_client_alert :: "(pyval \<Rightarrow> string) \<Rightarrow> int \<Rightarrow> string \<Rightarrow> pyval \<Rightarrow> center \<Rightarrow> bool result \<times> center" where
  "handle_client_alert repr now mac payload c =
     (case payload of
        PDict a \<Rightarrow>
          (case alert_head a of
             Inl e \<Rightarrow> (Inl e, c)
           | Inr None \<Rightarrow> (Inr False, c)
           | Inr (Some (kind, claimed)) \<Rightarrow>
               (case alert_times now a of
                  Inl e \<Rightarrow> (if exc_kind e = ValueError then Inr False else Inl e, c)
                | Inr (detected, activity) \<Rightarrow>
                    (case session_ok c of
                       (False, c) \<Rightarrow> (Inr False, c)
                     | (True, c) \<Rightarrow>
                         (case alert_parts repr kind claimed a (ce_db c) of
                            None \<Rightarrow> (Inr False, c)
                          | Some (severity, title, description) \<Rightarrow>
                              (case create_alert now \<lparr>rq_mac = Some mac, rq_client = None, rq_type = kind, rq_severity = severity,
                                      rq_title = title, rq_description = description, rq_detected = detected, rq_activity = activity,
                                      rq_extra = [(''event_type'', dget a ''event_type''), (''action'', dget a ''action''),
                                                  (''process_name'', dget a ''process_name'')],
                                      rq_display = Some mac\<rparr> c of
                                 (b, c) \<Rightarrow> (Inr b, c))))))
      | _ \<Rightarrow> (Inr False, c))"

section \<open>Clients and connections\<close>

definition client_id_for_mac :: "string \<Rightarrow> string" where
  "client_id_for_mac mac = ''client-'' @ lower (filter (\<lambda>c. c \<noteq> CHR '':'' \<and> c \<noteq> CHR ''-'') mac)"

definition os_columns :: "(pyval \<Rightarrow> string) \<Rightarrow> pyval \<Rightarrow> pyval list" where
  "os_columns repr os =
     (case os of
        PDict d \<Rightarrow> [dget_or d ''system'' (PStr (repr os)), dget_or d ''release'' (PStr []), dget_or d ''version'' (PStr []),
                    dget_or d ''machine'' (PStr [])]
      | _ \<Rightarrow> [PStr (py_str repr os), PStr [], PStr [], PStr []])"

definition client_fits :: "client_row \<Rightarrow> bool" where
  "client_fits r \<longleftrightarrow>
     ilen (cl_id r) \<le> 50 \<and> ilen (cl_mac r) \<le> 17 \<and> fits 255 (cl_hostname r) \<and> fits 45 (cl_ip r) \<and> fits 64 (cl_version r)
     \<and> list_all2 fits [100, 100, 255, 100] (cl_os r)"

text \<open>The row with the same id, otherwise the one with the same address, is updated; it keeps its key and address.\<close>

definition upsert_client :: "client_row \<Rightarrow> client_row list \<Rightarrow> client_row list" where
  "upsert_client r rows =
     (let hit = (if list_ex (\<lambda>q. cl_id q = cl_id r) rows then (\<lambda>q. cl_id q = cl_id r) else (\<lambda>q. cl_mac q = cl_mac r))
      in if list_ex hit rows then map (\<lambda>q. if hit q then r\<lparr>cl_key := cl_key q, cl_mac := cl_mac q\<rparr> else q) rows
         else rows @ [r\<lparr>cl_key := 1 + Max (insert 0 (set (map cl_key rows)))\<rparr>])"

definition update_client_db ::
  "(pyval \<Rightarrow> string) \<Rightarrow> string \<Rightarrow> string \<Rightarrow> pyval \<Rightarrow> pyval \<Rightarrow> pyval \<Rightarrow> pyval \<Rightarrow> center \<Rightarrow> bool \<times> center" where
  "update_client_db repr mac cid hostname ip os version c =
     (case session_ok c of
        (False, c) \<Rightarrow> (False, c)
      | (True, c) \<Rightarrow>
          (let r = \<lparr>cl_key = 0, cl_id = cid, cl_mac = mac, cl_hostname = hostname, cl_ip = ip, cl_os = os_columns repr os, cl_version = version\<rparr>
           in if client_fits r then (True, c\<lparr>ce_db := (ce_db c)\<lparr>db_clients := upsert_client r (db_clients (ce_db c))\<rparr>\<rparr>)
              else (False, c)))"

fun close_last :: "int \<Rightarrow> int \<Rightarrow> connection_row list \<Rightarrow> connection_row list" where
  "close_last key now [] = []"
| "close_last key now (r # rs) =
     (if cn_client r = key \<and> cn_to r = None \<and> \<not> list_ex (\<lambda>q. cn_client q = key \<and> cn_to q = None) rs
      then r\<lparr>cn_to := Some now\<rparr> # rs else r # close_last key now rs)"

definition log_connection :: "int \<Rightarrow> string \<Rightarrow> bool \<Rightarrow> center \<Rightarrow> center" where
  "log_connection now mac up c =
     (case session_ok c of
        (False, c) \<Rightarrow> c
      | (True, c) \<Rightarrow>
          (case row_by_mac mac (ce_db c) of
             None \<Rightarrow> c
           | Some r \<Rightarrow>
               c\<lparr>ce_db := (ce_db c)\<lparr>db_connections :=
                  (if up then db_connections (ce_db c) @ [\<lparr>cn_client = cl_key r, cn_from = now, cn_to = None\<rparr>]
                   else close_last (cl_key r) now (db_connections (ce_db c)))\<rparr>\<rparr>))"

section \<open>What a handled alert leaves behind\<close>

lemma session_ok_frame:
  "session_ok c = (b, c') \<Longrightarrow> db_alerts (ce_db c') = db_alerts (ce_db c) \<and> db_clients (ce_db c') = db_clients (ce_db c) \<and>
     db_forbidden (ce_db c') = db_forbidden (ce_db c) \<and> ce_subs c' = ce_subs c"
  by (auto simp: session_ok_def split: list.splits)

lemma announce_db [simp]: "ce_db (announce e c) = ce_db c"
  by (simp add: announce_def)

lemma create_alert_cases:
  assumes "create_alert now r c = (b, c')"
  shows "db_clients (ce_db c') = db_clients (ce_db c) \<and> db_forbidden (ce_db c') = db_forbidden (ce_db c) \<and>
    (\<not> b \<longrightarrow> db_alerts (ce_db c') = db_alerts (ce_db c) \<and> ce_subs c' = ce_subs c) \<and>
    (b \<longrightarrow> (\<exists>row. alert_client r (ce_db c) = Some row \<and> db_alerts (ce_db c') = db_alerts (ce_db c) @
        [\<lparr>al_client = cl_key row, al_type = rq_type r, al_severity = (if rq_severity r \<in> set ALERT_SEVERITIES then rq_severity r else ''LOW''),
          al_detected = (case rq_detected r of None \<Rightarrow> now | Some t \<Rightarrow> t), al_activity = rq_activity r, al_title = rq_title r,
          al_description = rq_description r\<rparr>]))"
proof -
  obtain ok c1 where s: "session_ok c = (ok, c1)" by force
  note f = session_ok_frame [OF s]
  have "alert_client r (ce_db c1) = alert_client r (ce_db c)"
    using f by (simp add: alert_client_def row_by_mac_def row_by_id_def split: option.splits)
  then show ?thesis
    using assms f by (auto simp: create_alert_def Let_def s split: bool.splits option.splits if_splits)
qed

lemma alert_head_kind:
  "alert_head a = Inr (Some (kind, claimed)) \<Longrightarrow>
   kind \<in> {''FORBIDDEN_PROCESS'', ''SECURITY_EVENT'', ''RESOURCE_PROTECTION''} \<and> claimed \<in> set ALERT_SEVERITIES"
  by (auto simp: alert_head_def in_texts_def Let_def then_do_eq_Inr split: if_splits pyval.splits)

lemma alert_parts_severity:
  assumes "alert_parts repr kind claimed a d = Some (severity, title, description)" "claimed \<in> set ALERT_SEVERITIES"
  shows "severity \<in> set ALERT_SEVERITIES \<and>
    (kind = ''FORBIDDEN_PROCESS'' \<longrightarrow>
      (\<exists>f\<in>set (db_forbidden d). fp_enabled f \<and> severity = fp_severity f \<and>
        normalize_alert_process_name (fp_name f) = normalize_alert_process_name (py_str repr (dget a ''process_name''))))"
  using assms by (auto simp: alert_parts_def Let_def dest!: find_SomeD split: if_splits option.splits)

lemma handled_alert_steps:
  assumes "handle_client_alert repr now mac payload c = (r, c')"
  obtains (rejected) "r \<noteq> Inr True" "db_alerts (ce_db c') = db_alerts (ce_db c)" "ce_subs c' = ce_subs c"
      "db_clients (ce_db c') = db_clients (ce_db c)"
    | (stored) a kind claimed detected activity severity title description row where
      "payload = PDict a" "r = Inr True" "alert_head a = Inr (Some (kind, claimed))" "alert_times now a = Inr (detected, activity)"
      "alert_parts repr kind claimed a (ce_db c) = Some (severity, title, description)" "row_by_mac mac (ce_db c) = Some row"
      "db_clients (ce_db c') = db_clients (ce_db c)"
      "db_alerts (ce_db c') = db_alerts (ce_db c) @ [\<lparr>al_client = cl_key row, al_type = kind, al_severity = severity,
         al_detected = (case detected of None \<Rightarrow> now | Some t \<Rightarrow> t), al_activity = activity, al_title = title, al_description = description\<rparr>]"
proof (cases payload)
  case (PDict a)
  note h = assms [unfolded handle_client_alert_def PDict, simplified]
  show ?thesis
  proof (cases "\<exists>kind claimed detected activity. alert_head a = Inr (Some (kind, claimed)) \<and> alert_times now a = Inr (detected, activity)")
    case False
    with h show ?thesis by (auto split: sum.splits option.splits if_splits intro!: rejected)
  next
    case True
    then obtain kind claimed detected activity where
      head: "alert_head a = Inr (Some (kind, claimed))" and times: "alert_times now a = Inr (detected, activity)" by auto
    obtain ok c1 where s: "session_ok c = (ok, c1)" by force
    note f = session_ok_frame [OF s]
    have parts: "alert_parts repr kind claimed a (ce_db c1) = alert_parts repr kind claimed a (ce_db c)"
      using f by (simp add: alert_parts_def)
    show ?thesis
    proof (cases "ok \<and> alert_parts repr kind claimed a (ce_db c) \<noteq> None")
      case False
      with h head times f parts s show ?thesis by (auto split: bool.splits option.splits intro!: rejected)
    next
      case True
      then obtain severity title description where
        p: "ok" "alert_parts repr kind claimed a (ce_db c) = Some (severity, title, description)" by auto
      define q where "q = \<lparr>rq_mac = Some mac, rq_client = None, rq_type = kind, rq_severity = severity,
          rq_title = title, rq_description = description, rq_detected = detected, rq_activity = activity,
          rq_extra = [(''event_type'', dget a ''event_type''), (''action'', dget a ''action''),
                      (''process_name'', dget a ''process_name'')],
          rq_display = Some mac\<rparr>"
      obtain b c2 where ca: "create_alert now q c1 = (b, c2)" by force
      from h head times s p parts ca have r: "r = Inr b" "c' = c2" by (auto simp: q_def)
      have sev: "severity \<in> set ALERT_SEVERITIES" using alert_parts_severity [OF p(2)] alert_head_kind [OF head] by simp
      note cases = create_alert_cases [OF ca]
      have client: "alert_client q (ce_db c1) = Some row \<Longrightarrow> row_by_mac mac (ce_db c) = Some row" for row
        using f by (auto simp: alert_client_def q_def given_def row_by_mac_def split: if_splits)
      show ?thesis
      proof (cases b)
        case False
        with cases r f show ?thesis by (auto intro!: rejected)
      next
        case True
        with cases client obtain row where "row_by_mac mac (ce_db c) = Some row"
          "db_alerts (ce_db c2) = db_alerts (ce_db c1) @ [\<lparr>al_client = cl_key row, al_type = kind, al_severity = severity,
             al_detected = (case detected of None \<Rightarrow> now | Some t \<Rightarrow> t), al_activity = activity, al_title = title, al_description = description\<rparr>]"
          using sev by (auto simp: q_def)
        with True r f cases show ?thesis using PDict head times p(2) by (intro stored) auto
      qed
    qed
  qed
qed (use assms in \<open>auto simp: handle_client_alert_def intro!: rejected\<close>)


section \<open>From the process monitor of a client to the alerts of the server\<close>

text \<open>\<open>get_forbidden_processes\<close>, and the rules a client makes of its answer.\<close>

definition get_forbidden_processes :: "center \<Rightarrow> forbidden_row list \<times> center" where
  "get_forbidden_processes c =
     (case session_ok c of (False, c) \<Rightarrow> ([], c) | (True, c) \<Rightarrow> (filter fp_enabled (db_forbidden (ce_db c)), c))"

definition policy_rule :: "forbidden_row \<Rightarrow> rule" where
  "policy_rule f =
     \<lparr>u_enabled = None, u_process_name = Some (fp_name f), u_name = None, u_severity = Some (fp_severity f),
      u_terminate = Some (PBool (fp_terminate f)), u_eligible = Some (PBool (fp_eligible f))\<rparr>"

definition monitor_alert :: "int \<Rightarrow> rule \<Rightarrow> pydict \<Rightarrow> bool" where
  "monitor_alert now u a \<longleftrightarrow>
     (\<exists>p action message. action \<in> {''DETECTED_ONLY'', ''TERMINATED'', ''TERMINATION_FAILED''} \<and> a = base_alert u p action message now) \<or>
     (\<exists>t hits. a = critical_alert u t hits now)"

lemma enforce_rule_alerts:
  "a \<in> set (l_alerts (snd (enforce_rule os now u p ml))) \<Longrightarrow> a \<in> set (l_alerts (snd ml)) \<or> monitor_alert now u a"
  by (auto simp: enforce_rule_def Let_def monitor_alert_def split: prod.splits if_splits)

lemma scan_process_alerts:
  "a \<in> set (l_alerts (snd (scan_process os now rules p ml))) \<Longrightarrow>
   a \<in> set (l_alerts (snd ml)) \<or> (\<exists>u\<in>set rules. normalize_process_name (rule_name u) \<noteq> [] \<and> monitor_alert now u a)"
  by (auto simp: scan_process_def rule_matches_def Let_def split: option.splits dest!: find_SomeD enforce_rule_alerts)

lemma scan_processes_alerts:
  "a \<in> set (l_alerts (snd (fold (scan_process os now rules) ps ml))) \<Longrightarrow>
   a \<in> set (l_alerts (snd ml)) \<or> (\<exists>u\<in>set rules. normalize_process_name (rule_name u) \<noteq> [] \<and> monitor_alert now u a)"
proof (induction ps arbitrary: ml)
  case (Cons p ps)
  from Cons.prems have "a \<in> set (l_alerts (snd (fold (scan_process os now rules) ps (scan_process os now rules p ml))))" by simp
  from Cons.IH [OF this] show ?case using scan_process_alerts by blast
qed simp

lemma scan_alerts:
  assumes "a \<in> set (l_alerts (fst (scan_and_enforce os now ps m)))"
  shows "\<exists>u\<in>set (m_rules m). normalize_process_name (rule_name u) \<noteq> [] \<and> monitor_alert now u a"
proof (cases "active_rules (m_rules m) = []")
  case True
  with assms show ?thesis by (simp add: scan_and_enforce_def)
next
  case False
  let ?run = "fold (scan_process os now (active_rules (m_rules m))) ps (m, \<lparr>l_alerts = [], l_isolations = [], l_signals = []\<rparr>)"
  from assms False have "a \<in> set (l_alerts (snd ?run))" by (simp add: scan_and_enforce_def split: prod.splits)
  from scan_processes_alerts [OF this] show ?thesis by (auto simp: active_rules_def)
qed

lemma format_date_chars:
  assumes "-719162 \<le> n" "n \<le> 2932896"
  shows "list_all time_char (format_date n)"
proof -
  obtain y m d where c: "civil_of_days n = (y, m, d)" by (cases "civil_of_days n")
  with civil_of_days [of n y m d] assms(1) have v: "valid_date y m d" and n: "days_of y m d = n" by auto
  from v have range: "1 \<le> y" "1 \<le> m" "m \<le> 12" "1 \<le> d" "d \<le> 31"
    by (auto simp: valid_date_def days_in_month_def split: if_splits)
  with year_le_9999 [of y m d] n assms have "y \<le> 9999" by simp
  with range have "0 \<le> y div 100" "y div 100 < 100" "0 \<le> y mod 100" "y mod 100 < 100"
    by (auto simp: pos_imp_zdiv_nonneg_iff)
  moreover have "list_all time_char (two k)" if "0 \<le> k" "k < 100" for k
    using two_digits_val [OF that] by (auto simp: list_all_iff time_char_def)
  ultimately show ?thesis using range by (simp add: format_date_def c time_char_def)
qed

lemma strp_plain_no_space:
  assumes "list_all (\<lambda>c. \<not> is_space c) s"
  shows "strp_plain s = None"
proof -
  have parts: "list_all (\<lambda>c. \<not> is_space c) w" if "w \<in> set (split_char c s)" for w c
    using assms that by (induction s arbitrary: w) (auto split: if_splits list.splits)
  have chars: "list_all (\<lambda>c. \<not> is_space c) rest" if "split_char (CHR ''-'') s = [ys, ms, rest]" for ys ms rest
    by (rule parts [of _ "CHR ''-''"]) (simp add: that)
  show ?thesis
  proof (cases "\<exists>ys ms rest. split_char (CHR ''-'') s = [ys, ms, rest]")
    case True
    then obtain ys ms rest where rest: "split_char (CHR ''-'') s = [ys, ms, rest]" by blast
    have "(case rest of c # _ \<Rightarrow> if is_space c then [c] else [] | [] \<Rightarrow> []) = []"
      using chars [OF rest] by (cases rest) auto
    moreover have "dropWhile (\<lambda>c. \<not> is_space c) rest = []"
      using chars [OF rest] by (simp add: dropWhile_eq_Nil_conv list_all_iff)
    ultimately show ?thesis by (simp add: strp_plain_def rest Let_def del: dropWhile_eq_Nil_conv split: option.split)
  next
    case False
    then show ?thesis by (simp add: strp_plain_def split: list.split)
  qed
qed

lemma parse_alert_time_iso:
  assumes "representable t"
  shows "parse_alert_time now (PStr (isoformat_utc t)) field required = Inr (Some t)"
proof -
  note days = representable_days [OF assms]
  have "\<not> is_space c" if "time_char c" for c
    using that by (auto simp: time_char_def is_digit_def is_space_def Let_def)
  then have "list_all (\<lambda>c. \<not> is_space c) (isoformat_utc t)"
    using format_date_chars [of "t div DAY"] format_time_chars [of "t mod DAY"] days
    by (auto simp: isoformat_utc_def list_all_iff is_space_def)
  then show ?thesis
    using assms by (simp add: parse_alert_time_def strp_plain_no_space isoformat_no_Z isoformat_roundtrip_utc utc_of_def)
qed

lemma strip_not_empty: "normalize_process_name name \<noteq> [] \<Longrightarrow> strip name \<noteq> []"
proof -
  have "strip [] = []" by code_simp
  then show "normalize_process_name name \<noteq> [] \<Longrightarrow> strip name \<noteq> []"
    by (auto simp: normalize_process_name_def Let_def lower_def replace_char_def after_last_def ends_with_def)
qed

lemma severity_upper: "s \<in> set ALERT_SEVERITIES \<Longrightarrow> upper s = s \<and> s \<noteq> []"
proof -
  have "list_all (\<lambda>s. upper s = s \<and> s \<noteq> []) ALERT_SEVERITIES" by code_simp
  then show "s \<in> set ALERT_SEVERITIES \<Longrightarrow> upper s = s \<and> s \<noteq> []" unfolding list_all_iff by (rule bspec)
qed

text \<open>What the server reads in an alert of the monitor.\<close>

lemma monitor_alert_reads:
  assumes "monitor_alert now u a" "normalize_process_name (rule_name u) \<noteq> []" "u_severity u = Some sev" "sev \<in> set ALERT_SEVERITIES"
    and "ilen (rule_name u) \<le> 200" "representable now"
  shows "\<exists>claimed title. alert_head a = Inr (Some (''FORBIDDEN_PROCESS'', claimed)) \<and> alert_times now' a = Inr (Some now, Some now) \<and>
    dget a ''process_name'' = PStr (rule_name u) \<and> dget a ''title'' = PStr title \<and> title \<noteq> [] \<and> ilen title \<le> 255 \<and>
    (\<exists>d. dget a ''description'' = PStr d \<and> d \<noteq> [])"
proof -
  note name = strip_not_empty [OF assms(2)]
  have sev: "PStr sev \<in> PStr ` set ALERT_SEVERITIES" "upper sev = sev" "sev \<noteq> []" "sev \<noteq> ''INFO''"
    using severity_upper [OF assms(4)] assms(4) by (auto simp: ALERT_SEVERITIES_def)
  have len: "ilen (lower action) \<le> 18" if "action \<in> {''DETECTED_ONLY'', ''TERMINATED'', ''TERMINATION_FAILED''}" for action
    using that by (auto simp: lower_def ilen_length)
  from assms(1) show ?thesis unfolding monitor_alert_def
  proof (elim disjE exE conjE)
    fix p action message
    assume action: "action \<in> {''DETECTED_ONLY'', ''TERMINATED'', ''TERMINATION_FAILED''}" and a: "a = base_alert u p action message now"
    show ?thesis
      using assms(3,5,6) name sev len [OF action]
      by (simp add: a base_alert_def alert_head_def in_texts_def unhashable_def FILE_EVENTS_def given_def alert_times_def
          parse_alert_time_iso ilen_length)
  next
    fix t hits
    assume a: "a = critical_alert u t hits now"
    show ?thesis
      using assms(5,6) name
      by (simp add: a critical_alert_def alert_head_def in_texts_def unhashable_def FILE_EVENTS_def alert_times_def
          parse_alert_time_iso ilen_length ALERT_SEVERITIES_def)
  qed
qed


section \<open>Runs\<close>

definition demo_center :: center where
  "demo_center =
     \<lparr>ce_db = \<lparr>db_clients = [\<lparr>cl_key = 5, cl_id = ''client-aa'', cl_mac = ''AA'', cl_hostname = PStr ''pc'', cl_ip = PStr ''10.0.0.2'',
                   cl_os = [], cl_version = PNone\<rparr>],
        db_alerts = [], db_connections = [], db_hours = [\<lparr>wh_day = 0, wh_start = 22 * 3600, wh_end = 6 * 3600, wh_enabled = True\<rparr>],
        db_forbidden = [\<lparr>fp_name = ''Miner.exe'', fp_severity = ''MEDIUM'', fp_description = None, fp_enabled = True,
                          fp_terminate = True, fp_eligible = True\<rparr>],
        db_actions = [], db_targets = [],
        db_answers = []\<rparr>, ce_subs = [(0, [])]\<rparr>"

definition demo_alert :: pyval where
  "demo_alert = PDict [(''alert_type'', PStr ''FORBIDDEN_PROCESS''), (''severity'', PStr ''INFO''), (''process_name'', PStr ''MINER''),
     (''detected_at'', PStr ''2024-05-06 07:08:09'')]"


definition policy_monitor :: monitor where
  "policy_monitor = \<lparr>m_rules = map policy_rule (fst (get_forbidden_processes demo_center)), m_auto = True, m_tracker = new_tracker 3 120 500\<rparr>"


text \<open>
  The night shift of a Monday, from 22:00 to 6:00: Tuesday at 3:00 is outside, Monday at 3:00, before the shift, is inside.
\<close>

lemma night_shift_on_wrong_day:
  "fst (get_working_hours_status (DAY * 5 + HOUR * 3) demo_center) = Outside"
  "fst (get_working_hours_status (DAY * 4 + HOUR * 3) demo_center) = Within"
  "weekday (DAY * 4) = 0"
  by code_simp+

text \<open>The alert of an escalation keeps its title and loses its severity; one whose title does not fit is lost.\<close>

lemma escalation_stored_with_policy_severity:
  "map al_severity (db_alerts (ce_db (snd (handle_client_alert (\<lambda>_. []) 0 ''AA''
      (PDict (critical_alert (demo_rule True) (new_tracker 3 120 500) [\<lparr>v_name = ''Miner.exe'', v_pid = 7, v_action = [], v_result = [], v_time = 0\<rparr>] 5))
      demo_center)))) = [''MEDIUM'']"
  by code_simp

lemma long_title_lost: "rq_title r = PStr title \<Longrightarrow> 255 < ilen title \<Longrightarrow> \<not> fst (create_alert now r c)"
  by (auto simp: create_alert_def Let_def fits_def split: bool.splits option.splits prod.splits)

end
