(* ===== verification/Registry.thy ===== *)
theory Registry
  imports Alerts
begin

text \<open>
  The clients that are connected: \<open>register_client\<close>, \<open>remove_client\<close>, the lookups and
  \<open>verify_client_disconnect\<close> of \<open>server/server_components/server_lib.py\<close>.  The dictionary of a connection is an object
  that both registries may hold, so objects live in \<open>sv_agents\<close> under references; response queues, tokens and
  references are numbered by \<open>sv_fresh\<close>, connections by the caller.  A check after a disconnection is a thread that
  wakes once after its delay and once when the reachability of the host is known.  The location assignment that a registration
  schedules is not part of the model.
\<close>

section \<open>State\<close>

record agent =
  ag_id :: string
  ag_hostname :: pyval
  ag_ip :: pyval
  ag_mac :: string
  ag_os :: pyval
  ag_version :: pyval
  ag_conn :: nat
  ag_queue :: nat
  ag_role :: pyval
  ag_expected :: bool
  ag_reason :: "string option"

record check =
  ck_token :: nat
  ck_mac :: string
  ck_hostname :: pyval
  ck_ip :: pyval
  ck_pinging :: bool

record server =
  sv_center :: center
  sv_tables :: tables
  sv_agents :: "nat \<Rightarrow> agent option"
  sv_queues :: "nat \<Rightarrow> pydict list"
  sv_clients :: "(string \<times> nat) list"
  sv_interactive :: "(string \<times> nat) list"
  sv_pending :: "(string \<times> nat) list"
  sv_checks :: "check list"
  sv_isolation :: "(string \<times> pydict) list"
  sv_quarantine :: "(string \<times> pydict) list"
  sv_waiters :: "((string \<times> string) \<times> pydict list) list"
  sv_sent :: "(nat \<times> pydict) list"
  sv_closed :: "nat list"
  sv_fresh :: nat

definition empty_server :: "center \<Rightarrow> tables \<Rightarrow> server" where
  "empty_server c t =
     \<lparr>sv_center = c, sv_tables = t, sv_agents = (\<lambda>_. None), sv_queues = (\<lambda>_. []), sv_clients = [], sv_interactive = [],
      sv_pending = [], sv_checks = [], sv_isolation = [], sv_quarantine = [], sv_waiters = [], sv_sent = [], sv_closed = [], sv_fresh = 0\<rparr>"

definition is_role :: "string \<Rightarrow> pyval \<Rightarrow> bool" where
  "is_role name role \<longleftrightarrow> role = PStr name"

definition canonical_mac_text :: "string \<Rightarrow> string" where
  "canonical_mac_text mac = replace_char (CHR ''-'') (CHR '':'') (upper mac)"

section \<open>Lookups\<close>

definition agent_at :: "server \<Rightarrow> nat option \<Rightarrow> (nat \<times> agent) option" where
  "agent_at s r = (case r of None \<Rightarrow> None | Some n \<Rightarrow> map_option (Pair n) (sv_agents s n))"

definition find_agent :: "string \<Rightarrow> server \<Rightarrow> (string \<times> nat) list \<Rightarrow> nat option" where
  "find_agent cid s reg =
     map_option snd (find (\<lambda>(mac, r). case sv_agents s r of None \<Rightarrow> False | Some a \<Rightarrow> ag_id a = cid) reg)"

definition get_client :: "string \<Rightarrow> server \<Rightarrow> (nat \<times> agent) option" where
  "get_client cid s = agent_at s (find_agent cid s (sv_clients s))"

definition get_interactive_client :: "string \<Rightarrow> server \<Rightarrow> (nat \<times> agent) option" where
  "get_interactive_client cid s = agent_at s (find_agent cid s (sv_interactive s))"

definition registry_of :: "pyval \<Rightarrow> server \<Rightarrow> (string \<times> nat) list" where
  "registry_of role s = (if is_role ''interactive'' role then sv_interactive s else sv_clients s)"

definition get_client_by_mac :: "string \<Rightarrow> pyval \<Rightarrow> server \<Rightarrow> (nat \<times> agent) option" where
  "get_client_by_mac mac role s = agent_at s (map_of (registry_of role s) mac)"

definition get_connected_client_ids :: "server \<Rightarrow> string list" where
  "get_connected_client_ids s =
     concat (map (\<lambda>(mac, r). case sv_agents s r of None \<Rightarrow> [] | Some a \<Rightarrow> if ag_id a = [] then [] else [ag_id a]) (sv_clients s))"

section \<open>Registration\<close>

definition required_key :: "pydict \<Rightarrow> string \<Rightarrow> pyval result" where
  "required_key d k = (case map_of d k of None \<Rightarrow> raise_exc KeyError k | Some v \<Rightarrow> Inr v)"

definition registration_mac :: "pydict \<Rightarrow> string result" where
  "registration_mac info =
     then_do (required_key info ''mac'') (\<lambda>v.
       case v of PStr m \<Rightarrow> Inr (canonical_mac_text m) | _ \<Rightarrow> raise_exc AttributeError ''object has no attribute upper'')"

text \<open>The new dictionary of a connection, with a queue of its own.\<close>

definition agent_of :: "pydict \<Rightarrow> string \<Rightarrow> pyval \<Rightarrow> nat \<Rightarrow> nat \<Rightarrow> agent result" where
  "agent_of info mac role conn q =
     then_do (required_key info ''hostname'') (\<lambda>hostname.
     then_do (required_key info ''ip'') (\<lambda>ip.
     then_do (required_key info ''os'') (\<lambda>os.
       Inr \<lparr>ag_id = client_id_for_mac mac, ag_hostname = hostname, ag_ip = ip, ag_mac = mac, ag_os = os,
            ag_version = dget info ''client_version'', ag_conn = conn, ag_queue = q, ag_role = role, ag_expected = False,
            ag_reason = None\<rparr>)))"

text \<open>A reconnection updates the dictionary in place: what was noted about a disconnection stays in it.\<close>

definition reconnected :: "agent \<Rightarrow> agent \<Rightarrow> agent" where
  "reconnected old new = new\<lparr>ag_mac := ag_mac old, ag_expected := ag_expected old, ag_reason := ag_reason old\<rparr>"

definition put_agent :: "nat \<Rightarrow> agent \<Rightarrow> server \<Rightarrow> server" where
  "put_agent r a s = s\<lparr>sv_agents := (sv_agents s)(r \<mapsto> a)\<rparr>"

text \<open>The announcement of a registration, with the registration data under the canonical address.\<close>

definition greet_client :: "(pyval \<Rightarrow> string) \<Rightarrow> int \<Rightarrow> string \<Rightarrow> pydict \<Rightarrow> server \<Rightarrow> server" where
  "greet_client repr now mac info s =
     s\<lparr>sv_center := snd (create_connection_alert repr now mac info (log_connection now mac True (sv_center s)))\<rparr>"

definition add_client :: "(pyval \<Rightarrow> string) \<Rightarrow> int \<Rightarrow> pydict \<Rightarrow> string \<Rightarrow> agent \<Rightarrow> server \<Rightarrow> string option \<times> server" where
  "add_client repr now info mac new s =
     (let (saved, c) = update_client_db repr mac (ag_id new) (ag_hostname new) (ag_ip new) (ag_os new) (ag_version new) (sv_center s);
          s = s\<lparr>sv_center := c\<rparr>
      in if \<not> saved then (None, s)
         else (let (r, a, s) =
                 (case agent_at s (map_of (sv_clients s) mac) of
                    Some (r, old) \<Rightarrow> (r, reconnected old new, s)
                  | None \<Rightarrow> (sv_fresh s, new, s\<lparr>sv_clients := dset mac (sv_fresh s) (sv_clients s), sv_fresh := sv_fresh s + 1\<rparr>));
                   s = put_agent r a s;
                   s = (if is_role ''combined'' (ag_role new) then s\<lparr>sv_interactive := dset mac r (sv_interactive s)\<rparr> else s)
               in (Some (ag_id new), greet_client repr now mac info s)))"

definition register_client :: "(pyval \<Rightarrow> string) \<Rightarrow> int \<Rightarrow> pydict \<Rightarrow> nat \<Rightarrow> server \<Rightarrow> string option result \<times> server" where
  "register_client repr now info conn s =
     (case registration_mac info of
        Inl e \<Rightarrow> (Inl e, s)
      | Inr mac \<Rightarrow>
          (let role = dget_or info ''agent_role'' (PStr ''service'');
               s1 = (if is_role ''interactive'' role then s
                     else s\<lparr>sv_pending := AList.delete mac (sv_pending s)\<rparr>)
           in case agent_of info mac role conn (sv_fresh s) of
                Inl e \<Rightarrow> (Inl e, s1)
              | Inr new \<Rightarrow>
                  (let s1 = s1\<lparr>sv_fresh := sv_fresh s + 1, sv_queues := (sv_queues s)(sv_fresh s := [])\<rparr> in
                   if is_role ''interactive'' role
                   then (Inr (Some (ag_id new)),
                         put_agent (sv_fresh s1) new
                           (s1\<lparr>sv_interactive := dset mac (sv_fresh s1) (sv_interactive s1), sv_fresh := sv_fresh s1 + 1\<rparr>))
                   else (case add_client repr now info mac new s1 of (cid, s2) \<Rightarrow> (Inr cid, s2)))))"

section \<open>Removal\<close>

definition set_isolation :: "string \<Rightarrow> pydict \<Rightarrow> server \<Rightarrow> server" where
  "set_isolation cid d s =
     s\<lparr>sv_isolation := dset cid (fold (\<lambda>(k, v). dset k v) d (case map_of (sv_isolation s) cid of None \<Rightarrow> [] | Some old \<Rightarrow> old)) (sv_isolation s)\<rparr>"

definition put_response :: "nat \<Rightarrow> pydict \<Rightarrow> server \<Rightarrow> server" where
  "put_response q m s = s\<lparr>sv_queues := (sv_queues s)(q := sv_queues s q @ [m])\<rparr>"

definition drop_entry :: "pyval \<Rightarrow> string \<Rightarrow> nat \<Rightarrow> server \<Rightarrow> server" where
  "drop_entry role mac r s =
     (if is_role ''interactive'' role then s\<lparr>sv_interactive := AList.delete mac (sv_interactive s)\<rparr>
      else (let s = s\<lparr>sv_clients := AList.delete mac (sv_clients s)\<rparr>
            in if is_role ''combined'' role \<and> map_of (sv_interactive s) mac = Some r
               then s\<lparr>sv_interactive := AList.delete mac (sv_interactive s)\<rparr> else s))"

definition lost_status :: "int \<Rightarrow> pydict" where
  "lost_status now = [(''status'', PStr ''CONNECTION_LOST_AFTER_ISOLATION''), (''updated_at'', PStr (isoformat_utc now))]"

text \<open>The check of an unexpected disconnection is noted under a new token.\<close>

definition start_check :: "string \<Rightarrow> agent \<Rightarrow> server \<Rightarrow> server" where
  "start_check mac a s =
     s\<lparr>sv_pending := dset mac (sv_fresh s) (sv_pending s), sv_fresh := sv_fresh s + 1,
       sv_checks := sv_checks s @ [\<lparr>ck_token = sv_fresh s, ck_mac = mac, ck_hostname = ag_hostname a, ck_ip = ag_ip a, ck_pinging = False\<rparr>]\<rparr>"

definition remove_client :: "(pyval \<Rightarrow> string) \<Rightarrow> int \<Rightarrow> string \<Rightarrow> nat option \<Rightarrow> pyval \<Rightarrow> server \<Rightarrow> server" where
  "remove_client repr now mac connection role s =
     (case get_client_by_mac mac role s of
        None \<Rightarrow> s
      | Some (r, a) \<Rightarrow>
          if (case connection of None \<Rightarrow> False | Some k \<Rightarrow> ag_conn a \<noteq> k) then s
          else (let s = drop_entry role mac r s;
                    s = (if \<not> is_role ''interactive'' role \<and> ag_reason a = Some ''DEVICE_ISOLATION''
                         then set_isolation (ag_id a) (lost_status now) s else s);
                    s = (if \<not> is_role ''interactive'' role \<and> \<not> ag_expected a then start_check mac a s else s);
                    s = put_response (ag_queue a) [(''type'', PStr ''DISCONNECTED'')] s;
                    s = s\<lparr>sv_closed := sv_closed s @ [ag_conn a]\<rparr>
                in if is_role ''interactive'' role then s
                   else s\<lparr>sv_center := snd (create_disconnect_alert repr now mac (ag_hostname a) (ag_ip a) (ag_expected a)
                            (log_connection now mac False (sv_center s)))\<rparr>))"

section \<open>Checking a disconnection\<close>

definition end_check :: "nat \<Rightarrow> server \<Rightarrow> server" where
  "end_check tok s = s\<lparr>sv_checks := filter (\<lambda>k. ck_token k \<noteq> tok) (sv_checks s)\<rparr>"

definition find_check :: "nat \<Rightarrow> server \<Rightarrow> check option" where
  "find_check tok s = find (\<lambda>k. ck_token k = tok) (sv_checks s)"

text \<open>The first wake-up of \<open>verify_client_disconnect\<close>, after the delay.\<close>

definition wake_check :: "nat \<Rightarrow> server \<Rightarrow> server" where
  "wake_check tok s =
     (case find_check tok s of
        None \<Rightarrow> s
      | Some k \<Rightarrow>
          if ck_pinging k then s
          else if map_of (sv_pending s) (ck_mac k) \<noteq> Some tok then end_check tok s
          else if has_key (sv_clients s) (ck_mac k)
          then end_check tok (s\<lparr>sv_pending := AList.delete (ck_mac k) (sv_pending s)\<rparr>)
          else s\<lparr>sv_checks := map (\<lambda>k. if ck_token k = tok then k\<lparr>ck_pinging := True\<rparr> else k) (sv_checks s)\<rparr>)"

text \<open>The second, when the reachability of the host is known.\<close>

definition check_fires :: "nat \<Rightarrow> server \<Rightarrow> bool" where
  "check_fires tok s \<longleftrightarrow>
     (case find_check tok s of
        None \<Rightarrow> False
      | Some k \<Rightarrow> ck_pinging k \<and> map_of (sv_pending s) (ck_mac k) = Some tok \<and> \<not> has_key (sv_clients s) (ck_mac k))"

definition finish_check :: "(pyval \<Rightarrow> string) \<Rightarrow> int \<Rightarrow> nat \<Rightarrow> bool \<Rightarrow> server \<Rightarrow> server" where
  "finish_check repr now tok reachable s =
     (case find_check tok s of
        None \<Rightarrow> s
      | Some k \<Rightarrow>
          if \<not> ck_pinging k then s
          else if \<not> check_fires tok s then end_check tok s
          else (let s = end_check tok (s\<lparr>sv_pending := AList.delete (ck_mac k) (sv_pending s)\<rparr>)
                in if reachable
                   then s\<lparr>sv_center := snd (create_agent_stopped_alert repr now (ck_mac k) (ck_hostname k) (ck_ip k) (sv_center s))\<rparr>
                   else s))"

section \<open>Runs of the registry\<close>

datatype happening =
    Registers int pydict nat
  | Loses int string "nat option" pyval
  | Wakes nat
  | Finishes int nat bool

definition registry_step :: "(pyval \<Rightarrow> string) \<Rightarrow> happening \<Rightarrow> server \<Rightarrow> server" where
  "registry_step repr e s =
     (case e of
        Registers now info conn \<Rightarrow> snd (register_client repr now info conn s)
      | Loses now mac connection role \<Rightarrow> remove_client repr now mac connection role s
      | Wakes tok \<Rightarrow> wake_check tok s
      | Finishes now tok reachable \<Rightarrow> finish_check repr now tok reachable s)"

text \<open>A registration of an agent other than the desktop agent, under an address.\<close>

definition registers_mac :: "string \<Rightarrow> happening \<Rightarrow> bool" where
  "registers_mac mac e \<longleftrightarrow>
     (case e of
        Registers now info conn \<Rightarrow> \<not> is_role ''interactive'' (dget_or info ''agent_role'' (PStr ''service'')) \<and> registration_mac info = Inr mac
      | _ \<Rightarrow> False)"

definition finishes_check :: "nat \<Rightarrow> happening \<Rightarrow> bool" where
  "finishes_check tok e \<longleftrightarrow> (case e of Finishes now t b \<Rightarrow> t = tok | _ \<Rightarrow> False)"

section \<open>What the operations do to the pending checks\<close>

lemma map_of_delete [simp]: "map_of (AList.delete k d) k' = (if k' = k then None else map_of d k')"
  by (simp add: delete_conv')

lemma put_agent_frame [simp]:
  "sv_pending (put_agent r a s) = sv_pending s" "sv_checks (put_agent r a s) = sv_checks s"
  "sv_clients (put_agent r a s) = sv_clients s" "sv_fresh (put_agent r a s) = sv_fresh s"
  by (simp_all add: put_agent_def)

lemma greet_frame [simp]:
  "sv_pending (greet_client repr now mac info s) = sv_pending s" "sv_checks (greet_client repr now mac info s) = sv_checks s"
  "sv_clients (greet_client repr now mac info s) = sv_clients s" "sv_fresh (greet_client repr now mac info s) = sv_fresh s"
  by (simp_all add: greet_client_def)

lemma set_isolation_frame [simp]:
  "sv_pending (set_isolation cid d s) = sv_pending s" "sv_checks (set_isolation cid d s) = sv_checks s"
  "sv_clients (set_isolation cid d s) = sv_clients s" "sv_fresh (set_isolation cid d s) = sv_fresh s"
  by (simp_all add: set_isolation_def)

lemma put_response_frame [simp]:
  "sv_pending (put_response q m s) = sv_pending s" "sv_checks (put_response q m s) = sv_checks s"
  "sv_clients (put_response q m s) = sv_clients s" "sv_fresh (put_response q m s) = sv_fresh s"
  by (simp_all add: put_response_def)

lemma drop_entry_frame [simp]:
  "sv_pending (drop_entry role mac r s) = sv_pending s" "sv_checks (drop_entry role mac r s) = sv_checks s"
  "sv_fresh (drop_entry role mac r s) = sv_fresh s"
  "sv_clients (drop_entry role mac r s) = (if is_role ''interactive'' role then sv_clients s else AList.delete mac (sv_clients s))"
  by (simp_all add: drop_entry_def Let_def)

lemma end_check_frame [simp]:
  "sv_pending (end_check tok s) = sv_pending s" "sv_clients (end_check tok s) = sv_clients s" "sv_fresh (end_check tok s) = sv_fresh s"
  by (simp_all add: end_check_def)

lemma add_client_frame:
  "add_client repr now info mac new s = (r, s') \<Longrightarrow>
     sv_pending s' = sv_pending s \<and> sv_checks s' = sv_checks s \<and> sv_fresh s \<le> sv_fresh s' \<and>
     (\<forall>m. m \<noteq> mac \<longrightarrow> map_of (sv_clients s') m = map_of (sv_clients s) m)"
  by (auto simp: add_client_def Let_def split: prod.splits option.splits if_splits)

lemma register_frame:
  assumes "register_client repr now info conn s = (r, s')"
  shows "sv_checks s' = sv_checks s" "sv_fresh s \<le> sv_fresh s'"
    "\<not> registers_mac mac (Registers now info conn) \<Longrightarrow>
       map_of (sv_pending s') mac = map_of (sv_pending s) mac \<and> map_of (sv_clients s') mac = map_of (sv_clients s) mac"
    "registers_mac mac (Registers now info conn) \<Longrightarrow> map_of (sv_pending s') mac = None"
    "map_of (sv_pending s') m = Some tok \<Longrightarrow> map_of (sv_pending s) m = Some tok"
  using assms
  by (auto simp: register_client_def Let_def registers_mac_def dest!: add_client_frame split: sum.splits prod.splits if_splits)

lemma remove_frame:
  assumes "s' = remove_client repr now mac connection role s"
  shows "s' = s \<or>
    (\<exists>r a. get_client_by_mac mac role s = Some (r, a) \<and>
       sv_clients s' = (if is_role ''interactive'' role then sv_clients s else AList.delete mac (sv_clients s)) \<and>
       (if \<not> is_role ''interactive'' role \<and> \<not> ag_expected a
        then sv_pending s' = dset mac (sv_fresh s) (sv_pending s) \<and> sv_fresh s' = sv_fresh s + 1 \<and>
             sv_checks s' = sv_checks s @ [\<lparr>ck_token = sv_fresh s, ck_mac = mac, ck_hostname = ag_hostname a, ck_ip = ag_ip a, ck_pinging = False\<rparr>]
        else sv_pending s' = sv_pending s \<and> sv_fresh s' = sv_fresh s \<and> sv_checks s' = sv_checks s))"
  unfolding assms
  by (auto simp: remove_client_def Let_def start_check_def split: option.splits)

lemma find_filter_other: "tok \<noteq> tok' \<Longrightarrow> find (\<lambda>k. ck_token k = tok) (filter (\<lambda>k. ck_token k \<noteq> tok') ks) = find (\<lambda>k. ck_token k = tok) ks"
  by (induction ks) auto

lemma find_check_end [simp]: "tok \<noteq> tok' \<Longrightarrow> find_check tok (end_check tok' s) = find_check tok s"
  by (simp add: find_check_def end_check_def find_filter_other)

lemma find_check_SomeD: "find_check tok s = Some k \<Longrightarrow> ck_token k = tok \<and> k \<in> set (sv_checks s)"
  by (auto simp: find_check_def dest: find_SomeD)

section \<open>A check that is over stays over\<close>

definition dead :: "nat \<Rightarrow> server \<Rightarrow> bool" where
  "dead tok s \<longleftrightarrow> tok < sv_fresh s \<and> (\<forall>mac. map_of (sv_pending s) mac \<noteq> Some tok)"

lemma dead_silent: "dead tok s \<Longrightarrow> \<not> check_fires tok s"
  by (simp add: dead_def check_fires_def split: option.split)

lemma dead_register: "dead tok s \<Longrightarrow> dead tok (snd (register_client repr now info conn s))"
proof -
  obtain r s' where "register_client repr now info conn s = (r, s')" by force
  then show "dead tok s \<Longrightarrow> dead tok (snd (register_client repr now info conn s))"
    using register_frame(2,5) by (fastforce simp: dead_def)
qed

lemma dead_remove: "dead tok s \<Longrightarrow> dead tok (remove_client repr now mac connection role s)"
  using remove_frame [OF refl, of repr now mac connection role s] by (auto simp: dead_def split: if_splits)

lemma dead_wake: "dead tok s \<Longrightarrow> dead tok (wake_check tok' s)"
  by (auto simp: dead_def wake_check_def split: option.splits)

lemma dead_finish: "dead tok s \<Longrightarrow> dead tok (finish_check repr now tok' b s)"
  by (auto simp: dead_def finish_check_def Let_def split: option.splits)

lemma dead_step: "dead tok s \<Longrightarrow> dead tok (registry_step repr e s)"
  by (cases e) (simp_all add: registry_step_def dead_register dead_remove dead_wake dead_finish)

interpretation dead_checks: lifecycle "registry_step repr" "\<lambda>_. True" "dead tok" for repr tok
  by unfold_locales (rule dead_step)

section \<open>A check that nothing answers stays armed\<close>

definition armed :: "string \<Rightarrow> nat \<Rightarrow> pyval \<Rightarrow> pyval \<Rightarrow> bool \<Rightarrow> server \<Rightarrow> bool" where
  "armed mac tok hostname ip pinging s \<longleftrightarrow>
     tok < sv_fresh s \<and> map_of (sv_pending s) mac = Some tok \<and> map_of (sv_clients s) mac = None \<and>
     (\<forall>m. map_of (sv_pending s) m = Some tok \<longrightarrow> m = mac) \<and>
     (\<exists>k. find_check tok s = Some k \<and> ck_mac k = mac \<and> ck_hostname k = hostname \<and> ck_ip k = ip \<and> (pinging \<longrightarrow> ck_pinging k))"

lemma armedD:
  assumes "armed mac tok h ip pinging s"
  shows "tok < sv_fresh s" "map_of (sv_pending s) mac = Some tok" "map_of (sv_clients s) mac = None"
    "map_of (sv_pending s) m = Some tok \<Longrightarrow> m = mac"
    "\<exists>k. find_check tok s = Some k \<and> ck_mac k = mac \<and> ck_hostname k = h \<and> ck_ip k = ip \<and> (pinging \<longrightarrow> ck_pinging k)"
  using assms unfolding armed_def by blast+

lemma armed_frame:
  assumes "armed mac tok h ip pinging s" "sv_fresh s \<le> sv_fresh s'" "map_of (sv_pending s') mac = map_of (sv_pending s) mac"
    and "map_of (sv_clients s') mac = map_of (sv_clients s) mac"
    and "\<And>m. map_of (sv_pending s') m = Some tok \<Longrightarrow> map_of (sv_pending s) m = Some tok"
    and "find_check tok s' = find_check tok s"
  shows "armed mac tok h ip pinging s'"
proof -
  note a = armedD [OF assms(1)]
  from a(1) assms(2) have "tok < sv_fresh s'" by (rule order_less_le_trans)
  moreover have "\<forall>m. map_of (sv_pending s') m = Some tok \<longrightarrow> m = mac" using a(4) assms(5) by blast
  ultimately show ?thesis using a(2,3,5) unfolding armed_def assms(3,4,6) by blast
qed

lemma armed_register:
  assumes "armed mac tok h ip pinging s" "\<not> registers_mac mac (Registers now info conn)"
  shows "armed mac tok h ip pinging (snd (register_client repr now info conn s))"
proof -
  obtain r s' where r: "register_client repr now info conn s = (r, s')" by force
  note f = register_frame [OF r]
  have "find_check tok s' = find_check tok s" unfolding find_check_def f(1) by (rule refl)
  with f(3) [OF assms(2)] show ?thesis unfolding r snd_conv
    by (intro armed_frame [OF assms(1) f(2)]) (blast intro: f(5))+
qed

lemma remove_cases:
  obtains (same) "remove_client repr now mac connection role s = s"
  | (quiet) r a s' where "get_client_by_mac mac role s = Some (r, a)" "s' = remove_client repr now mac connection role s"
      "sv_clients s' = (if is_role ''interactive'' role then sv_clients s else AList.delete mac (sv_clients s))"
      "is_role ''interactive'' role \<or> ag_expected a" "sv_pending s' = sv_pending s" "sv_fresh s' = sv_fresh s" "sv_checks s' = sv_checks s"
  | (checked) r a s' where "get_client_by_mac mac role s = Some (r, a)" "s' = remove_client repr now mac connection role s"
      "sv_clients s' = AList.delete mac (sv_clients s)" "\<not> is_role ''interactive'' role"
      "sv_pending s' = dset mac (sv_fresh s) (sv_pending s)" "sv_fresh s' = sv_fresh s + 1"
      "sv_checks s' = sv_checks s @ [\<lparr>ck_token = sv_fresh s, ck_mac = mac, ck_hostname = ag_hostname a, ck_ip = ag_ip a, ck_pinging = False\<rparr>]"
  using remove_frame [OF refl, of repr now mac connection role s] by (auto split: if_splits)

lemma find_other: "ck_token k \<noteq> tok \<Longrightarrow> find (\<lambda>k. ck_token k = tok) (ks @ [k]) = find (\<lambda>k. ck_token k = tok) ks"
  by (induction ks) auto

lemma find_new: "\<forall>k\<in>set ks. ck_token k \<noteq> ck_token c \<Longrightarrow> find (\<lambda>k. ck_token k = ck_token c) (ks @ [c]) = Some c"
  by (induction ks) auto

lemma armed_remove:
  assumes "armed mac tok h ip pinging s"
  shows "armed mac tok h ip pinging (remove_client repr now mac' connection role s)"
proof (cases rule: remove_cases [of repr now mac' connection role s])
  case (quiet r a s')
  have "is_role ''interactive'' role \<or> mac' \<noteq> mac"
    using quiet(1) armedD(3) [OF assms] by (auto simp: get_client_by_mac_def registry_of_def agent_at_def)
  then show ?thesis unfolding quiet(2) [symmetric]
    by (intro armed_frame [OF assms]) (auto simp: quiet(3,5-7) find_check_def)
next
  case (checked r a s')
  have other: "mac' \<noteq> mac"
    using checked(1,4) armedD(3) [OF assms] by (auto simp: get_client_by_mac_def registry_of_def agent_at_def)
  with armedD(1) [OF assms] show ?thesis unfolding checked(2) [symmetric]
    by (intro armed_frame [OF assms]) (auto simp: checked(3,5-7) find_check_def find_other split: if_splits)
qed (simp add: assms)

lemma find_map_pinging:
  "find (\<lambda>k. ck_token k = tok) (map (\<lambda>k. if ck_token k = tok' then k\<lparr>ck_pinging := True\<rparr> else k) ks) =
   map_option (\<lambda>k. if ck_token k = tok' then k\<lparr>ck_pinging := True\<rparr> else k) (find (\<lambda>k. ck_token k = tok) ks)"
  by (induction ks) auto

lemma find_map_other:
  "tok' \<noteq> tok \<Longrightarrow> find (\<lambda>k. ck_token k = tok) (map (\<lambda>k. if ck_token k = tok' then k\<lparr>ck_pinging := True\<rparr> else k) ks) =
     find (\<lambda>k. ck_token k = tok) ks"
  by (induction ks) auto

lemma armed_wake:
  assumes "armed mac tok h ip pinging s"
  shows "armed mac tok h ip (pinging \<or> tok' = tok) (wake_check tok' s)"
proof (cases "find_check tok' s")
  case None
  then have "tok' \<noteq> tok" using armedD(5) [OF assms] by auto
  with None assms show ?thesis by (simp add: wake_check_def)
next
  case (Some k)
  show ?thesis
  proof (cases "tok' = tok")
    case True
    with Some armedD(2,5) [OF assms] have k: "ck_mac k = mac" "ck_hostname k = h" "ck_ip k = ip" by auto
    have "wake_check tok' s = (if ck_pinging k then s else s\<lparr>sv_checks :=
        map (\<lambda>k. if ck_token k = tok then k\<lparr>ck_pinging := True\<rparr> else k) (sv_checks s)\<rparr>)"
      using Some armedD(2,3) [OF assms] by (simp add: wake_check_def k True)
    moreover have "ck_token k = tok" using Some True by (auto dest: find_check_SomeD)
    moreover have "find_check tok s = Some k" using Some True by simp
    ultimately have w: "find_check tok (wake_check tok' s) = Some (k\<lparr>ck_pinging := True\<rparr>)"
      "sv_pending (wake_check tok' s) = sv_pending s" "sv_clients (wake_check tok' s) = sv_clients s"
      "sv_fresh (wake_check tok' s) = sv_fresh s"
      by (simp_all add: find_check_def find_map_pinging)
    have "\<exists>j. Some (k\<lparr>ck_pinging := True\<rparr>) = Some j \<and> ck_mac j = mac \<and> ck_hostname j = h \<and> ck_ip j = ip \<and> (pinging \<or> tok' = tok \<longrightarrow> ck_pinging j)"
      using k by simp
    moreover have "\<forall>m. map_of (sv_pending s) m = Some tok \<longrightarrow> m = mac" using armedD(4) [OF assms] by blast
    ultimately show ?thesis unfolding armed_def w using armedD(1-3) [OF assms] by - (intro conjI; assumption)
  next
    case False
    then have k: "ck_mac k \<noteq> mac" if "map_of (sv_pending s) (ck_mac k) = Some tok'" using that armedD(2) [OF assms] by auto
    have fc: "find_check tok (wake_check tok' s) = find_check tok s"
      using False Some
      by (auto simp: wake_check_def find_check_def end_check_def find_filter_other find_map_other)
    from False fc show ?thesis
      by (simp, intro armed_frame [OF assms]) (use Some k in \<open>auto simp: wake_check_def split: if_splits\<close>)
  qed
qed

lemma armed_finish:
  assumes "armed mac tok h ip pinging s" "tok' \<noteq> tok"
  shows "armed mac tok h ip pinging (finish_check repr now tok' b s)"
proof (cases "find_check tok' s")
  case None
  then show ?thesis using assms by (simp add: finish_check_def)
next
  case (Some k)
  have k: "ck_mac k \<noteq> mac" if "map_of (sv_pending s) (ck_mac k) = Some tok'" using that assms(2) armedD(2) [OF assms(1)] by auto
  have fc: "find_check tok (finish_check repr now tok' b s) = find_check tok s"
    using assms(2) Some by (auto simp: finish_check_def Let_def find_check_def end_check_def find_filter_other)
  from fc show ?thesis
    by (intro armed_frame [OF assms(1)])
      (use Some k in \<open>auto simp: finish_check_def Let_def check_fires_def end_check_def split: if_splits\<close>)
qed

lemma armed_step:
  assumes "armed mac tok h ip pinging s" "\<not> registers_mac mac e" "\<not> finishes_check tok e"
  shows "armed mac tok h ip (pinging \<or> e = Wakes tok) (registry_step repr e s)"
  using assms armed_register [OF assms(1)] armed_remove [OF assms(1)] armed_wake [OF assms(1)] armed_finish [OF assms(1)]
  by (cases e) (auto simp: registry_step_def finishes_check_def)

lemma armed_run:
  "armed mac tok h ip pinging s \<Longrightarrow> \<forall>e\<in>set es. \<not> registers_mac mac e \<and> \<not> finishes_check tok e \<Longrightarrow>
   armed mac tok h ip (pinging \<or> Wakes tok \<in> set es) (fold (registry_step repr) es s)"
proof (induction es arbitrary: pinging s)
  case (Cons e es)
  from Cons.prems have "armed mac tok h ip (pinging \<or> e = Wakes tok) (registry_step repr e s)" by (intro armed_step) auto
  from Cons.IH [OF this] Cons.prems show ?case by (simp add: disj_ac eq_commute)
qed simp

text \<open>Tokens are not used twice, and a pending token belongs to the check of its client, which is not connected.\<close>

definition tokens_good :: "server \<Rightarrow> bool" where
  "tokens_good s \<longleftrightarrow>
     (\<forall>mac tok. map_of (sv_pending s) mac = Some tok \<longrightarrow> tok < sv_fresh s \<and> map_of (sv_clients s) mac = None) \<and>
     (\<forall>k\<in>set (sv_checks s). ck_token k < sv_fresh s \<and> (\<forall>m. map_of (sv_pending s) m = Some (ck_token k) \<longrightarrow> m = ck_mac k))"

lemma tokens_goodI:
  assumes "tokens_good s" "sv_fresh s \<le> sv_fresh s'" "\<And>m tok. map_of (sv_pending s') m = Some tok \<Longrightarrow> map_of (sv_pending s) m = Some tok"
    and "\<And>m tok. map_of (sv_pending s') m = Some tok \<Longrightarrow> map_of (sv_clients s) m = None \<Longrightarrow> map_of (sv_clients s') m = None"
    and "\<And>k. k \<in> set (sv_checks s') \<Longrightarrow> \<exists>k'\<in>set (sv_checks s). ck_token k' = ck_token k \<and> ck_mac k' = ck_mac k"
  shows "tokens_good s'"
proof -
  have "tok < sv_fresh s' \<and> map_of (sv_clients s') mac = None" if "map_of (sv_pending s') mac = Some tok" for mac tok
  proof -
    from assms(1) assms(3) [OF that] have "tok < sv_fresh s" "map_of (sv_clients s) mac = None" unfolding tokens_good_def by blast+
    with assms(2) assms(4) [OF that] show ?thesis by simp
  qed
  moreover have "ck_token k < sv_fresh s' \<and> (\<forall>m. map_of (sv_pending s') m = Some (ck_token k) \<longrightarrow> m = ck_mac k)"
    if k: "k \<in> set (sv_checks s')" for k
  proof -
    obtain k' where "k' \<in> set (sv_checks s)" "ck_token k' = ck_token k" "ck_mac k' = ck_mac k" using assms(5) [OF k] by blast
    then show ?thesis using assms(1-3) by (metis order_less_le_trans tokens_good_def)
  qed
  ultimately show ?thesis unfolding tokens_good_def by blast
qed

lemma tokens_good_register:
  assumes "tokens_good s"
  shows "tokens_good (snd (register_client repr now info conn s))"
proof -
  obtain r s' where r: "register_client repr now info conn s = (r, s')" by force
  note f = register_frame [OF r]
  have "map_of (sv_clients s') m = None" if "map_of (sv_pending s') m = Some tok" "map_of (sv_clients s) m = None" for m tok
    using f(3,4) [of m] that by auto
  then show ?thesis using f(1,5) unfolding r snd_conv by (intro tokens_goodI [OF assms f(2)]) auto
qed

lemma tokens_good_remove:
  assumes "tokens_good s"
  shows "tokens_good (remove_client repr now mac connection role s)"
proof (cases rule: remove_cases [of repr now mac connection role s])
  case (quiet r a s')
  then show ?thesis unfolding quiet(2) [symmetric] by (intro tokens_goodI [OF assms]) (auto split: if_splits)
next
  case (checked r a s')
  have "map_of (sv_pending s) m \<noteq> Some (sv_fresh s)" for m using assms by (auto simp: tokens_good_def)
  with assms show ?thesis unfolding checked(2) [symmetric] by (auto simp: tokens_good_def checked(3,5-7) less_Suc_eq)
qed (simp add: assms)

lemma tokens_good_wake: "tokens_good s \<Longrightarrow> tokens_good (wake_check tok s)"
  by (rule tokens_goodI [of s]) (auto simp: wake_check_def end_check_def split: option.splits if_splits)

lemma tokens_good_finish: "tokens_good s \<Longrightarrow> tokens_good (finish_check repr now tok b s)"
  by (rule tokens_goodI [of s]) (auto simp: finish_check_def end_check_def Let_def split: option.splits if_splits)

lemma tokens_good_step: "tokens_good s \<Longrightarrow> tokens_good (registry_step repr e s)"
  by (cases e) (simp_all add: registry_step_def tokens_good_register tokens_good_remove tokens_good_wake tokens_good_finish)

interpretation registry_tokens: lifecycle "registry_step repr" "\<lambda>_. True" tokens_good for repr
  by unfold_locales (rule tokens_good_step)

lemma start_check_armed:
  assumes "tokens_good s" "get_client_by_mac mac role s = Some (r, a)" "\<not> is_role ''interactive'' role" "\<not> ag_expected a"
    and "case connection of None \<Rightarrow> True | Some k \<Rightarrow> ag_conn a = k"
  shows "armed mac (sv_fresh s) (ag_hostname a) (ag_ip a) False (remove_client repr now mac connection role s)"
proof -
  have new: "find_check (sv_fresh s) (start_check mac a s') =
      Some \<lparr>ck_token = sv_fresh s, ck_mac = mac, ck_hostname = ag_hostname a, ck_ip = ag_ip a, ck_pinging = False\<rparr>"
    if "sv_checks s' = sv_checks s" "sv_fresh s' = sv_fresh s" for s'
    using assms(1) find_new [of "sv_checks s" "\<lparr>ck_token = sv_fresh s, ck_mac = mac, ck_hostname = ag_hostname a, ck_ip = ag_ip a, ck_pinging = False\<rparr>"]
    by (fastforce simp: find_check_def start_check_def that tokens_good_def)
  have "map_of (sv_pending s) m \<noteq> Some (sv_fresh s)" for m using assms(1) by (auto simp: tokens_good_def)
  moreover have "\<exists>s'. sv_checks s' = sv_checks s \<and> sv_fresh s' = sv_fresh s \<and> sv_pending s' = sv_pending s \<and>
      sv_clients s' = AList.delete mac (sv_clients s) \<and>
      sv_checks (remove_client repr now mac connection role s) = sv_checks (start_check mac a s') \<and>
      sv_pending (remove_client repr now mac connection role s) = sv_pending (start_check mac a s') \<and>
      sv_fresh (remove_client repr now mac connection role s) = sv_fresh (start_check mac a s') \<and>
      sv_clients (remove_client repr now mac connection role s) = AList.delete mac (sv_clients s)"
    using assms(2-5)
    by (intro exI [of _ "s\<lparr>sv_clients := AList.delete mac (sv_clients s)\<rparr>"])
      (auto simp: remove_client_def Let_def start_check_def split: option.splits)
  ultimately show ?thesis using new by (fastforce simp: armed_def find_check_def start_check_def)
qed

lemma finish_armed:
  assumes "armed mac tok h ip True s"
  shows "check_fires tok s"
    "finish_check repr now tok b s =
      (let s' = end_check tok (s\<lparr>sv_pending := AList.delete mac (sv_pending s)\<rparr>)
       in if b then s'\<lparr>sv_center := snd (create_agent_stopped_alert repr now mac h ip (sv_center s'))\<rparr> else s')"
    "dead tok (finish_check repr now tok b s)"
proof -
  from armedD(5) [OF assms] obtain k where k: "find_check tok s = Some k" "ck_mac k = mac" "ck_hostname k = h" "ck_ip k = ip" "ck_pinging k"
    by auto
  then show fires: "check_fires tok s" using armedD(2,3) [OF assms] by (simp add: check_fires_def)
  show run: "finish_check repr now tok b s =
      (let s' = end_check tok (s\<lparr>sv_pending := AList.delete mac (sv_pending s)\<rparr>)
       in if b then s'\<lparr>sv_center := snd (create_agent_stopped_alert repr now mac h ip (sv_center s'))\<rparr> else s')"
    using fires by (simp add: finish_check_def k Let_def end_check_def)
  have "tok < sv_fresh s" "\<forall>m. map_of (AList.delete mac (sv_pending s)) m \<noteq> Some tok"
    using armedD(1) [OF assms] armedD(4) [OF assms] by auto
  then show "dead tok (finish_check repr now tok b s)" unfolding run by (auto simp: dead_def Let_def end_check_def)
qed

text \<open>
  C7.  Every unexpected disconnection is followed up exactly once: whatever the server does in the meantime, as long as the client
  does not register again, the check that the removal started, once woken, ends by creating the alert for this client if its host
  answers and by leaving the alerts alone if not, and it never fires again.
\<close>

theorem disconnection_checked_once:
  assumes "s0 = fold (registry_step repr) history (empty_server center t)"
    and "get_client_by_mac mac role s0 = Some (r, a)" "\<not> is_role ''interactive'' role" "\<not> ag_expected a"
    and "case connection of None \<Rightarrow> True | Some k \<Rightarrow> ag_conn a = k"
    and "s1 = fold (registry_step repr) es (remove_client repr now mac connection role s0)"
    and "\<forall>e\<in>set es. \<not> registers_mac mac e \<and> \<not> finishes_check (sv_fresh s0) e" "Wakes (sv_fresh s0) \<in> set es"
    and "s2 = finish_check repr now' (sv_fresh s0) reachable s1"
  shows "check_fires (sv_fresh s0) s1 \<and>
    sv_center s2 = (if reachable then snd (create_agent_stopped_alert repr now' mac (ag_hostname a) (ag_ip a) (sv_center s1)) else sv_center s1) \<and>
    (\<forall>later. \<not> check_fires (sv_fresh s0) (fold (registry_step repr) later s2))"
proof -
  have "tokens_good (empty_server center t)" by (simp add: tokens_good_def empty_server_def)
  then have good: "tokens_good s0" unfolding assms(1) by (rule registry_tokens.run_good) simp
  have armed: "armed mac (sv_fresh s0) (ag_hostname a) (ag_ip a) True s1"
    using armed_run [OF start_check_armed [OF good assms(2-5), of repr now] assms(7), of repr] assms(8) unfolding assms(6) by auto
  have "dead (sv_fresh s0) s2" unfolding assms(9) by (rule finish_armed(3) [OF armed])
  then have "\<not> check_fires (sv_fresh s0) (fold (registry_step repr) later s2)" for later
    by (intro dead_silent dead_checks.run_good) simp_all
  with finish_armed(1) [OF armed] show ?thesis
    unfolding assms(9) finish_armed(2) [OF armed] by (simp add: Let_def end_check_def)
qed


section \<open>Runs\<close>

definition demo_info :: "string \<Rightarrow> pydict" where
  "demo_info role =
     [(''mac'', PStr ''aa''), (''hostname'', PStr ''pc''), (''ip'', PStr ''10.0.0.2''), (''os'', PStr ''Linux''), (''agent_role'', PStr role)]"

definition demo_start :: server where
  "demo_start = empty_server demo_center empty_tables"

definition demo_history :: "happening list" where
  "demo_history = [Registers 0 (demo_info ''service'') 7]"

lemma disconnection_checked_once_witness:
  "let s0 = fold (registry_step (\<lambda>_. [])) demo_history demo_start;
       s1 = fold (registry_step (\<lambda>_. [])) [Wakes 2] (remove_client (\<lambda>_. []) 5 ''AA'' (Some 7) (PStr ''service'') s0)
   in sv_fresh s0 = 2 \<and> check_fires 2 s1 \<and> \<not> check_fires 2 (finish_check (\<lambda>_. []) 9 2 True s1)"
proof -
  let ?s0 = "fold (registry_step (\<lambda>_. [])) demo_history (empty_server demo_center empty_tables)"
  have f: "sv_fresh ?s0 = 2" by code_simp
  have "map_option (\<lambda>(r, a). ag_expected a \<or> ag_conn a \<noteq> 7) (get_client_by_mac ''AA'' (PStr ''service'') ?s0) = Some False" by code_simp
  then obtain r a where a: "get_client_by_mac ''AA'' (PStr ''service'') ?s0 = Some (r, a)" "\<not> ag_expected a" "ag_conn a = 7" by auto
  have role: "\<not> is_role ''interactive'' (PStr ''service'')" and conn: "case Some 7 of None \<Rightarrow> True | Some k \<Rightarrow> ag_conn a = k"
    using a(3) by (simp_all add: is_role_def)
  have es: "\<forall>e\<in>set [Wakes 2]. \<not> registers_mac ''AA'' e \<and> \<not> finishes_check (sv_fresh ?s0) e" "Wakes (sv_fresh ?s0) \<in> set [Wakes 2]"
    by (simp_all add: f registers_mac_def finishes_check_def del: fold.simps)
  note once = disconnection_checked_once [OF refl a(1) role a(2) conn refl es refl, of 5 9 True]
  then have "check_fires 2 (fold (registry_step (\<lambda>_. [])) [Wakes 2] (remove_client (\<lambda>_. []) 5 ''AA'' (Some 7) (PStr ''service'') ?s0))"
    unfolding f by blast
  moreover have "\<not> check_fires 2 (fold (registry_step (\<lambda>_. [])) [] (finish_check (\<lambda>_. []) 9 2 True
      (fold (registry_step (\<lambda>_. [])) [Wakes 2] (remove_client (\<lambda>_. []) 5 ''AA'' (Some 7) (PStr ''service'') ?s0))))"
    using once unfolding f by blast
  ultimately show ?thesis using f unfolding Let_def demo_start_def by simp
qed

definition lost_history :: "happening list" where
  "lost_history = demo_history @ [Loses 5 ''AA'' (Some 7) (PStr ''service''), Wakes 2]"


text \<open>
  A client that is expected to disconnect and registers again before its connection is removed stays expected to: the loss of
  the new connection is taken for the one that was asked for, and no check follows.
\<close>

lemma expectation_survives_reconnection:
  "let s0 = fold (registry_step (\<lambda>_. [])) demo_history demo_start;
       s1 = (case get_client_by_mac ''AA'' (PStr ''service'') s0 of None \<Rightarrow> s0 | Some (r, a) \<Rightarrow> put_agent r (a\<lparr>ag_expected := True\<rparr>) s0);
       s2 = registry_step (\<lambda>_. []) (Registers 8 (demo_info ''service'') 9) s1;
       s3 = registry_step (\<lambda>_. []) (Loses 20 ''AA'' (Some 9) (PStr ''service'')) s2
   in sv_clients s3 = [] \<and> sv_checks s3 = [] \<and> sv_pending s3 = []"
  by code_simp

text \<open>Addresses that differ in their separators only are two clients with one id, and the second is never found by it.\<close>

lemma one_id_for_two_addresses:
  "let s = fold (registry_step (\<lambda>_. [])) [Registers 0 (demo_info ''service'') 7, Registers 0 (dset ''mac'' (PStr ''a-a'') (demo_info ''service'')) 8] demo_start
   in map fst (sv_clients s) = [''AA'', ''A:A''] \<and> get_connected_client_ids s = [''client-aa'', ''client-aa''] \<and>
      map_option (ag_conn \<circ> snd) (get_client ''client-aa'' s) = Some 7"
  by code_simp

end
