(* ===== verification/Commands.thy ===== *)
theory Commands
  imports Registry
begin

text \<open>
  What the server does with a connected client: the reader of a connection with the handlers of its messages, and the
  commands that wait for an answer (\<open>server/server_components/server_lib.py\<close>).  Readers and commands run in threads; while
  a command waits, any \<open>occurrence\<close> may happen, and when none is left its time is up.  A connection in \<open>sv_closed\<close> takes no more
  messages.  The processing of neighbourhood reports, activity logs and scan results, and the stored resource protection settings,
  are parameters that see the database and the subscribers only.
\<close>

record conf =
  cf_repr :: "pyval \<Rightarrow> string"
  cf_fault :: "int \<Rightarrow> pyexc option"
  cf_report :: "string \<Rightarrow> pyval \<Rightarrow> center \<Rightarrow> center"
  cf_activity_log :: "string \<Rightarrow> pyval \<Rightarrow> center \<Rightarrow> center"
  cf_scan :: "string \<Rightarrow> pyval \<Rightarrow> center \<Rightarrow> center"
  cf_protection :: "center \<Rightarrow> pyval"

definition on_center :: "(center \<Rightarrow> center) \<Rightarrow> server \<Rightarrow> server" where
  "on_center f s = s\<lparr>sv_center := f (sv_center s)\<rparr>"

definition post :: "nat \<Rightarrow> pydict \<Rightarrow> server \<Rightarrow> unit result \<times> server" where
  "post conn m s =
     (if conn \<in> set (sv_closed s) then (raise_exc OSError ''connection closed'', s)
      else (Inr (), s\<lparr>sv_sent := sv_sent s @ [(conn, m)]\<rparr>))"

section \<open>Progress of an action\<close>

definition count_status :: "string \<Rightarrow> string list \<Rightarrow> int" where
  "count_status st statuses = ilen (filter (\<lambda>s. s = st) statuses)"

definition summarize_statuses :: "string list \<Rightarrow> pydict" where
  "summarize_statuses statuses =
     (let total_count = ilen statuses; succeeded = count_status ''SUCCESS'' statuses; failed_count = count_status ''FAILED'' statuses;
          running = count_status ''RUNNING'' statuses; completed = succeeded + failed_count
      in [(''total'', PInt total_count), (''completed'', PInt completed), (''succeeded'', PInt succeeded), (''failed'', PInt failed_count),
          (''in_progress'', PInt running), (''pending'', PInt (max 0 (total_count - completed - running)))])"

definition summarize_action_progress :: "pyval list \<Rightarrow> (pyval \<Rightarrow> string) \<Rightarrow> pydict" where
  "summarize_action_progress statuses repr = summarize_statuses (map (\<lambda>v. if truthy v then py_str repr v else ''PENDING'') statuses)"

section \<open>Results of packages\<close>

text \<open>The targets of an action that belong to a client.\<close>

definition target_of :: "string \<Rightarrow> string \<Rightarrow> database \<Rightarrow> target_row \<Rightarrow> bool" where
  "target_of aid cid d t \<longleftrightarrow>
     list_ex (\<lambda>a. ac_key a = tg_action t \<and> ac_id a = aid) (db_actions d) \<and> list_ex (\<lambda>c. cl_key c = tg_client t \<and> cl_id c = cid) (db_clients d)"

definition update_target :: "string \<Rightarrow> string \<Rightarrow> (target_row \<Rightarrow> target_row) \<Rightarrow> database \<Rightarrow> database" where
  "update_target aid cid f d = d\<lparr>db_targets := map (\<lambda>t. if target_of aid cid d t then f t else t) (db_targets d)\<rparr>"

definition action_targets :: "string \<Rightarrow> database \<Rightarrow> target_row list" where
  "action_targets aid d =
     sort_key tg_order (filter (\<lambda>t. list_ex (\<lambda>a. ac_key a = tg_action t \<and> ac_id a = aid) (db_actions d)) (db_targets d))"

definition finish_target :: "int \<Rightarrow> string \<Rightarrow> pyval \<Rightarrow> target_row \<Rightarrow> target_row" where
  "finish_target now st outcome t =
     t\<lparr>tg_status := st, tg_completed := Some now, tg_result := (if st = ''SUCCESS'' then outcome else PNone),
       tg_error := (if st = ''FAILED'' then outcome else PNone)\<rparr>"

definition waiter_key :: "(pyval \<Rightarrow> string) \<Rightarrow> pyval \<Rightarrow> string \<Rightarrow> string \<times> string" where
  "waiter_key repr aid mac = (py_str repr aid, canonical_mac_text mac)"

definition register_waiter :: "string \<times> string \<Rightarrow> server \<Rightarrow> server" where
  "register_waiter k s = s\<lparr>sv_waiters := dset k [] (sv_waiters s)\<rparr>"

definition unregister_waiter :: "string \<times> string \<Rightarrow> server \<Rightarrow> server" where
  "unregister_waiter k s = s\<lparr>sv_waiters := AList.delete k (sv_waiters s)\<rparr>"

text \<open>A waiter's queue holds one message.\<close>

definition notify_waiter :: "string \<times> string \<Rightarrow> pydict \<Rightarrow> server \<Rightarrow> server" where
  "notify_waiter k m s =
     (case map_of (sv_waiters s) k of Some [] \<Rightarrow> s\<lparr>sv_waiters := dset k [m] (sv_waiters s)\<rparr> | _ \<Rightarrow> s)"

definition client_id_of :: "string \<Rightarrow> server \<Rightarrow> string" where
  "client_id_of mac s =
     (case get_client_by_mac mac (PStr ''service'') s of Some (r, a) \<Rightarrow> ag_id a | None \<Rightarrow> client_id_for_mac mac)"

definition package_status :: "pydict \<Rightarrow> string" where
  "package_status m = (if dget m ''status'' = PStr ''SUCCESS'' then ''SUCCESS'' else ''FAILED'')"

text \<open>The id is looked up as it is; an id that is no text is not found.\<close>

definition store_package_result :: "int \<Rightarrow> string \<Rightarrow> pydict \<Rightarrow> center \<Rightarrow> center" where
  "store_package_result now cid m c =
     (case session_ok c of
        (False, c) \<Rightarrow> c
      | (True, c) \<Rightarrow>
          (case dget m ''action_id'' of
             PStr aid \<Rightarrow> c\<lparr>ce_db := update_target aid cid (finish_target now (package_status m) (PDict m)) (ce_db c)\<rparr>
           | _ \<Rightarrow> c))"

definition announce_progress :: "string \<Rightarrow> pydict \<Rightarrow> center \<Rightarrow> center" where
  "announce_progress cid m c =
     (case session_ok c of
        (False, c) \<Rightarrow> c
      | (True, c) \<Rightarrow>
          (let statuses = (case dget m ''action_id'' of PStr aid \<Rightarrow> map tg_status (action_targets aid (ce_db c)) | _ \<Rightarrow> [])
           in announce (''action_update'', [(''action_id'', dget m ''action_id''), (''client_id'', PStr cid), (''status'', PStr (package_status m)),
                 (''data'', PDict m), (''progress'', PDict (summarize_statuses statuses))]) c))"

definition handle_package_result :: "conf \<Rightarrow> int \<Rightarrow> string \<Rightarrow> pydict \<Rightarrow> server \<Rightarrow> bool \<times> server" where
  "handle_package_result cf now mac m s =
     (if \<not> truthy (dget m ''action_id'') then (False, s)
      else (let cid = client_id_of mac s;
                s = on_center (announce_progress cid m \<circ> store_package_result now cid m) s
            in (True, notify_waiter (waiter_key (cf_repr cf) (dget m ''action_id'') mac) m s)))"

section \<open>Telemetry\<close>

text \<open>The identity of the connection decides; \<open>kind\<close> is \<open>SYNC\<close> or \<open>SEED\<close>.\<close>

definition telemetry_sender :: "string \<Rightarrow> (nat \<times> agent) option \<Rightarrow> server \<Rightarrow> (nat \<times> agent) option" where
  "telemetry_sender mac sender s =
     (case sender of
        Some x \<Rightarrow> Some x
      | None \<Rightarrow> (case get_client_by_mac mac (PStr ''service'') s of
                   Some x \<Rightarrow> Some x
                 | None \<Rightarrow> get_client_by_mac mac (PStr ''interactive'') s))"

definition merge_outcome :: "string \<Rightarrow> pydict result \<Rightarrow> string + pydict" where
  "merge_outcome prefix_text r =
     (case r of
        Inr d \<Rightarrow> Inr d
      | Inl e \<Rightarrow> Inl (if exc_kind e = ValueError \<or> exc_kind e = RuntimeError then exc_msg e else prefix_text @ exc_msg e))"

definition telemetry_result ::
  "string \<Rightarrow> string \<Rightarrow> (pyval \<Rightarrow> tables \<Rightarrow> pydict result \<times> tables) \<Rightarrow> string \<Rightarrow> pyval \<Rightarrow> tables \<Rightarrow> (string + pydict) \<times> tables" where
  "telemetry_result invalid prefix_text merge cid payload t =
     (case payload of
        PDict d \<Rightarrow>
          if cid \<noteq> [] \<and> dget d ''client_id'' \<noteq> PStr cid
          then (Inl ''Payload client_id does not match the registered connection'', t)
          else (case merge payload t of (r, t') \<Rightarrow> (merge_outcome prefix_text r, t'))
      | _ \<Rightarrow> (Inl invalid, t))"

definition telemetry_ack :: "string \<Rightarrow> string \<Rightarrow> pydict \<Rightarrow> string \<Rightarrow> string + pydict \<Rightarrow> pydict" where
  "telemetry_ack kind invalid window cid r =
     [(''type'', PStr (kind @ (case r of Inr _ \<Rightarrow> ''_ACK'' | Inl _ \<Rightarrow> ''_NACK'')))] @ window
     @ [(''client_id'', PStr cid), (''status'', PStr (case r of Inr _ \<Rightarrow> ''ack'' | Inl _ \<Rightarrow> ''nack''))]
     @ (case r of Inr d \<Rightarrow> if d = [] then [] else [(''result'', PDict d)]
        | Inl reason \<Rightarrow> [(''reason'', PStr (if reason = [] then invalid else reason))])"

definition handle_telemetry ::
  "string \<Rightarrow> string \<Rightarrow> string \<Rightarrow> (pyval \<Rightarrow> tables \<Rightarrow> pydict result \<times> tables) \<Rightarrow> (pyval \<Rightarrow> pydict)
     \<Rightarrow> string \<Rightarrow> pyval \<Rightarrow> (nat \<times> agent) option \<Rightarrow> server \<Rightarrow> bool \<times> server" where
  "handle_telemetry kind invalid prefix_text merge window mac payload sender s =
     (let client = telemetry_sender mac sender s;
          cid = (case client of Some (r, a) \<Rightarrow> ag_id a | None \<Rightarrow> client_id_for_mac mac);
          (r, t) = telemetry_result invalid prefix_text merge cid payload (sv_tables s);
          s = s\<lparr>sv_tables := t\<rparr>;
          valid = (case r of Inr _ \<Rightarrow> True | Inl _ \<Rightarrow> False)
      in case client of
           None \<Rightarrow> (valid, s)
         | Some (_, a) \<Rightarrow>
             (case post (ag_conn a) (telemetry_ack kind invalid (window payload) cid r) s of
                (Inl e, s) \<Rightarrow> (False, s)
              | (Inr _, s) \<Rightarrow> (valid, s)))"

definition payload_window :: "pyval \<Rightarrow> pydict" where
  "payload_window payload = [(''window_id'', case payload of PDict d \<Rightarrow> dget d ''window_id'' | _ \<Rightarrow> PNone)]"

definition handle_telemetry_sync :: "conf \<Rightarrow> string \<Rightarrow> pyval \<Rightarrow> (nat \<times> agent) option \<Rightarrow> server \<Rightarrow> bool \<times> server" where
  "handle_telemetry_sync cf =
     handle_telemetry ''SYNC'' ''Invalid telemetry sync payload'' ''Telemetry merge failed: '' (merge_telemetry_delta (cf_fault cf)) payload_window"

definition handle_telemetry_seed :: "conf \<Rightarrow> string \<Rightarrow> pyval \<Rightarrow> (nat \<times> agent) option \<Rightarrow> server \<Rightarrow> bool \<times> server" where
  "handle_telemetry_seed cf =
     handle_telemetry ''SEED'' ''Invalid telemetry seed payload'' ''Telemetry seed merge failed: '' (merge_telemetry_seed (cf_fault cf)) (\<lambda>_. [])"

section \<open>Heartbeats and requests\<close>

definition set_version :: "string \<Rightarrow> pyval \<Rightarrow> database \<Rightarrow> database" where
  "set_version cid v d = d\<lparr>db_clients := map (\<lambda>r. if cl_id r = cid then r\<lparr>cl_version := v\<rparr> else r) (db_clients d)\<rparr>"

definition persist_heartbeat :: "string \<Rightarrow> pyval \<Rightarrow> server \<Rightarrow> bool \<times> server" where
  "persist_heartbeat mac payload s =
     (let client = get_client_by_mac mac (PStr ''service'') s;
          cid = client_id_of mac s;
          version = (case payload of PDict d \<Rightarrow> dget d ''client_version'' | _ \<Rightarrow> PNone)
      in case session_ok (sv_center s) of
           (False, c) \<Rightarrow> (False, s\<lparr>sv_center := c\<rparr>)
         | (True, c) \<Rightarrow>
             if \<not> fits 64 version then (False, s\<lparr>sv_center := c\<rparr>)
             else (True, (case client of None \<Rightarrow> id | Some (r, a) \<Rightarrow> put_agent r (a\<lparr>ag_version := version\<rparr>))
                           (s\<lparr>sv_center := c\<lparr>ce_db := set_version cid version (ce_db c)\<rparr>\<rparr>)))"

definition policy_row :: "forbidden_row \<Rightarrow> pyval" where
  "policy_row f =
     PDict [(''process_name'', PStr (fp_name f)), (''severity'', PStr (fp_severity f)), (''description'', opt_str (fp_description f)),
            (''terminate_on_detection'', PBool (fp_terminate f)), (''resource_protection_eligible'', PBool (fp_eligible f))]"

definition policy_message :: "forbidden_row list \<Rightarrow> pydict" where
  "policy_message rows = [(''type'', PStr ''FORBIDDEN_PROCESSES''), (''data'', PList (map policy_row rows))]"

definition answer_request :: "conf \<Rightarrow> pyval \<Rightarrow> nat \<Rightarrow> server \<Rightarrow> unit result \<times> server" where
  "answer_request cf command conn s =
     (if command = PStr ''GET_FORBIDDEN_PROCESSES''
      then (case get_forbidden_processes (sv_center s) of (rows, c) \<Rightarrow> post conn (policy_message rows) (s\<lparr>sv_center := c\<rparr>))
      else if command = PStr ''GET_RESOURCE_PROTECTION''
      then post conn [(''type'', PStr ''RESOURCE_PROTECTION_CONFIG''), (''data'', cf_protection cf (sv_center s))] s
      else (Inr (), s))"

text \<open>The policy goes to every connected client; a connection that is gone is counted.\<close>

definition push_to_clients :: "pydict \<Rightarrow> server \<Rightarrow> (int \<times> int) \<times> server" where
  "push_to_clients m s =
     fold (\<lambda>(mac, r) ((ok, bad), s).
         case sv_agents s r of
           None \<Rightarrow> ((ok, bad), s)
         | Some a \<Rightarrow> (case post (ag_conn a) m s of (Inl e, s) \<Rightarrow> ((ok, bad + 1), s) | (Inr _, s) \<Rightarrow> ((ok + 1, bad), s)))
       (sv_clients s) ((0, 0), s)"

definition broadcast_forbidden_processes :: "server \<Rightarrow> (int \<times> int) \<times> server" where
  "broadcast_forbidden_processes s =
     (case get_forbidden_processes (sv_center s) of (rows, c) \<Rightarrow> push_to_clients (policy_message rows) (s\<lparr>sv_center := c\<rparr>))"

section \<open>The reader of a connection\<close>

definition handle_response :: "string \<Rightarrow> nat \<Rightarrow> pyval \<Rightarrow> pydict \<Rightarrow> server \<Rightarrow> server" where
  "handle_response mac conn role m s =
     (case get_client_by_mac mac role s of
        None \<Rightarrow> s
      | Some (r, a) \<Rightarrow> if ag_conn a = conn then put_response (ag_queue a) m s else s)"

definition handle_message :: "conf \<Rightarrow> int \<Rightarrow> string \<Rightarrow> nat \<Rightarrow> pyval \<Rightarrow> pyval \<Rightarrow> server \<Rightarrow> unit result \<times> server" where
  "handle_message cf now mac conn role message s =
     (case message of
        PDict m \<Rightarrow>
          (let kind = dget m ''type'' in
           if kind = PStr ''ALERT'' then
             (case handle_client_alert (cf_repr cf) now mac (dget m ''alert'') (sv_center s) of
                (Inl e, c) \<Rightarrow> (Inl e, s\<lparr>sv_center := c\<rparr>)
              | (Inr _, c) \<Rightarrow> (Inr (), s\<lparr>sv_center := c\<rparr>))
           else if kind = PStr ''NETWORK_NEIGHBOURS'' then (Inr (), on_center (cf_report cf mac (dget m ''data'')) s)
           else if kind = PStr ''TELEMETRY_SYNC'' then (Inr (), snd (handle_telemetry_sync cf mac (dget m ''data'') (get_client_by_mac mac role s) s))
           else if kind = PStr ''TELEMETRY_SEED'' then (Inr (), snd (handle_telemetry_seed cf mac (dget m ''data'') (get_client_by_mac mac role s) s))
           else if kind = PStr ''PACKAGE_RESULT'' then (Inr (), snd (handle_package_result cf now mac m s))
           else if kind = PStr ''HEARTBEAT'' then (Inr (), snd (persist_heartbeat mac (py_or (dget m ''data'') (PDict [])) s))
           else if kind = PStr ''REQUEST'' then answer_request cf (dget m ''command'') conn s
           else if kind = PStr ''RESPONSE'' then (Inr (), handle_response mac conn role m s)
           else (Inr (), s))
      | _ \<Rightarrow> (Inr (), s))"

text \<open>One message of the loop; whatever ends the loop removes the client.\<close>

definition reader_step :: "conf \<Rightarrow> int \<Rightarrow> string \<Rightarrow> nat \<Rightarrow> pyval \<Rightarrow> pyval \<Rightarrow> server \<Rightarrow> server" where
  "reader_step cf now mac conn role message s =
     (case handle_message cf now mac conn role message s of
        (Inr _, s) \<Rightarrow> s
      | (Inl _, s) \<Rightarrow> remove_client (cf_repr cf) now mac (Some conn) role s)"

datatype occurrence =
    Happens happening
  | Arrives int string nat pyval pyval
  | Ends int string nat pyval
  | Breaks nat

definition occur :: "conf \<Rightarrow> occurrence \<Rightarrow> server \<Rightarrow> server" where
  "occur cf e s =
     (case e of
        Happens h \<Rightarrow> registry_step (cf_repr cf) h s
      | Arrives now mac conn role message \<Rightarrow> reader_step cf now mac conn role message s
      | Ends now mac conn role \<Rightarrow> remove_client (cf_repr cf) now mac (Some conn) role s
      | Breaks conn \<Rightarrow> s\<lparr>sv_closed := sv_closed s @ [conn]\<rparr>)"

section \<open>Commands\<close>

definition error_dict :: "string \<Rightarrow> pydict" where
  "error_dict msg = [(''status'', PStr ''error''), (''message'', PStr msg)]"

definition queue_at :: "nat \<Rightarrow> nat \<Rightarrow> server \<Rightarrow> nat" where
  "queue_at r q s = (case sv_agents s r of None \<Rightarrow> q | Some a \<Rightarrow> ag_queue a)"

definition pop_response :: "nat \<Rightarrow> server \<Rightarrow> server" where
  "pop_response q s = s\<lparr>sv_queues := (sv_queues s)(q := tl (sv_queues s q))\<rparr>"

text \<open>
  The loop that waits on the queue \<open>q\<close> for the answer to a command of the agent \<open>r\<close>: other answers are thrown away, after
  which the agent's queue is looked up again.
\<close>

function await :: "conf \<Rightarrow> string \<Rightarrow> string \<Rightarrow> nat \<Rightarrow> nat \<Rightarrow> occurrence list \<Rightarrow> server \<Rightarrow> (string + pydict) \<times> server" where
  "await cf timeout command r q es s =
     (case sv_queues s q of
        m # ms \<Rightarrow>
          (let s = pop_response q s in
           if dget m ''type'' = PStr ''DISCONNECTED'' then (Inl ''Client disconnected while waiting for command response.'', s)
           else if dget m ''command'' \<noteq> PStr command then await cf timeout command r (queue_at r q s) es s
           else (Inr m, s))
      | [] \<Rightarrow>
          (case es of
             [] \<Rightarrow> (Inl (''Command '' @ quoted command @ '' timed out after '' @ timeout @ ''s.''), s)
           | e # es \<Rightarrow> await cf timeout command r q es (occur cf e s)))"
  by pat_completeness auto
termination
  by (relation "measures [\<lambda>(cf, timeout, command, r, q, es, s). length es,
      \<lambda>(cf, timeout, command, r, q, es, s).
        if queue_at r q s = q then length (sv_queues s q) else length (sv_queues s q) + length (sv_queues s (queue_at r q s))]")
    (auto simp: queue_at_def pop_response_def split: option.splits)

declare await.simps [simp del]

definition command_message :: "string \<Rightarrow> pyval option \<Rightarrow> pydict" where
  "command_message command args =
     [(''type'', PStr ''COMMAND''), (''command'', PStr command)] @ (case args of None \<Rightarrow> [] | Some v \<Rightarrow> [(''args'', v)])"

definition expect_disconnect :: "nat \<Rightarrow> agent \<Rightarrow> server \<Rightarrow> server" where
  "expect_disconnect r a s =
     (if map_of (sv_clients s) (ag_mac a) = Some r then put_agent r (a\<lparr>ag_expected := True\<rparr>) s else s)"

text \<open>What follows an answer: activity logs and, for older clients, scan results are processed.\<close>

definition is_scan :: "string \<Rightarrow> bool" where
  "is_scan command \<longleftrightarrow> command = ''SCAN_NETWORK'' \<or> command = ''TRIGGER_ARP_SCAN''"

definition scan_devices :: "pyval \<Rightarrow> pyval option" where
  "scan_devices data =
     (case data of
        PDict d \<Rightarrow> if dget d ''status'' = PStr ''ok'' \<and> truthy (dget d ''devices'') then Some (dget d ''devices'') else None
      | _ \<Rightarrow> None)"

definition after_answer :: "conf \<Rightarrow> bool \<Rightarrow> string \<Rightarrow> string \<Rightarrow> pydict \<Rightarrow> server \<Rightarrow> server" where
  "after_answer cf process_scan command mac m s =
     (let response = dget m ''type'' = PStr ''RESPONSE'';
          s = (if command = ''GET_ACTIVITY_LOG'' \<and> response then on_center (cf_activity_log cf mac (dget_or m ''data'' (PDict []))) s else s)
      in if process_scan \<and> is_scan command \<and> response
         then (case scan_devices (dget_or m ''data'' (PDict [])) of None \<Rightarrow> s | Some devs \<Rightarrow> on_center (cf_scan cf mac devs) s) else s)"

definition execute_client_command ::
  "conf \<Rightarrow> int \<Rightarrow> string \<Rightarrow> bool \<Rightarrow> string \<Rightarrow> string \<Rightarrow> string \<Rightarrow> pyval option \<Rightarrow> occurrence list \<Rightarrow> server \<Rightarrow> pydict \<times> server" where
  "execute_client_command cf now timeout process_scan role cid command args es s =
     (case (if role = ''interactive'' then get_interactive_client cid s else get_client cid s) of
        None \<Rightarrow> (error_dict (''Client '' @ quoted cid @ '' is not connected.''), s)
      | Some (r, a) \<Rightarrow>
          (let s = (if command = ''DISCONNECT'' then expect_disconnect r a s else s)
           in case post (ag_conn a) (command_message command args) s of
                (Inl e, s) \<Rightarrow>
                  (error_dict (''Connection lost: '' @ exc_msg e), remove_client (cf_repr cf) now (ag_mac a) (Some (ag_conn a)) (PStr role) s)
              | (Inr _, s) \<Rightarrow>
                  (case await cf timeout command r (queue_at r (ag_queue a) s) es s of
                     (Inl msg, s) \<Rightarrow> (error_dict msg, s)
                   | (Inr m, s) \<Rightarrow>
                       ([(''status'', PStr ''ok''), (''command'', PStr command), (''data'', dget m ''data''), (''raw'', PDict m),
                         (''client_id'', PStr cid)],
                        after_answer cf process_scan command (ag_mac a) m s))))"

section \<open>Isolation and quarantine\<close>

definition is_ok_dict :: "pydict \<Rightarrow> bool" where
  "is_ok_dict d \<longleftrightarrow> dget d ''status'' = PStr ''ok''"

definition message_of :: "pydict \<Rightarrow> string \<Rightarrow> string" where
  "message_of d def_text = (case dget d ''message'' of PStr m \<Rightarrow> m | _ \<Rightarrow> def_text)"

definition unexpect :: "nat \<Rightarrow> string \<Rightarrow> server \<Rightarrow> server" where
  "unexpect r mac s =
     (case sv_agents s r of
        None \<Rightarrow> s
      | Some a \<Rightarrow> if map_of (sv_clients s) mac = Some r then put_agent r (a\<lparr>ag_expected := False, ag_reason := None\<rparr>) s else s)"

definition isolate_client :: "conf \<Rightarrow> int \<Rightarrow> string \<Rightarrow> string \<Rightarrow> string \<Rightarrow> occurrence list \<Rightarrow> server \<Rightarrow> pydict \<times> server" where
  "isolate_client cf now timeout cid reason es s =
     (let absent = error_dict (''Client '' @ quoted cid @ '' is not connected.'') in
      case get_client cid s of
        None \<Rightarrow> (absent, s)
      | Some (r, a) \<Rightarrow>
          if map_of (sv_clients s) (ag_mac a) \<noteq> Some r then (absent, s)
          else (let stamp = PStr (isoformat_utc now);
                    s = put_agent r (a\<lparr>ag_expected := True, ag_reason := Some ''DEVICE_ISOLATION''\<rparr>) s;
                    s = s\<lparr>sv_isolation := dset cid [(''status'', PStr ''SENT''), (''reason'', PStr reason), (''sent_at'', stamp),
                          (''updated_at'', stamp)] (sv_isolation s)\<rparr>;
                    (result, s) = execute_client_command cf now timeout True ''service'' cid ''ISOLATE_DEVICE''
                        (Some (PDict [(''reason'', PStr reason)])) es s;
                    msg = message_of result ''Device isolation command failed.''
                in if is_ok_dict result
                   then (dset ''isolation_status'' (PStr ''ACKNOWLEDGED'') result,
                         set_isolation cid [(''status'', PStr ''ACKNOWLEDGED''), (''updated_at'', stamp)] s)
                   else if contains ''disconnected'' (lower msg) \<or> contains ''connection lost'' (lower msg)
                   then ([(''status'', PStr ''ok''), (''client_id'', PStr cid), (''isolation_status'', PStr ''CONNECTION_LOST_AFTER_ISOLATION''),
                          (''message'', PStr ''Isolation command was sent and the client disconnected as expected.'')],
                         set_isolation cid (lost_status now) s)
                   else (result, set_isolation cid [(''status'', PStr ''FAILED''), (''message'', PStr msg), (''updated_at'', stamp)]
                                   (unexpect r (ag_mac a) s))))"

definition get_device_isolation_status :: "string \<Rightarrow> server \<Rightarrow> pydict" where
  "get_device_isolation_status cid s =
     [(''status'', PStr ''ok''),
      (''data'', PDict (case map_of (sv_isolation s) cid of
           Some d \<Rightarrow> if d \<noteq> [] then d else [(''status'', PStr ''NOT_REQUESTED''), (''client_connected'', PBool (get_client cid s \<noteq> None))]
         | None \<Rightarrow> [(''status'', PStr ''NOT_REQUESTED''), (''client_connected'', PBool (get_client cid s \<noteq> None))]))]"

text \<open>\<open>cmd\<close> is the number of the command, made of the time.\<close>

definition quarantine_client :: "conf \<Rightarrow> int \<Rightarrow> string \<Rightarrow> string \<Rightarrow> string \<Rightarrow> string \<Rightarrow> int \<Rightarrow> occurrence list \<Rightarrow> server \<Rightarrow> pydict \<times> server" where
  "quarantine_client cf now timeout cmd cid reason minutes es s =
     (case execute_client_command cf now timeout True ''service'' cid ''QUARANTINE_CLIENT''
             (Some (PDict [(''reason'', PStr reason), (''duration_minutes'', PInt minutes), (''command_id'', PStr cmd)])) es s of
        (result, s) \<Rightarrow>
          (result,
           if is_ok_dict result
           then s\<lparr>sv_quarantine := dset cid [(''status'', PStr ''QUARANTINED''), (''reason'', PStr reason), (''command_id'', PStr cmd),
                    (''updated_at'', PStr (isoformat_utc now))] (sv_quarantine s)\<rparr>
           else s))"

definition release_client_quarantine :: "conf \<Rightarrow> int \<Rightarrow> string \<Rightarrow> string \<Rightarrow> string \<Rightarrow> string \<Rightarrow> occurrence list \<Rightarrow> server \<Rightarrow> pydict \<times> server" where
  "release_client_quarantine cf now timeout cmd cid reason es s =
     (case execute_client_command cf now timeout True ''service'' cid ''RELEASE_CLIENT''
             (Some (PDict [(''reason'', PStr reason), (''command_id'', PStr cmd)])) es s of
        (result, s) \<Rightarrow>
          (result, if is_ok_dict result then s\<lparr>sv_quarantine := AList.delete cid (sv_quarantine s)\<rparr> else s))"

definition get_client_quarantine_status :: "conf \<Rightarrow> int \<Rightarrow> string \<Rightarrow> string \<Rightarrow> occurrence list \<Rightarrow> server \<Rightarrow> pydict \<times> server" where
  "get_client_quarantine_status cf now timeout cid es s =
     (case map_of (sv_quarantine s) cid of
        Some tracked \<Rightarrow>
          if tracked \<noteq> [] then ([(''status'', PStr ''ok''), (''data'', PDict (dset ''is_quarantined'' (PBool True) tracked))], s)
          else execute_client_command cf now timeout True ''service'' cid ''GET_QUARANTINE_STATUS'' None es s
      | None \<Rightarrow> execute_client_command cf now timeout True ''service'' cid ''GET_QUARANTINE_STATUS'' None es s)"

section \<open>Requests for data of a client\<close>

definition request_error :: "string \<Rightarrow> string \<Rightarrow> string \<Rightarrow> pydict" where
  "request_error st cid msg = [(''status'', PStr st), (''client_id'', PStr cid), (''message'', PStr msg)]"

definition request_failure :: "string \<Rightarrow> rat \<Rightarrow> string \<Rightarrow> pydict \<Rightarrow> pydict" where
  "request_failure cid seconds def_text result =
     (let msg = message_of result def_text in
      if contains ''timed out'' (lower msg)
      then [(''status'', PStr ''client_timeout''), (''client_id'', PStr cid), (''timeout_seconds'', PFloat seconds), (''message'', PStr msg)]
      else request_error (if contains ''not connected'' (lower msg) then ''client_unavailable'' else ''client_error'') cid msg)"

definition neighbourhood_reply :: "string \<Rightarrow> rat \<Rightarrow> pydict \<Rightarrow> pydict" where
  "neighbourhood_reply cid seconds result =
     (if \<not> is_ok_dict result then request_failure cid seconds ''Client neighbourhood request failed.'' result
      else (case dget result ''data'' of
              PDict d \<Rightarrow>
                if dget d ''status'' = PStr ''ok''
                then [(''status'', PStr ''completed''), (''client_id'', PStr cid), (''observations_sent'', dget_or d ''observations_sent'' (PInt 0)),
                      (''timeout_seconds'', PFloat seconds)]
                else [(''status'', PStr ''client_error''), (''client_id'', PStr cid),
                      (''message'', py_or (dget d ''message'') (PStr ''Client could not provide its stored neighbourhood.''))]
            | _ \<Rightarrow> request_error ''client_error'' cid ''Client could not provide its stored neighbourhood.''))"

definition flows_reply :: "string \<Rightarrow> rat \<Rightarrow> pyval \<Rightarrow> pydict \<Rightarrow> pydict" where
  "flows_reply cid seconds window result =
     (if \<not> is_ok_dict result then request_failure cid seconds ''Client flow query failed.'' result
      else (case dget result ''data'' of
              PDict d \<Rightarrow>
                (case dget d ''flows'' of
                   PList flows \<Rightarrow>
                     if dget d ''status'' = PStr ''ok'' \<and> dget d ''window_id'' = window
                     then [(''status'', PStr ''completed''), (''client_id'', PStr cid), (''device_mac'', dget d ''device_mac''), (''window_id'', window),
                           (''flows'', PList flows), (''flow_count'', PInt (ilen flows)), (''timeout_seconds'', PFloat seconds)]
                     else request_error ''client_error'' cid ''Client returned an invalid flow response.''
                 | _ \<Rightarrow> request_error ''client_error'' cid ''Client returned an invalid flow response.'')
            | _ \<Rightarrow> request_error ''client_error'' cid ''Client returned an invalid flow response.''))"

definition request_client_network_neighbourhood :: "conf \<Rightarrow> int \<Rightarrow> string \<Rightarrow> rat \<Rightarrow> string \<Rightarrow> occurrence list \<Rightarrow> server \<Rightarrow> pydict \<times> server" where
  "request_client_network_neighbourhood cf now timeout seconds cid es s =
     (case execute_client_command cf now timeout False ''service'' cid ''GET_NETWORK_NEIGHBOURHOOD'' None es s of
        (result, s) \<Rightarrow> (neighbourhood_reply cid seconds result, s))"

definition request_client_telemetry_flows ::
  "conf \<Rightarrow> int \<Rightarrow> string \<Rightarrow> rat \<Rightarrow> string \<Rightarrow> pyval \<Rightarrow> pyval \<Rightarrow> occurrence list \<Rightarrow> server \<Rightarrow> pydict \<times> server" where
  "request_client_telemetry_flows cf now timeout seconds cid device window es s =
     (case execute_client_command cf now timeout False ''service'' cid ''GET_TELEMETRY_FLOWS''
             (Some (PDict [(''device_mac'', device), (''window'', window)])) es s of
        (result, s) \<Rightarrow> (flows_reply cid seconds window result, s))"

section \<open>Objects and queues stay apart\<close>

definition refs_good :: "server \<Rightarrow> bool" where
  "refs_good s \<longleftrightarrow>
     (\<forall>mac r. map_of (sv_clients s) mac = Some r \<or> map_of (sv_interactive s) mac = Some r \<longrightarrow>
        (\<exists>a. sv_agents s r = Some a \<and> ag_mac a = mac \<and> ag_id a = client_id_for_mac mac)) \<and>
     (\<forall>r a. sv_agents s r = Some a \<longrightarrow> r < sv_fresh s \<and> ag_queue a < sv_fresh s) \<and>
     (\<forall>r a r' a'. sv_agents s r = Some a \<and> sv_agents s r' = Some a' \<and> ag_queue a = ag_queue a' \<longrightarrow> r = r')"

lemma refs_goodD:
  assumes "refs_good s"
  shows "map_of (sv_clients s) mac = Some r \<Longrightarrow> \<exists>a. sv_agents s r = Some a \<and> ag_mac a = mac \<and> ag_id a = client_id_for_mac mac"
    "map_of (sv_interactive s) mac = Some r \<Longrightarrow> \<exists>a. sv_agents s r = Some a \<and> ag_mac a = mac \<and> ag_id a = client_id_for_mac mac"
    "sv_agents s r = Some a \<Longrightarrow> r < sv_fresh s \<and> ag_queue a < sv_fresh s"
    "sv_agents s r = Some a \<Longrightarrow> sv_agents s r' = Some a' \<Longrightarrow> ag_queue a = ag_queue a' \<Longrightarrow> r = r'"
  using assms unfolding refs_good_def by blast+

text \<open>What an occurrence may do to the objects: their address, id and queue change only by a registration.\<close>

definition agent_keys :: "server \<Rightarrow> nat \<Rightarrow> (string \<times> string \<times> nat) option" where
  "agent_keys s r = map_option (\<lambda>a. (ag_mac a, ag_id a, ag_queue a)) (sv_agents s r)"

definition same_refs :: "server \<Rightarrow> server \<Rightarrow> bool" where
  "same_refs s s' \<longleftrightarrow>
     sv_fresh s \<le> sv_fresh s' \<and> agent_keys s' = agent_keys s \<and>
     map_of (sv_clients s') \<subseteq>\<^sub>m map_of (sv_clients s) \<and> map_of (sv_interactive s') \<subseteq>\<^sub>m map_of (sv_interactive s)"

lemma agent_keysI: "sv_agents s' = sv_agents s \<Longrightarrow> agent_keys s' = agent_keys s"
  by (simp add: agent_keys_def fun_eq_iff)

lemma same_refs_refl: "same_refs s s"
  by (simp add: same_refs_def)

lemma same_refs_trans: "same_refs s t \<Longrightarrow> same_refs t u \<Longrightarrow> same_refs s u"
  unfolding same_refs_def by (auto intro: map_le_trans)

lemma agent_keys_Some: "agent_keys s r = Some k \<longleftrightarrow> (\<exists>a. sv_agents s r = Some a \<and> k = (ag_mac a, ag_id a, ag_queue a))"
  by (auto simp: agent_keys_def)

lemma same_refs_agent:
  assumes "same_refs s s'" "sv_agents s' r = Some a'"
  shows "\<exists>a. sv_agents s r = Some a \<and> ag_mac a = ag_mac a' \<and> ag_id a = ag_id a' \<and> ag_queue a = ag_queue a'"
proof -
  have "agent_keys s r = agent_keys s' r" using assms(1) by (simp add: same_refs_def)
  then have "agent_keys s r = Some (ag_mac a', ag_id a', ag_queue a')" using assms(2) by (simp add: agent_keys_def)
  then show ?thesis by (auto simp: agent_keys_Some)
qed

lemma same_refs_agent_back:
  assumes "same_refs s s'" "sv_agents s r = Some a"
  shows "\<exists>a'. sv_agents s' r = Some a' \<and> ag_mac a' = ag_mac a \<and> ag_id a' = ag_id a \<and> ag_queue a' = ag_queue a"
proof -
  have "agent_keys s' r = Some (ag_mac a, ag_id a, ag_queue a)"
    using assms by (simp add: same_refs_def agent_keys_def)
  then show ?thesis by (auto simp: agent_keys_Some)
qed

lemma same_refs_registries:
  assumes "same_refs s s'"
  shows "map_of (sv_clients s') mac = Some r \<Longrightarrow> map_of (sv_clients s) mac = Some r"
    "map_of (sv_interactive s') mac = Some r \<Longrightarrow> map_of (sv_interactive s) mac = Some r"
  using assms by (auto simp: same_refs_def map_le_def dom_def)

lemma refs_good_same:
  assumes "refs_good s" "same_refs s s'"
  shows "refs_good s'"
proof -
  note old = refs_goodD [OF assms(1)]
  have "\<exists>a. sv_agents s' r = Some a \<and> ag_mac a = mac \<and> ag_id a = client_id_for_mac mac"
    if "map_of (sv_clients s') mac = Some r \<or> map_of (sv_interactive s') mac = Some r" for mac r
  proof -
    have "map_of (sv_clients s) mac = Some r \<or> map_of (sv_interactive s) mac = Some r"
      using same_refs_registries [OF assms(2)] that by blast
    then obtain a where a: "sv_agents s r = Some a" "ag_mac a = mac" "ag_id a = client_id_for_mac mac" using old(1,2) by blast
    from same_refs_agent_back [OF assms(2) a(1)] a(2,3) show ?thesis by auto
  qed
  moreover have "r < sv_fresh s' \<and> ag_queue a < sv_fresh s'" if live: "sv_agents s' r = Some a" for r a
  proof -
    obtain b where "sv_agents s r = Some b" "ag_queue b = ag_queue a" using same_refs_agent [OF assms(2) live] by auto
    with old(3) [of r b] have "r < sv_fresh s" "ag_queue a < sv_fresh s" by auto
    moreover have "sv_fresh s \<le> sv_fresh s'" using assms(2) by (simp add: same_refs_def)
    ultimately show ?thesis by simp
  qed
  moreover have "r = r'" if live: "sv_agents s' r = Some a" "sv_agents s' r' = Some a'" "ag_queue a = ag_queue a'" for r a r' a'
  proof -
    obtain b b' where "sv_agents s r = Some b" "ag_queue b = ag_queue a" "sv_agents s r' = Some b'" "ag_queue b' = ag_queue a'"
      using same_refs_agent [OF assms(2) live(1)] same_refs_agent [OF assms(2) live(2)] by blast
    with live(3) show ?thesis by (intro old(4) [of r b r' b']) simp_all
  qed
  ultimately show ?thesis unfolding refs_good_def by blast
qed

lemma same_refsI:
  "sv_agents s' = sv_agents s \<Longrightarrow> sv_clients s' = sv_clients s \<Longrightarrow> sv_interactive s' = sv_interactive s \<Longrightarrow> sv_fresh s \<le> sv_fresh s' \<Longrightarrow> same_refs s s'"
  unfolding same_refs_def by (auto intro: agent_keysI)

text \<open>The messages a client sends as answers.\<close>

definition DISC :: pydict where "DISC = [(''type'', PStr ''DISCONNECTED'')]"

definition answer_from :: "occurrence \<Rightarrow> string \<Rightarrow> pydict \<Rightarrow> bool" where
  "answer_from e mac m \<longleftrightarrow> (\<exists>now conn role. e = Arrives now mac conn role (PDict m)) \<and> dget m ''type'' = PStr ''RESPONSE''"

definition queue_effect :: "occurrence \<Rightarrow> server \<Rightarrow> server \<Rightarrow> bool" where
  "queue_effect e s s' \<longleftrightarrow>
     (\<forall>q. sv_queues s' q = sv_queues s q \<or> sv_queues s' q = sv_queues s q @ [DISC] \<or>
        (\<exists>m r a. sv_agents s r = Some a \<and> ag_queue a = q \<and> answer_from e (ag_mac a) m \<and> sv_queues s' q = sv_queues s q @ [m]))"

lemma remove_refs:
  "same_refs s (remove_client repr now mac connection role s) \<and>
   (\<forall>q. sv_queues (remove_client repr now mac connection role s) q = sv_queues s q \<or>
        sv_queues (remove_client repr now mac connection role s) q = sv_queues s q @ [DISC])"
  by (auto simp: remove_client_def Let_def same_refs_def drop_entry_def set_isolation_def start_check_def put_response_def DISC_def
      map_le_def intro!: agent_keysI split: option.splits)

lemma post_frame:
  "post conn m s = (r, s') \<Longrightarrow> sv_agents s' = sv_agents s \<and> sv_clients s' = sv_clients s \<and> sv_interactive s' = sv_interactive s \<and>
     sv_fresh s' = sv_fresh s \<and> sv_queues s' = sv_queues s \<and> sv_tables s' = sv_tables s \<and> sv_checks s' = sv_checks s \<and>
     sv_isolation s' = sv_isolation s \<and> sv_pending s' = sv_pending s"
  by (auto simp: post_def split: if_splits)

lemma telemetry_frame:
  "handle_telemetry kind invalid pre merge window mac payload sender s = (b, s') \<Longrightarrow>
     sv_agents s' = sv_agents s \<and> sv_clients s' = sv_clients s \<and> sv_interactive s' = sv_interactive s \<and> sv_fresh s' = sv_fresh s \<and>
     sv_queues s' = sv_queues s"
  by (auto simp: handle_telemetry_def Let_def dest!: post_frame split: prod.splits option.splits sum.splits)

lemma package_result_frame:
  "handle_package_result cf now mac m s = (b, s') \<Longrightarrow>
     sv_agents s' = sv_agents s \<and> sv_clients s' = sv_clients s \<and> sv_interactive s' = sv_interactive s \<and> sv_fresh s' = sv_fresh s \<and>
     sv_queues s' = sv_queues s \<and> sv_tables s' = sv_tables s"
  by (auto simp: handle_package_result_def Let_def on_center_def notify_waiter_def split: if_splits option.splits list.splits)

lemma heartbeat_refs:
  "persist_heartbeat mac payload s = (b, s') \<Longrightarrow> same_refs s s' \<and> sv_queues s' = sv_queues s \<and> sv_tables s' = sv_tables s"
  by (auto simp: persist_heartbeat_def Let_def same_refs_def agent_keys_def fun_eq_iff put_agent_def get_client_by_mac_def agent_at_def
      split: prod.splits bool.splits option.splits if_splits)

lemma answer_request_frame:
  "answer_request cf command conn s = (r, s') \<Longrightarrow>
     sv_agents s' = sv_agents s \<and> sv_clients s' = sv_clients s \<and> sv_interactive s' = sv_interactive s \<and> sv_fresh s' = sv_fresh s \<and>
     sv_queues s' = sv_queues s \<and> sv_tables s' = sv_tables s"
  by (auto simp: answer_request_def dest!: post_frame split: if_splits prod.splits)

text \<open>Every occurrence but a registration leaves the objects alone and appends to queues as its kind allows.\<close>

lemma queue_effectI: "sv_queues s' = sv_queues s \<Longrightarrow> queue_effect e s s'"
  by (simp add: queue_effect_def)

lemma remove_effect: "sv_queues s0 = sv_queues s \<Longrightarrow> queue_effect e s (remove_client repr now mac connection role s0)"
  using remove_refs [of s0 repr now mac connection role] unfolding queue_effect_def by simp blast

lemma handle_response_effect:
  assumes "refs_good s" "dget m ''type'' = PStr ''RESPONSE''"
  shows "same_refs s (handle_response mac conn role m s) \<and>
    queue_effect (Arrives now mac conn role (PDict m)) s (handle_response mac conn role m s)"
proof (cases "get_client_by_mac mac role s")
  case None
  then show ?thesis by (simp add: handle_response_def same_refs_refl queue_effectI)
next
  case (Some x)
  obtain r a where x: "x = (r, a)" by (cases x)
  from Some x have r: "map_of (registry_of role s) mac = Some r" "sv_agents s r = Some a"
    by (auto simp: get_client_by_mac_def agent_at_def split: option.splits)
  then have "ag_mac a = mac" using refs_goodD(1,2) [OF assms(1), of mac r] by (auto simp: registry_of_def split: if_splits)
  then have "queue_effect (Arrives now mac conn role (PDict m)) s (put_response (ag_queue a) m s)"
    using r(2) assms(2) by (fastforce simp: queue_effect_def put_response_def answer_from_def)
  moreover have "same_refs s (put_response (ag_queue a) m s)" by (rule same_refsI) (simp_all add: put_response_def)
  ultimately show ?thesis
    using Some x by (simp add: handle_response_def same_refs_refl queue_effectI)
qed

lemma handle_message_effect:
  assumes "refs_good s" "handle_message cf now mac conn role message s = (r, s')"
  shows "same_refs s s' \<and> (case r of Inl e \<Rightarrow> sv_queues s' = sv_queues s | Inr _ \<Rightarrow> queue_effect (Arrives now mac conn role message) s s')"
proof (cases message)
  case (PDict m)
  have quiet: ?thesis if "sv_agents s' = sv_agents s" "sv_clients s' = sv_clients s" "sv_interactive s' = sv_interactive s"
      "sv_fresh s' = sv_fresh s" "sv_queues s' = sv_queues s"
    using that by (auto simp: same_refsI queue_effectI split: sum.split)
  consider (alert) "dget m ''type'' = PStr ''ALERT''" | (report) "dget m ''type'' = PStr ''NETWORK_NEIGHBOURS''"
    | (telemetry) "dget m ''type'' = PStr ''TELEMETRY_SYNC'' \<or> dget m ''type'' = PStr ''TELEMETRY_SEED''"
    | (package) "dget m ''type'' = PStr ''PACKAGE_RESULT''" | (heartbeat) "dget m ''type'' = PStr ''HEARTBEAT''"
    | (request) "dget m ''type'' = PStr ''REQUEST''" | (response) "dget m ''type'' = PStr ''RESPONSE''"
    | (other) "dget m ''type'' \<notin> PStr ` {''ALERT'', ''NETWORK_NEIGHBOURS'', ''TELEMETRY_SYNC'', ''TELEMETRY_SEED'', ''PACKAGE_RESULT'',
        ''HEARTBEAT'', ''REQUEST'', ''RESPONSE''}"
    by blast
  then show ?thesis
  proof cases
    case alert
    then show ?thesis using assms(2) by (intro quiet) (auto simp: handle_message_def PDict split: prod.splits sum.splits)
  next
    case report
    then show ?thesis using assms(2) by (intro quiet) (auto simp: handle_message_def PDict on_center_def)
  next
    case telemetry
    then have "s' = snd (handle_telemetry_sync cf mac (dget m ''data'') (get_client_by_mac mac role s) s) \<or>
        s' = snd (handle_telemetry_seed cf mac (dget m ''data'') (get_client_by_mac mac role s) s)"
      using assms(2) by (auto simp: handle_message_def PDict)
    then obtain b where "handle_telemetry_sync cf mac (dget m ''data'') (get_client_by_mac mac role s) s = (b, s') \<or>
        handle_telemetry_seed cf mac (dget m ''data'') (get_client_by_mac mac role s) s = (b, s')"
      by (metis prod.collapse)
    then show ?thesis by (intro quiet) (auto simp: handle_telemetry_sync_def handle_telemetry_seed_def dest: telemetry_frame)
  next
    case package
    then obtain b where "handle_package_result cf now mac m s = (b, s')"
      using assms(2) by (auto simp: handle_message_def PDict prod_eq_iff)
    then show ?thesis by (intro quiet) (auto dest: package_result_frame)
  next
    case heartbeat
    then obtain b where h: "persist_heartbeat mac (py_or (dget m ''data'') (PDict [])) s = (b, s')" "r = Inr ()"
      using assms(2) by (auto simp: handle_message_def PDict prod_eq_iff)
    then show ?thesis using heartbeat_refs [OF h(1)] by (simp add: queue_effectI)
  next
    case request
    then have "answer_request cf (dget m ''command'') conn s = (r, s')" using assms(2) by (simp add: handle_message_def PDict)
    then show ?thesis by (intro quiet) (auto dest: answer_request_frame)
  next
    case response
    then show ?thesis using assms(2) handle_response_effect [OF assms(1) response, of mac conn role now]
      by (auto simp: handle_message_def PDict)
  next
    case other
    then show ?thesis using assms(2) by (intro quiet) (auto simp: handle_message_def PDict)
  qed
qed (use assms(2) in \<open>auto simp: handle_message_def same_refs_refl queue_effectI\<close>)

lemma occur_effect:
  assumes "refs_good s" "\<And>now info conn. e \<noteq> Happens (Registers now info conn)"
  shows "same_refs s (occur cf e s) \<and> queue_effect e s (occur cf e s)"
proof (cases e)
  case (Happens h)
  show ?thesis
  proof (cases h)
    case (Loses now mac connection role)
    then show ?thesis using remove_refs remove_effect by (simp add: Happens occur_def registry_step_def)
  next
    case (Wakes tok)
    then show ?thesis
      by (auto simp: Happens occur_def registry_step_def wake_check_def end_check_def intro!: same_refsI queue_effectI split: option.splits)
  next
    case (Finishes now tok b)
    then show ?thesis
      by (auto simp: Happens occur_def registry_step_def finish_check_def end_check_def Let_def intro!: same_refsI queue_effectI
          split: option.splits)
  next
    case (Registers now info conn)
    then show ?thesis using assms(2) [of now info conn] Happens by simp
  qed
next
  case (Arrives now mac conn role message)
  obtain r s1 where h: "handle_message cf now mac conn role message s = (r, s1)" by force
  note eff = handle_message_effect [OF assms(1) h]
  show ?thesis
  proof (cases r)
    case (Inl x)
    with eff have "sv_queues s1 = sv_queues s" "same_refs s s1" by simp_all
    then show ?thesis using remove_refs same_refs_trans remove_effect
      by (simp add: Arrives occur_def reader_step_def h Inl)
  next
    case (Inr x)
    with eff show ?thesis by (simp add: Arrives occur_def reader_step_def h)
  qed
next
  case (Ends now mac conn role)
  then show ?thesis using remove_refs remove_effect by (simp add: occur_def)
next
  case (Breaks conn)
  then show ?thesis by (auto simp: occur_def intro!: same_refsI queue_effectI)
qed

text \<open>A registration gives one object a new, empty queue.\<close>

definition renewed :: "server \<Rightarrow> server \<Rightarrow> bool" where
  "renewed s s' \<longleftrightarrow>
     sv_fresh s \<le> sv_fresh s' \<and> (\<forall>q. q < sv_fresh s \<longrightarrow> sv_queues s' q = sv_queues s q) \<and>
     (\<forall>r a'. sv_agents s' r = Some a' \<longrightarrow>
        (ag_queue a' = sv_fresh s \<and> sv_queues s' (sv_fresh s) = [] \<and> (\<forall>a. sv_agents s r = Some a \<longrightarrow> ag_mac a = ag_mac a')) \<or>
        (\<exists>a. sv_agents s r = Some a \<and> ag_mac a = ag_mac a' \<and> ag_queue a = ag_queue a')) \<and>
     (\<forall>r a. sv_agents s r = Some a \<longrightarrow> (\<exists>a'. sv_agents s' r = Some a' \<and> ag_mac a' = ag_mac a))"

lemma renewedD:
  assumes "renewed s s'"
  shows "sv_fresh s \<le> sv_fresh s'" "q < sv_fresh s \<Longrightarrow> sv_queues s' q = sv_queues s q"
    "sv_agents s' r = Some a' \<Longrightarrow>
       (ag_queue a' = sv_fresh s \<and> sv_queues s' (sv_fresh s) = [] \<and> (\<forall>a. sv_agents s r = Some a \<longrightarrow> ag_mac a = ag_mac a')) \<or>
       (\<exists>a. sv_agents s r = Some a \<and> ag_mac a = ag_mac a' \<and> ag_queue a = ag_queue a')"
    "sv_agents s r = Some a \<Longrightarrow> \<exists>a'. sv_agents s' r = Some a' \<and> ag_mac a' = ag_mac a"
  using assms unfolding renewed_def by blast+

lemma refs_good_put:
  assumes "refs_good s" "sv_agents s' = (sv_agents s)(r \<mapsto> a)" "ag_mac a = mac" "ag_id a = client_id_for_mac mac"
    and "ag_queue a = sv_fresh s" "sv_queues s' = (sv_queues s)(sv_fresh s := [])" "sv_fresh s < sv_fresh s'" "r < sv_fresh s'"
    and "\<And>old. sv_agents s r = Some old \<Longrightarrow> ag_mac old = mac"
    and "\<And>m k. map_of (sv_clients s') m = Some k \<Longrightarrow> map_of (sv_clients s) m = Some k \<or> (m = mac \<and> k = r)"
    and "\<And>m k. map_of (sv_interactive s') m = Some k \<Longrightarrow> map_of (sv_interactive s) m = Some k \<or> (m = mac \<and> k = r)"
  shows "refs_good s' \<and> renewed s s'"
proof
  note old = refs_goodD [OF assms(1)]
  have "\<exists>b. sv_agents s' k = Some b \<and> ag_mac b = m \<and> ag_id b = client_id_for_mac m"
    if "map_of (sv_clients s') m = Some k \<or> map_of (sv_interactive s') m = Some k" for m k
  proof (cases "m = mac \<and> k = r")
    case True
    then show ?thesis using assms(2-4) by simp
  next
    case False
    with that assms(10,11) obtain b where b: "sv_agents s k = Some b" "ag_mac b = m" "ag_id b = client_id_for_mac m"
      using old(1,2) by blast
    then show ?thesis using assms(2-4) assms(9) by (cases "k = r") auto
  qed
  moreover have "k < sv_fresh s' \<and> ag_queue b < sv_fresh s'" if live: "sv_agents s' k = Some b" for k b
  proof (cases "k = r")
    case True
    then show ?thesis using live assms(2,5,7,8) by auto
  next
    case False
    with live assms(2) have "sv_agents s k = Some b" by simp
    from old(3) [OF this] assms(7) show ?thesis by simp
  qed
  moreover have "k = k'" if live: "sv_agents s' k = Some b" "sv_agents s' k' = Some b'" "ag_queue b = ag_queue b'" for k b k' b'
  proof (cases "k = r \<or> k' = r")
    case True
    have "ag_queue c \<noteq> sv_fresh s" if "sv_agents s j = Some c" for j c using old(3) [OF that] by simp
    with True live assms(2,5) show ?thesis by (auto split: if_splits)
  next
    case False
    with live assms(2) show ?thesis by (intro old(4) [of k b k' b']) auto
  qed
  ultimately show "refs_good s'" unfolding refs_good_def by blast
  show "renewed s s'" using assms(2,3,5-7,9) by (auto simp: renewed_def)
qed

lemma renewed_same: "sv_agents s' = sv_agents s \<Longrightarrow> sv_fresh s \<le> sv_fresh s' \<Longrightarrow> \<forall>q. q < sv_fresh s \<longrightarrow> sv_queues s' q = sv_queues s q \<Longrightarrow> renewed s s'"
  by (auto simp: renewed_def)

lemma agent_of_fields:
  "agent_of info mac role conn q = Inr a \<Longrightarrow> ag_mac a = mac \<and> ag_id a = client_id_for_mac mac \<and> ag_queue a = q \<and> ag_conn a = conn \<and> ag_role a = role"
  by (auto simp: agent_of_def then_do_eq_Inr)

lemma agent_at_center [simp]: "agent_at (s\<lparr>sv_center := c\<rparr>) k = agent_at s k"
  by (cases k) (simp_all add: agent_at_def)

lemma add_client_cases:
  assumes "add_client repr now info mac new s = (cid, s')"
  obtains (unsaved) "sv_agents s' = sv_agents s" "sv_clients s' = sv_clients s" "sv_interactive s' = sv_interactive s"
      "sv_fresh s' = sv_fresh s" "sv_queues s' = sv_queues s" "cid = None"
    | (again) r old where "map_of (sv_clients s) mac = Some r" "sv_agents s r = Some old" "sv_agents s' = (sv_agents s)(r \<mapsto> reconnected old new)"
      "sv_clients s' = sv_clients s" "sv_interactive s' = (if is_role ''combined'' (ag_role new) then dset mac r (sv_interactive s) else sv_interactive s)"
      "sv_fresh s' = sv_fresh s" "sv_queues s' = sv_queues s"
    | (fresh) "sv_agents s' = (sv_agents s)(sv_fresh s \<mapsto> new)" "sv_clients s' = dset mac (sv_fresh s) (sv_clients s)"
      "sv_interactive s' = (if is_role ''combined'' (ag_role new) then dset mac (sv_fresh s) (sv_interactive s) else sv_interactive s)"
      "sv_fresh s' = sv_fresh s + 1" "sv_queues s' = sv_queues s"
proof -
  obtain saved c where u: "update_client_db repr mac (ag_id new) (ag_hostname new) (ag_ip new) (ag_os new) (ag_version new) (sv_center s) = (saved, c)"
    by force
  show thesis
  proof (cases saved)
    case False
    with assms u show ?thesis by (intro unsaved) (auto simp: add_client_def)
  next
    case True
    show ?thesis
    proof (cases "agent_at s (map_of (sv_clients s) mac)")
      case None
      with assms u True show ?thesis by (intro fresh) (auto simp: add_client_def Let_def greet_client_def put_agent_def)
    next
      case (Some x)
      obtain r old where x: "x = (r, old)" by (cases x)
      with Some have "map_of (sv_clients s) mac = Some r" "sv_agents s r = Some old" by (auto simp: agent_at_def split: option.splits)
      with assms u True Some x show ?thesis
        by (intro again) (auto simp: add_client_def Let_def greet_client_def put_agent_def)
    qed
  qed
qed

lemma register_refs:
  assumes "refs_good s"
  shows "refs_good (snd (register_client repr now info conn s)) \<and> renewed s (snd (register_client repr now info conn s))"
proof -
  obtain x s' where r: "register_client repr now info conn s = (x, s')" by force
  have quiet: "refs_good s' \<and> renewed s s'" if "sv_agents s' = sv_agents s" "sv_clients s' = sv_clients s" "sv_interactive s' = sv_interactive s"
      "sv_fresh s \<le> sv_fresh s'" "\<forall>q. q < sv_fresh s \<longrightarrow> sv_queues s' q = sv_queues s q"
    using refs_good_same [OF assms same_refsI] renewed_same that by blast
  show ?thesis
  proof (cases "\<exists>mac new. registration_mac info = Inr mac \<and>
      agent_of info mac (dget_or info ''agent_role'' (PStr ''service'')) conn (sv_fresh s) = Inr new")
    case False
    with r have "sv_agents s' = sv_agents s" "sv_clients s' = sv_clients s" "sv_interactive s' = sv_interactive s"
      "sv_fresh s' = sv_fresh s" "sv_queues s' = sv_queues s"
      by (auto simp: register_client_def Let_def split: sum.splits if_splits)
    then show ?thesis using quiet by (simp add: r)
  next
    case True
    define role where "role = dget_or info ''agent_role'' (PStr ''service'')"
    obtain mac new where mn: "registration_mac info = Inr mac" "agent_of info mac role conn (sv_fresh s) = Inr new"
      using True by (auto simp: role_def)
    note f = agent_of_fields [OF mn(2)]
    show ?thesis
    proof (cases "is_role ''interactive'' role")
      case True
      with r mn have s': "s' = put_agent (sv_fresh s + 1) new (s\<lparr>sv_queues := (sv_queues s)(sv_fresh s := []),
            sv_interactive := dset mac (sv_fresh s + 1) (sv_interactive s), sv_fresh := sv_fresh s + 2\<rparr>)"
        by (auto simp: register_client_def Let_def role_def put_agent_def)
      have "sv_agents s (sv_fresh s + 1) = None" using refs_goodD(3) [OF assms, of "sv_fresh s + 1"] by (cases "sv_agents s (sv_fresh s + 1)") auto
      then have "refs_good s' \<and> renewed s s'"
        by (intro refs_good_put [OF assms, of s' "sv_fresh s + 1" new mac]) (auto simp: s' put_agent_def f split: if_splits)
      then show ?thesis by (simp add: r)
    next
      case False
      define s1 where "s1 = s\<lparr>sv_pending := AList.delete mac (sv_pending s), sv_fresh := sv_fresh s + 1, sv_queues := (sv_queues s)(sv_fresh s := [])\<rparr>"
      obtain cid where add: "add_client repr now info mac new s1 = (cid, s')"
        using r mn False by (auto simp: register_client_def Let_def role_def s1_def split: prod.splits)
      have s1: "sv_agents s1 = sv_agents s" "sv_clients s1 = sv_clients s" "sv_interactive s1 = sv_interactive s"
        "sv_fresh s1 = sv_fresh s + 1" "sv_queues s1 = (sv_queues s)(sv_fresh s := [])" by (simp_all add: s1_def)
      from add have "refs_good s' \<and> renewed s s'"
      proof (cases rule: add_client_cases)
        case unsaved
        then show ?thesis using s1 by (intro quiet) auto
      next
        case (again r old)
        have o: "ag_mac old = mac" "r < sv_fresh s"
          using refs_goodD(1) [OF assms, of mac r] refs_goodD(3) [OF assms, of r old] again(1,2) s1 by auto
        then show ?thesis using again s1 f
          by (intro refs_good_put [OF assms, of s' r "reconnected old new" mac]) (auto simp: reconnected_def split: if_splits)
      next
        case fresh
        have "sv_agents s (sv_fresh s + 1) = None" using refs_goodD(3) [OF assms, of "sv_fresh s + 1"] by (cases "sv_agents s (sv_fresh s + 1)") auto
        then show ?thesis using fresh s1 f
          by (intro refs_good_put [OF assms, of s' "sv_fresh s + 1" new mac]) (auto split: if_splits)
      qed
      then show ?thesis by (simp add: r)
    qed
  qed
qed

lemma occur_refs_good: "refs_good s \<Longrightarrow> refs_good (occur cf e s)"
proof (cases "\<exists>now info conn. e = Happens (Registers now info conn)")
  case True
  then show "refs_good s \<Longrightarrow> ?thesis" using register_refs by (auto simp: occur_def registry_step_def)
next
  case False
  then show "refs_good s \<Longrightarrow> ?thesis" using occur_effect [of s e cf] refs_good_same by blast
qed

interpretation server_runs: lifecycle "occur cf" "\<lambda>_. True" refs_good for cf
  by unfold_locales (rule occur_refs_good)

lemma empty_refs_good: "refs_good (empty_server c t)"
  by (simp add: refs_good_def empty_server_def)

section \<open>An answer comes from the client itself\<close>

text \<open>
  A queue that no other client's object has, with nothing in it but the messages \<open>M\<close> and the note of a disconnection.
\<close>

definition watched :: "string \<Rightarrow> pydict set \<Rightarrow> nat \<Rightarrow> server \<Rightarrow> bool" where
  "watched mac M q s \<longleftrightarrow>
     q < sv_fresh s \<and> (\<forall>r a. sv_agents s r = Some a \<and> ag_queue a = q \<longrightarrow> ag_mac a = mac) \<and> set (sv_queues s q) \<subseteq> insert DISC M"

definition answers_from :: "occurrence \<Rightarrow> string \<Rightarrow> pydict set" where
  "answers_from e mac = {m. answer_from e mac m}"

lemma watched_occur:
  assumes "refs_good s" "watched mac M q s"
  shows "watched mac (M \<union> answers_from e mac) q (occur cf e s)"
proof (cases "\<exists>now info conn. e = Happens (Registers now info conn)")
  case True
  then obtain now info conn where e: "e = Happens (Registers now info conn)" by blast
  have new: "renewed s (occur cf e s)" using register_refs [OF assms(1)] by (simp add: e occur_def registry_step_def)
  have q: "q < sv_fresh s" and owner: "\<And>r a. sv_agents s r = Some a \<Longrightarrow> ag_queue a = q \<Longrightarrow> ag_mac a = mac"
    and queue: "set (sv_queues s q) \<subseteq> insert DISC M" using assms(2) unfolding watched_def by blast+
  have "ag_mac a = mac" if live: "sv_agents (occur cf e s) r = Some a" "ag_queue a = q" for r a
    using renewedD(3) [OF new live(1)] live(2) q owner by fastforce
  moreover have "q < sv_fresh (occur cf e s)" using renewedD(1) [OF new] q by simp
  moreover have "set (sv_queues (occur cf e s) q) \<subseteq> insert DISC (M \<union> answers_from e mac)" using renewedD(2) [OF new q] queue by auto
  ultimately show ?thesis unfolding watched_def by blast
next
  case False
  note eff = occur_effect [OF assms(1), of e cf]
  then have same: "same_refs s (occur cf e s)" and queues: "queue_effect e s (occur cf e s)" using False by blast+
  have q: "q < sv_fresh (occur cf e s)" using assms(2) same by (simp add: watched_def same_refs_def)
  have owner: "ag_mac a = mac" if live: "sv_agents (occur cf e s) r = Some a" "ag_queue a = q" for r a
  proof -
    obtain b where "sv_agents s r = Some b" "ag_mac b = ag_mac a" "ag_queue b = q"
      using same_refs_agent [OF same live(1)] live(2) by blast
    then show ?thesis using assms(2) unfolding watched_def by metis
  qed
  have old: "set (sv_queues s q) \<subseteq> insert DISC M" using assms(2) by (simp add: watched_def)
  from queues [unfolded queue_effect_def, rule_format, of q]
  consider "sv_queues (occur cf e s) q = sv_queues s q" | "sv_queues (occur cf e s) q = sv_queues s q @ [DISC]"
    | m r a where "sv_agents s r = Some a" "ag_queue a = q" "answer_from e (ag_mac a) m" "sv_queues (occur cf e s) q = sv_queues s q @ [m]"
    by blast
  then have "set (sv_queues (occur cf e s) q) \<subseteq> insert DISC (M \<union> answers_from e mac)"
  proof cases
    case 3
    then have "ag_mac a = mac" using assms(2) unfolding watched_def by blast
    with 3 old show ?thesis by (auto simp: answers_from_def)
  qed (use old in auto)
  with q owner show ?thesis unfolding watched_def by blast
qed

lemma watched_mono: "watched mac M q s \<Longrightarrow> M \<subseteq> N \<Longrightarrow> watched mac N q s"
  by (auto simp: watched_def)

text \<open>The object of the command stays the client's, and so does its present queue.\<close>

definition follows :: "string \<Rightarrow> pydict set \<Rightarrow> nat \<Rightarrow> nat \<Rightarrow> server \<Rightarrow> bool" where
  "follows mac M r q s \<longleftrightarrow>
     watched mac M q s \<and> watched mac M (queue_at r q s) s \<and> (\<exists>a. sv_agents s r = Some a \<and> ag_mac a = mac)"

lemma follows_occur:
  assumes "refs_good s" "follows mac M r q s"
  shows "follows mac (M \<union> answers_from e mac) r q (occur cf e s)"
proof -
  let ?s = "occur cf e s" and ?M = "M \<union> answers_from e mac"
  obtain a where a: "sv_agents s r = Some a" "ag_mac a = mac" using assms(2) by (auto simp: follows_def)
  have q: "watched mac ?M q ?s" using assms by (intro watched_occur) (auto simp: follows_def)
  have old: "watched mac ?M (ag_queue a) ?s" using assms a(1) by (intro watched_occur) (auto simp: follows_def queue_at_def)
  obtain a' where a': "sv_agents ?s r = Some a'" "ag_mac a' = mac" "ag_queue a' = ag_queue a \<or> watched mac ?M (ag_queue a') ?s"
  proof (cases "\<exists>now info conn. e = Happens (Registers now info conn)")
    case True
    then obtain now info conn where e: "e = Happens (Registers now info conn)" by blast
    have good: "refs_good ?s" and new: "renewed s ?s" using register_refs [OF assms(1)] by (simp_all add: e occur_def registry_step_def)
    from new a obtain a' where a': "sv_agents ?s r = Some a'" "ag_mac a' = mac" unfolding renewed_def by blast
    have "ag_queue a' = ag_queue a \<or> (sv_queues ?s (ag_queue a') = [])"
      using renewedD(3) [OF new a'(1)] a(1) by auto
    moreover have "ag_mac b = mac" if live: "sv_agents ?s k = Some b" "ag_queue b = ag_queue a'" for k b
      using refs_goodD(4) [OF good live(1) a'(1) live(2)] live(1) a' by simp
    then have "watched mac ?M (ag_queue a') ?s" if "sv_queues ?s (ag_queue a') = []"
      unfolding watched_def using refs_goodD(3) [OF good a'(1)] that by auto
    ultimately show ?thesis using a' that by blast
  next
    case False
    then have "same_refs s ?s" using occur_effect [OF assms(1), of e cf] by blast
    from same_refs_agent_back [OF this a(1)] a(2) that show ?thesis by auto
  qed
  then show ?thesis using q old by (auto simp: follows_def queue_at_def)
qed

lemma follows_pop:
  assumes "follows mac M r q s"
  shows "follows mac M r (queue_at r q s) (pop_response q s)"
proof -
  have "watched mac M k (pop_response q s)" if "watched mac M k s" for k
    using that list.set_sel(2) [of "sv_queues s k"] by (cases "sv_queues s k") (auto simp: watched_def pop_response_def)
  moreover have "queue_at r k (pop_response q s) = queue_at r k s" for k by (simp add: queue_at_def pop_response_def)
  ultimately show ?thesis using assms by (auto simp: follows_def queue_at_def pop_response_def)
qed

lemma pop_refs_good: "refs_good s \<Longrightarrow> refs_good (pop_response q s)"
  by (rule refs_good_same, assumption, rule same_refsI) (simp_all add: pop_response_def)

lemma await_answer:
  "await cf timeout command r q es s = (Inr m, s') \<Longrightarrow> refs_good s \<Longrightarrow> follows mac M r q s \<Longrightarrow>
   dget m ''command'' = PStr command \<and> m \<in> M \<union> (\<Union>e\<in>set es. answers_from e mac)"
proof (induction cf timeout command r q es s arbitrary: M rule: await.induct)
  case (1 cf timeout command r q es s)
  show ?case
  proof (cases "sv_queues s q")
    case Nil
    with "1.prems"(1) obtain e es' where es: "es = e # es'"
      by (cases es) (simp_all add: await.simps [of _ _ _ _ _ _ s])
    from "1.prems"(1) have step: "await cf timeout command r q es' (occur cf e s) = (Inr m, s')"
      by (subst (asm) await.simps) (simp add: Nil es)
    have "dget m ''command'' = PStr command \<and> m \<in> (M \<union> answers_from e mac) \<union> (\<Union>e\<in>set es'. answers_from e mac)"
      using "1.IH"(1) [OF Nil es step occur_refs_good [OF "1.prems"(2)] follows_occur [OF "1.prems"(2,3)]] .
    then show ?thesis by (auto simp: es)
  next
    case (Cons x xs)
    have x: "x \<in> insert DISC M" using "1.prems"(3) Cons by (auto simp: follows_def watched_def)
    show ?thesis
    proof (cases "dget x ''type'' \<noteq> PStr ''DISCONNECTED'' \<and> dget x ''command'' = PStr command")
      case True
      with "1.prems"(1) have "m = x" by (subst (asm) await.simps) (simp add: Cons)
      with True x show ?thesis by (auto simp: DISC_def)
    next
      case False
      with "1.prems"(1) have d: "dget x ''type'' \<noteq> PStr ''DISCONNECTED''" "dget x ''command'' \<noteq> PStr command"
        by (auto simp: await.simps [of _ _ _ _ _ _ s] Cons split: if_splits)
      from "1.prems"(1) d have step: "await cf timeout command r (queue_at r q (pop_response q s)) es (pop_response q s) = (Inr m, s')"
        by (subst (asm) await.simps) (simp add: Cons Let_def)
      have "follows mac M r (queue_at r q (pop_response q s)) (pop_response q s)"
        using follows_pop [OF "1.prems"(3)] by (simp add: queue_at_def pop_response_def)
      then show ?thesis using "1.IH"(2) [OF Cons refl d step pop_refs_good [OF "1.prems"(2)]] by blast
    qed
  qed
qed

lemma agent_at_Some: "agent_at s k = Some (r, a) \<Longrightarrow> k = Some r \<and> sv_agents s r = Some a"
  by (auto simp: agent_at_def split: option.splits)

lemma get_client_agent: "get_client cid s = Some (r, a) \<Longrightarrow> sv_agents s r = Some a"
  by (auto simp: get_client_def dest: agent_at_Some)

lemma expect_disconnect_refs:
  assumes "sv_agents s r = Some a"
  shows "same_refs s (expect_disconnect r a s) \<and> sv_queues (expect_disconnect r a s) = sv_queues s \<and>
    queue_at r q (expect_disconnect r a s) = ag_queue a"
  using assms by (auto simp: expect_disconnect_def put_agent_def same_refs_def agent_keys_def fun_eq_iff queue_at_def)


section \<open>Telemetry is stored under the client's own id only\<close>

lemma remove_tables [simp]: "sv_tables (remove_client repr now mac connection role s) = sv_tables s"
  by (simp add: remove_client_def Let_def drop_entry_def set_isolation_def start_check_def put_response_def split: option.split)

lemma add_client_tables: "add_client repr now info mac new s = (cid, s') \<Longrightarrow> sv_tables s' = sv_tables s"
  by (auto simp: add_client_def Let_def greet_client_def put_agent_def split: prod.splits option.splits if_splits)

lemma register_tables [simp]: "sv_tables (snd (register_client repr now info conn s)) = sv_tables s"
  by (auto simp: register_client_def Let_def put_agent_def split: sum.splits prod.splits dest!: add_client_tables)

lemma registry_step_tables: "sv_tables (registry_step repr h s) = sv_tables s"
  by (cases h) (auto simp: registry_step_def wake_check_def finish_check_def end_check_def Let_def split: option.split)

lemma telemetry_tables:
  assumes "handle_telemetry kind invalid pre merge window mac payload sender s = (b, s')" "sv_tables s' \<noteq> sv_tables s"
    and "\<And>r a. telemetry_sender mac sender s = Some (r, a) \<Longrightarrow> ag_id a = client_id_for_mac mac"
  shows "\<exists>d. payload = PDict d \<and> dget d ''client_id'' = PStr (client_id_for_mac mac)"
proof -
  let ?cid = "case telemetry_sender mac sender s of Some (r, a) \<Rightarrow> ag_id a | None \<Rightarrow> client_id_for_mac mac"
  have cid: "?cid = client_id_for_mac mac" using assms(3) by (auto split: option.splits)
  obtain x t where r: "telemetry_result invalid pre merge ?cid payload (sv_tables s) = (x, t)" by force
  have "sv_tables s' = t"
    using assms(1) r by (auto simp: handle_telemetry_def Let_def split: option.splits sum.splits prod.splits dest!: post_frame)
  with assms(2) r cid show ?thesis
    by (auto simp: telemetry_result_def client_id_for_mac_def split: pyval.splits if_splits)
qed

lemma message_tables:
  assumes "dget m ''type'' \<noteq> PStr ''TELEMETRY_SYNC''" "dget m ''type'' \<noteq> PStr ''TELEMETRY_SEED''"
    and "handle_message cf now mac conn role (PDict m) s = (x, s')"
  shows "sv_tables s' = sv_tables s"
proof -
  let ?data = "py_or (dget m ''data'') (PDict [])"
  obtain b1 s1 where p: "handle_package_result cf now mac m s = (b1, s1)" by force
  obtain b2 s2 where b: "persist_heartbeat mac ?data s = (b2, s2)" by force
  obtain b3 s3 where q: "answer_request cf (dget m ''command'') conn s = (b3, s3)" by force
  obtain b4 c where a: "handle_client_alert (cf_repr cf) now mac (dget m ''alert'') (sv_center s) = (b4, c)" by force
  have "s' = s \<or> s' = s1 \<or> s' = s2 \<or> s' = s3 \<or> s' = s\<lparr>sv_center := c\<rparr> \<or> s' = on_center (cf_report cf mac (dget m ''data'')) s
      \<or> s' = handle_response mac conn role m s"
    using assms by (auto simp: handle_message_def Let_def p b q a split: if_splits sum.splits)
  moreover have "sv_tables (handle_response mac conn role m s) = sv_tables s"
    by (simp add: handle_response_def put_response_def split: option.split)
  ultimately show ?thesis
    using package_result_frame [OF p] heartbeat_refs [OF b] answer_request_frame [OF q] by (auto simp: on_center_def)
qed

lemma sender_id:
  assumes "refs_good s" "telemetry_sender mac (get_client_by_mac mac role s) s = Some (r, a)"
  shows "ag_id a = client_id_for_mac mac"
proof -
  have own: "ag_id a = client_id_for_mac mac" if "get_client_by_mac mac role s = Some (r, a)" for role r a
    using that refs_goodD(1,2) [OF assms(1), of mac r]
    by (auto simp: get_client_by_mac_def registry_of_def dest!: agent_at_Some split: if_splits)
  then show ?thesis using assms(2) by (auto simp: telemetry_sender_def split: option.splits)
qed


section \<open>Runs\<close>

definition demo_conf :: conf where
  "demo_conf = \<lparr>cf_repr = (\<lambda>_. []), cf_fault = (\<lambda>_. None), cf_report = (\<lambda>_ _ c. c), cf_activity_log = (\<lambda>_ _ c. c),
     cf_scan = (\<lambda>_ _ c. c), cf_protection = (\<lambda>_. PNone)\<rparr>"

definition demo_run :: "occurrence list" where
  "demo_run = [Happens (Registers 0 (demo_info ''service'') 7)]"

definition demo_answer :: "string \<Rightarrow> pydict \<Rightarrow> occurrence" where
  "demo_answer command data =
     Arrives 1 ''AA'' 7 (PStr ''service'') (PDict [(''type'', PStr ''RESPONSE''), (''command'', PStr command), (''data'', PDict data)])"


definition own_delta :: pydict where
  "own_delta = (case demo_delta of PDict d \<Rightarrow> dset ''client_id'' (PStr ''client-aa'') d | _ \<Rightarrow> [])"


text \<open>
  Answers are matched by the name of their command only: when the first of two commands of one name times out, its late answer is
  taken for the answer to the second.
\<close>

lemma late_answer_taken_for_the_next:
  "let s0 = fold (occur demo_conf) demo_run (empty_server demo_center empty_tables);
       (first, s1) = execute_client_command demo_conf 1 ''10.0'' True ''service'' ''client-aa'' ''PING'' None [] s0;
       s2 = occur demo_conf (demo_answer ''PING'' [(''n'', PInt 1)]) s1;
       (second, s3) = execute_client_command demo_conf 20 ''10.0'' True ''service'' ''client-aa'' ''PING'' None [] s2
   in \<not> is_ok_dict first \<and> is_ok_dict second \<and> dget second ''data'' = PDict [(''n'', PInt 1)]"
  by code_simp

text \<open>
  The status of an answer is that of the delivery, not of what the client did: a quarantine that the client refused is tracked as
  active, and the status is reported from the tracked record without asking the client again.
\<close>

lemma refused_quarantine_tracked_as_active:
  "let s0 = fold (occur demo_conf) demo_run (empty_server demo_center empty_tables);
       refusal = demo_answer ''QUARANTINE_CLIENT'' [(''status'', PStr ''error''), (''message'', PStr ''Quarantine manager is not initialized'')];
       (result, s1) = quarantine_client demo_conf 1 ''10.0'' ''cmd'' ''client-aa'' ''test'' 60 [refusal] s0;
       (st, s2) = get_client_quarantine_status demo_conf 2 ''10.0'' ''client-aa'' [] s1
   in is_ok_dict result \<and> is_ok_dict st \<and> sv_sent s2 = sv_sent s1 \<and>
      (case dget st ''data'' of PDict d \<Rightarrow> dget d ''is_quarantined'' = PBool True | _ \<Rightarrow> False)"
  by code_simp

text \<open>
  A refused isolation is recorded as acknowledged and leaves the client marked as about to disconnect: when its connection is lost
  later for another reason, no check follows.
\<close>

lemma refused_isolation_hides_a_loss:
  "let s0 = fold (occur demo_conf) demo_run (empty_server demo_center empty_tables);
       refusal = demo_answer ''ISOLATE_DEVICE'' [(''status'', PStr ''error'')];
       (result, s1) = isolate_client demo_conf 1 ''10.0'' ''client-aa'' ''test'' [refusal] s0;
       s2 = occur demo_conf (Ends 9000 ''AA'' 7 (PStr ''service'')) s1
   in map_option (\<lambda>d. dget d ''status'') (map_of (sv_isolation s1) ''client-aa'') = Some (PStr ''ACKNOWLEDGED'') \<and>
      sv_clients s2 = [] \<and> sv_checks s2 = [] \<and>
      map_option (\<lambda>d. dget d ''status'') (map_of (sv_isolation s2) ''client-aa'') = Some (PStr ''CONNECTION_LOST_AFTER_ISOLATION'')"
  by code_simp

end
