(* ===== verification/Spec2Isabelle.thy ===== *)
theory Spec2Isabelle
  imports Quarantine Updater Sync Passive Packets Deploy Retention Captures Processes Isolation Wire Commands
begin

text \<open>
  A verification library for the network scanner and management system: agents on managed machines (\<open>client/\<close>) that watch
  their network and processes, and a server (\<open>server/\<close>) that registers them, sends them commands and stores what they report.
  Paths below are relative to the repository's root.

  \<^bold>\<open>The program and its model.\<close>  An agent connects to the server by TCP and registers.  Both sides exchange JSON messages in
  frames with a length (theory \<open>Wire\<close>).  The server keeps the connected clients, checks unexpected losses of a connection, stores
  alerts and sends commands whose answers a reader thread puts into the client's queue (\<open>Alerts\<close>, \<open>Registry\<close>, \<open>Commands\<close>).
  The agent captures packets and passive protocols, aggregates them into flows and activity windows, stores them in rotating files
  and sends each closed window as a delta that the server merges into its tables.  It enforces a policy on processes, can be put
  under quarantine by the firewall or isolated by a static address, receives packages and updates itself.  Captures are deleted
  by age and disk space on both sides.

  The theories, in the order of their dependencies:

  \<^item> \<open>Prelude\<close>: Python values, exceptions as values, dictionaries in insertion order, the string operations used.  \<open>Bytes\<close>,
    \<open>Base64\<close>, \<open>Formats\<close>, \<open>Iso\<close> and \<open>Stamp\<close>: byte strings, Base64, ISO 8601 and the time formats of the files, IP addresses.
    \<open>FileSystem\<close>: files and directories as a map from paths.  \<open>Interfaces\<close>: the locales.

  \<^item> \<open>Quarantine\<close>: \<open>client/app/quarantine_manager.py\<close>.  Firewall commands against a host that answers them, rollback, fail-safe timer.
    \<open>Isolation\<close>: \<open>client/app/network_state_manager.py\<close>.  The scripts with their text, the saved state, restoring.

  \<^item> \<open>Extract\<close>, \<open>Flow\<close>, \<open>Activity\<close>, \<open>Store\<close>, \<open>Packets\<close>: the telemetry pipeline, \<open>packet_extractor.py\<close> and \<open>scope_filter.py\<close>,
    \<open>flow_aggregator.py\<close>, \<open>activity_window_aggregator.py\<close> and \<open>flow_query.py\<close>, \<open>telemetry_storage.py\<close>, and \<open>packet_storage.py\<close>,
    \<open>telemetry_packet_writer.py\<close> and \<open>packet_observer.py\<close> of \<open>client/app\<close>.

  \<^item> \<open>Sync\<close> (\<open>client/app/sync_manager.py\<close>) and \<open>TelemetryMerge\<close> (\<open>server/server_components/telemetry_merge.py\<close>): the two sides of the
    synchronisation of windows.  \<open>Sync\<close> imports the merge and proves that what the client builds the server accepts.

  \<^item> \<open>Fingerprint\<close>, \<open>Dhcp\<close>, \<open>Device\<close>, \<open>Protocols\<close>, \<open>Observations\<close>, \<open>Passive\<close>: \<open>fingerprinting.py\<close> and \<open>oui.py\<close>,
    \<open>dhcp_listener.py\<close>, \<open>device_model.py\<close>, and \<open>passive_protocol_listener.py\<close> in three parts (parsers, observation buffer, listener).

  \<^item> \<open>Updater\<close>: \<open>client/updater/updater.py\<close>.  \<open>Deploy\<close>: the package transfer, from \<open>action_service.py\<close> of the server to
    \<open>client_lib.py\<close> of the client.

  \<^item> \<open>Retention\<close>: \<open>client/app/retention_manager.py\<close>.  \<open>Captures\<close>: \<open>kismet_retention.py\<close> and \<open>kismet_rotator.py\<close> of the server.

  \<^item> \<open>Processes\<close>: \<open>client/app/process_monitor.py\<close>, forbidden processes and resource protection.

  \<^item> \<open>Wire\<close>: \<open>send_message\<close> and \<open>receive_message\<close> of both sides.

  \<^item> \<open>Alerts\<close>: alerts, working hours and the tables behind them of \<open>server/server_components/server_lib.py\<close>, and the subscribers of
    \<open>event_broadcaster.py\<close>.  \<open>Registry\<close>: \<open>register_client\<close>, \<open>remove_client\<close>, the look-ups and \<open>verify_client_disconnect\<close>.
    \<open>Commands\<close>: \<open>receive_client_messages\<close> with its handlers, \<open>execute_client_command\<close>, isolation, quarantine and data requests.
\<close>

text \<open>
  \<^bold>\<open>How code becomes definitions.\<close>  A class with its attributes is a record, its methods are functions from state to state, named
  as in the source (a leading underscore is dropped).  An exception is the left value of \<open>result\<close>, and every handler of the source is
  a case distinction on it.  A JSON or dictionary value is a \<open>pyval\<close>; a dictionary keeps the order of its insertions.  Objects that two
  tables share are entries of a store under references (the device records of \<open>Device\<close>, the client objects and queues of \<open>Registry\<close>).
  Integers are unbounded, as in Python; times are microseconds since 1970, floats are exact rationals.

  What the operating system, the network or the database answers is part of the state or a parameter: a list of answers to the next
  writes (\<open>y_answers\<close>, \<open>db_answers\<close>), a host that answers commands, the sizes of what \<open>recv\<close> returns.  So the theorems hold for
  every pattern of failures.  Hash functions, JSON and zip parsing, codecs and \<open>repr\<close> of values are parameters without assumptions
  unless a theorem names one.

  Threads are modelled at the granularity of the locks that the source takes: an operation under a lock is one step.  Where a thread
  waits, what happens meanwhile is an explicit list: the occurrences while a command waits for its answer (\<open>await\<close> in \<open>Commands\<close>),
  the moves of the workers (\<open>sync_step\<close> in \<open>Sync\<close>), the happenings while a check sleeps (\<open>registry_step\<close> in \<open>Registry\<close>).  An invariant
  of such runs is proved by an interpretation of \<open>lifecycle\<close>, so it covers every interleaving.

  Loops that consume their input end by a measure (\<open>await\<close>, \<open>read_until\<close>, the parsers), so every function here is total and no
  fuel is used.  Waiting in \<open>await\<close> ends with the list of occurrences, which stands for the time-out of the command; in between it throws
  away answers, which the termination measure counts.

  \<^bold>\<open>Contracts.\<close>  \<open>lifecycle\<close>: operations that keep an invariant; interpreted for quarantine runs, the device correlator, the
  observation buffer, the passive listener, the synchronisation, and on the server for tokens of checks, dead checks and the references
  of all runs.  \<open>keyed_table\<close>: one entry per key; interpreted for the table of windows.  \<open>append_store\<close>: a successful append adds its
  batch at the end and a failed one nothing; interpreted for the rotating store, on which the packet writer and the flows rest.
  \<open>pruning\<close>: a pass over a collection that drops exactly the entries that are due; interpreted for raw captures, for the
  capture databases and for the rotator.

  \<^bold>\<open>What is shown.\<close>  Safety of what cannot be undone: files written by an extraction stay below their target; an update is
  installed completely or the old files are back; captures are deleted exactly when due; a scan signals only processes that a rule
  names and that are neither protected nor the agent; isolation runs only after the state was saved from which it can be
  undone; a failed quarantine is rolled back and an active one ends at its expiry.  No loss of data: every captured packet is in a
  file, counted as dropped or still buffered; flows and windows add up to the packets; a window stays pending until the server has
  acknowledged it, and merging it twice changes nothing.  Communication: messages arrive as sent under every split of the stream;
  an answer comes from the client that was asked; telemetry is stored under the sender's id only; the check after a lost connection
  reports once, and never after a new registration; a file arrives exactly.  Agreement of the two sides: the deltas and the alerts that
  the client builds are accepted by the server's own checks.  Properties with hypotheses have a theorem \<open>..._witness\<close> that applies them
  to a concrete run.

  Some lemmas at the end of the theories, each after a text that explains it, evaluate runs in which the code does not do what its
  comments or its callers expect, among them \<open>running_process_escalates\<close>, \<open>second_isolation_overwrites\<close>, \<open>shared_part_file\<close>,
  \<open>night_shift_on_wrong_day\<close>, \<open>expectation_survives_reconnection\<close> and \<open>late_answer_taken_for_the_next\<close>.
\<close>

text \<open>
  \<^bold>\<open>Bounds and simplifications.\<close>  Upper and lower case are those of ASCII; local time is UTC; an operation reads the clock once;
  floats have no rounding except where the code rounds.  The file system has no symbolic links.  MySQL is in strict mode, compares texts
  exactly, and a session with it succeeds or fails as a whole.  The text of log messages is left out, and the text of some errors is
  abridged where the theory says so.

  \<^bold>\<open>Not modelled.\<close>  Capture threads and sockets, subprocesses and Windows interfaces beyond the commands and scripts
  that are given to them; the collectors of \<open>client_lib.py\<close>, the event monitor, screenshots and diagnostics, which pass on
  what libraries answer; the active scans of \<open>network_neighbour_collector.py\<close>; the REST API and the GUI, which only call the rest;
  the operations on actions of \<open>action_service.py\<close> around the package transfer; discovery scans and the classification of devices on the
  server, whose scores are floating point or come from trained models; the spatial engine and the layout of locations; process control
  and numeric analysis around Kismet; database set-up, tools and scripts.
\<close>

end
